(* ===== verification/Python_Prelude.thy ===== *)
theory Python_Prelude
  imports Complex_Main "HOL-Library.AList" "HOL-Library.List_Lexorder" "HOL-Library.Char_ord"
    "HOL-Library.Code_Target_Nat"
begin

text \<open>
  The part of Python that the components share: exceptions as values, strings as lists of
  code points, dictionaries as association lists with insertion order, and the string
  methods of the standard library that the program calls. A \<^typ>\<open>char\<close> is a code point
  below 256, so every predicate below is the one of Python on that range (for example
  \<open>str.isdigit\<close> holds of the superscripts 178, 179 and 185). Strings are compared by
  code point, which is both Python's \<open><\<close> on \<open>str\<close> and SQLite's BINARY collation.
\<close>

named_theorems store_simps \<open>what each storage operation does to the tables\<close>
named_theorems scope_simps \<open>frame facts: what an operation of one owner leaves of another\<close>

section \<open>Exceptions as values\<close>

datatype exn =
    ValueError string
  | KeyError string
  | PermissionError string
  | RuntimeError string
  | NotImplementedError string
  | OverflowError string
  | OSError string
  | TimeoutError
  | ParseError string
  | FetchError string
  | SSRFError string
  | UnknownFetcherError string
  | PathResolutionError string
  | UnknownParserKindError string
  | ConfigError string
  | FetcherTierUnavailableError string
  | ConfigImportError "string list"
  | ConfigImportPartialError string
  | UrlValidationError string
  | EmailAlreadyTakenError string
  | IntegrityError string
  | OtherError string string \<comment> \<open>class name and message of a third-party exception\<close>

type_synonym 'a result = "exn + 'a"

definition bindE :: "'a result \<Rightarrow> ('a \<Rightarrow> 'b result) \<Rightarrow> 'b result" where
  "bindE m f = (case m of Inl e \<Rightarrow> Inl e | Inr x \<Rightarrow> f x)"

lemma bindE_simps [simp]:
  "bindE (Inl e) f = Inl e"
  "bindE (Inr x) f = f x"
  by (simp_all add: bindE_def)

lemma bindE_Inr_iff: "bindE m f = Inr y \<longleftrightarrow> (\<exists>x. m = Inr x \<and> f x = Inr y)"
  by (cases m) auto

lemma bindE_Inl_iff: "bindE m f = Inl e \<longleftrightarrow> m = Inl e \<or> (\<exists>x. m = Inr x \<and> f x = Inl e)"
  by (cases m) auto

text \<open>\<open>if cond: raise e\<close>, as a step of the monad.\<close>

definition raise_if :: "bool \<Rightarrow> exn \<Rightarrow> unit result" where
  "raise_if b e = (if b then Inl e else Inr ())"

lemma raise_if_simps [simp]:
  "raise_if True e = Inl e"
  "raise_if False e = Inr ()"
  "raise_if b e = Inr u \<longleftrightarrow> \<not> b"
  "raise_if b e = Inl e' \<longleftrightarrow> b \<and> e' = e"
  by (auto simp: raise_if_def)

text \<open>The subclass relations the \<open>except\<close> clauses of the program rely on.\<close>

fun is_value_error :: "exn \<Rightarrow> bool" where
  "is_value_error (ValueError _) = True"
| "is_value_error (UnknownParserKindError _) = True"
| "is_value_error (ConfigError _) = True"
| "is_value_error (FetcherTierUnavailableError _) = True"
| "is_value_error (ConfigImportError _) = True"
| "is_value_error (ConfigImportPartialError _) = True"
| "is_value_error (UrlValidationError _) = True"
| "is_value_error (EmailAlreadyTakenError _) = True"
| "is_value_error _ = False"

fun is_config_error :: "exn \<Rightarrow> bool" where
  "is_config_error (ConfigError _) = True"
| "is_config_error (FetcherTierUnavailableError _) = True"
| "is_config_error (ConfigImportError _) = True"
| "is_config_error (ConfigImportPartialError _) = True"
| "is_config_error _ = False"

fun is_key_error :: "exn \<Rightarrow> bool" where
  "is_key_error (KeyError _) = True"
| "is_key_error (UnknownFetcherError _) = True"
| "is_key_error _ = False"

fun is_fetch_error :: "exn \<Rightarrow> bool" where
  "is_fetch_error (FetchError _) = True"
| "is_fetch_error (SSRFError _) = True"
| "is_fetch_error _ = False"

text \<open>\<open>OSError\<close> and the subclasses the program meets.\<close>

fun is_os_error :: "exn \<Rightarrow> bool" where
  "is_os_error (OSError _) = True"
| "is_os_error (PermissionError _) = True"
| "is_os_error TimeoutError = True"
| "is_os_error (OtherError n _) =
     (n \<in> set [''gaierror'', ''ConnectionError'', ''ConnectionRefusedError'', ''ConnectionResetError'',
              ''ConnectionAbortedError'', ''BrokenPipeError'', ''InterruptedError''])"
| "is_os_error _ = False"

lemma is_config_error_value: "is_config_error e \<Longrightarrow> is_value_error e"
  by (cases e) simp_all

section \<open>Characters and strings\<close>

definition code :: "char \<Rightarrow> nat" where
  "code c = of_char c"

definition is_ascii :: "char \<Rightarrow> bool" where
  "is_ascii c \<longleftrightarrow> code c < 128"

definition is_ascii_digit :: "char \<Rightarrow> bool" where
  "is_ascii_digit c \<longleftrightarrow> 48 \<le> code c \<and> code c \<le> 57"

definition is_ascii_lower :: "char \<Rightarrow> bool" where
  "is_ascii_lower c \<longleftrightarrow> 97 \<le> code c \<and> code c \<le> 122"

definition is_ascii_upper :: "char \<Rightarrow> bool" where
  "is_ascii_upper c \<longleftrightarrow> 65 \<le> code c \<and> code c \<le> 90"

definition is_ascii_alpha :: "char \<Rightarrow> bool" where
  "is_ascii_alpha c \<longleftrightarrow> is_ascii_lower c \<or> is_ascii_upper c"

definition is_ascii_alnum :: "char \<Rightarrow> bool" where
  "is_ascii_alnum c \<longleftrightarrow> is_ascii_alpha c \<or> is_ascii_digit c"

text \<open>\<open>str.isdigit\<close> on one character: the ASCII digits and the three superscripts.\<close>

definition char_isdigit :: "char \<Rightarrow> bool" where
  "char_isdigit c \<longleftrightarrow> is_ascii_digit c \<or> code c \<in> {178, 179, 185}"

definition py_isdigit :: "string \<Rightarrow> bool" where
  "py_isdigit s \<longleftrightarrow> s \<noteq> [] \<and> list_all char_isdigit s"

text \<open>\<open>str.isspace\<close>, the set \<open>str.strip()\<close> and \<open>str.split()\<close> use.\<close>

definition char_isspace :: "char \<Rightarrow> bool" where
  "char_isspace c \<longleftrightarrow>
     (9 \<le> code c \<and> code c \<le> 13) \<or> (28 \<le> code c \<and> code c \<le> 32) \<or> code c = 133 \<or> code c = 160"

definition lower_char :: "char \<Rightarrow> char" where
  "lower_char c =
     (if is_ascii_upper c \<or> (192 \<le> code c \<and> code c \<le> 222 \<and> code c \<noteq> 215)
      then char_of (code c + 32) else c)"

definition py_lower :: "string \<Rightarrow> string" where
  "py_lower = map lower_char"

definition starts_with :: "string \<Rightarrow> string \<Rightarrow> bool" where
  "starts_with p s \<longleftrightarrow> take (length p) s = p"

definition ends_with :: "string \<Rightarrow> string \<Rightarrow> bool" where
  "ends_with p s \<longleftrightarrow> length p \<le> length s \<and> drop (length s - length p) s = p"

text \<open>\<open>s.find(p)\<close>: the first position where \<open>p\<close> occurs, \<open>None\<close> for -1.\<close>

fun py_find :: "string \<Rightarrow> string \<Rightarrow> nat option" where
  "py_find p [] = (if p = [] then Some 0 else None)"
| "py_find p (c # cs) =
     (if starts_with p (c # cs) then Some 0 else map_option Suc (py_find p cs))"

definition contains :: "string \<Rightarrow> string \<Rightarrow> bool" where
  "contains p s \<longleftrightarrow> py_find p s \<noteq> None"

definition rstrip_chars :: "char list \<Rightarrow> string \<Rightarrow> string" where
  "rstrip_chars cs s = rev (dropWhile (\<lambda>c. c \<in> set cs) (rev s))"

definition lstrip_chars :: "char list \<Rightarrow> string \<Rightarrow> string" where
  "lstrip_chars cs s = dropWhile (\<lambda>c. c \<in> set cs) s"

definition py_strip :: "string \<Rightarrow> string" where
  "py_strip s = rev (dropWhile char_isspace (rev (dropWhile char_isspace s)))"

text \<open>\<open>s.split(c)\<close> for a one-character separator: never empty.\<close>

fun split_on :: "char \<Rightarrow> string \<Rightarrow> string list" where
  "split_on c [] = [[]]"
| "split_on c (x # xs) =
     (if x = c then [] # split_on c xs
      else (case split_on c xs of [] \<Rightarrow> [[x]] | y # ys \<Rightarrow> (x # y) # ys))"

text \<open>\<open>s.split()\<close> with no argument: the maximal runs of non-space characters.\<close>

fun split_ws :: "string \<Rightarrow> string list" where
  "split_ws [] = []"
| "split_ws (x # xs) =
     (if char_isspace x then split_ws xs
      else (case xs of
              [] \<Rightarrow> [[x]]
            | y # _ \<Rightarrow> if char_isspace y then [x] # split_ws xs
                     else (case split_ws xs of [] \<Rightarrow> [[x]] | w # ws \<Rightarrow> (x # w) # ws)))"

definition py_partition :: "char \<Rightarrow> string \<Rightarrow> string \<times> bool \<times> string" where
  "py_partition c s =
     (if c \<in> set s then (takeWhile (\<lambda>x. x \<noteq> c) s, True, tl (dropWhile (\<lambda>x. x \<noteq> c) s))
      else (s, False, []))"

definition py_rpartition :: "char \<Rightarrow> string \<Rightarrow> string \<times> bool \<times> string" where
  "py_rpartition c s =
     (if c \<in> set s
      then (rev (tl (dropWhile (\<lambda>x. x \<noteq> c) (rev s))), True, rev (takeWhile (\<lambda>x. x \<noteq> c) (rev s)))
      else ([], False, s))"

definition replace_char :: "char \<Rightarrow> string \<Rightarrow> string \<Rightarrow> string" where
  "replace_char c r s = concat (map (\<lambda>x. if x = c then r else [x]) s)"

fun join :: "string \<Rightarrow> string list \<Rightarrow> string" where
  "join sep [] = []"
| "join sep [x] = x"
| "join sep (x # y # zs) = x @ sep @ join sep (y # zs)"

section \<open>Numbers in text\<close>

definition digit_char :: "nat \<Rightarrow> char" where
  "digit_char d = char_of (if d < 10 then 48 + d else 87 + d)"

fun string_of_nat :: "nat \<Rightarrow> string" where
  "string_of_nat n =
     (if n < 10 then [digit_char n] else string_of_nat (n div 10) @ [digit_char (n mod 10)])"

declare string_of_nat.simps [simp del]

definition string_of_int :: "int \<Rightarrow> string" where
  "string_of_int i = (if i < 0 then CHR ''-'' # string_of_nat (nat (- i)) else string_of_nat (nat i))"

text \<open>The value of a digit sequence, most significant digit first.\<close>

definition digits_value :: "string \<Rightarrow> nat" where
  "digits_value s = foldl (\<lambda>acc c. 10 * acc + (code c - 48)) 0 s"

text \<open>\<open>int(s)\<close> on text without underscores: an optional sign and at most 4300 ASCII digits
  (the default of \<open>sys.set_int_max_str_digits\<close>), with surrounding white space; anything else
  raises ValueError.\<close>

definition py_int :: "string \<Rightarrow> int result" where
  "py_int s =
     (let t = py_strip s;
          neg = starts_with ''-'' t;
          ds = (if neg \<or> starts_with ''+'' t then tl t else t)
      in if ds \<noteq> [] \<and> length ds \<le> 4300 \<and> list_all is_ascii_digit ds
         then Inr (if neg then - int (digits_value ds) else int (digits_value ds))
         else Inl (ValueError ''invalid literal for int() with base 10''))"

text \<open>\<open>repr(s)\<close> of a string (the \<open>!r\<close> conversions in messages).\<close>

definition hex2 :: "nat \<Rightarrow> string" where
  "hex2 n = [digit_char (n div 16), digit_char (n mod 16)]"

definition repr_char :: "char \<Rightarrow> char \<Rightarrow> string" where
  "repr_char q c =
     (if c = q \<or> c = CHR 0x5C then [CHR 0x5C, c]
      else if c = CHR 0x09 then [CHR 0x5C, CHR ''t'']
      else if c = CHR 0x0A then [CHR 0x5C, CHR ''n'']
      else if c = CHR 0x0D then [CHR 0x5C, CHR ''r'']
      else if code c < 32 \<or> (127 \<le> code c \<and> code c \<le> 160) \<or> code c = 173
        then [CHR 0x5C, CHR ''x''] @ hex2 (code c)
      else [c])"

definition py_repr :: "string \<Rightarrow> string" where
  "py_repr s =
     (let q = (if CHR 0x27 \<in> set s \<and> CHR 0x22 \<notin> set s then CHR 0x22 else CHR 0x27)
      in q # concat (map (repr_char q) s) @ [q])"

section \<open>Class name and text of an exception\<close>

fun exn_name :: "exn \<Rightarrow> string" where
  "exn_name (ValueError _) = ''ValueError''"
| "exn_name (KeyError _) = ''KeyError''"
| "exn_name (PermissionError _) = ''PermissionError''"
| "exn_name (RuntimeError _) = ''RuntimeError''"
| "exn_name (NotImplementedError _) = ''NotImplementedError''"
| "exn_name (OverflowError _) = ''OverflowError''"
| "exn_name (OSError _) = ''OSError''"
| "exn_name TimeoutError = ''TimeoutError''"
| "exn_name (ParseError _) = ''ParseError''"
| "exn_name (FetchError _) = ''FetchError''"
| "exn_name (SSRFError _) = ''SSRFError''"
| "exn_name (UnknownFetcherError _) = ''UnknownFetcherError''"
| "exn_name (PathResolutionError _) = ''PathResolutionError''"
| "exn_name (UnknownParserKindError _) = ''UnknownParserKindError''"
| "exn_name (ConfigError _) = ''ConfigError''"
| "exn_name (FetcherTierUnavailableError _) = ''FetcherTierUnavailableError''"
| "exn_name (ConfigImportError _) = ''ConfigImportError''"
| "exn_name (ConfigImportPartialError _) = ''ConfigImportPartialError''"
| "exn_name (UrlValidationError _) = ''UrlValidationError''"
| "exn_name (EmailAlreadyTakenError _) = ''EmailAlreadyTakenError''"
| "exn_name (IntegrityError _) = ''IntegrityError''"
| "exn_name (OtherError n _) = n"

text \<open>\<open>str(exc)\<close>; a KeyError prints the repr of its argument.\<close>

fun exn_str :: "exn \<Rightarrow> string" where
  "exn_str (ValueError m) = m"
| "exn_str (KeyError m) = py_repr m"
| "exn_str (PermissionError m) = m"
| "exn_str (RuntimeError m) = m"
| "exn_str (NotImplementedError m) = m"
| "exn_str (OverflowError m) = m"
| "exn_str (OSError m) = m"
| "exn_str TimeoutError = []"
| "exn_str (ParseError m) = m"
| "exn_str (FetchError m) = m"
| "exn_str (SSRFError m) = m"
| "exn_str (UnknownFetcherError m) = py_repr m"
| "exn_str (PathResolutionError m) = m"
| "exn_str (UnknownParserKindError m) = m"
| "exn_str (ConfigError m) = m"
| "exn_str (FetcherTierUnavailableError m) = m"
| "exn_str (ConfigImportError es) =
     string_of_nat (length es) @ '' error(s): '' @ join ''; '' es"
| "exn_str (ConfigImportPartialError m) = m"
| "exn_str (UrlValidationError m) = m"
| "exn_str (EmailAlreadyTakenError m) = m"
| "exn_str (IntegrityError m) = m"
| "exn_str (OtherError _ m) = m"

section \<open>Truthiness of optional strings\<close>

text \<open>\<open>bool(x)\<close> for a value of type \<open>str | None\<close>.\<close>

fun truthy :: "string option \<Rightarrow> bool" where
  "truthy None = False"
| "truthy (Some s) = (s \<noteq> [])"

section \<open>Lemmas on the string functions\<close>

lemma py_find_Some_bound: "py_find p s = Some i \<Longrightarrow> i + length p \<le> length s"
proof (induction s arbitrary: i)
  case Nil
  then show ?case by (auto split: if_splits)
next
  case (Cons c cs)
  show ?case
  proof (cases "starts_with p (c # cs)")
    case True
    then have "length p \<le> length (c # cs)"
      unfolding starts_with_def by (metis length_take min.cobounded1 min.commute)
    with True Cons.prems show ?thesis by auto
  next
    case False
    with Cons.prems obtain j where "py_find p cs = Some j" "i = Suc j" by auto
    with Cons.IH show ?thesis by fastforce
  qed
qed

lemma split_on_nonempty [simp]: "split_on c s \<noteq> []"
  by (induction s) (auto split: list.splits)

lemma split_on_no_sep: "p \<in> set (split_on c s) \<Longrightarrow> c \<notin> set p"
  by (induction s arbitrary: p) (auto split: if_splits list.splits)

lemma split_on_id: "c \<notin> set s \<Longrightarrow> split_on c s = [s]"
  by (induction s) auto

lemma split_on_append:
  "c \<notin> set p \<Longrightarrow> split_on c (p @ c # s) = p # split_on c s"
  by (induction p) auto

lemma py_partition_no: "c \<notin> set s \<Longrightarrow> py_partition c s = (s, False, [])"
  by (simp add: py_partition_def)

lemma py_partition_append: "c \<notin> set p \<Longrightarrow> py_partition c (p @ c # s) = (p, True, s)"
proof -
  assume c: "c \<notin> set p"
  then have 1: "takeWhile (\<lambda>x. x \<noteq> c) (p @ c # s) = p"
    by (induction p) auto
  have 2: "dropWhile (\<lambda>x. x \<noteq> c) (p @ c # s) = c # s"
    using c by (induction p) auto
  show ?thesis by (simp add: py_partition_def 1 2)
qed

lemma py_rpartition_append: "c \<notin> set s \<Longrightarrow> py_rpartition c (p @ c # s) = (p, True, s)"
proof -
  assume c: "c \<notin> set s"
  then have c': "c \<notin> set (rev s)" by simp
  have 1: "takeWhile (\<lambda>x. x \<noteq> c) (rev s @ c # rev p) = rev s"
    using c' by (induction "rev s") (auto simp: takeWhile_append)
  have 2: "dropWhile (\<lambda>x. x \<noteq> c) (rev s @ c # rev p) = c # rev p"
    using c' by (auto simp: dropWhile_append)
  show ?thesis by (simp add: py_rpartition_def 1 2)
qed

lemma rstrip_chars_fix: "s \<noteq> [] \<Longrightarrow> last s \<notin> set cs \<Longrightarrow> rstrip_chars cs s = s"
proof -
  assume a: "s \<noteq> []" "last s \<notin> set cs"
  then obtain ys y where s: "s = ys @ [y]" by (metis append_butlast_last_id)
  with a show ?thesis by (simp add: rstrip_chars_def)
qed

lemma rstrip_chars_last: "rstrip_chars cs s \<noteq> [] \<Longrightarrow> last (rstrip_chars cs s) \<notin> set cs"
  unfolding rstrip_chars_def
  by (metis (no_types, lifting) hd_dropWhile hd_rev rev_is_Nil_conv rev_rev_ident)

lemma ends_with_iff: "ends_with p s \<longleftrightarrow> (\<exists>q. s = q @ p)"
  unfolding ends_with_def
  by (metis append_eq_conv_conj append_take_drop_id diff_add_inverse2 le_add2 length_append)

lemma starts_with_iff: "starts_with p s \<longleftrightarrow> (\<exists>q. s = p @ q)"
  unfolding starts_with_def by (metis append_eq_conv_conj append_take_drop_id)

lemma digit_char_digit: "d < 10 \<Longrightarrow> is_ascii_digit (digit_char d) \<and> code (digit_char d) = 48 + d"
  by (simp add: digit_char_def is_ascii_digit_def code_def)

lemma string_of_nat_digits: "list_all is_ascii_digit (string_of_nat n)"
proof (induction n rule: string_of_nat.induct)
  case (1 n)
  then show ?case by (subst string_of_nat.simps) (auto simp: digit_char_digit)
qed

lemma string_of_nat_nonempty [simp]: "string_of_nat n \<noteq> []"
  by (subst string_of_nat.simps) simp

lemma digits_value_append:
  "digits_value (s @ [c]) = 10 * digits_value s + (code c - 48)"
  by (simp add: digits_value_def)

lemma digits_value_string_of_nat [simp]: "digits_value (string_of_nat n) = n"
proof (induction n rule: string_of_nat.induct)
  case (1 n)
  show ?case
  proof (cases "n < 10")
    case True
    then show ?thesis
      by (subst string_of_nat.simps) (simp add: digits_value_def digit_char_digit)
  next
    case False
    with "1" have "digits_value (string_of_nat (n div 10)) = n div 10" by simp
    with False show ?thesis
      by (subst string_of_nat.simps) (simp add: digits_value_append digit_char_digit)
  qed
qed

lemma string_of_nat_inject [simp]: "string_of_nat m = string_of_nat n \<longleftrightarrow> m = n"
  by (metis digits_value_string_of_nat)

section \<open>Splitting and stripping\<close>

lemma split_on_chars: "x \<in> set s \<Longrightarrow> x = c \<or> (\<exists>l \<in> set (split_on c s). x \<in> set l)"
  by (induction s) (auto split: list.splits)

lemma digit_not_space: "is_ascii_digit c \<Longrightarrow> \<not> char_isspace c"
  by (auto simp: is_ascii_digit_def char_isspace_def)

lemma dropWhile_none: "(\<And>x. x \<in> set xs \<Longrightarrow> \<not> P x) \<Longrightarrow> dropWhile P xs = xs"
  by (cases xs) auto

lemma strip_digits: "list_all is_ascii_digit s \<Longrightarrow> py_strip s = s"
  unfolding py_strip_def by (subst dropWhile_none | simp add: list_all_iff digit_not_space)+

text \<open>\<open>int()\<close> of plain digits, up to the interpreter's limit on their number.\<close>

lemma py_int_digits:
  assumes "ds \<noteq> []" "list_all is_ascii_digit ds"
  shows "py_int ds = (if length ds \<le> 4300 then Inr (int (digits_value ds))
     else Inl (ValueError ''invalid literal for int() with base 10''))"
proof -
  obtain c cs where s: "ds = c # cs" using assms(1) by (cases ds) auto
  with assms(2) have "is_ascii_digit c" by simp
  then have "c \<noteq> CHR ''-''" "c \<noteq> CHR ''+''" by (auto simp: is_ascii_digit_def code_def)
  then have "\<not> starts_with ''-'' ds" "\<not> starts_with ''+'' ds" by (simp_all add: s starts_with_def)
  with assms show ?thesis by (simp add: py_int_def strip_digits Let_def)
qed

section \<open>Dictionaries\<close>

text \<open>A dictionary with insertion order is an association list: \<^const>\<open>AList.update\<close>
  overwrites in place or appends, as item assignment does.\<close>

lemma alist_update_keys_distinct:
  "distinct (map fst xs) \<Longrightarrow> distinct (map fst (AList.update k v xs))"
  by (rule AList.distinct_update)

end
