(* ===== verification/Scraping.thy ===== *)
theory Scraping
  imports Python_Prelude
begin

text \<open>
  One scrape, from the fetch to its record: the result of a fetch and the challenge
  heuristic (\<open>autolycos/ports.py\<close>, \<open>autolycos/challenge.py\<close>), the domain values
  (\<open>core/domain.py\<close>, \<open>persistence/ports.py\<close>), the three-valued verdict
  (\<open>core/verdict.py\<close>), the same-tier retry loop (\<open>core/retry.py\<close>) and the
  orchestration of one source (\<open>core/orchestrator.py\<close>).

  A fetcher is a function of the world: it takes the URL and a world and returns its result
  (or the exception it raised) with the next world, so that successive attempts may differ.
  \<open>sleep\<close> is a function on worlds too.
\<close>

section \<open>Fetch results and the challenge heuristic\<close>

record fetch_result =
  html :: string
  status_code :: int
  fr_method :: string
  challenged :: bool

type_synonym 'w fetcher = "string \<Rightarrow> 'w \<Rightarrow> fetch_result result \<times> 'w"
type_synonym 'w sleeper = "rat \<Rightarrow> 'w \<Rightarrow> 'w"

definition CHALLENGE_MARKERS :: "string list" where
  "CHALLENGE_MARKERS =
    [''just a moment'', ''cf-chl-'', ''_cf_chl_opt'', ''attention required'',
     ''px-captcha'', ''datadome'', ''_incapsula_'', ''sec-cpt'', ''scf-akamai'',
     ''sec-if-cpt'', ''validatecaptcha'',
     ''captcha-wall-index'', ''account-verification'', ''micro-landing-container'',
     ''micro-landing-title'']"

definition MIN_PLAUSIBLE_BYTES :: nat where
  "MIN_PLAUSIBLE_BYTES = 1500"

definition looks_challenged :: "int \<Rightarrow> string \<Rightarrow> bool" where
  "looks_challenged st text =
     (if st \<in> {403, 429, 503} then True
      else if list_ex (\<lambda>marker. contains marker (py_lower text)) CHALLENGE_MARKERS then True
      else length text < MIN_PLAUSIBLE_BYTES)"

definition CHROME_ERROR_PAGE_MARKER :: string where
  "CHROME_ERROR_PAGE_MARKER = CHR 0x22 # ''errorCode'' @ [CHR 0x22] @ '':'' @ [CHR 0x22] @ ''ERR_''"

definition looks_like_chrome_error_page :: "string option \<Rightarrow> string \<Rightarrow> bool" where
  "looks_like_chrome_error_page current_url text =
     (case current_url of
        Some u \<Rightarrow> starts_with ''chrome-error://'' u \<or> contains CHROME_ERROR_PAGE_MARKER text
      | None \<Rightarrow> contains CHROME_ERROR_PAGE_MARKER text)"

section \<open>Domain values\<close>

datatype scrape_status = OK | INDETERMINATE | UNAVAILABLE

datatype availability = IN_STOCK | OUT_OF_STOCK | UNKNOWN

fun status_value :: "scrape_status \<Rightarrow> string" where
  "status_value OK = ''ok''"
| "status_value INDETERMINATE = ''indeterminate''"
| "status_value UNAVAILABLE = ''unavailable''"

fun availability_value :: "availability \<Rightarrow> string" where
  "availability_value IN_STOCK = ''InStock''"
| "availability_value OUT_OF_STOCK = ''OutOfStock''"
| "availability_value UNKNOWN = ''UNKNOWN''"

record page_extract =
  ex_price_pix_cents :: "int option"
  ex_price_card_cents :: "int option"
  ex_currency :: string
  ex_availability :: availability
  ex_price_pix_member_cents :: "int option"
  ex_price_card_member_cents :: "int option"

definition has_price :: "page_extract \<Rightarrow> bool" where
  "has_price e \<longleftrightarrow>
     ex_price_pix_cents e \<noteq> None \<or> ex_price_card_cents e \<noteq> None
     \<or> ex_price_pix_member_cents e \<noteq> None \<or> ex_price_card_member_cents e \<noteq> None"

record scrape_record =
  rec_source_id :: string
  rec_ts :: string
  rec_status :: scrape_status
  rec_price_pix_cents :: "int option"
  rec_price_card_cents :: "int option"
  rec_currency :: "string option"
  rec_availability :: availability
  rec_method :: "string option"
  rec_error :: "string option"
  rec_price_pix_member_cents :: "int option"
  rec_price_card_member_cents :: "int option"
  rec_raw_ref :: "string option"

section \<open>The verdict\<close>

definition compute_verdict ::
  "fetch_result option \<Rightarrow> page_extract option \<Rightarrow> string option \<Rightarrow> scrape_status" where
  "compute_verdict fr ex parse_error =
     (case fr of
        None \<Rightarrow> INDETERMINATE
      | Some r \<Rightarrow>
          if challenged r then INDETERMINATE
          else (case ex of
                  None \<Rightarrow> INDETERMINATE
                | Some e \<Rightarrow>
                    if parse_error \<noteq> None then INDETERMINATE
                    else if ex_availability e = OUT_OF_STOCK then UNAVAILABLE
                    else if has_price e then OK
                    else INDETERMINATE))"

section \<open>Same-tier retry\<close>

definition DEFAULT_RETRIES :: nat where
  "DEFAULT_RETRIES = 3"

definition DEFAULT_BACKOFF_BASE :: rat where
  "DEFAULT_BACKOFF_BASE = 1"

function retry_loop ::
  "'w fetcher \<Rightarrow> 'w sleeper \<Rightarrow> string \<Rightarrow> nat \<Rightarrow> rat \<Rightarrow> fetch_result \<Rightarrow> nat \<Rightarrow> 'w
    \<Rightarrow> fetch_result result \<times> 'w" where
  "retry_loop fetch sleep url retries base res attempt w =
     (if challenged res \<and> attempt < retries
      then (case fetch url (sleep (base * 2 ^ attempt) w) of
              (Inl e, w') \<Rightarrow> (Inl e, w')
            | (Inr res', w') \<Rightarrow> retry_loop fetch sleep url retries base res' (Suc attempt) w')
      else (Inr res, w))"
  by pat_completeness auto
termination
  by (relation "measure (\<lambda>(f, s, u, retries, b, r, attempt, w). retries - attempt)") auto

declare retry_loop.simps [simp del]

definition fetch_with_retry ::
  "'w fetcher \<Rightarrow> string \<Rightarrow> nat \<Rightarrow> rat \<Rightarrow> 'w sleeper \<Rightarrow> 'w \<Rightarrow> fetch_result result \<times> 'w" where
  "fetch_with_retry fetch url retries base sleep w =
     (case fetch url w of
        (Inl e, w') \<Rightarrow> (Inl e, w')
      | (Inr res, w') \<Rightarrow> retry_loop fetch sleep url retries base res 0 w')"

section \<open>Orchestration of one source\<close>

definition indeterminate :: "string \<Rightarrow> string \<Rightarrow> string option \<Rightarrow> string \<Rightarrow> scrape_record" where
  "indeterminate sid t m err =
     \<lparr> rec_source_id = sid, rec_ts = t, rec_status = INDETERMINATE,
       rec_price_pix_cents = None, rec_price_card_cents = None, rec_currency = None,
       rec_availability = UNKNOWN, rec_method = m, rec_error = Some err,
       rec_price_pix_member_cents = None, rec_price_card_member_cents = None, rec_raw_ref = None \<rparr>"

text \<open>The generic fail-closed net: \<open>unexpected: <class>: <text>\<close>.\<close>

definition unexpected :: "string \<Rightarrow> string \<Rightarrow> exn \<Rightarrow> scrape_record" where
  "unexpected sid t e = indeterminate sid t None (''unexpected: '' @ exn_name e @ '': '' @ exn_str e)"

fun parse_error_text :: "exn \<Rightarrow> string option" where
  "parse_error_text (ParseError m) = Some m"
| "parse_error_text _ = None"

definition scrape_one ::
  "'w fetcher \<Rightarrow> (string \<Rightarrow> page_extract result) \<Rightarrow> string \<Rightarrow> string \<Rightarrow> string option \<Rightarrow> string
    \<Rightarrow> 'w sleeper \<Rightarrow> 'w \<Rightarrow> scrape_record \<times> 'w" where
  "scrape_one fetch parse sid url now utcnow_iso sleep w =
     (let t = (if truthy now then the now else utcnow_iso)
      in case fetch_with_retry fetch url DEFAULT_RETRIES DEFAULT_BACKOFF_BASE sleep w of
           (Inl e, w') \<Rightarrow>
             (if is_fetch_error e then indeterminate sid t None (''fetch: '' @ exn_str e)
              else unexpected sid t e, w')
         | (Inr r, w') \<Rightarrow>
             (if challenged r
              then indeterminate sid t (Some (fr_method r))
                     (''challenged (http '' @ string_of_int (status_code r) @ '')'')
              else (case parse (html r) of
                      Inl e \<Rightarrow>
                        (case parse_error_text e of
                           None \<Rightarrow> unexpected sid t e
                         | Some m \<Rightarrow> indeterminate sid t (Some (fr_method r)) (''parse: '' @ m))
                    | Inr x \<Rightarrow>
                        \<lparr> rec_source_id = sid, rec_ts = t, rec_status = compute_verdict (Some r) (Some x) None,
                          rec_price_pix_cents = ex_price_pix_cents x,
                          rec_price_card_cents = ex_price_card_cents x,
                          rec_currency = Some (ex_currency x), rec_availability = ex_availability x,
                          rec_method = Some (fr_method r), rec_error = None,
                          rec_price_pix_member_cents = ex_price_pix_member_cents x,
                          rec_price_card_member_cents = ex_price_card_member_cents x,
                          rec_raw_ref = None \<rparr>), w'))"

section \<open>Correctness of the verdict\<close>

lemma compute_verdict_unavailable_iff:
  "compute_verdict fr ex pe = UNAVAILABLE \<longleftrightarrow>
     (\<exists>r e. fr = Some r \<and> \<not> challenged r \<and> ex = Some e \<and> pe = None
        \<and> ex_availability e = OUT_OF_STOCK)"
  by (auto simp: compute_verdict_def split: option.splits)

lemma compute_verdict_ok_iff:
  "compute_verdict fr ex pe = OK \<longleftrightarrow>
     (\<exists>r e. fr = Some r \<and> \<not> challenged r \<and> ex = Some e \<and> pe = None
        \<and> ex_availability e \<noteq> OUT_OF_STOCK \<and> has_price e)"
  by (auto simp: compute_verdict_def split: option.splits)

lemma indeterminate_fields [simp]:
  "rec_source_id (indeterminate sid t m e) = sid"
  "rec_ts (indeterminate sid t m e) = t"
  "rec_status (indeterminate sid t m e) = INDETERMINATE"
  "rec_availability (indeterminate sid t m e) = UNKNOWN"
  "rec_method (indeterminate sid t m e) = m"
  "rec_error (indeterminate sid t m e) = Some e"
  "rec_price_pix_cents (indeterminate sid t m e) = None"
  "rec_price_card_cents (indeterminate sid t m e) = None"
  "rec_price_pix_member_cents (indeterminate sid t m e) = None"
  "rec_price_card_member_cents (indeterminate sid t m e) = None"
  by (simp_all add: indeterminate_def)

text \<open>The one place a record with a stock verdict can come from: an unchallenged fetch whose
  document the parser read.\<close>

lemma scrape_one_cases:
  assumes "scrape_one fetch parse sid url now clock sleep w = (rec, w')"
  obtains
    (indet) "rec_status rec = INDETERMINATE" "rec_price_pix_cents rec = None"
      "rec_price_card_cents rec = None" "rec_price_pix_member_cents rec = None"
      "rec_price_card_member_cents rec = None" "rec_availability rec = UNKNOWN" "rec_error rec \<noteq> None"
  | (read) r x where
      "fetch_with_retry fetch url DEFAULT_RETRIES DEFAULT_BACKOFF_BASE sleep w = (Inr r, w')"
      "\<not> challenged r" "parse (html r) = Inr x"
      "rec_status rec = compute_verdict (Some r) (Some x) None"
      "rec_price_pix_cents rec = ex_price_pix_cents x" "rec_price_card_cents rec = ex_price_card_cents x"
      "rec_price_pix_member_cents rec = ex_price_pix_member_cents x"
      "rec_price_card_member_cents rec = ex_price_card_member_cents x"
      "rec_availability rec = ex_availability x" "rec_error rec = None"
  using assms
  by (auto simp: scrape_one_def Let_def unexpected_def
           split: prod.splits sum.splits if_splits option.splits)


definition sold_out_fetch :: "nat fetcher" where
  "sold_out_fetch url w =
     (Inr \<lparr> html = ''<p>sold out</p>'', status_code = 200, fr_method = ''http'', challenged = False \<rparr>, w)"

definition sold_out_page :: page_extract where
  "sold_out_page =
     \<lparr> ex_price_pix_cents = None, ex_price_card_cents = None, ex_currency = ''BRL'',
       ex_availability = OUT_OF_STOCK, ex_price_pix_member_cents = None,
       ex_price_card_member_cents = None \<rparr>"


section \<open>Correctness of the retry loop\<close>

text \<open>
  A scripted world: the outcomes of the successive attempts, and the log of the waits.
\<close>

type_synonym script_world = "nat \<times> rat list"

definition scripted :: "(nat \<Rightarrow> fetch_result result) \<Rightarrow> script_world fetcher" where
  "scripted out url w = (out (fst w), (Suc (fst w), snd w))"

definition logged_sleep :: "script_world sleeper" where
  "logged_sleep d w = (fst w, snd w @ [d])"

text \<open>An attempt is final when it raised or when its page is not challenged.\<close>

definition final_outcome :: "fetch_result result \<Rightarrow> bool" where
  "final_outcome o1 \<longleftrightarrow> (case o1 of Inl _ \<Rightarrow> True | Inr r \<Rightarrow> \<not> challenged r)"

definition stop_index :: "(nat \<Rightarrow> fetch_result result) \<Rightarrow> nat \<Rightarrow> nat" where
  "stop_index out retries =
     (case List.find (\<lambda>i. final_outcome (out i)) [0..<retries] of Some i \<Rightarrow> i | None \<Rightarrow> retries)"

lemma retry_loop_scripted:
  assumes "out k = Inr res" and "k \<le> retries" and "\<And>i. i < k \<Longrightarrow> \<not> final_outcome (out i)"
  shows "retry_loop (scripted out) logged_sleep url retries base res k
           (Suc k, map (\<lambda>i. base * 2 ^ i) [0..<k])
         = (out (stop_index out retries),
            (Suc (stop_index out retries), map (\<lambda>i. base * 2 ^ i) [0..<stop_index out retries]))"
  using assms
proof (induction "retries - k" arbitrary: k res)
  case 0
  then have k: "k = retries" by simp
  have "List.find (\<lambda>i. final_outcome (out i)) [0..<retries] = None"
    using 0 k by (simp add: find_None_iff)
  then have "stop_index out retries = retries" by (simp add: stop_index_def)
  with 0 k show ?case by (simp add: retry_loop.simps)
next
  case (Suc d)
  then have lt: "k < retries" by simp
  show ?case
  proof (cases "challenged res")
    case False
    then have fin: "final_outcome (out k)" using Suc.prems by (simp add: final_outcome_def)
    have "List.find (\<lambda>i. final_outcome (out i)) [0..<retries] = Some k"
      unfolding find_Some_iff using lt fin Suc.prems(3) by (intro exI [of _ k]) auto
    then have "stop_index out retries = k" by (simp add: stop_index_def)
    with False Suc.prems show ?thesis by (simp add: retry_loop.simps)
  next
    case True
    then have nf: "\<not> final_outcome (out k)" using Suc.prems by (simp add: final_outcome_def)
    with Suc.prems have nfs: "\<And>i. i < Suc k \<Longrightarrow> \<not> final_outcome (out i)"
      by (auto simp: less_Suc_eq)
    show ?thesis
    proof (cases "out (Suc k)")
      case (Inl e)
      then have stop: "stop_index out retries = Suc k"
      proof (cases "Suc k < retries")
        case True
        have "List.find (\<lambda>i. final_outcome (out i)) [0..<retries] = Some (Suc k)"
          unfolding find_Some_iff using True Inl nfs
          by (intro exI [of _ "Suc k"]) (auto simp: final_outcome_def)
        then show ?thesis by (simp add: stop_index_def)
      next
        case False
        then have "retries = Suc k" using lt by simp
        moreover have "List.find (\<lambda>i. final_outcome (out i)) [0..<Suc k] = None"
          using nfs by (auto simp: find_None_iff)
        ultimately show ?thesis by (simp add: stop_index_def)
      qed
      show ?thesis
        using True lt by (subst retry_loop.simps) (simp add: scripted_def logged_sleep_def Inl stop)
    next
      case (Inr r)
      have "retry_loop (scripted out) logged_sleep url retries base r (Suc k)
              (Suc (Suc k), map (\<lambda>i. base * 2 ^ i) [0..<Suc k])
            = (out (stop_index out retries),
               (Suc (stop_index out retries), map (\<lambda>i. base * 2 ^ i) [0..<stop_index out retries]))"
        using Suc lt Inr nfs by (intro Suc.hyps(1)) auto
      then show ?thesis
        using True lt by (subst retry_loop.simps) (simp add: scripted_def logged_sleep_def Inr)
    qed
  qed
qed

text \<open>C2: the retry loop, for every sequence of attempt outcomes. It returns the outcome of the
  first attempt that raised or came back unchallenged, or of attempt number \<open>retries\<close> when
  every one before it was challenged; it makes exactly that many attempts (never more than
  \<open>retries + 1\<close>), and it waits \<open>base * 2^i\<close> before attempt \<open>i + 1\<close>.\<close>

theorem fetch_with_retry_spec:
  "fetch_with_retry (scripted out) url retries base logged_sleep (0, []) =
     (let n = stop_index out retries
      in (out n, (Suc n, map (\<lambda>i. base * 2 ^ i) [0..<n])))"
proof (cases "out 0")
  case (Inl e)
  have "stop_index out retries = 0"
    by (cases retries) (simp_all add: stop_index_def upt_rec Inl final_outcome_def)
  with Inl show ?thesis by (simp add: fetch_with_retry_def scripted_def)
next
  case (Inr res)
  from retry_loop_scripted [of out 0 res retries url base] Inr
  show ?thesis by (simp add: fetch_with_retry_def scripted_def Let_def)
qed

lemma stop_index_le: "stop_index out retries \<le> retries"
  by (auto simp: stop_index_def find_Some_iff split: option.splits)

end
