(* ===== verification/Ssrf_Guard.thy ===== *)
theory Ssrf_Guard
  imports Python_Prelude "HOL-Library.Word"
begin

text \<open>
  The SSRF guard of \<open>autolycos/safety.py\<close> and the two gates that share its predicate
  (\<open>registry/url_validation.py\<close>, \<open>registry/domain_policy.py\<close>), with the part of the
  standard library it reads addresses and URLs with: \<open>ipaddress.ip_address\<close> and the address
  classes of that module, \<open>urllib.parse.urlsplit\<close> with its \<open>hostname\<close> and \<open>port\<close>.

  An address is a word of its width. \<open>socket.getaddrinfo\<close> is a parameter: a function of the
  host, the port and a world, so that two resolutions of one name may give different answers
  (DNS rebinding).
\<close>

section \<open>Reading IP addresses\<close>

datatype ip_addr = IPv4 "32 word" | IPv6 "128 word"

definition parse_octet :: "string \<Rightarrow> nat option" where
  "parse_octet s =
     (if s = [] \<or> \<not> list_all is_ascii_digit s \<or> 3 < length s
         \<or> (s \<noteq> ''0'' \<and> hd s = CHR ''0'') \<or> 255 < digits_value s
      then None else Some (digits_value s))"

definition parse_ipv4 :: "string \<Rightarrow> nat option" where
  "parse_ipv4 s =
     (case map parse_octet (split_on (CHR ''.'') s) of
        [Some a, Some b, Some c, Some d] \<Rightarrow> Some (((a * 256 + b) * 256 + c) * 256 + d)
      | _ \<Rightarrow> None)"

definition hex_digit_value :: "char \<Rightarrow> nat option" where
  "hex_digit_value c =
     (if is_ascii_digit c then Some (code c - 48)
      else if 97 \<le> code c \<and> code c \<le> 102 then Some (code c - 87)
      else if 65 \<le> code c \<and> code c \<le> 70 then Some (code c - 55)
      else None)"

definition parse_hextet :: "string \<Rightarrow> nat option" where
  "parse_hextet s =
     (if s = [] \<or> 4 < length s \<or> list_ex (\<lambda>c. hex_digit_value c = None) s then None
      else Some (foldl (\<lambda>acc c. 16 * acc + the (hex_digit_value c)) 0 s))"

fun hex_string :: "nat \<Rightarrow> string" where
  "hex_string n =
     (if n < 16 then [digit_char n] else hex_string (n div 16) @ [digit_char (n mod 16)])"

declare hex_string.simps [simp del]

text \<open>The colon-separated parts, an IPv4 suffix written as two groups.\<close>

definition ipv6_parts :: "string \<Rightarrow> string list option" where
  "ipv6_parts s =
     (let parts = split_on (CHR '':'') s
      in if length parts < 3 then None
         else if CHR ''.'' \<in> set (last parts)
         then (case parse_ipv4 (last parts) of
                 None \<Rightarrow> None
               | Some v \<Rightarrow> Some (butlast parts @ [hex_string (v div 65536), hex_string (v mod 65536)]))
         else Some parts)"

text \<open>The groups before and after a \<open>::\<close>, with the number of zero groups it stands for.\<close>

definition ipv6_layout :: "string list \<Rightarrow> (string list \<times> nat \<times> string list) option" where
  "ipv6_layout parts =
     (let n = length parts
      in if 9 < n then None
         else case filter (\<lambda>i. parts ! i = []) [1..<n - 1] of
           [] \<Rightarrow> if n \<noteq> 8 \<or> hd parts = [] \<or> last parts = [] then None else Some (parts, 0, [])
         | [i] \<Rightarrow>
             (let hi = (if hd parts = [] then i - 1 else i);
                  lo = (if last parts = [] then n - i - 2 else n - i - 1)
              in if (hd parts = [] \<and> 0 < hi) \<or> (last parts = [] \<and> 0 < lo) \<or> 8 \<le> hi + lo then None
                 else Some (take hi parts, 8 - (hi + lo), drop (n - lo) parts))
         | _ \<Rightarrow> None)"

fun all_some :: "'a option list \<Rightarrow> 'a list option" where
  "all_some [] = Some []"
| "all_some (None # xs) = None"
| "all_some (Some x # xs) = map_option ((#) x) (all_some xs)"

definition parse_ipv6 :: "string \<Rightarrow> nat option" where
  "parse_ipv6 addr =
     (let (s, sep, scope) = py_partition (CHR ''%'') addr
      in if CHR ''/'' \<in> set addr \<or> (sep \<and> (scope = [] \<or> CHR ''%'' \<in> set scope)) \<or> s = [] then None
         else case ipv6_parts s of
           None \<Rightarrow> None
         | Some parts \<Rightarrow>
             (case ipv6_layout parts of
                None \<Rightarrow> None
              | Some (his, zeros, los) \<Rightarrow>
                  map_option (\<lambda>vs. foldl (\<lambda>acc v. 65536 * acc + v) 0 vs)
                    (all_some (map parse_hextet his @ replicate zeros (Some 0)
                               @ map parse_hextet los))))"

definition ip_address :: "string \<Rightarrow> ip_addr option" where
  "ip_address s =
     (case parse_ipv4 s of
        Some v \<Rightarrow> Some (IPv4 (of_nat v))
      | None \<Rightarrow> map_option (\<lambda>v. IPv6 (of_nat v)) (parse_ipv6 s))"

section \<open>Address classes\<close>

text \<open>\<open>ip in network\<close>: the first \<open>plen\<close> bits agree.\<close>

definition in_net4 :: "32 word \<Rightarrow> nat \<times> nat \<Rightarrow> bool" where
  "in_net4 w net = (unat w div 2 ^ (32 - snd net) = fst net div 2 ^ (32 - snd net))"

definition in_net6 :: "128 word \<Rightarrow> nat \<times> nat \<Rightarrow> bool" where
  "in_net6 w net = (unat w div 2 ^ (128 - snd net) = fst net div 2 ^ (128 - snd net))"

definition v4 :: "nat \<Rightarrow> nat \<Rightarrow> nat \<Rightarrow> nat \<Rightarrow> nat" where
  "v4 a b c d = ((a * 256 + b) * 256 + c) * 256 + d"

text \<open>An IPv6 network given by its first four groups.\<close>

definition v6 :: "nat \<Rightarrow> nat \<Rightarrow> nat \<Rightarrow> nat \<Rightarrow> nat" where
  "v6 a b c d = (((a * 65536 + b) * 65536 + c) * 65536 + d) * 2 ^ 64"

definition private_networks4 :: "(nat \<times> nat) list" where
  "private_networks4 =
    [(v4 0 0 0 0, 8), (v4 10 0 0 0, 8), (v4 127 0 0 0, 8), (v4 169 254 0 0, 16),
     (v4 172 16 0 0, 12), (v4 192 0 0 0, 24), (v4 192 0 0 170, 31), (v4 192 0 2 0, 24),
     (v4 192 168 0 0, 16), (v4 198 18 0 0, 15), (v4 198 51 100 0, 24), (v4 203 0 113 0, 24),
     (v4 240 0 0 0, 4), (v4 255 255 255 255, 32)]"

definition private_exceptions4 :: "(nat \<times> nat) list" where
  "private_exceptions4 = [(v4 192 0 0 9, 32), (v4 192 0 0 10, 32)]"

definition private_networks6 :: "(nat \<times> nat) list" where
  "private_networks6 =
    [(1, 128), (0, 128), (0xFFFF * 2 ^ 32, 96), (v6 0x64 0xFF9B 1 0, 48), (v6 0x100 0 0 0, 64),
     (v6 0x2001 0 0 0, 23), (v6 0x2001 0xDB8 0 0, 32), (v6 0x2002 0 0 0, 16),
     (v6 0xFC00 0 0 0, 7), (v6 0xFE80 0 0 0, 10)]"

definition private_exceptions6 :: "(nat \<times> nat) list" where
  "private_exceptions6 =
    [(v6 0x2001 1 0 0 + 1, 128), (v6 0x2001 1 0 0 + 2, 128), (v6 0x2001 3 0 0, 32),
     (v6 0x2001 4 0x112 0, 48), (v6 0x2001 0x20 0 0, 28), (v6 0x2001 0x30 0 0, 28)]"

definition reserved_networks6 :: "(nat \<times> nat) list" where
  "reserved_networks6 =
    [(v6 0 0 0 0, 8), (v6 0x100 0 0 0, 8), (v6 0x200 0 0 0, 7), (v6 0x400 0 0 0, 6),
     (v6 0x800 0 0 0, 5), (v6 0x1000 0 0 0, 4), (v6 0x4000 0 0 0, 3), (v6 0x6000 0 0 0, 3),
     (v6 0x8000 0 0 0, 3), (v6 0xA000 0 0 0, 3), (v6 0xC000 0 0 0, 3), (v6 0xE000 0 0 0, 4),
     (v6 0xF000 0 0 0, 5), (v6 0xF800 0 0 0, 6), (v6 0xFE00 0 0 0, 9)]"

fun ipv4_mapped :: "ip_addr \<Rightarrow> 32 word option" where
  "ipv4_mapped (IPv4 w) = None"
| "ipv4_mapped (IPv6 w) =
     (if unat w div 2 ^ 32 = 0xFFFF then Some (of_nat (unat w mod 2 ^ 32)) else None)"

definition is_private4 :: "32 word \<Rightarrow> bool" where
  "is_private4 w \<longleftrightarrow>
     list_ex (in_net4 w) private_networks4 \<and> \<not> list_ex (in_net4 w) private_exceptions4"

fun is_private :: "ip_addr \<Rightarrow> bool" where
  "is_private (IPv4 w) = is_private4 w"
| "is_private (IPv6 w) =
     (case ipv4_mapped (IPv6 w) of
        Some m \<Rightarrow> is_private4 m
      | None \<Rightarrow> list_ex (in_net6 w) private_networks6 \<and> \<not> list_ex (in_net6 w) private_exceptions6)"

fun is_loopback :: "ip_addr \<Rightarrow> bool" where
  "is_loopback (IPv4 w) = in_net4 w (v4 127 0 0 0, 8)"
| "is_loopback (IPv6 w) = (unat w = 1)"

fun is_link_local :: "ip_addr \<Rightarrow> bool" where
  "is_link_local (IPv4 w) = in_net4 w (v4 169 254 0 0, 16)"
| "is_link_local (IPv6 w) = in_net6 w (v6 0xFE80 0 0 0, 10)"

fun is_reserved :: "ip_addr \<Rightarrow> bool" where
  "is_reserved (IPv4 w) = in_net4 w (v4 240 0 0 0, 4)"
| "is_reserved (IPv6 w) = list_ex (in_net6 w) reserved_networks6"

fun is_multicast :: "ip_addr \<Rightarrow> bool" where
  "is_multicast (IPv4 w) = in_net4 w (v4 224 0 0 0, 4)"
| "is_multicast (IPv6 w) = in_net6 w (v6 0xFF00 0 0 0, 8)"

fun is_unspecified :: "ip_addr \<Rightarrow> bool" where
  "is_unspecified (IPv4 w) = (unat w = 0)"
| "is_unspecified (IPv6 w) = (unat w = 0)"

fun is_global :: "ip_addr \<Rightarrow> bool" where
  "is_global (IPv4 w) = (\<not> in_net4 w (v4 100 64 0 0, 10) \<and> \<not> is_private (IPv4 w))"
| "is_global (IPv6 w) = (\<not> is_private (IPv6 w))"

section \<open>The address rule\<close>

definition safe_ip :: "ip_addr \<Rightarrow> bool" where
  "safe_ip ip0 =
     (let ip = (case ipv4_mapped ip0 of Some m \<Rightarrow> IPv4 m | None \<Rightarrow> ip0)
      in if is_private ip \<or> is_loopback ip \<or> is_link_local ip
            \<or> is_reserved ip \<or> is_multicast ip \<or> is_unspecified ip
         then False else is_global ip)"

definition ip_is_safe :: "string \<Rightarrow> bool" where
  "ip_is_safe addr = (case ip_address addr of None \<Rightarrow> False | Some ip \<Rightarrow> safe_ip ip)"

section \<open>Splitting URLs\<close>

record split_url =
  url_scheme :: string
  url_netloc :: string

definition is_scheme_char :: "char \<Rightarrow> bool" where
  "is_scheme_char c \<longleftrightarrow> is_ascii_alnum c \<or> c \<in> {CHR ''+'', CHR ''-'', CHR ''.''}"

text \<open>The scheme and the rest, when the text before the first colon is a scheme.\<close>

definition split_scheme :: "string \<Rightarrow> string \<times> string" where
  "split_scheme url =
     (let (pre, sep, rest) = py_partition (CHR '':'') url
      in if sep \<and> pre \<noteq> [] \<and> is_ascii_alpha (hd pre) \<and> list_all is_scheme_char pre
         then (py_lower pre, rest) else ([], url))"

text \<open>\<open>NetlocResultMixin._hostinfo\<close>: the host text and the port text of an authority.\<close>

definition hostinfo :: "string \<Rightarrow> string \<times> string option" where
  "hostinfo netloc =
     (let hp = snd (snd (py_rpartition (CHR ''@'') netloc));
          (before, open_br, bracketed) = py_partition (CHR ''['') hp;
          (host, port) =
            (if open_br
             then (let (h, _, rest) = py_partition (CHR '']'') bracketed
                   in (h, snd (snd (py_partition (CHR '':'') rest))))
             else (let (h, _, p) = py_partition (CHR '':'') hp in (h, p)))
      in (host, if port = [] then None else Some port))"

definition valid_ipvfuture :: "string \<Rightarrow> bool" where
  "valid_ipvfuture h =
     (let (pre, sep, rest) = py_partition (CHR ''.'') (tl h)
      in pre \<noteq> [] \<and> list_all (\<lambda>c. hex_digit_value c \<noteq> None) pre \<and> sep \<and> rest \<noteq> []
         \<and> CHR 0x0A \<notin> set rest)"

definition valid_bracketed_host :: "string \<Rightarrow> bool" where
  "valid_bracketed_host h =
     (if starts_with ''v'' h then valid_ipvfuture h
      else (case ip_address h of Some (IPv6 _) \<Rightarrow> True | _ \<Rightarrow> False))"

definition valid_brackets :: "string \<Rightarrow> bool" where
  "valid_brackets netloc =
     (let hp = snd (snd (py_rpartition (CHR ''@'') netloc));
          (before, open_br, bracketed) = py_partition (CHR ''['') hp
      in if open_br
         then (let (h, _, rest) = py_partition (CHR '']'') bracketed
               in before = [] \<and> (rest = [] \<or> hd rest = CHR '':'') \<and> valid_bracketed_host h)
         else valid_bracketed_host (fst (py_partition (CHR '':'') hp)))"

definition urlsplit :: "string \<Rightarrow> split_url result" where
  "urlsplit url0 =
     (let url = filter (\<lambda>c. c \<notin> {CHR 0x09, CHR 0x0A, CHR 0x0D})
                  (dropWhile (\<lambda>c. code c \<le> 32) url0);
          (scheme, rest) = split_scheme url;
          netloc = (if starts_with ''//'' rest
                    then takeWhile (\<lambda>c. c \<notin> {CHR ''/'', CHR ''?'', CHR ''#''}) (drop 2 rest)
                    else [])
      in if (CHR ''['' \<in> set netloc) \<noteq> (CHR '']'' \<in> set netloc)
            \<or> (CHR ''['' \<in> set netloc \<and> \<not> valid_brackets netloc)
         then Inl (ValueError ''Invalid IPv6 URL'')
         else Inr \<lparr> url_scheme = scheme, url_netloc = netloc \<rparr>)"

definition url_hostname :: "split_url \<Rightarrow> string option" where
  "url_hostname u =
     (let h = fst (hostinfo (url_netloc u));
          (host, pct, zone) = py_partition (CHR ''%'') h
      in if h = [] then None
         else Some (py_lower host @ (if pct then CHR ''%'' # zone else [])))"

definition url_port :: "split_url \<Rightarrow> nat option result" where
  "url_port u =
     (case snd (hostinfo (url_netloc u)) of
        None \<Rightarrow> Inr None
      | Some p \<Rightarrow>
          if p \<noteq> [] \<and> list_all is_ascii_digit p
          then (if digits_value p \<le> 65535 then Inr (Some (digits_value p))
                else Inl (ValueError ''Port out of range 0-65535''))
          else Inl (ValueError ''Port could not be cast to integer value''))"

section \<open>The guard\<close>

definition ALLOWED_SCHEMES :: "string list" where
  "ALLOWED_SCHEMES = [''http'', ''https'']"

text \<open>The character class of \<open>_RFC3986_SAFE_RE\<close>.\<close>

definition rfc3986_safe :: "char \<Rightarrow> bool" where
  "rfc3986_safe c \<longleftrightarrow> is_ascii_alnum c \<or> c \<in> set ''-._~:/?#[]@!$&'' \<or> c = CHR 0x27
     \<or> c \<in> set ''()*+,;=%''"

record validated_target =
  vt_url :: string
  vt_scheme :: string
  vt_host :: string
  vt_port :: nat
  vt_ip :: string

record pinned_address =
  pa_host :: string
  pa_port :: nat
  pa_ip :: string

type_synonym domain_policy = "string \<Rightarrow> bool"
type_synonym 'w resolver = "string \<Rightarrow> nat \<Rightarrow> 'w \<Rightarrow> string list result \<times> 'w"

text \<open>\<open>DomainPolicy(allowed).domain_allowed(host)\<close>.\<close>

definition domain_allowed :: "string list \<Rightarrow> domain_policy" where
  "domain_allowed allowed host0 =
     (let host = rstrip_chars ''.'' (py_lower host0)
      in list_ex (\<lambda>d. host = d \<or> ends_with (CHR ''.'' # d) host) allowed)"

definition ALLOWED_DOMAINS :: "string list" where
  "ALLOWED_DOMAINS =
    [''kabum.com.br'', ''amazon.com.br'', ''mercadolivre.com.br'', ''terabyteshop.com.br'',
     ''pichau.com.br'', ''magazineluiza.com.br'']"

definition DEFAULT_DOMAIN_POLICY :: domain_policy where
  "DEFAULT_DOMAIN_POLICY = domain_allowed ALLOWED_DOMAINS"

definition check_scheme_and_domain :: "string \<Rightarrow> domain_policy \<Rightarrow> (string \<times> string) result" where
  "check_scheme_and_domain url policy =
     (if \<not> list_all rfc3986_safe url
      then Inl (SSRFError ''url contains a character outside RFC 3986'')
      else bindE (urlsplit url) (\<lambda>parts.
        let scheme = py_lower (url_scheme parts)
        in if scheme \<notin> set ALLOWED_SCHEMES
           then Inl (SSRFError (''scheme not allowed: '' @ py_repr (url_scheme parts)))
           else (case url_hostname parts of
                   None \<Rightarrow> Inl (SSRFError ''missing host'')
                 | Some host \<Rightarrow>
                     if host = [] then Inl (SSRFError ''missing host'')
                     else if \<not> policy host
                     then Inl (SSRFError (''domain not in allowlist: '' @ py_repr host))
                     else Inr (scheme, host))))"

fun first_unsafe :: "string list \<Rightarrow> string option" where
  "first_unsafe [] = None"
| "first_unsafe (a # as) = (if \<not> ip_is_safe a then Some a else first_unsafe as)"

definition is_gaierror :: "exn \<Rightarrow> bool" where
  "is_gaierror e = (exn_name e = ''gaierror'')"

definition resolve_and_check ::
  "'w resolver \<Rightarrow> string \<Rightarrow> nat \<Rightarrow> 'w \<Rightarrow> string result \<times> 'w" where
  "resolve_and_check dns host port w =
     (case dns host port w of
        (Inl e, w') \<Rightarrow>
          (if is_gaierror e
           then Inl (FetchError (''DNS resolution failed for '' @ py_repr host @ '': '' @ exn_str e))
           else Inl e, w')
      | (Inr addrs, w') \<Rightarrow>
          (if addrs = []
           then Inl (SSRFError (''no addresses resolved for '' @ py_repr host))
           else (case first_unsafe addrs of
                   Some a \<Rightarrow> Inl (SSRFError (''resolved address blocked for '' @ py_repr host
                                        @ '': '' @ a))
                 | None \<Rightarrow> Inr (hd addrs)), w'))"

definition default_port :: "string \<Rightarrow> nat" where
  "default_port scheme = (if scheme = ''https'' then 443 else 80)"

definition validate_target ::
  "'w resolver \<Rightarrow> string \<Rightarrow> domain_policy \<Rightarrow> 'w \<Rightarrow> validated_target result \<times> 'w" where
  "validate_target dns url policy w =
     (case check_scheme_and_domain url policy of
        Inl e \<Rightarrow> (Inl e, w)
      | Inr (scheme, host) \<Rightarrow>
          (case bindE (urlsplit url) url_port of
             Inl e \<Rightarrow> (Inl e, w)
           | Inr p \<Rightarrow>
               (let port = (case p of Some n \<Rightarrow> if n = 0 then default_port scheme else n
                                    | None \<Rightarrow> default_port scheme)
                in case resolve_and_check dns host port w of
                     (Inl e, w') \<Rightarrow> (Inl e, w')
                   | (Inr ip, w') \<Rightarrow>
                       (Inr \<lparr> vt_url = url, vt_scheme = scheme, vt_host = host,
                              vt_port = port, vt_ip = ip \<rparr>, w'))))"

definition resolve_and_pin ::
  "'w resolver \<Rightarrow> string \<Rightarrow> nat \<Rightarrow> 'w \<Rightarrow> pinned_address result \<times> 'w" where
  "resolve_and_pin dns host port w =
     (case resolve_and_check dns host port w of
        (Inl e, w') \<Rightarrow> (Inl e, w')
      | (Inr ip, w') \<Rightarrow> (Inr \<lparr> pa_host = host, pa_port = port, pa_ip = ip \<rparr>, w'))"

text \<open>The write-time gate of the registry: the same predicate, the exception renamed.\<close>

definition validate_source_url :: "string \<Rightarrow> string \<Rightarrow> domain_policy \<Rightarrow> unit result" where
  "validate_source_url url ctx policy =
     (case check_scheme_and_domain url policy of
        Inr _ \<Rightarrow> Inr ()
      | Inl (SSRFError m) \<Rightarrow>
          Inl (UrlValidationError (ctx @ '': '' @ m @ '' ('' @ py_repr url @ '')''))
      | Inl e \<Rightarrow> Inl e)"

section \<open>What the address rule admits\<close>

text \<open>The public IPv4 addresses, as ranges: everything outside the special-purpose blocks.\<close>

definition public4 :: "32 word \<Rightarrow> bool" where
  "public4 w \<longleftrightarrow>
     (let n = unat w
      in v4 1 0 0 0 \<le> n \<and> n < v4 224 0 0 0
         \<and> n \<notin> {v4 10 0 0 0 .. v4 10 255 255 255}
         \<and> n \<notin> {v4 100 64 0 0 .. v4 100 127 255 255}
         \<and> n \<notin> {v4 127 0 0 0 .. v4 127 255 255 255}
         \<and> n \<notin> {v4 169 254 0 0 .. v4 169 254 255 255}
         \<and> n \<notin> {v4 172 16 0 0 .. v4 172 31 255 255}
         \<and> (n \<notin> {v4 192 0 0 0 .. v4 192 0 0 255} \<or> n = v4 192 0 0 9 \<or> n = v4 192 0 0 10)
         \<and> n \<notin> {v4 192 0 2 0 .. v4 192 0 2 255}
         \<and> n \<notin> {v4 192 168 0 0 .. v4 192 168 255 255}
         \<and> n \<notin> {v4 198 18 0 0 .. v4 198 19 255 255}
         \<and> n \<notin> {v4 198 51 100 0 .. v4 198 51 100 255}
         \<and> n \<notin> {v4 203 0 113 0 .. v4 203 0 113 255})"

lemma div_eq_range: "0 < k \<Longrightarrow> (n::nat) div k = q \<longleftrightarrow> q * k \<le> n \<and> n < q * k + k"
  by (metis add.commute div_nat_eqI dividend_less_times_div mult.commute mult_Suc_right
      times_div_less_eq_dividend)

lemma in_net4_ranges:
  "in_net4 w (v4 0 0 0 0, 8) \<longleftrightarrow> \<not> v4 1 0 0 0 \<le> unat w"
  "in_net4 w (v4 10 0 0 0, 8) \<longleftrightarrow> unat w \<in> {v4 10 0 0 0 .. v4 10 255 255 255}"
  "in_net4 w (v4 127 0 0 0, 8) \<longleftrightarrow> unat w \<in> {v4 127 0 0 0 .. v4 127 255 255 255}"
  "in_net4 w (v4 169 254 0 0, 16) \<longleftrightarrow> unat w \<in> {v4 169 254 0 0 .. v4 169 254 255 255}"
  "in_net4 w (v4 172 16 0 0, 12) \<longleftrightarrow> unat w \<in> {v4 172 16 0 0 .. v4 172 31 255 255}"
  "in_net4 w (v4 192 0 0 0, 24) \<longleftrightarrow> unat w \<in> {v4 192 0 0 0 .. v4 192 0 0 255}"
  "in_net4 w (v4 192 0 0 170, 31) \<longleftrightarrow> unat w \<in> {v4 192 0 0 170 .. v4 192 0 0 171}"
  "in_net4 w (v4 192 0 2 0, 24) \<longleftrightarrow> unat w \<in> {v4 192 0 2 0 .. v4 192 0 2 255}"
  "in_net4 w (v4 192 168 0 0, 16) \<longleftrightarrow> unat w \<in> {v4 192 168 0 0 .. v4 192 168 255 255}"
  "in_net4 w (v4 198 18 0 0, 15) \<longleftrightarrow> unat w \<in> {v4 198 18 0 0 .. v4 198 19 255 255}"
  "in_net4 w (v4 198 51 100 0, 24) \<longleftrightarrow> unat w \<in> {v4 198 51 100 0 .. v4 198 51 100 255}"
  "in_net4 w (v4 203 0 113 0, 24) \<longleftrightarrow> unat w \<in> {v4 203 0 113 0 .. v4 203 0 113 255}"
  "in_net4 w (v4 224 0 0 0, 4) \<longleftrightarrow> unat w \<in> {v4 224 0 0 0 .. v4 239 255 255 255}"
  "in_net4 w (v4 240 0 0 0, 4) \<longleftrightarrow> unat w \<in> {v4 240 0 0 0 .. v4 255 255 255 255}"
  "in_net4 w (v4 100 64 0 0, 10) \<longleftrightarrow> unat w \<in> {v4 100 64 0 0 .. v4 100 127 255 255}"
  "in_net4 w (v4 255 255 255 255, 32) \<longleftrightarrow> unat w = v4 255 255 255 255"
  "in_net4 w (v4 192 0 0 9, 32) \<longleftrightarrow> unat w = v4 192 0 0 9"
  "in_net4 w (v4 192 0 0 10, 32) \<longleftrightarrow> unat w = v4 192 0 0 10"
  by (auto simp: in_net4_def v4_def div_eq_range)

lemma safe_ip4_iff: "safe_ip (IPv4 w) \<longleftrightarrow> public4 w"
proof -
  let ?n = "unat w"
  have "?n < 2 ^ LENGTH(32)" by (rule unsigned_less)
  then have top: "?n \<le> v4 255 255 255 255" by (simp add: v4_def)
  have upper: "?n \<in> {v4 224 0 0 0 .. v4 239 255 255 255} \<or> ?n \<in> {v4 240 0 0 0 .. v4 255 255 255 255}
      \<longleftrightarrow> \<not> ?n < v4 224 0 0 0"
    using top by (auto simp: v4_def)
  have sub: "?n = v4 255 255 255 255 \<Longrightarrow> ?n \<in> {v4 240 0 0 0 .. v4 255 255 255 255}"
    "?n \<in> {v4 192 0 0 170 .. v4 192 0 0 171} \<Longrightarrow> ?n \<in> {v4 192 0 0 0 .. v4 192 0 0 255}"
    "?n = 0 \<Longrightarrow> \<not> v4 1 0 0 0 \<le> ?n"
    by (auto simp: v4_def)
  show ?thesis
  proof (cases "?n = v4 192 0 0 9 \<or> ?n = v4 192 0 0 10")
    case True
    then show ?thesis
      by (elim disjE) (simp_all add: safe_ip_def public4_def is_private4_def
          private_networks4_def private_exceptions4_def in_net4_def v4_def Let_def)
  next
    case False
    then show ?thesis
      unfolding safe_ip_def public4_def is_private4_def private_networks4_def
        private_exceptions4_def Let_def ipv4_mapped.simps option.case is_private.simps
        is_loopback.simps is_link_local.simps is_reserved.simps is_multicast.simps
        is_unspecified.simps is_global.simps list_ex_Nil_iff list_ex_Cons_iff in_net4_ranges
      using upper sub by argo
  qed
qed

text \<open>
  The unicast IPv6 space that passes: the global block \<open>2000::/3\<close>, and \<open>fec0::/10\<close>, the
  deprecated site-local block that \<open>ipaddress\<close> reports as global.
\<close>

definition global_unicast6 :: "128 word \<Rightarrow> bool" where
  "global_unicast6 w \<longleftrightarrow> unat w \<in> {v6 0x2000 0 0 0 ..< v6 0x4000 0 0 0}"

definition site_local6 :: "128 word \<Rightarrow> bool" where
  "site_local6 w \<longleftrightarrow> unat w \<in> {v6 0xFEC0 0 0 0 ..< v6 0xFF00 0 0 0}"

lemma in_net6_ranges:
  "in_net6 w (v6 0 0 0 0, 8) \<longleftrightarrow> unat w < v6 0x100 0 0 0"
  "in_net6 w (v6 0x100 0 0 0, 8) \<longleftrightarrow> v6 0x100 0 0 0 \<le> unat w \<and> unat w < v6 0x200 0 0 0"
  "in_net6 w (v6 0x200 0 0 0, 7) \<longleftrightarrow> v6 0x200 0 0 0 \<le> unat w \<and> unat w < v6 0x400 0 0 0"
  "in_net6 w (v6 0x400 0 0 0, 6) \<longleftrightarrow> v6 0x400 0 0 0 \<le> unat w \<and> unat w < v6 0x800 0 0 0"
  "in_net6 w (v6 0x800 0 0 0, 5) \<longleftrightarrow> v6 0x800 0 0 0 \<le> unat w \<and> unat w < v6 0x1000 0 0 0"
  "in_net6 w (v6 0x1000 0 0 0, 4) \<longleftrightarrow> v6 0x1000 0 0 0 \<le> unat w \<and> unat w < v6 0x2000 0 0 0"
  "in_net6 w (v6 0x4000 0 0 0, 3) \<longleftrightarrow> v6 0x4000 0 0 0 \<le> unat w \<and> unat w < v6 0x6000 0 0 0"
  "in_net6 w (v6 0x6000 0 0 0, 3) \<longleftrightarrow> v6 0x6000 0 0 0 \<le> unat w \<and> unat w < v6 0x8000 0 0 0"
  "in_net6 w (v6 0x8000 0 0 0, 3) \<longleftrightarrow> v6 0x8000 0 0 0 \<le> unat w \<and> unat w < v6 0xA000 0 0 0"
  "in_net6 w (v6 0xA000 0 0 0, 3) \<longleftrightarrow> v6 0xA000 0 0 0 \<le> unat w \<and> unat w < v6 0xC000 0 0 0"
  "in_net6 w (v6 0xC000 0 0 0, 3) \<longleftrightarrow> v6 0xC000 0 0 0 \<le> unat w \<and> unat w < v6 0xE000 0 0 0"
  "in_net6 w (v6 0xE000 0 0 0, 4) \<longleftrightarrow> v6 0xE000 0 0 0 \<le> unat w \<and> unat w < v6 0xF000 0 0 0"
  "in_net6 w (v6 0xF000 0 0 0, 5) \<longleftrightarrow> v6 0xF000 0 0 0 \<le> unat w \<and> unat w < v6 0xF800 0 0 0"
  "in_net6 w (v6 0xF800 0 0 0, 6) \<longleftrightarrow> v6 0xF800 0 0 0 \<le> unat w \<and> unat w < v6 0xFC00 0 0 0"
  "in_net6 w (v6 0xFC00 0 0 0, 7) \<longleftrightarrow> v6 0xFC00 0 0 0 \<le> unat w \<and> unat w < v6 0xFE00 0 0 0"
  "in_net6 w (v6 0xFE00 0 0 0, 9) \<longleftrightarrow> v6 0xFE00 0 0 0 \<le> unat w \<and> unat w < v6 0xFE80 0 0 0"
  "in_net6 w (v6 0xFE80 0 0 0, 10) \<longleftrightarrow> v6 0xFE80 0 0 0 \<le> unat w \<and> unat w < v6 0xFEC0 0 0 0"
  "in_net6 w (v6 0xFF00 0 0 0, 8) \<longleftrightarrow> v6 0xFF00 0 0 0 \<le> unat w \<and> unat w < 2 ^ 128"
  by (simp_all add: in_net6_def v6_def div_eq_range)

lemma exceptions6_global:
  "list_ex (in_net6 w) private_exceptions6 \<Longrightarrow> global_unicast6 w"
  by (auto simp: private_exceptions6_def in_net6_def v6_def div_eq_range global_unicast6_def)

lemma safe_ip6_ranges:
  assumes safe: "safe_ip (IPv6 w)" and unmapped: "ipv4_mapped (IPv6 w) = None"
  shows "global_unicast6 w \<or> site_local6 w"
proof (rule ccontr)
  assume no: "\<not> ?thesis"
  have "unat w < 2 ^ LENGTH(128)" by (rule unsigned_less)
  then have top: "unat w < 2 ^ 128" by simp
  have nores: "\<not> list_ex (in_net6 w) reserved_networks6" and nomc: "\<not> in_net6 w (v6 0xFF00 0 0 0, 8)"
    and noll: "\<not> in_net6 w (v6 0xFE80 0 0 0, 10)"
    and nopriv: "\<not> is_private (IPv6 w)"
    using safe unmapped by (auto simp: safe_ip_def Let_def simp del: is_private.simps)
  have noula: "\<not> in_net6 w (v6 0xFC00 0 0 0, 7)"
    using nopriv unmapped no exceptions6_global [of w]
    by (auto simp: private_networks6_def)
  have low: "v6 0x2000 0 0 0 \<le> unat w"
    using nores unfolding reserved_networks6_def list_ex_Cons_iff in_net6_ranges
    by (simp add: not_less)
  then have "v6 0x4000 0 0 0 \<le> unat w"
    using no by (simp add: global_unicast6_def)
  then have "v6 0xFC00 0 0 0 \<le> unat w"
    using nores unfolding reserved_networks6_def list_ex_Cons_iff in_net6_ranges
    by (simp add: not_less)
  then have "v6 0xFE00 0 0 0 \<le> unat w"
    using noula unfolding in_net6_ranges by (simp add: not_less)
  then have "v6 0xFE80 0 0 0 \<le> unat w"
    using nores unfolding reserved_networks6_def list_ex_Cons_iff in_net6_ranges
    by (simp add: not_less)
  then have "v6 0xFEC0 0 0 0 \<le> unat w"
    using noll unfolding in_net6_ranges by (simp add: not_less)
  then have "v6 0xFF00 0 0 0 \<le> unat w"
    using no by (simp add: site_local6_def not_less)
  then show False
    using nomc top unfolding in_net6_ranges by simp
qed

text \<open>C3: an address text that \<open>ip_is_safe\<close> accepts reads either as an IPv4 address outside
  every special-purpose block (loopback, private, link-local, carrier-grade NAT, documentation,
  benchmark, multicast, reserved), or as an IPv6 address that maps such an IPv4 address, or as an
  IPv6 address of \<open>2000::/3\<close> or of the site-local block \<open>fec0::/10\<close>. Text that is not an
  address is refused.\<close>

theorem ip_is_safe_sound:
  assumes "ip_is_safe addr"
  shows "\<exists>ip. ip_address addr = Some ip \<and>
    (case ip of
       IPv4 w \<Rightarrow> public4 w
     | IPv6 w \<Rightarrow> (case ipv4_mapped ip of
                  Some m \<Rightarrow> public4 m
                | None \<Rightarrow> global_unicast6 w \<or> site_local6 w))"
proof -
  obtain ip where ip: "ip_address addr = Some ip" and safe: "safe_ip ip"
    using assms by (auto simp: ip_is_safe_def split: option.splits)
  show ?thesis
  proof (cases ip)
    case (IPv4 w)
    with ip safe show ?thesis by (auto simp: safe_ip4_iff)
  next
    case (IPv6 w)
    show ?thesis
    proof (cases "ipv4_mapped ip")
      case None
      with IPv6 ip safe safe_ip6_ranges [of w] show ?thesis by auto
    next
      case (Some m)
      then have "safe_ip (IPv4 m)" using safe by (simp add: safe_ip_def)
      with IPv6 Some ip show ?thesis by (auto simp: safe_ip4_iff)
    qed
  qed
qed

theorem ip_is_safe_sound_witness:
  "ip_is_safe ''8.8.8.8'' \<and> (\<exists>w. ip_address ''8.8.8.8'' = Some (IPv4 w) \<and> public4 w)"
proof -
  have safe: "ip_is_safe ''8.8.8.8''" by code_simp
  have addr: "ip_address ''8.8.8.8'' = Some (IPv4 134744072)" by code_simp
  show ?thesis using safe ip_is_safe_sound [OF safe] addr by auto
qed

text \<open>The addresses an attacker would aim at are refused, in the plain notation and as
  IPv4-mapped IPv6; a deprecated site-local IPv6 address is accepted although it is not globally
  routable.\<close>

lemma ip_is_safe_examples:
  "\<not> ip_is_safe ''127.0.0.1'' \<and> \<not> ip_is_safe ''169.254.169.254''
   \<and> \<not> ip_is_safe ''::ffff:169.254.169.254'' \<and> \<not> ip_is_safe ''::1'' \<and> \<not> ip_is_safe ''10.1.2.3''
   \<and> \<not> ip_is_safe ''100.64.0.1'' \<and> \<not> ip_is_safe ''fe80::1%eth0'' \<and> \<not> ip_is_safe ''0x7f.1''
   \<and> ip_is_safe ''fec0::1''"
proof (intro conjI)
  show "\<not> ip_is_safe ''127.0.0.1''" by code_simp
  show "\<not> ip_is_safe ''169.254.169.254''" by code_simp
  show "\<not> ip_is_safe ''::ffff:169.254.169.254''" by code_simp
  have "ip_address ''::1'' = Some (IPv6 1)" by code_simp
  then show "\<not> ip_is_safe ''::1''" by (simp add: ip_is_safe_def safe_ip_def)
  show "\<not> ip_is_safe ''10.1.2.3''" by code_simp
  show "\<not> ip_is_safe ''100.64.0.1''" by code_simp
  have "ip_address ''fe80::1%eth0'' = Some (IPv6 338288524927261089654018896841347694593)"
    by code_simp
  then show "\<not> ip_is_safe ''fe80::1%eth0''"
    by (simp add: ip_is_safe_def safe_ip_def in_net6_def v6_def)
  show "\<not> ip_is_safe ''0x7f.1''" by code_simp
  have "ip_address ''fec0::1'' = Some (IPv6 338620831926207318622244848606417780737)"
    by code_simp
  then show "ip_is_safe ''fec0::1''"
    by (simp add: ip_is_safe_def safe_ip_def private_networks6_def private_exceptions6_def
        reserved_networks6_def in_net6_def v6_def Let_def)
qed

section \<open>The domain rule, label by label\<close>

definition labels :: "string \<Rightarrow> string list" where
  "labels h = split_on (CHR ''.'') h"

lemma split_on_app: "split_on c (p @ c # s) = split_on c p @ split_on c s"
proof (induction p)
  case (Cons x p)
  then show ?case by (cases "split_on c p") auto
qed simp

lemma join_split_on: "join [c] (split_on c s) = s"
proof (induction s)
  case (Cons x s)
  show ?case
  proof (cases "split_on c s")
    case (Cons y ys)
    with Cons.IH show ?thesis by (cases ys) auto
  qed simp
qed simp

lemma join_append: "xs \<noteq> [] \<Longrightarrow> ys \<noteq> [] \<Longrightarrow> join sep (xs @ ys) = join sep xs @ sep @ join sep ys"
proof (induction sep xs rule: join.induct)
  case (2 sep x)
  then show ?case by (cases ys) auto
qed auto

lemma labels_suffix_iff:
  "(host = d \<or> ends_with (CHR ''.'' # d) host) \<longleftrightarrow> (\<exists>ls. labels host = ls @ labels d)"
proof
  assume "host = d \<or> ends_with (CHR ''.'' # d) host"
  then show "\<exists>ls. labels host = ls @ labels d"
    by (auto simp: labels_def ends_with_iff split_on_app intro: exI [of _ "[]"])
next
  assume "\<exists>ls. labels host = ls @ labels d"
  then obtain ls where ls: "labels host = ls @ labels d" by blast
  then have h: "host = join ''.'' (ls @ labels d)"
    by (metis join_split_on labels_def)
  show "host = d \<or> ends_with (CHR ''.'' # d) host"
  proof (cases "ls = []")
    case True
    with h show ?thesis by (simp add: labels_def join_split_on)
  next
    case False
    then have "host = join ''.'' ls @ ''.'' @ d"
      using h by (simp add: join_append labels_def join_split_on)
    then show ?thesis by (auto simp: ends_with_iff)
  qed
qed

text \<open>The allowlist works on whole labels. A host passes exactly when, lower-cased and without
  its trailing dots, its list of labels ends with the labels of an allowed domain; a host that
  merely ends with the same characters (\<open>evilkabum.com.br\<close>) or continues them
  (\<open>kabum.com.br.evil.com\<close>) does not.\<close>

theorem domain_allowed_labels:
  "domain_allowed allowed h \<longleftrightarrow>
     (\<exists>d \<in> set allowed. \<exists>ls. labels (rstrip_chars ''.'' (py_lower h)) = ls @ labels d)"
  by (simp add: domain_allowed_def Let_def list_ex_iff labels_suffix_iff)

section \<open>What a validated target guarantees\<close>

lemma first_unsafe_None: "first_unsafe as = None \<longleftrightarrow> (\<forall>a \<in> set as. ip_is_safe a)"
  by (induction "as") auto

lemma resolve_and_check_Inr:
  assumes "resolve_and_check dns host port w = (Inr ip, w')"
  shows "\<exists>addrs. dns host port w = (Inr addrs, w') \<and> addrs \<noteq> [] \<and> ip = hd addrs
           \<and> (\<forall>a \<in> set addrs. ip_is_safe a)"
  using assms
  by (auto simp: resolve_and_check_def first_unsafe_None
           split: prod.splits sum.splits if_splits option.splits)

lemma check_scheme_and_domain_Inr:
  assumes "check_scheme_and_domain url policy = Inr (scheme, host)"
  shows "scheme \<in> {''http'', ''https''} \<and> host \<noteq> [] \<and> policy host \<and> list_all rfc3986_safe url"
  using assms
  by (auto simp: check_scheme_and_domain_def bindE_Inr_iff Let_def ALLOWED_SCHEMES_def
           split: if_splits option.splits)

lemma default_port_range: "0 < default_port s \<and> default_port s \<le> 65535"
  by (simp add: default_port_def)

lemma url_port_range: "url_port u = Inr (Some n) \<Longrightarrow> n \<le> 65535"
  by (auto simp: url_port_def split: option.splits if_splits)

lemma validate_target_Inr:
  assumes "validate_target dns url policy w = (Inr t, w')"
  shows "vt_url t = url \<and> vt_scheme t \<in> {''http'', ''https''} \<and> vt_host t \<noteq> []
    \<and> check_scheme_and_domain url policy = Inr (vt_scheme t, vt_host t)
    \<and> policy (vt_host t) \<and> 0 < vt_port t \<and> vt_port t \<le> 65535
    \<and> (\<exists>addrs. dns (vt_host t) (vt_port t) w = (Inr addrs, w') \<and> addrs \<noteq> []
         \<and> vt_ip t = hd addrs \<and> (\<forall>a \<in> set addrs. ip_is_safe a))
    \<and> ip_is_safe (vt_ip t)"
proof -
  obtain scheme host where sh: "check_scheme_and_domain url policy = Inr (scheme, host)"
    using assms by (auto simp: validate_target_def split: sum.splits)
  note chk = check_scheme_and_domain_Inr [OF sh]
  obtain p where p: "bindE (urlsplit url) url_port = Inr p"
    using assms sh by (auto simp: validate_target_def split: sum.splits)
  define port where "port = (case p of Some n \<Rightarrow> if n = 0 then default_port scheme else n
                               | None \<Rightarrow> default_port scheme)"
  have rng: "0 < port \<and> port \<le> 65535"
    using p default_port_range [of scheme]
    by (auto simp: port_def bindE_Inr_iff dest: url_port_range split: option.splits)
  obtain ip where ip: "resolve_and_check dns host port w = (Inr ip, w')"
    and t: "t = \<lparr> vt_url = url, vt_scheme = scheme, vt_host = host, vt_port = port, vt_ip = ip \<rparr>"
    using assms sh p
    by (auto simp: validate_target_def port_def Let_def split: prod.splits sum.splits)
  show ?thesis using chk rng resolve_and_check_Inr [OF ip] t sh by auto
qed

text \<open>C4: a target that passes the fetch-time guard has an http or https scheme, a host the domain
  policy allows, a port between 1 and 65535, and an address to dial that is the first answer of
  the one resolution made, in which every answer is a safe address. A target refused by scheme or
  domain makes no resolution at all: the world is unchanged.\<close>

theorem validate_target_pins_safe_address:
  assumes "validate_target dns url policy w = (res, w')"
  shows "(case res of
      Inr t \<Rightarrow> vt_url t = url \<and> vt_scheme t \<in> {''http'', ''https''} \<and> vt_host t \<noteq> []
        \<and> policy (vt_host t) \<and> 0 < vt_port t \<and> vt_port t \<le> 65535
        \<and> (\<exists>addrs. dns (vt_host t) (vt_port t) w = (Inr addrs, w') \<and> addrs \<noteq> []
             \<and> vt_ip t = hd addrs \<and> (\<forall>a \<in> set addrs. ip_is_safe a))
    | Inl e \<Rightarrow> (\<forall>sh. check_scheme_and_domain url policy \<noteq> Inr sh) \<longrightarrow> w' = w)"
proof (cases res)
  case (Inl e)
  with assms show ?thesis
    by (cases "check_scheme_and_domain url policy") (auto simp: validate_target_def)
next
  case (Inr t)
  with assms validate_target_Inr [of dns url policy w t w'] show ?thesis by simp
qed

theorem validate_target_pins_safe_address_witness:
  "\<exists>t. validate_target (\<lambda>h p w. (Inr [''8.8.8.8''], Suc w)) ''https://www.kabum.com.br/p/1''
     DEFAULT_DOMAIN_POLICY 0 = (Inr t, 1)
   \<and> vt_ip t = ''8.8.8.8'' \<and> DEFAULT_DOMAIN_POLICY (vt_host t)"
proof -
  let ?dns = "\<lambda>(h::string) (p::nat) (w::nat). (Inr [''8.8.8.8''] :: string list result, Suc w)"
  have ev: "validate_target ?dns ''https://www.kabum.com.br/p/1'' DEFAULT_DOMAIN_POLICY 0 =
     (Inr \<lparr> vt_url = ''https://www.kabum.com.br/p/1'', vt_scheme = ''https'',
            vt_host = ''www.kabum.com.br'', vt_port = 443, vt_ip = ''8.8.8.8'' \<rparr>, 1)"
    by code_simp
  show ?thesis using ev validate_target_pins_safe_address [OF ev] by simp
qed

text \<open>The two gates cannot drift apart. Whatever URL the fetch-time guard lets through, the
  write-time gate of the registry accepts under the same policy; and a URL the write-time gate
  refuses is refused at fetch time before any name is resolved.\<close>

theorem gates_agree:
  "(\<forall>w t w'. validate_target dns url policy w = (Inr t, w')
      \<longrightarrow> validate_source_url url ctx policy = Inr ())
   \<and> (\<forall>w e. validate_source_url url ctx policy = Inl e
      \<longrightarrow> (\<exists>e'. validate_target dns url policy w = (Inl e', w)))"
  by (auto simp: validate_target_def validate_source_url_def split: sum.splits exn.splits)

theorem gates_agree_witness:
  "validate_source_url ''http://127.0.0.1/'' ''ctx'' DEFAULT_DOMAIN_POLICY \<noteq> Inr ()
   \<and> (\<exists>e'. validate_target (\<lambda>h p w. (Inr [''8.8.8.8''], Suc w)) ''http://127.0.0.1/''
        DEFAULT_DOMAIN_POLICY (0::nat) = (Inl e', 0))"
proof -
  have no: "validate_source_url ''http://127.0.0.1/'' ''ctx'' DEFAULT_DOMAIN_POLICY \<noteq> Inr ()"
    by code_simp
  then obtain e where "validate_source_url ''http://127.0.0.1/'' ''ctx'' DEFAULT_DOMAIN_POLICY = Inl e"
    by (cases "validate_source_url ''http://127.0.0.1/'' ''ctx'' DEFAULT_DOMAIN_POLICY") auto
  then show ?thesis
    using no gates_agree [of "\<lambda>h p w. (Inr [''8.8.8.8''], Suc w)" "''http://127.0.0.1/''"
      DEFAULT_DOMAIN_POLICY "''ctx''"] by simp
qed

end
