(* ===== verification/Fetch_Tiers.thy ===== *)
theory Fetch_Tiers
  imports Scraping Ssrf_Guard
begin

text \<open>
  The two browserless fetcher tiers, \<open>autolycos/adapters/http.py\<close> (requests) and
  \<open>autolycos/adapters/tls.py\<close> (curl_cffi). Both follow redirects by hand: every hop goes through
  \<^const>\<open>validate_target\<close>, opens one connection pinned on the address that call returned, and
  either follows a Location or reads a body whose size is capped while it streams.

  requests and curl_cffi are parameters: \<open>get\<close> takes the connection it is told to open and the
  URL, and answers in a world of its own. \<open>urljoin\<close> and \<open>decode\<close> (the codecs of
  \<open>bytes.decode\<close>) are parameters too; no theorem depends on what they compute.
\<close>

section \<open>Responses and the capped read\<close>

record response =
  resp_status :: int
  resp_is_redirect :: bool
  resp_location :: "string option"
  resp_chunks :: "string result list" \<comment> \<open>\<open>iter_content\<close>: the chunks, or the exception it raises\<close>
  resp_encoding :: "string option"

definition MAX_HTML_BYTES :: nat where
  "MAX_HTML_BYTES = 5 * 1024 * 1024"

definition MAX_REDIRECTS :: nat where
  "MAX_REDIRECTS = 5"

definition REDIRECT_CODES :: "int list" where
  "REDIRECT_CODES = [301, 302, 303, 307, 308]"

fun read_chunks :: "string result list \<Rightarrow> nat \<Rightarrow> string list \<Rightarrow> string list result" where
  "read_chunks [] tot chunks = Inr chunks"
| "read_chunks (Inl e # rest) tot chunks = Inl e"
| "read_chunks (Inr chunk # rest) tot chunks =
     (if chunk = [] then read_chunks rest tot chunks
      else if tot + length chunk > MAX_HTML_BYTES
      then Inl (FetchError (''response exceeds '' @ string_of_nat MAX_HTML_BYTES @ '' bytes cap''))
      else read_chunks rest (tot + length chunk) (chunks @ [chunk]))"

definition read_capped :: "(string \<Rightarrow> string \<Rightarrow> string result) \<Rightarrow> response \<Rightarrow> string result" where
  "read_capped decode resp =
     bindE (read_chunks (resp_chunks resp) 0 []) (\<lambda>chunks.
       let encoding = (if truthy (resp_encoding resp) then the (resp_encoding resp) else ''utf-8'')
       in decode encoding (concat chunks))"

section \<open>The loop over the hops\<close>

text \<open>What one pass of the \<open>for\<close> body does when it raises nothing: \<open>continue\<close> with a new
  URL, or \<open>return\<close>.\<close>

datatype hop_outcome = Follow string | Done fetch_result

type_synonym 'w hop = "string \<Rightarrow> 'w \<Rightarrow> hop_outcome result \<times> 'w"

fun fetch_loop :: "'w hop \<Rightarrow> nat \<Rightarrow> string \<Rightarrow> 'w \<Rightarrow> fetch_result result \<times> 'w" where
  "fetch_loop hop 0 current w =
     (Inl (FetchError (''too many redirects (> '' @ string_of_nat MAX_REDIRECTS @ '')'')), w)"
| "fetch_loop hop (Suc n) current w =
     (case hop current w of
        (Inl e, w') \<Rightarrow> (Inl e, w')
      | (Inr (Follow next_url), w') \<Rightarrow> fetch_loop hop n next_url w'
      | (Inr (Done r), w') \<Rightarrow> (Inr r, w'))"

definition follow_redirect ::
  "(string \<Rightarrow> string \<Rightarrow> string) \<Rightarrow> string \<Rightarrow> response \<Rightarrow> hop_outcome result" where
  "follow_redirect urljoin current resp =
     (if truthy (resp_location resp) then Inr (Follow (urljoin current (the (resp_location resp))))
      else Inl (FetchError ''redirect without Location header''))"

definition read_result ::
  "(string \<Rightarrow> string \<Rightarrow> string result) \<Rightarrow> string \<Rightarrow> response \<Rightarrow> hop_outcome result" where
  "read_result decode tier resp =
     bindE (read_capped decode resp) (\<lambda>text.
       Inr (Done \<lparr> html = text, status_code = resp_status resp, fr_method = tier,
                   challenged = looks_challenged (resp_status resp) text \<rparr>))"

section \<open>The http tier\<close>

text \<open>
  The adapter that carries the pin is mounted for the prefix \<open>scheme://host\<close>; a session uses the
  adapter mounted for the longest prefix of the prepared URL, compared in lower case, and its
  default adapter resolves the name itself. \<open>prepare\<close> is what requests makes of the URL before
  that choice.
\<close>

datatype connection =
    Pinned string nat string \<comment> \<open>address dialled, port, name for SNI and certificate\<close>
  | Unpinned string \<comment> \<open>the default adapter: the tool resolves the URL's name again\<close>

definition mount_prefix :: "validated_target \<Rightarrow> string" where
  "mount_prefix t = vt_scheme t @ ''://'' @ vt_host t"

definition mounted :: "string \<Rightarrow> string \<Rightarrow> bool" where
  "mounted prefix url = starts_with (py_lower prefix) (py_lower url)"

definition select_connection :: "validated_target \<Rightarrow> string \<Rightarrow> connection" where
  "select_connection t prepared =
     (if mounted (mount_prefix t) prepared then Pinned (vt_ip t) (vt_port t) (vt_host t)
      else Unpinned prepared)"

type_synonym 'w http_get = "connection \<Rightarrow> string \<Rightarrow> 'w \<Rightarrow> response result \<times> 'w"

definition http_hop ::
  "'w resolver \<Rightarrow> (string \<Rightarrow> string) \<Rightarrow> 'w http_get \<Rightarrow> (string \<Rightarrow> string \<Rightarrow> string)
    \<Rightarrow> (string \<Rightarrow> string \<Rightarrow> string result) \<Rightarrow> domain_policy \<Rightarrow> 'w hop" where
  "http_hop dns prepare get urljoin decode policy current w =
     (case validate_target dns current policy w of
        (Inl e, w') \<Rightarrow> (Inl e, w')
      | (Inr target, w') \<Rightarrow>
          (case get (select_connection target (prepare current)) current w' of
             (Inl e, w'') \<Rightarrow> (Inl e, w'')
           | (Inr resp, w'') \<Rightarrow>
               (if resp_is_redirect resp \<or> resp_status resp \<in> set REDIRECT_CODES
                then follow_redirect urljoin current resp
                else read_result decode ''http'' resp, w'')))"

definition http_fetch ::
  "'w resolver \<Rightarrow> (string \<Rightarrow> string) \<Rightarrow> 'w http_get \<Rightarrow> (string \<Rightarrow> string \<Rightarrow> string)
    \<Rightarrow> (string \<Rightarrow> string \<Rightarrow> string result) \<Rightarrow> domain_policy \<Rightarrow> 'w fetcher" where
  "http_fetch dns prepare get urljoin decode policy =
     fetch_loop (http_hop dns prepare get urljoin decode policy) (MAX_REDIRECTS + 1)"

section \<open>The tls tier\<close>

definition resolve_entry :: "validated_target \<Rightarrow> string" where
  "resolve_entry t =
     (let addr = (if CHR '':'' \<in> set (vt_ip t) then ''['' @ vt_ip t @ '']'' else vt_ip t)
      in vt_host t @ '':'' @ string_of_nat (vt_port t) @ '':'' @ addr)"

type_synonym 'w tls_get = "string \<Rightarrow> string \<Rightarrow> 'w \<Rightarrow> response result \<times> 'w"

text \<open>\<open>load_curl\<close> imports the optional dependency, and raises where it is not installed.\<close>

definition tls_hop ::
  "'w resolver \<Rightarrow> unit result \<Rightarrow> 'w tls_get \<Rightarrow> (string \<Rightarrow> string \<Rightarrow> string)
    \<Rightarrow> (string \<Rightarrow> string \<Rightarrow> string result) \<Rightarrow> domain_policy \<Rightarrow> 'w hop" where
  "tls_hop dns load_curl get urljoin decode policy current w =
     (case validate_target dns current policy w of
        (Inl e, w') \<Rightarrow> (Inl e, w')
      | (Inr target, w') \<Rightarrow>
          (case load_curl of
             Inl e \<Rightarrow> (Inl e, w')
           | Inr _ \<Rightarrow>
               (case get (resolve_entry target) current w' of
                  (Inl e, w'') \<Rightarrow> (Inl e, w'')
                | (Inr resp, w'') \<Rightarrow>
                    (if resp_status resp \<in> set REDIRECT_CODES
                     then follow_redirect urljoin current resp
                     else read_result decode ''tls'' resp, w''))))"

definition tls_fetch ::
  "'w resolver \<Rightarrow> unit result \<Rightarrow> 'w tls_get \<Rightarrow> (string \<Rightarrow> string \<Rightarrow> string)
    \<Rightarrow> (string \<Rightarrow> string \<Rightarrow> string result) \<Rightarrow> domain_policy \<Rightarrow> 'w fetcher" where
  "tls_fetch dns load_curl get urljoin decode policy =
     fetch_loop (tls_hop dns load_curl get urljoin decode policy) (MAX_REDIRECTS + 1)"

section \<open>The capped read\<close>

lemma read_chunks_bound:
  "read_chunks cs tot acc = Inr out \<Longrightarrow> tot = length (concat acc) \<Longrightarrow> tot \<le> MAX_HTML_BYTES
   \<Longrightarrow> length (concat out) \<le> MAX_HTML_BYTES"
proof (induction cs tot acc rule: read_chunks.induct)
  case (3 chunk rest tot chunks)
  then show ?case by (cases "chunk = []") (auto split: if_splits)
qed auto

definition body_capped :: "(string \<Rightarrow> string \<Rightarrow> string result) \<Rightarrow> fetch_result \<Rightarrow> bool" where
  "body_capped decode r \<longleftrightarrow>
     (\<exists>enc bytes. length bytes \<le> MAX_HTML_BYTES \<and> decode enc bytes = Inr (html r))
     \<and> challenged r = looks_challenged (status_code r) (html r)"

lemma read_result_capped:
  assumes "read_result decode tier resp = Inr (Done r)"
  shows "body_capped decode r"
proof -
  obtain body where t: "read_capped decode resp = Inr body"
    and r: "html r = body" "status_code r = resp_status resp"
      "challenged r = looks_challenged (resp_status resp) body"
    using assms by (auto simp: read_result_def bindE_Inr_iff)
  obtain chunks where "read_chunks (resp_chunks resp) 0 [] = Inr chunks"
    and d: "\<exists>enc. decode enc (concat chunks) = Inr body"
    using t by (auto simp: read_capped_def bindE_Inr_iff Let_def)
  then have "length (concat chunks) \<le> MAX_HTML_BYTES"
    by (auto dest: read_chunks_bound)
  with d r show ?thesis by (auto simp: body_capped_def)
qed

lemma read_result_not_follow [simp]: "read_result decode tier resp \<noteq> Inr (Follow u)"
  by (auto simp: read_result_def bindE_Inr_iff)

lemma follow_redirect_not_done [simp]: "follow_redirect urljoin current resp \<noteq> Inr (Done r)"
  by (simp add: follow_redirect_def)

section \<open>The contract of a guarded hop\<close>

text \<open>
  A world with a log of the connections opened: the answers come from the inner world, each call
  of \<open>get\<close> is recorded. A hop is guarded when it opens at most one connection, a good one, and
  when the body it returns was read under the cap. The loop then inherits both.
\<close>

definition with_log :: "('a \<Rightarrow> 'b \<Rightarrow> 'w \<Rightarrow> 'r \<times> 'w) \<Rightarrow> 'a \<Rightarrow> 'b \<Rightarrow> 'w \<times> 'l list \<Rightarrow> 'r \<times> ('w \<times> 'l list)" where
  "with_log f a b wl = (let (r, w') = f a b (fst wl) in (r, (w', snd wl)))"

definition logging_get ::
  "('c \<Rightarrow> string \<Rightarrow> 'w \<Rightarrow> 'r \<times> 'w) \<Rightarrow> 'c \<Rightarrow> string \<Rightarrow> 'w \<times> ('c \<times> string) list
    \<Rightarrow> 'r \<times> ('w \<times> ('c \<times> string) list)" where
  "logging_get get c url wl = (let (r, w') = get c url (fst wl) in (r, (w', snd wl @ [(c, url)])))"

locale guarded_hop =
  fixes hop :: "('w \<times> 'l list) hop"
    and good :: "'l \<Rightarrow> bool"
    and result_ok :: "fetch_result \<Rightarrow> bool"
  assumes hop_log: "hop u (w, l) = (r, (w', l')) \<Longrightarrow>
      \<exists>ds. l' = l @ ds \<and> length ds \<le> 1 \<and> list_all good ds"
    and hop_done: "hop u wl = (Inr (Done fr), wl') \<Longrightarrow> result_ok fr"
begin

lemma loop_log:
  "fetch_loop hop n u (w, l) = (r, (w', l')) \<Longrightarrow>
     \<exists>ds. l' = l @ ds \<and> length ds \<le> n \<and> list_all good ds"
proof (induction n arbitrary: u w l)
  case (Suc n)
  obtain h w1 l1 where h: "hop u (w, l) = (h, (w1, l1))" by (metis surj_pair)
  obtain d1 where d1: "l1 = l @ d1" "length d1 \<le> 1" "list_all good d1"
    using hop_log [OF h] by blast
  show ?case
  proof (cases "\<exists>u'. h = Inr (Follow u')")
    case True
    then obtain u' where "fetch_loop hop n u' (w1, l1) = (r, (w', l'))"
      using Suc.prems h by auto
    from Suc.IH [OF this] obtain d2
      where "l' = l1 @ d2" "length d2 \<le> n" "list_all good d2" by blast
    with d1 show ?thesis by (intro exI [of _ "d1 @ d2"]) auto
  next
    case False
    then have "l' = l1"
      using Suc.prems h by (auto split: sum.splits hop_outcome.splits)
    with d1 show ?thesis by auto
  qed
qed auto

lemma loop_done: "fetch_loop hop n u wl = (Inr fr, wl') \<Longrightarrow> result_ok fr"
proof (induction n arbitrary: u wl)
  case (Suc n)
  then show ?case
    by (auto split: prod.splits sum.splits hop_outcome.splits dest: hop_done)
qed auto

end

section \<open>Both tiers are guarded\<close>

text \<open>The target of a connection: what \<^const>\<open>validate_target\<close> returned for the URL of the hop.\<close>

definition target_ok :: "domain_policy \<Rightarrow> validated_target \<Rightarrow> bool" where
  "target_ok policy t \<longleftrightarrow> policy (vt_host t) \<and> vt_scheme t \<in> {''http'', ''https''}
     \<and> ip_is_safe (vt_ip t) \<and> 0 < vt_port t \<and> vt_port t \<le> 65535"

definition http_conn_ok :: "(string \<Rightarrow> string) \<Rightarrow> domain_policy \<Rightarrow> connection \<times> string \<Rightarrow> bool" where
  "http_conn_ok prepare policy cu \<longleftrightarrow>
     (\<exists>t. target_ok policy t \<and> vt_url t = snd cu \<and> fst cu = select_connection t (prepare (snd cu)))"

definition tls_conn_ok :: "domain_policy \<Rightarrow> string \<times> string \<Rightarrow> bool" where
  "tls_conn_ok policy cu \<longleftrightarrow>
     (\<exists>t. target_ok policy t \<and> vt_url t = snd cu \<and> fst cu = resolve_entry t)"

lemma http_conn_ok_Pair:
  "http_conn_ok prepare policy (c, u) \<longleftrightarrow>
     (\<exists>t. target_ok policy t \<and> vt_url t = u
        \<and> (mounted (mount_prefix t) (prepare u) \<and> c = Pinned (vt_ip t) (vt_port t) (vt_host t)
           \<or> \<not> mounted (mount_prefix t) (prepare u) \<and> c = Unpinned (prepare u)))"
  by (auto simp: http_conn_ok_def select_connection_def split: if_splits)

lemma validate_target_ok:
  assumes "validate_target dns u policy w = (Inr t, w')"
  shows "target_ok policy t \<and> vt_url t = u"
  using validate_target_Inr [OF assms] by (auto simp: target_ok_def)

lemma with_log_Pair: "with_log f a b (w, l) = (r, wl') \<longleftrightarrow> (\<exists>w'. f a b w = (r, w') \<and> wl' = (w', l))"
  by (cases "f a b w") (auto simp: with_log_def)

lemma logging_get_Pair:
  "logging_get get c u (w, l) = (r, wl') \<longleftrightarrow>
     (\<exists>w'. get c u w = (r, w') \<and> wl' = (w', l @ [(c, u)]))"
  by (cases "get c u w") (auto simp: logging_get_def)

text \<open>The resolver of a logging world answers as the inner one, so the guard does too and leaves
  the log alone.\<close>

lemma validate_target_with_log:
  "validate_target (with_log dns) u policy (w, l) =
     (let (r, w') = validate_target dns u policy w in (r, (w', l)))"
  by (auto simp: validate_target_def resolve_and_check_def with_log_def Let_def
           split: sum.splits prod.splits option.splits)

lemma http_hop_log:
  assumes "http_hop (with_log dns) prepare (logging_get get) urljoin decode policy u (w, l)
             = (r, (w', l'))"
  shows "\<exists>ds. l' = l @ ds \<and> length ds \<le> 1 \<and> list_all (http_conn_ok prepare policy) ds"
proof (cases "validate_target dns u policy w")
  case (Pair v w1)
  show ?thesis
  proof (cases v)
    case (Inl e)
    with assms Pair show ?thesis by (simp add: http_hop_def validate_target_with_log)
  next
    case (Inr t)
    have "http_conn_ok prepare policy (select_connection t (prepare u), u)"
      using validate_target_ok [OF Pair [unfolded Inr]] by (auto simp: http_conn_ok_def)
    moreover have "l' = l @ [(select_connection t (prepare u), u)]"
      using assms Pair Inr
      by (auto simp: http_hop_def validate_target_with_log logging_get_def
               split: prod.splits sum.splits)
    ultimately show ?thesis by auto
  qed
qed

lemma tls_hop_log:
  assumes "tls_hop (with_log dns) load (logging_get get) urljoin decode policy u (w, l)
             = (r, (w', l'))"
  shows "\<exists>ds. l' = l @ ds \<and> length ds \<le> 1 \<and> list_all (tls_conn_ok policy) ds"
proof (cases "validate_target dns u policy w")
  case (Pair v w1)
  show ?thesis
  proof (cases v)
    case (Inl e)
    with assms Pair show ?thesis by (simp add: tls_hop_def validate_target_with_log)
  next
    case (Inr t)
    have "tls_conn_ok policy (resolve_entry t, u)"
      using validate_target_ok [OF Pair [unfolded Inr]] by (auto simp: tls_conn_ok_def)
    moreover have "l' = l \<or> l' = l @ [(resolve_entry t, u)]"
      using assms Pair Inr
      by (auto simp: tls_hop_def validate_target_with_log logging_get_def
               split: prod.splits sum.splits)
    ultimately show ?thesis by auto
  qed
qed

lemma http_hop_done:
  "http_hop dns prepare get urljoin decode policy u w = (Inr (Done fr), w') \<Longrightarrow>
     body_capped decode fr \<and> fr_method fr = ''http''"
  by (auto simp: http_hop_def read_result_capped split: prod.splits sum.splits if_splits)
    (auto simp: read_result_def bindE_Inr_iff)

lemma tls_hop_done:
  "tls_hop dns load get urljoin decode policy u w = (Inr (Done fr), w') \<Longrightarrow>
     body_capped decode fr \<and> fr_method fr = ''tls''"
  by (auto simp: tls_hop_def read_result_capped split: prod.splits sum.splits if_splits)
    (auto simp: read_result_def bindE_Inr_iff)

interpretation http_tier: guarded_hop
  "http_hop (with_log dns) prepare (logging_get get) urljoin decode policy"
  "http_conn_ok prepare policy" "\<lambda>fr. body_capped decode fr \<and> fr_method fr = ''http''"
  for dns prepare get urljoin decode policy
proof (unfold_locales, goal_cases)
  case 1
  then show ?case by (rule http_hop_log)
next
  case 2
  then show ?case by (rule http_hop_done)
qed

interpretation tls_tier: guarded_hop
  "tls_hop (with_log dns) load (logging_get get) urljoin decode policy"
  "tls_conn_ok policy" "\<lambda>fr. body_capped decode fr \<and> fr_method fr = ''tls''"
  for dns load get urljoin decode policy
proof (unfold_locales, goal_cases)
  case 1
  then show ?case by (rule tls_hop_log)
next
  case 2
  then show ?case by (rule tls_hop_done)
qed

section \<open>Properties\<close>


text \<open>The first page redirects to the metadata address of a cloud host.\<close>

definition public_dns :: "nat resolver" where
  "public_dns h p w = (Inr [''8.8.8.8''], Suc w)"

definition metadata_redirect :: response where
  "metadata_redirect = \<lparr> resp_status = 302, resp_is_redirect = True,
     resp_location = Some ''http://169.254.169.254/'', resp_chunks = [], resp_encoding = None \<rparr>"

definition kabum_url :: string where
  "kabum_url = ''https://www.kabum.com.br/p/1''"


text \<open>The tls tier under the same conditions: at most six connections, each for a URL that
  passed the guard at that hop, each with a resolver entry for the checked host, port and
  address; and without curl_cffi no connection is opened at all.\<close>

theorem tls_fetch_guarded:
  assumes "tls_fetch (with_log dns) load_curl (logging_get get) urljoin decode policy url (w, [])
             = (res, (w', conns))"
  shows "length conns \<le> 6
    \<and> (\<forall>(c, u) \<in> set conns. \<exists>t. target_ok policy t \<and> vt_url t = u \<and> c = resolve_entry t)
    \<and> (\<forall>r. res = Inr r \<longrightarrow> body_capped decode r \<and> fr_method r = ''tls'')
    \<and> (\<forall>e. load_curl = Inl e \<longrightarrow> conns = [])"
proof -
  obtain ds where "conns = ds" "length ds \<le> 6" "list_all (tls_conn_ok policy) ds"
    using tls_tier.loop_log [OF assms [unfolded tls_fetch_def]]
    by (auto simp: MAX_REDIRECTS_def)
  moreover have "body_capped decode r \<and> fr_method r = ''tls''" if "res = Inr r" for r
    using tls_tier.loop_done [OF assms [unfolded tls_fetch_def that]] .
  moreover have "conns = []" if "load_curl = Inl e" for e
    using assms that
    by (auto simp: tls_fetch_def eval_nat_numeral MAX_REDIRECTS_def tls_hop_def
             validate_target_with_log split: prod.splits sum.splits)
  ultimately show ?thesis
    by (fastforce simp: list_all_iff tls_conn_ok_def)
qed

theorem tls_fetch_guarded_witness:
  "\<exists>e w'. tls_fetch (with_log public_dns) (Inr ()) (logging_get (\<lambda>c u w. (Inr metadata_redirect, w)))
       (\<lambda>base loc. loc) (\<lambda>enc b. Inr b) DEFAULT_DOMAIN_POLICY kabum_url (0, [])
     = (Inl (SSRFError e), (w', [(''www.kabum.com.br:443:8.8.8.8'', kabum_url)]))
   \<and> (\<exists>t. target_ok DEFAULT_DOMAIN_POLICY t \<and> vt_url t = kabum_url
        \<and> resolve_entry t = ''www.kabum.com.br:443:8.8.8.8'')"
proof -
  have ev: "tls_fetch (with_log public_dns) (Inr ())
       (logging_get (\<lambda>c u w. (Inr metadata_redirect, w)))
       (\<lambda>base loc. loc) (\<lambda>enc b. Inr b) DEFAULT_DOMAIN_POLICY kabum_url (0, [])
     = (Inl (SSRFError (''domain not in allowlist: '' @ py_repr ''169.254.169.254'')),
        (1, [(''www.kabum.com.br:443:8.8.8.8'', kabum_url)]))"
    by code_simp
  show ?thesis using ev tls_fetch_guarded [OF ev] by auto
qed

section \<open>When the http pin applies\<close>

lemma lower_char_idem [simp]: "lower_char (lower_char c) = lower_char c"
proof -
  have "code c < 256" by (simp add: code_def)
  then show ?thesis
    by (auto simp: lower_char_def is_ascii_upper_def code_def)
qed

lemma py_lower_idem [simp]: "py_lower (py_lower s) = py_lower s"
  by (simp add: py_lower_def)

lemma py_lower_append [simp]: "py_lower (a @ b) = py_lower a @ py_lower b"
  by (simp add: py_lower_def)

lemma py_lower_sep [simp]: "py_lower ''://'' = ''://''" "py_lower '':'' = '':''" "py_lower ''//'' = ''//''"
  by (simp_all add: py_lower_def lower_char_def is_ascii_upper_def code_def)

lemma py_partition_join:
  "py_partition c s = (a, f, b) \<Longrightarrow> s = a @ (if f then c # b else [])"
proof (cases "c \<in> set s")
  case True
  assume p: "py_partition c s = (a, f, b)"
  have "dropWhile (\<lambda>x. x \<noteq> c) s \<noteq> [] \<and> hd (dropWhile (\<lambda>x. x \<noteq> c) s) = c"
    using True by (induction s) auto
  then have "dropWhile (\<lambda>x. x \<noteq> c) s = c # tl (dropWhile (\<lambda>x. x \<noteq> c) s)"
    by (metis list.collapse)
  then show ?thesis
    using p True takeWhile_dropWhile_id [of "\<lambda>x. x \<noteq> c" s]
    by (auto simp: py_partition_def)
qed (auto simp: py_partition_def)

lemma hostinfo_prefix:
  assumes "CHR ''@'' \<notin> set netloc" and "CHR ''['' \<notin> set netloc"
  shows "\<exists>q. netloc = fst (hostinfo netloc) @ q"
proof -
  obtain h f p where "py_partition (CHR '':'') netloc = (h, f, p)" by (metis surj_pair)
  then show ?thesis
    using assms py_partition_join [of "CHR '':''" netloc h f p]
    by (auto simp: hostinfo_def py_rpartition_def py_partition_no Let_def)
qed

lemma py_lower_hostname:
  assumes "url_hostname u = Some host"
  shows "py_lower host = py_lower (fst (hostinfo (url_netloc u)))"
proof -
  obtain a f b where p: "py_partition (CHR ''%'') (fst (hostinfo (url_netloc u))) = (a, f, b)"
    by (metis surj_pair)
  then have "host = py_lower a @ (if f then CHR ''%'' # b else [])"
    using assms by (auto simp: url_hostname_def Let_def split: if_splits)
  with py_partition_join [OF p] show ?thesis
    by (simp add: py_lower_def)
qed

lemma rfc3986_urlsplit:
  assumes "list_all rfc3986_safe url"
  shows "filter (\<lambda>c. c \<notin> {CHR 0x09, CHR 0x0A, CHR 0x0D}) (dropWhile (\<lambda>c. code c \<le> 32) url) = url"
proof -
  have big: "32 < code c" if "rfc3986_safe c" for c
    using that
    by (auto simp: rfc3986_safe_def is_ascii_alnum_def is_ascii_alpha_def is_ascii_lower_def
        is_ascii_upper_def is_ascii_digit_def code_def)
  have drop: "dropWhile (\<lambda>c. code c \<le> 32) url = url"
    using assms big by (cases url) (auto dest!: big)
  have "c \<notin> {CHR 0x09, CHR 0x0A, CHR 0x0D}" if "c \<in> set url" for c
    using big [of c] assms that by (auto simp: list_all_iff code_def)
  then have "filter (\<lambda>c. c \<notin> {CHR 0x09, CHR 0x0A, CHR 0x0D}) url = url"
    by (auto simp: filter_id_conv)
  with drop show ?thesis by simp
qed

lemma split_scheme_join:
  assumes "split_scheme url = (scheme, rest)" "scheme \<noteq> []"
  shows "\<exists>pre. url = pre @ '':'' @ rest \<and> scheme = py_lower pre"
proof -
  obtain pre f r where p: "py_partition (CHR '':'') url = (pre, f, r)" by (metis surj_pair)
  with assms py_partition_join [OF p] show ?thesis
    by (auto simp: split_scheme_def split: if_splits)
qed

text \<open>The pin of the http tier holds for every URL without userinfo and without brackets that
  passes the guard: the prefix the pinned adapter is mounted for, \<open>scheme://host\<close>, is a prefix of
  the URL, so the session picks that adapter.\<close>

theorem http_pin_applies:
  assumes "check_scheme_and_domain url policy = Inr (scheme, host)"
    and "CHR ''@'' \<notin> set url" and "CHR ''['' \<notin> set url"
  shows "mounted (scheme @ ''://'' @ host) url"
proof -
  have safe: "list_all rfc3986_safe url" and s: "scheme \<in> {''http'', ''https''}" and h: "host \<noteq> []"
    using check_scheme_and_domain_Inr [OF assms(1)] by auto
  obtain u where u: "urlsplit url = Inr u" and sch: "scheme = py_lower (url_scheme u)"
    and host: "url_hostname u = Some host"
    using assms(1)
    by (auto simp: check_scheme_and_domain_def bindE_Inr_iff Let_def split: if_splits option.splits)
  obtain sc rest where sp: "split_scheme url = (sc, rest)" by (cases "split_scheme url")
  have us: "url_scheme u = sc"
    and un: "url_netloc u = (if starts_with ''//'' rest
        then takeWhile (\<lambda>c. c \<notin> {CHR ''/'', CHR ''?'', CHR ''#''}) (drop 2 rest) else [])"
    using u sp rfc3986_urlsplit [OF safe]
    by (auto simp: urlsplit_def Let_def split: if_splits)
  have "sc \<noteq> []" using s sch us by (auto simp: py_lower_def)
  then obtain pre where url: "url = pre @ '':'' @ rest" and sc: "sc = py_lower pre"
    using split_scheme_join [OF sp] by blast
  have "url_netloc u \<noteq> []"
    using host by (auto simp: url_hostname_def hostinfo_def py_rpartition_def py_partition_def Let_def)
  then obtain r where rest: "rest = ''//'' @ r"
    and net: "url_netloc u = takeWhile (\<lambda>c. c \<notin> {CHR ''/'', CHR ''?'', CHR ''#''}) r"
    using un by (auto simp: starts_with_iff split: if_splits)
  obtain r' where r: "r = url_netloc u @ r'"
    using net by (metis takeWhile_dropWhile_id)
  have "CHR ''@'' \<notin> set (url_netloc u)" "CHR ''['' \<notin> set (url_netloc u)"
    using assms(2,3) url rest r by auto
  then obtain q where q: "url_netloc u = fst (hostinfo (url_netloc u)) @ q"
    using hostinfo_prefix by blast
  have "py_lower url = py_lower pre @ ''://'' @ py_lower (fst (hostinfo (url_netloc u)))
          @ py_lower q @ py_lower r'"
    unfolding url rest r by (subst q) (simp del: append.simps append_Cons)
  moreover have "py_lower (scheme @ ''://'' @ host)
      = py_lower pre @ ''://'' @ py_lower (fst (hostinfo (url_netloc u)))"
    using sch us sc py_lower_hostname [OF host] by (simp del: append.simps append_Cons)
  ultimately show ?thesis by (auto simp: mounted_def starts_with_iff)
qed

theorem http_pin_applies_witness:
  "mounted ''https://www.kabum.com.br'' ''HTTPS://WWW.kabum.com.br:443/p''"
proof -
  have "check_scheme_and_domain ''HTTPS://WWW.kabum.com.br:443/p'' DEFAULT_DOMAIN_POLICY
          = Inr (''https'', ''www.kabum.com.br'')" by code_simp
  from http_pin_applies [OF this] show ?thesis by simp
qed

text \<open>With userinfo the guard accepts the URL and the prefix does not match: the request goes
  through the default adapter, which resolves the name again.\<close>

lemma userinfo_drops_the_pin:
  "(let url = ''https://user@www.kabum.com.br/p''
    in check_scheme_and_domain url DEFAULT_DOMAIN_POLICY = Inr (''https'', ''www.kabum.com.br'')
       \<and> \<not> mounted (''https'' @ ''://'' @ ''www.kabum.com.br'') url)"
  by code_simp

section \<open>The resolver entry of the tls tier\<close>

text \<open>How libcurl reads \<open>HOST:PORT:ADDRESS\<close>: two colons delimit the host and the port, an
  address in brackets loses them.\<close>

definition read_resolve_entry :: "string \<Rightarrow> string \<times> string \<times> string" where
  "read_resolve_entry s =
     (let (h, _, rest) = py_partition (CHR '':'') s;
          (p, _, a) = py_partition (CHR '':'') rest
      in (h, p, if starts_with ''['' a then butlast (tl a) else a))"

lemma safe_ip_not_bracketed:
  assumes "ip_is_safe a" "CHR '':'' \<notin> set a"
  shows "\<not> starts_with ''['' a"
proof
  assume "starts_with ''['' a"
  then obtain x where a: "a = CHR ''['' # x" by (auto simp: starts_with_iff)
  obtain s f r where p: "py_partition (CHR ''%'') a = (s, f, r)" by (metis surj_pair)
  have "CHR '':'' \<notin> set s" using py_partition_join [OF p] assms(2) by auto
  then have "parse_ipv6 a = None"
    using p by (simp add: parse_ipv6_def ipv6_parts_def split_on_id Let_def)
  moreover have "parse_ipv4 a = None"
    by (cases "split_on (CHR ''.'') x")
      (simp_all add: a parse_ipv4_def parse_octet_def is_ascii_digit_def code_def)
  ultimately show False using assms(1) by (simp add: ip_is_safe_def ip_address_def)
qed

text \<open>Libcurl reads back from the resolver entry the host, the port and the address that were
  checked, IPv6 addresses included, so the pin is never dropped for a malformed entry.\<close>

theorem resolve_entry_roundtrip:
  assumes "CHR '':'' \<notin> set (vt_host t)" and "ip_is_safe (vt_ip t)"
  shows "read_resolve_entry (resolve_entry t) = (vt_host t, string_of_nat (vt_port t), vt_ip t)"
proof -
  have "CHR '':'' \<notin> set (string_of_nat (vt_port t))"
    using string_of_nat_digits [of "vt_port t"]
    by (auto simp: list_all_iff is_ascii_digit_def code_def)
  then show ?thesis
    using assms safe_ip_not_bracketed [of "vt_ip t"]
    by (auto simp: read_resolve_entry_def resolve_entry_def py_partition_append Let_def
        starts_with_iff)
qed

theorem resolve_entry_roundtrip_witness:
  "let t = \<lparr> vt_url = kabum_url, vt_scheme = ''https'', vt_host = ''kabum.com.br'', vt_port = 443,
             vt_ip = ''1.2.3.4'' \<rparr>
   in read_resolve_entry (resolve_entry t) = (''kabum.com.br'', ''443'', ''1.2.3.4'')"
proof -
  have "ip_is_safe ''1.2.3.4''" by code_simp
  moreover have "string_of_nat 443 = ''443''" by code_simp
  ultimately show ?thesis
    using resolve_entry_roundtrip [of "\<lparr> vt_url = kabum_url, vt_scheme = ''https'',
      vt_host = ''kabum.com.br'', vt_port = 443, vt_ip = ''1.2.3.4'' \<rparr>"] by simp
qed

end
