(* ===== verification/Egress_Proxy.thy ===== *)
theory Egress_Proxy
  imports Ssrf_Guard
begin

text \<open>
  The loopback forward proxy the browser tiers are pointed at (\<open>autolycos/egress_proxy.py\<close>).
  One connection is handled by one thread that shares nothing with the others, so the model is
  the handler of one client: what it reads from the socket, the checks it makes, and the trace of
  what it does to the outside. Bytes are characters below 256.

  The socket, the resolver and the dialer are parameters, collected in \<open>proxy_env\<close>: what
  successive \<open>recv\<close> calls give (the end of the list is a peer that closed), what
  \<open>sendall\<close>, \<open>getaddrinfo\<close> and the dial answer or raise.
\<close>

section \<open>Constants and launch arguments\<close>

definition CRLF :: string where
  "CRLF = [CHR 0x0D, CHR 0x0A]"

definition CONNECT_OK :: string where
  "CONNECT_OK = ''HTTP/1.1 200 Connection established'' @ CRLF @ CRLF"

definition BLOCKED :: string where
  "BLOCKED = ''HTTP/1.1 403 Forbidden'' @ CRLF @ ''Content-Length: 11'' @ CRLF @ CRLF @ ''URL blocked''"

definition BAD :: string where
  "BAD = ''HTTP/1.1 400 Bad Request'' @ CRLF @ ''Content-Length: 11'' @ CRLF @ CRLF @ ''Bad Request''"

definition ALLOWED_CONNECT_PORTS :: "int list" where
  "ALLOWED_CONNECT_PORTS = [80, 443]"

definition MAX_HEADER_BYTES :: nat where
  "MAX_HEADER_BYTES = 64 * 1024"

definition DANGEROUS_BROWSER_ARGS :: "string list" where
  "DANGEROUS_BROWSER_ARGS =
     [''--proxy-server'', ''--proxy-pac-url'', ''--proxy-bypass-list'',
      ''--host-resolver-rules'', ''--ignore-certificate-errors'',
      ''--allow-insecure-localhost'']"

definition strip_dangerous_browser_args :: "string list \<Rightarrow> string list" where
  "strip_dangerous_browser_args args =
     filter (\<lambda>a. \<not> list_ex (\<lambda>bad. starts_with bad a) DANGEROUS_BROWSER_ARGS) args"

definition loopback_client :: "string \<Rightarrow> bool" where
  "loopback_client host = (case ip_address host of None \<Rightarrow> False | Some ip \<Rightarrow> is_loopback ip)"

section \<open>Reading the request\<close>

text \<open>\<open>s.partition(p)\<close> for a separator string, and \<open>bytes.split()\<close>.\<close>

definition cut_at :: "string \<Rightarrow> string \<Rightarrow> string \<times> string" where
  "cut_at p s = (case py_find p s of
                   Some i \<Rightarrow> (take i s, drop (i + length p) s)
                 | None \<Rightarrow> (s, []))"

definition byte_isspace :: "char \<Rightarrow> bool" where
  "byte_isspace c \<longleftrightarrow> (9 \<le> code c \<and> code c \<le> 13) \<or> code c = 32"

fun bytes_split :: "string \<Rightarrow> string \<Rightarrow> string list" where
  "bytes_split [] word = (if word = [] then [] else [word])"
| "bytes_split (c # cs) word =
     (if byte_isspace c
      then (if word = [] then bytes_split cs [] else word # bytes_split cs [])
      else bytes_split cs (word @ [c]))"

definition bytes_upper :: "string \<Rightarrow> string" where
  "bytes_upper = map (\<lambda>c. if is_ascii_lower c then char_of (code c - 32) else c)"

fun read_head :: "string result list \<Rightarrow> string \<Rightarrow> (string \<times> string) result" where
  "read_head recvs buf =
     (if contains (CRLF @ CRLF) buf then Inr (cut_at (CRLF @ CRLF) buf)
      else if length buf > MAX_HEADER_BYTES then Inr ([], [])
      else (case recvs of
              [] \<Rightarrow> Inr ([], [])
            | Inl e # _ \<Rightarrow> Inl e
            | Inr chunk # rest \<Rightarrow> if chunk = [] then Inr ([], []) else read_head rest (buf @ chunk)))"

declare read_head.simps [simp del]

text \<open>The pair \<open>(None, None)\<close> is \<^const>\<open>None\<close>; \<open>int()\<close> may raise.\<close>

definition parse_authority :: "string \<Rightarrow> (string \<times> int) option result" where
  "parse_authority target =
     (let (host, _, port_s) = py_rpartition (CHR '':'') target
      in if host = [] \<or> \<not> py_isdigit port_s then Inr None
         else let host' = (if starts_with ''['' host \<and> ends_with '']'' host
                           then butlast (tl host) else host)
              in bindE (py_int port_s) (\<lambda>port. Inr (Some (host', port))))"

section \<open>Handling one connection\<close>

datatype event =
    Sent string \<comment> \<open>to the client\<close>
  | Resolved string nat
  | Dialled string nat
  | SentUp string \<comment> \<open>to the upstream\<close>
  | Spliced
  | ClosedUp
  | ClosedClient

record proxy_env =
  env_recv :: "string result list"
  env_send :: "string \<Rightarrow> unit result"
  env_dns :: "string \<Rightarrow> nat \<Rightarrow> string list result"
  env_dial :: "string \<Rightarrow> nat \<Rightarrow> unit result"
  env_sendup :: "string \<Rightarrow> unit result"

type_synonym trace = "event list"

text \<open>The resolution, on the trace.\<close>

definition dns_on_trace :: "proxy_env \<Rightarrow> trace resolver" where
  "dns_on_trace env h p tr = (env_dns env h p, tr @ [Resolved h p])"

definition unicode_error :: "exn \<Rightarrow> bool" where
  "unicode_error e = (exn_name e \<in> set [''UnicodeError'', ''UnicodeEncodeError''])"

text \<open>The tunnel once the upstream is connected; \<open>finally\<close> closes the upstream.\<close>

definition tunnel :: "proxy_env \<Rightarrow> string \<Rightarrow> trace \<Rightarrow> unit result \<times> trace" where
  "tunnel env leftover tr =
     (let tr1 = tr @ [Sent CONNECT_OK]
      in case env_send env CONNECT_OK of
           Inl e \<Rightarrow> (Inl e, tr1 @ [ClosedUp])
         | Inr _ \<Rightarrow>
             if leftover = [] then (Inr (), tr1 @ [Spliced, ClosedUp])
             else (case env_sendup env leftover of
                     Inl e \<Rightarrow> (Inl e, tr1 @ [SentUp leftover, ClosedUp])
                   | Inr _ \<Rightarrow> (Inr (), tr1 @ [SentUp leftover, Spliced, ClosedUp])))"

definition dial_pinned :: "proxy_env \<Rightarrow> string \<Rightarrow> string \<Rightarrow> nat \<Rightarrow> unit result \<times> trace" where
  "dial_pinned env leftover domain port =
     (case resolve_and_pin (dns_on_trace env) domain port [] of
        (Inl e, tr) \<Rightarrow>
          if is_fetch_error e \<or> is_value_error e \<or> unicode_error e then (Inr (), tr @ [Sent BLOCKED])
          else (Inl e, tr)
      | (Inr pin, tr) \<Rightarrow>
          (case env_dial env (pa_ip pin) port of
             Inl e \<Rightarrow> if is_os_error e then (Inr (), tr @ [Dialled (pa_ip pin) port, Sent BLOCKED])
                      else (Inl e, tr @ [Dialled (pa_ip pin) port])
           | Inr _ \<Rightarrow> tunnel env leftover (tr @ [Dialled (pa_ip pin) port])))"

definition handle_request ::
  "(string \<Rightarrow> bool) \<Rightarrow> proxy_env \<Rightarrow> string \<Rightarrow> string \<Rightarrow> unit result \<times> trace" where
  "handle_request allowed env head leftover =
     (let parts = bytes_split (fst (cut_at CRLF head)) []
      in if length parts < 3 \<or> bytes_upper (parts ! 0) \<noteq> ''CONNECT'' then (Inr (), [Sent BAD])
         else case parse_authority (parts ! 1) of
           Inl e \<Rightarrow> (Inl e, [])
         | Inr None \<Rightarrow> (Inr (), [Sent BAD])
         | Inr (Some (host, port)) \<Rightarrow>
             (let domain = rstrip_chars ''.'' (py_lower host)
              in if \<not> allowed domain then (Inr (), [Sent BLOCKED])
                 else if port \<notin> set ALLOWED_CONNECT_PORTS then (Inr (), [Sent BLOCKED])
                 else dial_pinned env leftover domain (nat port)))"

text \<open>The whole handler. The outer \<open>except\<close> swallows an OSError; anything else leaves the
  thread, after the \<open>finally\<close> closed the client.\<close>

definition handle :: "(string \<Rightarrow> bool) \<Rightarrow> proxy_env \<Rightarrow> exn option \<times> trace" where
  "handle allowed env =
     (let (res, tr) =
        (case read_head (env_recv env) [] of
           Inl e \<Rightarrow> (Inl e, [])
         | Inr (head, leftover) \<Rightarrow>
             if head = [] then (Inr (), []) else handle_request allowed env head leftover)
      in (case res of
            Inr _ \<Rightarrow> None
          | Inl e \<Rightarrow> if is_os_error e then None else Some e, tr @ [ClosedClient]))"

text \<open>The accept loop: a client that is not on the loopback is closed at once, an accept that
  raises ends the loop.\<close>

fun serve :: "(string \<Rightarrow> bool) \<Rightarrow> (string \<times> proxy_env) result list \<Rightarrow> trace list" where
  "serve allowed [] = []"
| "serve allowed (Inl e # rest) = []"
| "serve allowed (Inr (addr, env) # rest) =
     (if \<not> loopback_client addr then [ClosedClient] else snd (handle allowed env)) # serve allowed rest"

text \<open>One direction of the splice: chunks are forwarded until the source ends or either side
  raises.\<close>

fun pipe :: "string result list \<Rightarrow> (string \<Rightarrow> unit result) \<Rightarrow> string list" where
  "pipe [] send = []"
| "pipe (Inl e # rest) send = []"
| "pipe (Inr data # rest) send =
     (if data = [] then []
      else case send data of Inl e \<Rightarrow> [] | Inr _ \<Rightarrow> data # pipe rest send)"

section \<open>What the handler does to the network\<close>

definition allowed_dial :: "(string \<Rightarrow> bool) \<Rightarrow> proxy_env \<Rightarrow> string \<Rightarrow> string \<Rightarrow> nat \<Rightarrow> bool" where
  "allowed_dial allowed env domain ip port \<longleftrightarrow>
     allowed domain \<and> port \<in> {80, 443} \<and> ip_is_safe ip
     \<and> (\<exists>addrs. env_dns env domain port = Inr addrs \<and> addrs \<noteq> [] \<and> ip = hd addrs
          \<and> (\<forall>a \<in> set addrs. ip_is_safe a))"

fun is_resolved :: "event \<Rightarrow> bool" where
  "is_resolved (Resolved h p) = True"
| "is_resolved _ = False"

fun is_dialled :: "event \<Rightarrow> bool" where
  "is_dialled (Dialled i p) = True"
| "is_dialled _ = False"

text \<open>The shapes of a trace: refused or dropped before any name is resolved, refused after the
  one resolution, or dialled.\<close>

inductive good_trace :: "(string \<Rightarrow> bool) \<Rightarrow> proxy_env \<Rightarrow> trace \<Rightarrow> bool"
  for allowed env where
  quiet: "set tr \<subseteq> {Sent BAD, Sent BLOCKED} \<Longrightarrow> good_trace allowed env tr"
| resolved: "allowed h \<Longrightarrow> p \<in> {80, 443} \<Longrightarrow> set tr \<subseteq> {Sent BLOCKED}
    \<Longrightarrow> good_trace allowed env (Resolved h p # tr)"
| dialled: "allowed_dial allowed env h ip p
    \<Longrightarrow> list_all (\<lambda>e. \<not> is_resolved e \<and> \<not> is_dialled e) tr
    \<Longrightarrow> good_trace allowed env (Resolved h p # Dialled ip p # tr)"

lemma tunnel_trace:
  "\<exists>tl. snd (tunnel env leftover tr) = tr @ tl
     \<and> list_all (\<lambda>e. \<not> is_resolved e \<and> \<not> is_dialled e) tl"
  by (auto simp: tunnel_def Let_def split: sum.splits)

lemma resolve_and_pin_trace:
  "resolve_and_pin (dns_on_trace env) h p tr = (r, tr') \<Longrightarrow> tr' = tr @ [Resolved h p]"
  by (auto simp: resolve_and_pin_def resolve_and_check_def dns_on_trace_def
           split: prod.splits sum.splits)

lemma resolve_and_pin_Inr:
  assumes "resolve_and_pin dns h p w = (Inr pin, w')"
  shows "pa_host pin = h \<and> pa_port pin = p
    \<and> (\<exists>addrs. dns h p w = (Inr addrs, w') \<and> addrs \<noteq> [] \<and> pa_ip pin = hd addrs
         \<and> (\<forall>a \<in> set addrs. ip_is_safe a))"
  using assms
  by (auto simp: resolve_and_pin_def split: prod.splits sum.splits dest!: resolve_and_check_Inr)

lemma dial_pinned_good:
  assumes "allowed h" "p \<in> {80, 443}"
  shows "good_trace allowed env (snd (dial_pinned env leftover h p))"
proof (cases "resolve_and_pin (dns_on_trace env) h p []")
  case (Pair r tr)
  then have tr: "tr = [Resolved h p]" by (auto dest: resolve_and_pin_trace)
  show ?thesis
  proof (cases r)
    case (Inl e)
    with Pair tr assms show ?thesis
      by (auto simp: dial_pinned_def intro!: good_trace.resolved)
  next
    case (Inr pin)
    have "allowed_dial allowed env h (pa_ip pin) p"
      using resolve_and_pin_Inr [OF Pair [unfolded Inr]] assms
      by (auto simp: allowed_dial_def dns_on_trace_def)
    with Pair Inr tr tunnel_trace [of env leftover "[Resolved h p, Dialled (pa_ip pin) p]"]
    show ?thesis
      by (auto simp: dial_pinned_def intro!: good_trace.dialled split: sum.splits)
  qed
qed

lemma handle_request_good: "good_trace allowed env (snd (handle_request allowed env head leftover))"
  by (auto simp: handle_request_def Let_def ALLOWED_CONNECT_PORTS_def intro!: dial_pinned_good
           intro: good_trace.quiet split: sum.splits option.splits)

lemma handle_good:
  "\<exists>tr. snd (handle allowed env) = tr @ [ClosedClient] \<and> good_trace allowed env tr"
proof (cases "read_head (env_recv env) []")
  case (Inl e)
  then show ?thesis by (auto simp: handle_def intro!: good_trace.quiet)
next
  case (Inr hl)
  then obtain head leftover where "read_head (env_recv env) [] = Inr (head, leftover)"
    by (cases hl) auto
  then show ?thesis
    using handle_request_good [of allowed env head leftover] good_trace.quiet [of "[]" allowed env]
    by (auto simp: handle_def Let_def split: prod.splits)
qed

lemma good_trace_dials:
  assumes "good_trace allowed env tr"
  shows "(\<forall>ip p. Dialled ip p \<in> set tr \<longrightarrow> (\<exists>h. allowed_dial allowed env h ip p \<and> Resolved h p \<in> set tr))
    \<and> (\<forall>h p. Resolved h p \<in> set tr \<longrightarrow> allowed h \<and> p \<in> {80, 443})
    \<and> length (filter is_resolved tr) \<le> 1
    \<and> length (filter is_dialled tr) \<le> 1
    \<and> (Sent CONNECT_OK \<in> set tr \<longrightarrow> (\<exists>ip p. Dialled ip p \<in> set tr))"
proof -
  have neq: "CONNECT_OK \<noteq> BAD" "CONNECT_OK \<noteq> BLOCKED"
    by (simp_all add: CONNECT_OK_def BAD_def BLOCKED_def)
  have no: "filter is_resolved tl = [] \<and> filter is_dialled tl = []
      \<and> (\<forall>h p. Resolved h p \<notin> set tl) \<and> (\<forall>i p. Dialled i p \<notin> set tl)"
    if "list_all (\<lambda>e. \<not> is_resolved e \<and> \<not> is_dialled e) tl" for tl
    using that by (auto simp: filter_empty_conv list_all_iff)
  have refused: "list_all (\<lambda>e. \<not> is_resolved e \<and> \<not> is_dialled e) tl"
    if "set tl \<subseteq> {Sent BAD, Sent BLOCKED}" for tl
    using that by (auto simp: list_all_iff)
  show ?thesis
    using assms
  proof cases
    case quiet
    with no [OF refused [OF quiet]] neq show ?thesis by auto
  next
    case (resolved h p tl)
    then have "set tl \<subseteq> {Sent BAD, Sent BLOCKED}" by auto
    from resolved no [OF refused [OF this]] neq show ?thesis by auto
  next
    case (dialled h ip p tl)
    with no [OF dialled(3)] show ?thesis by (auto simp: allowed_dial_def)
  qed
qed

text \<open>C6: whatever bytes a client sends and however sockets, resolver and dialer behave, the
  handler of the egress proxy resolves a name only after the domain predicate accepted it (in
  lower case, without trailing dots) and only for port 80 or 443, at most once; it dials at most
  once, only an address that is the first answer of that resolution, all of whose answers are
  safe; it announces a tunnel only after it dialled; and the client socket is closed last, on
  every path.\<close>

theorem egress_handler_safe:
  assumes "handle allowed env = (exc, tr)"
  shows "(\<forall>ip p. Dialled ip p \<in> set tr \<longrightarrow>
            (\<exists>h addrs. allowed h \<and> p \<in> {80, 443} \<and> Resolved h p \<in> set tr
               \<and> env_dns env h p = Inr addrs \<and> addrs \<noteq> [] \<and> ip = hd addrs
               \<and> (\<forall>a \<in> set addrs. ip_is_safe a)))
    \<and> (\<forall>h p. Resolved h p \<in> set tr \<longrightarrow> allowed h \<and> p \<in> {80, 443})
    \<and> length (filter is_resolved tr) \<le> 1
    \<and> length (filter is_dialled tr) \<le> 1
    \<and> (Sent CONNECT_OK \<in> set tr \<longrightarrow> (\<exists>ip p. Dialled ip p \<in> set tr))
    \<and> last tr = ClosedClient"
proof -
  obtain tr0 where tr: "tr = tr0 @ [ClosedClient]" and good: "good_trace allowed env tr0"
    using handle_good [of allowed env] assms by auto
  note facts = good_trace_dials [OF good]
  have "\<exists>h addrs. allowed h \<and> p \<in> {80, 443} \<and> Resolved h p \<in> set tr
      \<and> env_dns env h p = Inr addrs \<and> addrs \<noteq> [] \<and> ip = hd addrs \<and> (\<forall>a \<in> set addrs. ip_is_safe a)"
    if "Dialled ip p \<in> set tr" for ip p
  proof -
    have "Dialled ip p \<in> set tr0" using that tr by simp
    then obtain h where "allowed_dial allowed env h ip p" "Resolved h p \<in> set tr0"
      using facts by blast
    then show ?thesis unfolding allowed_dial_def tr by auto
  qed
  then show ?thesis using facts unfolding tr by simp
qed

definition connect_env :: "string \<Rightarrow> proxy_env" where
  "connect_env authority =
     \<lparr> env_recv = [Inr (''CONNECT '' @ authority), Inr ('' HTTP/1.1'' @ CRLF @ CRLF)],
       env_send = (\<lambda>b. Inr ()), env_dns = (\<lambda>h p. Inr [''8.8.8.8'']), env_dial = (\<lambda>i p. Inr ()),
       env_sendup = (\<lambda>b. Inr ()) \<rparr>"

lemmas read_head_eval = read_head.simps connect_env_def CRLF_def contains_def cut_at_def
  starts_with_def

theorem egress_handler_safe_witness:
  "\<exists>tr. handle (\<lambda>h. h = ''a.com'') (connect_env ''A.com.:443'') = (None, tr)
     \<and> tr = [Resolved ''a.com'' 443, Dialled ''8.8.8.8'' 443, Sent CONNECT_OK, Spliced, ClosedUp,
             ClosedClient]
     \<and> ip_is_safe ''8.8.8.8''"
proof -
  have "handle (\<lambda>h. h = ''a.com'') (connect_env ''A.com.:443'') =
    (None, [Resolved ''a.com'' 443, Dialled ''8.8.8.8'' 443, Sent CONNECT_OK, Spliced, ClosedUp,
            ClosedClient])" by code_simp
  from this egress_handler_safe [OF this] show ?thesis by auto
qed

text \<open>A port written with a superscript digit passes \<open>isdigit\<close> and not \<open>int\<close>: the handler
  thread ends with a ValueError and the client gets no reply.\<close>

lemma superscript_port_kills_handler:
  "\<exists>e. handle (\<lambda>h. True) (connect_env (''a.com:'' @ [CHR 0xB2])) = (Some (ValueError e), [ClosedClient])"
proof -
  have "handle (\<lambda>h. True) (connect_env (''a.com:'' @ [CHR 0xB2])) =
    (Some (ValueError ''invalid literal for int() with base 10''), [ClosedClient])" by code_simp
  then show ?thesis by blast
qed

section \<open>The accept loop, the splice and the launch arguments\<close>

lemma serve_loopback_only:
  "tr \<in> set (serve allowed accepts) \<Longrightarrow>
     tr = [ClosedClient]
     \<or> (\<exists>addr env. Inr (addr, env) \<in> set accepts \<and> loopback_client addr \<and> tr = snd (handle allowed env))"
  by (induction allowed accepts rule: serve.induct) (auto split: if_splits)

text \<open>One direction of a tunnel forwards the bytes it received, in order and without change,
  up to the first end of stream or failure.\<close>

lemma pipe_forwards_prefix:
  "\<exists>rest. [d. Inr d \<leftarrow> recvs] = pipe recvs send @ rest \<and> (\<forall>d \<in> set (pipe recvs send). d \<noteq> [])"
  by (induction recvs send rule: pipe.induct) (auto split: sum.splits)

lemma strip_dangerous_browser_args_clean:
  "a \<in> set (strip_dangerous_browser_args args) \<Longrightarrow> bad \<in> set DANGEROUS_BROWSER_ARGS
   \<Longrightarrow> \<not> starts_with bad a"
  by (auto simp: strip_dangerous_browser_args_def list_ex_iff)

lemma cut_at_join: "contains p s \<Longrightarrow> cut_at p s = (a, b) \<Longrightarrow> s = a @ p @ b"
proof -
  assume c: "contains p s" and ab: "cut_at p s = (a, b)"
  then obtain i where i: "py_find p s = Some i" by (auto simp: contains_def)
  have "take (length p) (drop i s) = p"
    using i
  proof (induction s arbitrary: i)
    case (Cons x xs)
    then show ?case by (auto simp: starts_with_def split: if_splits)
  qed (auto split: if_splits)
  then have "s = take i s @ p @ drop (i + length p) s"
    by (metis add.commute append_take_drop_id drop_drop)
  then show ?thesis using ab i by (simp add: cut_at_def)
qed

text \<open>The request head is never a truncated one. What \<open>_read_head\<close> returns as a non-empty
  head is the text before the first blank line, and head, blank line and leftover together are
  exactly the bytes received so far; a peer that closes early gives no head at all.\<close>

theorem read_head_complete:
  assumes "read_head recvs buf = Inr (head, leftover)" and "head \<noteq> []"
  shows "\<exists>got. got \<le> length recvs
    \<and> head @ CRLF @ CRLF @ leftover = buf @ concat [d. Inr d \<leftarrow> take got recvs]"
  using assms
proof (induction recvs buf rule: read_head.induct)
  case (1 recvs buf)
  show ?case
  proof (cases "contains (CRLF @ CRLF) buf")
    case True
    then have "cut_at (CRLF @ CRLF) buf = (head, leftover)"
      using "1.prems" by (simp add: read_head.simps)
    from cut_at_join [OF True this] show ?thesis by (auto intro: exI [of _ 0])
  next
    case False
    with "1.prems" obtain chunk rest where
      r: "recvs = Inr chunk # rest" "chunk \<noteq> []" "\<not> length buf > MAX_HEADER_BYTES"
        "read_head rest (buf @ chunk) = Inr (head, leftover)"
      by (subst (asm) read_head.simps) (auto split: if_splits list.splits sum.splits)
    from "1.IH" [OF False r(3,1) refl r(2,4)] "1.prems"(2) obtain got where
      "got \<le> length rest"
      "head @ CRLF @ CRLF @ leftover = (buf @ chunk) @ concat [d. Inr d \<leftarrow> take got rest]" by auto
    then show ?thesis using r(1) by (intro exI [of _ "Suc got"]) simp
  qed
qed

theorem read_head_complete_witness:
  "\<exists>head leftover. read_head (env_recv (connect_env ''a:80'')) [] = Inr (head, leftover) \<and> head \<noteq> []
    \<and> (\<exists>got \<le> 2. head @ CRLF @ CRLF @ leftover
          = concat [d. Inr d \<leftarrow> take got (env_recv (connect_env ''a:80''))])"
proof -
  have ev: "read_head (env_recv (connect_env ''a:80'')) [] = Inr (''CONNECT a:80 HTTP/1.1'', [])"
    by code_simp
  show ?thesis
    using ev read_head_complete [OF ev] by (auto simp: connect_env_def)
qed

end
