(* ===== verification/State_Store.thy ===== *)
theory State_Store
  imports Scraping "HOL-Library.Product_Lexorder" "HOL-Library.Multiset"
begin

text \<open>
  The history database \<open>state.db\<close> (\<open>persistence/ports.py\<close>,
  \<open>persistence/sqlite_store.py\<close>) and \<open>scrape_and_record\<close> of \<open>core/orchestrator.py\<close>.

  A table is the list of its rows in rowid order; no statement of the program deletes a row of
  these two tables, so a new row goes to the end. Enumerations are stored by value and rebuilt on
  read, which raises for a value that is none of the enumeration's. SQLite's INTEGER column holds
  64 bits: binding a larger Python integer raises OverflowError. Each operation is one connection
  and one transaction, so it is one function on the database.
\<close>

section \<open>Rows and tables\<close>

record scrape_row =
  row_id :: nat
  row_owner :: "string option" \<comment> \<open>NULL only between the ALTER and the backfill of a legacy file\<close>
  row_source_id :: string
  row_ts :: string
  row_status :: string
  row_pix :: "int option"
  row_card :: "int option"
  row_currency :: "string option"
  row_availability :: string
  row_method :: "string option"
  row_error :: "string option"
  row_raw_ref :: "string option"
  row_pix_member :: "int option"
  row_card_member :: "int option"

record job_run =
  jr_job_id :: string
  jr_owner_id :: string
  jr_window_start :: string
  jr_fired_at :: string
  jr_status :: string
  jr_sent_at :: "string option"
  jr_error :: "string option"

record job_run_summary =
  sum_latest :: job_run
  sum_last_sent_at :: "string option"

record state_db =
  db_scrapes :: "scrape_row list"
  db_seq :: nat \<comment> \<open>the AUTOINCREMENT counter of \<open>scrapes\<close>\<close>
  db_job_runs :: "job_run list"

section \<open>Reading rows back\<close>

definition status_of_value :: "string \<Rightarrow> scrape_status result" where
  "status_of_value s =
     (if s = ''ok'' then Inr OK else if s = ''indeterminate'' then Inr INDETERMINATE
      else if s = ''unavailable'' then Inr UNAVAILABLE
      else Inl (ValueError (py_repr s @ '' is not a valid ScrapeStatus'')))"

definition availability_of_value :: "string \<Rightarrow> availability result" where
  "availability_of_value s =
     (if s = ''InStock'' then Inr IN_STOCK else if s = ''OutOfStock'' then Inr OUT_OF_STOCK
      else if s = ''UNKNOWN'' then Inr UNKNOWN
      else Inl (ValueError (py_repr s @ '' is not a valid Availability'')))"

definition row_to_record :: "scrape_row \<Rightarrow> scrape_record result" where
  "row_to_record r =
     bindE (status_of_value (row_status r)) (\<lambda>st.
     bindE (availability_of_value (row_availability r)) (\<lambda>av.
       Inr \<lparr> rec_source_id = row_source_id r, rec_ts = row_ts r, rec_status = st,
             rec_price_pix_cents = row_pix r, rec_price_card_cents = row_card r,
             rec_currency = row_currency r, rec_availability = av, rec_method = row_method r,
             rec_error = row_error r, rec_price_pix_member_cents = row_pix_member r,
             rec_price_card_member_cents = row_card_member r, rec_raw_ref = row_raw_ref r \<rparr>))"

fun rows_to_records :: "scrape_row list \<Rightarrow> scrape_record list result" where
  "rows_to_records [] = Inr []"
| "rows_to_records (r # rs) =
     bindE (row_to_record r) (\<lambda>x. bindE (rows_to_records rs) (\<lambda>xs. Inr (x # xs)))"

section \<open>Scrape history\<close>

definition int64_ok :: "int option \<Rightarrow> bool" where
  "int64_ok v = (case v of None \<Rightarrow> True | Some i \<Rightarrow> - (2 ^ 63) \<le> i \<and> i < 2 ^ 63)"

definition record_fits :: "scrape_record \<Rightarrow> bool" where
  "record_fits r \<longleftrightarrow> int64_ok (rec_price_pix_cents r) \<and> int64_ok (rec_price_card_cents r)
     \<and> int64_ok (rec_price_pix_member_cents r) \<and> int64_ok (rec_price_card_member_cents r)"

definition record_row :: "nat \<Rightarrow> string \<Rightarrow> scrape_record \<Rightarrow> scrape_row" where
  "record_row i owner r =
     \<lparr> row_id = i, row_owner = Some owner, row_source_id = rec_source_id r, row_ts = rec_ts r,
       row_status = status_value (rec_status r), row_pix = rec_price_pix_cents r,
       row_card = rec_price_card_cents r, row_currency = rec_currency r,
       row_availability = availability_value (rec_availability r), row_method = rec_method r,
       row_error = rec_error r, row_raw_ref = rec_raw_ref r,
       row_pix_member = rec_price_pix_member_cents r,
       row_card_member = rec_price_card_member_cents r \<rparr>"

definition record_scrape :: "state_db \<Rightarrow> string \<Rightarrow> scrape_record \<Rightarrow> state_db result" where
  "record_scrape db owner r =
     (if owner = [] then Inl (ValueError ''owner must not be empty'')
      else if \<not> record_fits r
      then Inl (OverflowError ''Python int too large to convert to SQLite INTEGER'')
      else Inr (db\<lparr> db_scrapes := db_scrapes db @ [record_row (Suc (db_seq db)) owner r],
                    db_seq := Suc (db_seq db) \<rparr>))"

text \<open>\<open>ORDER BY ts DESC, id DESC\<close>, and \<open>LIMIT\<close>, which a negative number disables.\<close>

definition newest_first :: "scrape_row list \<Rightarrow> scrape_row list" where
  "newest_first rows = rev (sort_key (\<lambda>r. (row_ts r, row_id r)) rows)"

definition sql_limit :: "int \<Rightarrow> 'a list \<Rightarrow> 'a list" where
  "sql_limit n xs = (if n < 0 then xs else take (nat n) xs)"

definition owner_rows :: "state_db \<Rightarrow> string \<Rightarrow> scrape_row list" where
  "owner_rows db owner = filter (\<lambda>r. row_owner r = Some owner) (db_scrapes db)"

definition source_rows :: "state_db \<Rightarrow> string \<Rightarrow> string \<Rightarrow> scrape_row list" where
  "source_rows db owner sid =
     newest_first (filter (\<lambda>r. row_source_id r = sid) (owner_rows db owner))"

definition history :: "state_db \<Rightarrow> string \<Rightarrow> string \<Rightarrow> int \<Rightarrow> scrape_record list result" where
  "history db owner sid limit = rows_to_records (sql_limit limit (source_rows db owner sid))"

text \<open>The row numbered 1 of each partition by source, in source order.\<close>

definition latest_all :: "state_db \<Rightarrow> string \<Rightarrow> scrape_record list result" where
  "latest_all db owner =
     (let sids = sort (remdups (map row_source_id (owner_rows db owner)))
      in rows_to_records (map (\<lambda>sid. hd (source_rows db owner sid)) sids))"

section \<open>Job runs\<close>

definition run_key :: "job_run \<Rightarrow> string \<times> string" where
  "run_key r = (jr_job_id r, jr_window_start r)"

text \<open>\<open>INSERT ... ON CONFLICT(job_id, window_start) DO NOTHING\<close>; the result is
  \<open>rowcount == 1\<close>.\<close>

definition record_job_run :: "state_db \<Rightarrow> job_run \<Rightarrow> bool \<times> state_db" where
  "record_job_run db run =
     (if run_key run \<in> set (map run_key (db_job_runs db)) then (False, db)
      else (True, db\<lparr> db_job_runs := db_job_runs db @ [run] \<rparr>))"

text \<open>\<open>UPDATE ... SET ... WHERE\<close>: the new table, and \<open>rowcount == 1\<close>.\<close>

definition update_runs ::
  "(job_run \<Rightarrow> bool) \<Rightarrow> (job_run \<Rightarrow> job_run) \<Rightarrow> state_db \<Rightarrow> bool \<times> state_db" where
  "update_runs P f db =
     (length (filter P (db_job_runs db)) = 1,
      db\<lparr> db_job_runs := map (\<lambda>r. if P r then f r else r) (db_job_runs db) \<rparr>)"

definition update_job_run ::
  "state_db \<Rightarrow> string \<Rightarrow> string \<Rightarrow> string \<Rightarrow> string option \<Rightarrow> string option \<Rightarrow> bool \<times> state_db" where
  "update_job_run db job_id window_start status sent_at error =
     update_runs (\<lambda>r. jr_job_id r = job_id \<and> jr_window_start r = window_start)
       (\<lambda>r. r\<lparr> jr_status := status, jr_sent_at := sent_at, jr_error := error \<rparr>) db"

definition active_status :: "string \<Rightarrow> bool" where
  "active_status s \<longleftrightarrow> s \<in> {''queued'', ''running''}"

definition has_active_job_run :: "state_db \<Rightarrow> string \<Rightarrow> string \<Rightarrow> bool" where
  "has_active_job_run db owner job_id =
     list_ex (\<lambda>r. jr_owner_id r = owner \<and> jr_job_id r = job_id \<and> active_status (jr_status r))
       (db_job_runs db)"

definition stale_run :: "string \<Rightarrow> string \<Rightarrow> string \<Rightarrow> job_run \<Rightarrow> bool" where
  "stale_run owner job_id fired_before r \<longleftrightarrow>
     jr_owner_id r = owner \<and> jr_job_id r = job_id \<and> active_status (jr_status r)
     \<and> jr_fired_at r < fired_before"

definition reap_stale_job_run ::
  "state_db \<Rightarrow> string \<Rightarrow> string \<Rightarrow> string \<Rightarrow> bool \<times> state_db" where
  "reap_stale_job_run db owner job_id fired_before =
     update_runs (stale_run owner job_id fired_before)
       (\<lambda>r. r\<lparr> jr_status := ''error'',
               jr_error := Some ''reaped: stale job_run past max-send-timeout'' \<rparr>) db"

text \<open>\<open>MAX(sent_at)\<close> of the sent rows of one job; NULLs do not count.\<close>

definition max_sent_at :: "job_run list \<Rightarrow> string option" where
  "max_sent_at runs =
     (let ts = [t. r \<leftarrow> runs, jr_status r = ''sent'', Some t \<leftarrow> [jr_sent_at r]]
      in if ts = [] then None else Some (Max (set ts)))"

text \<open>\<open>ROW_NUMBER() OVER (PARTITION BY job_id ORDER BY fired_at DESC, rowid DESC)\<close>: the last
  row of a stable sort by \<open>fired_at\<close>. The dictionary is listed by job id.\<close>

definition latest_job_runs :: "state_db \<Rightarrow> string \<Rightarrow> (string \<times> job_run_summary) list" where
  "latest_job_runs db owner =
     (let mine = filter (\<lambda>r. jr_owner_id r = owner) (db_job_runs db)
      in map (\<lambda>j. let runs = filter (\<lambda>r. jr_job_id r = j) mine
                  in (j, \<lparr> sum_latest = last (sort_key jr_fired_at runs),
                           sum_last_sent_at = max_sent_at runs \<rparr>))
           (sort (remdups (map jr_job_id mine))))"

section \<open>Opening an existing file\<close>

text \<open>The columns of \<open>scrapes\<close> in the file and its rows. A column that is missing reads as
  NULL; the migration adds it and gives every row without an owner to the bootstrap owner.\<close>

record state_file =
  sf_columns :: "string list"
  sf_rows :: "scrape_row list"
  sf_user_version :: nat

definition MEMBER_COLUMNS :: "string list" where
  "MEMBER_COLUMNS = [''price_pix_member_cents'', ''price_card_member_cents'']"

definition add_column :: "string \<Rightarrow> state_file \<Rightarrow> state_file" where
  "add_column c f = (if c \<in> set (sf_columns f) then f else f\<lparr> sf_columns := sf_columns f @ [c] \<rparr>)"

definition migrate :: "string \<Rightarrow> state_file \<Rightarrow> state_file" where
  "migrate bootstrap f0 =
     (let f1 = foldl (\<lambda>f c. add_column c f) f0 MEMBER_COLUMNS;
          f2 = (if ''owner_id'' \<in> set (sf_columns f0) then f1
                else (add_column ''owner_id'' f1)\<lparr> sf_rows :=
                  map (\<lambda>r. if row_owner r = None then r\<lparr> row_owner := Some bootstrap \<rparr> else r)
                    (sf_rows f1) \<rparr>)
      in f2\<lparr> sf_user_version := 4 \<rparr>)"

section \<open>Scraping into the store\<close>

text \<open>The record is built, then persisted; a write that raises leaves the record undelivered and
  the database unchanged.\<close>

definition scrape_and_record ::
  "'w fetcher \<Rightarrow> (string \<Rightarrow> page_extract result) \<Rightarrow> string \<Rightarrow> string \<Rightarrow> string \<Rightarrow> string option
    \<Rightarrow> string \<Rightarrow> 'w sleeper \<Rightarrow> state_db \<times> 'w \<Rightarrow> scrape_record result \<times> (state_db \<times> 'w)" where
  "scrape_and_record fetch parse owner sid url now clock sleep dw =
     (let (rec, w') = scrape_one fetch parse sid url now clock sleep (snd dw)
      in case record_scrape (fst dw) owner rec of
           Inl e \<Rightarrow> (Inl e, (fst dw, w'))
         | Inr db' \<Rightarrow> (Inr rec, (db', w')))"

section \<open>The invariant of the database\<close>

definition row_ok :: "scrape_row \<Rightarrow> bool" where
  "row_ok r \<longleftrightarrow> (\<exists>owner. row_owner r = Some owner \<and> owner \<noteq> [])
     \<and> row_status r \<in> status_value ` UNIV \<and> row_availability r \<in> availability_value ` UNIV
     \<and> int64_ok (row_pix r) \<and> int64_ok (row_card r) \<and> int64_ok (row_pix_member r)
     \<and> int64_ok (row_card_member r)"

definition state_inv :: "state_db \<Rightarrow> bool" where
  "state_inv db \<longleftrightarrow>
     (\<forall>r \<in> set (db_scrapes db). row_ok r \<and> row_id r \<le> db_seq db)
     \<and> sorted (map row_id (db_scrapes db)) \<and> distinct (map row_id (db_scrapes db))
     \<and> distinct (map run_key (db_job_runs db))"

definition empty_state :: state_db where
  "empty_state = \<lparr> db_scrapes = [], db_seq = 0, db_job_runs = [] \<rparr>"

lemma empty_state_inv: "state_inv empty_state"
  by (simp add: state_inv_def empty_state_def)

lemma status_roundtrip [simp]: "status_of_value (status_value s) = Inr s"
  by (cases s) (simp_all add: status_of_value_def)

lemma availability_roundtrip [simp]: "availability_of_value (availability_value a) = Inr a"
  by (cases a) (simp_all add: availability_of_value_def)

lemma record_row_simps [simp]:
  "row_id (record_row i owner r) = i"
  "row_owner (record_row i owner r) = Some owner"
  "row_source_id (record_row i owner r) = rec_source_id r"
  "row_ts (record_row i owner r) = rec_ts r"
  by (simp_all add: record_row_def)

lemma row_to_record_row [simp]: "row_to_record (record_row i owner r) = Inr r"
  by (simp add: row_to_record_def record_row_def)

lemma record_row_ok: "owner \<noteq> [] \<Longrightarrow> record_fits r \<Longrightarrow> row_ok (record_row i owner r)"
  by (simp add: row_ok_def record_row_def record_fits_def)

lemma record_scrape_Inr:
  "record_scrape db owner r = Inr db' \<longleftrightarrow>
     owner \<noteq> [] \<and> record_fits r
     \<and> db' = db\<lparr> db_scrapes := db_scrapes db @ [record_row (Suc (db_seq db)) owner r],
                 db_seq := Suc (db_seq db) \<rparr>"
  by (auto simp: record_scrape_def)

lemma record_scrape_inv: "state_inv db \<Longrightarrow> record_scrape db owner r = Inr db' \<Longrightarrow> state_inv db'"
  by (auto simp: record_scrape_Inr state_inv_def record_row_ok sorted_append le_Suc_eq
      dest!: bspec)

lemma update_runs_keys:
  "(\<And>r. run_key (f r) = run_key r) \<Longrightarrow>
     map run_key (db_job_runs (snd (update_runs P f db))) = map run_key (db_job_runs db)"
  by (simp add: update_runs_def)

lemma update_runs_inv:
  "(\<And>r. run_key (f r) = run_key r) \<Longrightarrow> state_inv db \<Longrightarrow> state_inv (snd (update_runs P f db))"
proof -
  assume f: "\<And>r. run_key (f r) = run_key r" and inv: "state_inv db"
  have "db_scrapes (snd (update_runs P f db)) = db_scrapes db"
    "db_seq (snd (update_runs P f db)) = db_seq db"
    by (simp_all add: update_runs_def)
  then show ?thesis
    using inv unfolding state_inv_def update_runs_keys [OF f] by simp
qed

lemma update_job_run_keys [store_simps]:
  "map run_key (db_job_runs (snd (update_job_run db j w st sa er))) = map run_key (db_job_runs db)"
  unfolding update_job_run_def by (rule update_runs_keys) (simp add: run_key_def)

lemma reap_keys [store_simps]:
  "map run_key (db_job_runs (snd (reap_stale_job_run db owner j t))) = map run_key (db_job_runs db)"
  unfolding reap_stale_job_run_def by (rule update_runs_keys) (simp add: run_key_def)

lemma record_job_run_keys [store_simps]:
  "set (map run_key (db_job_runs (snd (record_job_run db run)))) =
     insert (run_key run) (set (map run_key (db_job_runs db)))"
  by (auto simp: record_job_run_def)

lemma record_job_run_inv: "state_inv db \<Longrightarrow> state_inv (snd (record_job_run db run))"
  by (auto simp: record_job_run_def state_inv_def)

lemma update_job_run_inv: "state_inv db \<Longrightarrow> state_inv (snd (update_job_run db j w st sa er))"
  unfolding update_job_run_def by (rule update_runs_inv) (simp_all add: run_key_def)

lemma reap_inv: "state_inv db \<Longrightarrow> state_inv (snd (reap_stale_job_run db owner j t))"
  unfolding reap_stale_job_run_def by (rule update_runs_inv) (simp_all add: run_key_def)

lemmas state_inv_intros = record_scrape_inv record_job_run_inv update_job_run_inv reap_inv

section \<open>Reading the history\<close>

definition decoded :: "scrape_row \<Rightarrow> scrape_record" where
  "decoded r = projr (row_to_record r)"

lemma row_ok_decodes: "row_ok r \<Longrightarrow> row_to_record r = Inr (decoded r)"
proof -
  assume "row_ok r"
  then obtain st av where "row_status r = status_value st" "row_availability r = availability_value av"
    by (auto simp: row_ok_def)
  then show ?thesis by (simp add: decoded_def row_to_record_def)
qed

lemma decoded_fields:
  assumes "row_ok r"
  shows "rec_ts (decoded r) = row_ts r" "rec_source_id (decoded r) = row_source_id r"
  using row_ok_decodes [OF assms]
  by (auto simp: row_to_record_def bindE_Inr_iff dest!: sym [of _ "decoded r"])

lemma decoded_record_row [simp]: "decoded (record_row i owner r) = r"
  by (simp add: decoded_def)

lemma rows_to_records_ok:
  "(\<And>r. r \<in> set rs \<Longrightarrow> row_ok r) \<Longrightarrow> rows_to_records rs = Inr (map decoded rs)"
  by (induction rs) (simp_all add: row_ok_decodes)

lemma set_newest_first [simp]: "set (newest_first rows) = set rows"
  by (simp add: newest_first_def)

lemma set_source_rows:
  "set (source_rows db owner sid) =
     {r \<in> set (db_scrapes db). row_owner r = Some owner \<and> row_source_id r = sid}"
  by (auto simp: source_rows_def owner_rows_def)

lemma source_rows_ok: "state_inv db \<Longrightarrow> r \<in> set (source_rows db owner sid) \<Longrightarrow> row_ok r"
  by (auto simp: set_source_rows state_inv_def)

lemma set_sql_limit: "set (sql_limit n xs) \<subseteq> set xs"
  by (auto simp: sql_limit_def dest: in_set_takeD)

lemma history_ok:
  "state_inv db \<Longrightarrow>
     history db owner sid limit = Inr (map decoded (sql_limit limit (source_rows db owner sid)))"
  unfolding history_def using source_rows_ok set_sql_limit by (fastforce intro!: rows_to_records_ok)

lemma sorted_split:
  assumes "sorted (map k xs)"
  shows "xs = filter (\<lambda>x. k x \<le> c) xs @ filter (\<lambda>x. \<not> k x \<le> c) xs"
  using assms
proof (induction xs)
  case (Cons x xs)
  show ?case
  proof (cases "k x \<le> c")
    case False
    with Cons.prems have "filter (\<lambda>x. k x \<le> c) xs = []"
      by (auto simp: filter_empty_conv)
    with False Cons show ?thesis by auto
  qed (use Cons in auto)
qed simp

lemma newest_first_snoc:
  assumes ids: "distinct (map row_id (rows @ [r]))"
  shows "\<exists>xs ys. newest_first rows = xs @ ys \<and> newest_first (rows @ [r]) = xs @ r # ys
    \<and> (\<forall>x \<in> set xs. (row_ts r, row_id r) < (row_ts x, row_id x))
    \<and> (\<forall>y \<in> set ys. (row_ts y, row_id y) \<le> (row_ts r, row_id r))"
proof -
  define k where "k = (\<lambda>r :: scrape_row. (row_ts r, row_id r))"
  define S where "S = sort_key k rows"
  define A where "A = filter (\<lambda>x. k x \<le> k r) S"
  define B where "B = filter (\<lambda>x. \<not> k x \<le> k r) S"
  have sorted: "sorted (map k S)" by (simp add: S_def)
  have S: "S = A @ B" unfolding A_def B_def by (rule sorted_split [OF sorted])
  have leA: "\<forall>y \<in> set A. k y \<le> k r" and gtB: "\<forall>x \<in> set B. k r < k x"
    by (auto simp: A_def B_def)
  have inj: "inj_on k (set (rows @ [r]))"
    using ids unfolding distinct_map by (metis (mono_tags, lifting) inj_on_def k_def prod.inject)
  have "sorted (map k (A @ r # B))"
    using sorted leA gtB unfolding S by (fastforce simp: sorted_append)
  moreover have "mset (rows @ [r]) = mset (A @ r # B)"
    using arg_cong [OF S, of mset] unfolding S_def by simp
  ultimately have "sort_key k (rows @ [r]) = A @ r # B"
    using inj by (intro sort_key_inj_key_eq) auto
  then have "newest_first (rows @ [r]) = rev B @ r # rev A" and "newest_first rows = rev B @ rev A"
    using S by (simp_all add: newest_first_def k_def [symmetric] S_def [symmetric])
  moreover have "\<forall>x \<in> set (rev B). k r < k x" "\<forall>y \<in> set (rev A). k y \<le> k r"
    using leA gtB by simp_all
  ultimately show ?thesis unfolding k_def by blast
qed

lemma record_source_rows_other:
  "record_scrape db owner r = Inr db' \<Longrightarrow> (owner', sid) \<noteq> (owner, rec_source_id r)
   \<Longrightarrow> source_rows db' owner' sid = source_rows db owner' sid"
  by (auto simp: record_scrape_Inr source_rows_def owner_rows_def)

lemma record_source_rows_same:
  "record_scrape db owner r = Inr db' \<Longrightarrow>
     source_rows db' owner (rec_source_id r) =
       newest_first (filter (\<lambda>x. row_source_id x = rec_source_id r) (owner_rows db owner)
                     @ [record_row (Suc (db_seq db)) owner r])"
  by (auto simp: record_scrape_Inr source_rows_def owner_rows_def)

text \<open>Storing a scrape. The stored record is read back unchanged, and the full history of
  its owner and source is the old one with the new record inserted after the records with a later
  timestamp and before all others; every history of another owner or of another source stays what
  it was, whatever the limit.\<close>

theorem record_history:
  assumes inv: "state_inv db" and rec: "record_scrape db owner r = Inr db'"
  shows "(\<exists>xs ys. history db owner (rec_source_id r) (-1) = Inr (xs @ ys)
            \<and> history db' owner (rec_source_id r) (-1) = Inr (xs @ r # ys)
            \<and> (\<forall>x \<in> set xs. rec_ts r < rec_ts x) \<and> (\<forall>y \<in> set ys. rec_ts y \<le> rec_ts r))
    \<and> (\<forall>owner' sid limit. (owner', sid) \<noteq> (owner, rec_source_id r)
         \<longrightarrow> history db' owner' sid limit = history db owner' sid limit)"
proof
  define sid where "sid = rec_source_id r"
  define rows where "rows = filter (\<lambda>x. row_source_id x = sid) (owner_rows db owner)"
  define new where "new = record_row (Suc (db_seq db)) owner r"
  have sub: "set rows \<subseteq> set (db_scrapes db)" by (auto simp: rows_def owner_rows_def)
  have id: "row_id x \<le> db_seq db" and ok: "row_ok x" if "x \<in> set rows" for x
    using that sub inv by (auto simp: state_inv_def)
  have "distinct (map row_id rows)"
    using inv by (auto simp: rows_def owner_rows_def state_inv_def distinct_map
        intro!: distinct_filter intro: inj_on_subset)
  then have "distinct (map row_id (rows @ [new]))"
    using id by (fastforce simp: new_def)
  from newest_first_snoc [OF this] obtain xs ys where
    nf: "newest_first rows = xs @ ys" "newest_first (rows @ [new]) = xs @ new # ys"
    and xs: "\<forall>x \<in> set xs. (row_ts new, row_id new) < (row_ts x, row_id x)"
    and ys: "\<forall>y \<in> set ys. (row_ts y, row_id y) \<le> (row_ts new, row_id new)" by blast
  have "set (xs @ ys) = set rows" using nf(1) by (metis set_newest_first)
  then have in_rows: "x \<in> set rows" if "x \<in> set xs \<or> x \<in> set ys" for x using that by auto
  have "\<forall>x \<in> set (map decoded xs). rec_ts r < rec_ts x"
    using xs id in_rows ok by (fastforce simp: new_def decoded_fields)
  moreover have "\<forall>y \<in> set (map decoded ys). rec_ts y \<le> rec_ts r"
    using ys in_rows ok by (auto simp: new_def decoded_fields)
  moreover have "history db owner sid (-1) = Inr (map decoded xs @ map decoded ys)"
    using history_ok [OF inv, of owner sid "-1"] nf(1)
    by (simp add: sql_limit_def source_rows_def rows_def)
  moreover have "history db' owner sid (-1) = Inr (map decoded xs @ r # map decoded ys)"
    using history_ok [OF record_scrape_inv [OF inv rec], of owner sid "-1"] nf(2)
      record_source_rows_same [OF rec]
    by (simp add: sql_limit_def rows_def sid_def new_def)
  ultimately show "\<exists>xs ys. history db owner (rec_source_id r) (-1) = Inr (xs @ ys)
            \<and> history db' owner (rec_source_id r) (-1) = Inr (xs @ r # ys)
            \<and> (\<forall>x \<in> set xs. rec_ts r < rec_ts x) \<and> (\<forall>y \<in> set ys. rec_ts y \<le> rec_ts r)"
    unfolding sid_def by blast
  show "\<forall>owner' sid limit. (owner', sid) \<noteq> (owner, rec_source_id r)
         \<longrightarrow> history db' owner' sid limit = history db owner' sid limit"
    using record_source_rows_other [OF rec] by (auto simp: history_def)
qed

theorem record_history_witness:
  "state_inv empty_state
   \<and> (\<exists>db'. record_scrape empty_state ''ana'' (indeterminate ''s'' ''t'' None ''e'') = Inr db'
        \<and> history db' ''ana'' ''s'' (-1) = Inr [indeterminate ''s'' ''t'' None ''e'']
        \<and> history db' ''bob'' ''s'' 5 = Inr [])"
proof -
  let ?r = "indeterminate ''s'' ''t'' None ''e''"
  obtain db' where db': "record_scrape empty_state ''ana'' ?r = Inr db'"
    by (simp add: record_scrape_def record_fits_def int64_ok_def)
  have none: "history empty_state x y z = Inr []" for x y z
    by (simp add: history_def source_rows_def owner_rows_def empty_state_def newest_first_def
        sql_limit_def)
  show ?thesis
    using empty_state_inv db' record_history [OF empty_state_inv db'] by (simp add: none)
qed

text \<open>The histories as an interface: what the scrape loops rely on. Writing for one owner changes
  nothing another owner reads.\<close>

locale scrape_log =
  fixes store :: "'db \<Rightarrow> string \<Rightarrow> scrape_record \<Rightarrow> 'db result"
    and read :: "'db \<Rightarrow> string \<Rightarrow> string \<Rightarrow> int \<Rightarrow> 'r"
  assumes store_other: "store db owner r = Inr db' \<Longrightarrow> owner' \<noteq> owner \<Longrightarrow> read db' owner' sid n = read db owner' sid n"
begin

definition same_for :: "string \<Rightarrow> 'db \<Rightarrow> 'db \<Rightarrow> bool" where
  "same_for owner db db' \<longleftrightarrow> (\<forall>sid n. read db' owner sid n = read db owner sid n)"

lemma same_refl: "same_for owner db db"
  by (simp add: same_for_def)

lemma same_trans: "same_for owner db db' \<Longrightarrow> same_for owner db' db'' \<Longrightarrow> same_for owner db db''"
  by (simp add: same_for_def)

lemma same_store: "store db owner r = Inr db' \<Longrightarrow> owner' \<noteq> owner \<Longrightarrow> same_for owner' db db'"
  using store_other by (simp add: same_for_def)

end

interpretation histories: scrape_log record_scrape history
  by unfold_locales (simp add: history_def record_source_rows_other)

lemma scrape_and_record_same:
  assumes "scrape_and_record fetch parse owner sid url now clock sleep (db, w) = (r, (db', w'))"
    and "owner' \<noteq> owner"
  shows "histories.same_for owner' db db'"
  using assms histories.same_store histories.same_refl
  by (auto simp: scrape_and_record_def Let_def split: prod.splits sum.splits)

lemma scrape_and_record_inv:
  assumes "state_inv db" "scrape_and_record fetch parse owner sid url now clock sleep (db, w) = (r, (db', w'))"
  shows "state_inv db'"
  using assms record_scrape_inv
  by (auto simp: scrape_and_record_def Let_def split: prod.splits sum.splits)

lemma scrape_one_id: "rec_source_id (fst (scrape_one fetch parse sid url now clock sleep w)) = sid"
  by (auto simp: scrape_one_def unexpected_def Let_def split: prod.splits sum.splits option.splits)

lemma scrape_and_record_id:
  "scrape_and_record fetch parse owner sid url now clock sleep dw = (Inr r, dw') \<Longrightarrow> rec_source_id r = sid"
  using scrape_one_id [of fetch parse sid url now clock sleep "snd dw"]
  by (auto simp: scrape_and_record_def Let_def split: prod.splits sum.splits)

lemma source_rows_hd:
  assumes "source_rows db owner sid \<noteq> []"
  shows "hd (source_rows db owner sid) \<in> set (source_rows db owner sid)"
    "sql_limit 1 (source_rows db owner sid) = [hd (source_rows db owner sid)]"
  using assms by (auto simp: sql_limit_def take_Suc neq_Nil_conv)

text \<open>The overview of an owner holds exactly the newest record of every source the owner has
  scraped: it lists each source once, in source order, and a record is in it exactly when it is
  what \<open>history\<close> with limit 1 returns for its source. Rows of other owners play no part.\<close>

theorem latest_all_heads:
  assumes inv: "state_inv db"
  shows "\<exists>rs. latest_all db owner = Inr rs
    \<and> sorted (map rec_source_id rs) \<and> distinct (map rec_source_id rs)
    \<and> (\<forall>r. r \<in> set rs \<longleftrightarrow> history db owner (rec_source_id r) 1 = Inr [r])"
proof -
  define sids where "sids = sort (remdups (map row_source_id (owner_rows db owner)))"
  define top where "top = (\<lambda>sid. hd (source_rows db owner sid))"
  have ne: "source_rows db owner sid \<noteq> [] \<longleftrightarrow> sid \<in> set sids" for sid
    by (auto simp: sids_def owner_rows_def source_rows_def newest_first_def filter_empty_conv
        simp flip: set_empty2)
  have top: "row_ok (top sid)" "row_source_id (top sid) = sid" if "sid \<in> set sids" for sid
    using source_rows_hd(1) [of db owner sid] ne that source_rows_ok [OF inv]
    by (auto simp: top_def set_source_rows)
  have "latest_all db owner = Inr (map decoded (map top sids))"
    unfolding latest_all_def sids_def [symmetric] Let_def top_def [symmetric]
    using top by (intro rows_to_records_ok) auto
  moreover have ids: "map rec_source_id (map decoded (map top sids)) = sids"
    by (simp add: map_idI decoded_fields top)
  moreover have "r \<in> set (map decoded (map top sids)) \<longleftrightarrow> history db owner (rec_source_id r) 1 = Inr [r]"
    for r
  proof -
    have h: "history db owner sid 1 = Inr (if sid \<in> set sids then [decoded (top sid)] else [])" for sid
      using history_ok [OF inv, of owner sid 1] ne [of sid] source_rows_hd(2) [of db owner sid]
      by (cases "sid \<in> set sids") (auto simp: top_def sql_limit_def)
    show ?thesis
      using top by (auto simp: h decoded_fields intro!: image_eqI [where x = "rec_source_id r"])
  qed
  moreover have "sorted sids" "distinct sids" by (simp_all add: sids_def)
  ultimately show ?thesis by metis
qed

theorem latest_all_heads_witness:
  "state_inv empty_state \<and> (\<exists>rs. latest_all empty_state ''ana'' = Inr rs \<and> distinct (map rec_source_id rs))"
  using empty_state_inv latest_all_heads [OF empty_state_inv, of "''ana''"] by blast

section \<open>The log of job runs as an interface\<close>

text \<open>
  What the evaluator relies on: a window of a job can be claimed once, and nothing else the
  evaluator does to the log forgets a claim.
\<close>

locale claim_log =
  fixes keys :: "'db \<Rightarrow> (string \<times> string) set"
    and claim :: "'db \<Rightarrow> job_run \<Rightarrow> bool \<times> 'db"
    and update :: "'db \<Rightarrow> string \<Rightarrow> string \<Rightarrow> string \<Rightarrow> string option \<Rightarrow> string option \<Rightarrow> bool \<times> 'db"
    and reap :: "'db \<Rightarrow> string \<Rightarrow> string \<Rightarrow> string \<Rightarrow> bool \<times> 'db"
  assumes claim_iff: "fst (claim db run) \<longleftrightarrow> run_key run \<notin> keys db"
    and claim_keys: "keys (snd (claim db run)) = insert (run_key run) (keys db)"
    and update_keys: "keys (snd (update db j w st sa er)) = keys db"
    and reap_keys: "keys (snd (reap db owner j t)) = keys db"
begin

text \<open>The windows acted on since the moment when \<open>old\<close> were the claimed ones: no window twice,
  none of the old ones, all of them claimed.\<close>

definition covers :: "(string \<times> string) set \<Rightarrow> 'db \<Rightarrow> (string \<times> string) list \<Rightarrow> bool" where
  "covers old db ks \<longleftrightarrow> distinct ks \<and> set ks \<union> old \<subseteq> keys db \<and> set ks \<inter> old = {}"

lemma covers_start: "covers (keys db) db []"
  by (simp add: covers_def)

lemma covers_claim:
  "covers old db ks \<Longrightarrow> fst (claim db run) \<Longrightarrow> covers old (snd (claim db run)) (ks @ [run_key run])"
  using claim_iff [of db run] claim_keys [of db run] by (auto simp: covers_def)

lemma covers_mono: "covers old db ks \<Longrightarrow> keys db \<subseteq> keys db' \<Longrightarrow> covers old db' ks"
  by (auto simp: covers_def)

lemma covers_refused: "covers old db ks \<Longrightarrow> covers old (snd (claim db run)) ks"
  by (erule covers_mono) (auto simp: claim_keys)

lemma covers_update: "covers old (snd (update db j w st sa er)) ks \<longleftrightarrow> covers old db ks"
  by (simp add: covers_def update_keys)

lemma covers_reap: "covers old (snd (reap db owner j t)) ks \<longleftrightarrow> covers old db ks"
  by (simp add: covers_def reap_keys)

lemma claim_twice: "\<not> fst (claim (snd (claim db run)) run)"
  by (simp add: claim_iff claim_keys)

end

definition claimed_keys :: "state_db \<Rightarrow> (string \<times> string) set" where
  "claimed_keys db = set (map run_key (db_job_runs db))"

interpretation sqlite_runs: claim_log claimed_keys record_job_run update_job_run reap_stale_job_run
proof (unfold_locales, goal_cases)
  case (1 db run)
  show ?case by (simp add: record_job_run_def claimed_keys_def)
next
  case (2 db run)
  show ?case unfolding claimed_keys_def by (rule record_job_run_keys)
next
  case (3 db j w st sa er)
  show ?case unfolding claimed_keys_def update_job_run_keys ..
next
  case (4 db owner j t)
  show ?case unfolding claimed_keys_def reap_keys ..
qed

section \<open>Reaping\<close>

text \<open>The sweep of one job. After it, the job counts as active exactly when it has a queued or
  running row fired at or after the bound; every row the sweep selects became a terminal error
  with its key, owner and firing time kept; every other row, and so every row of another owner or
  of another job, is untouched; no row disappears.\<close>

theorem reap_exact:
  "has_active_job_run (snd (reap_stale_job_run db owner job t)) owner job
     = (\<exists>r \<in> set (db_job_runs db). jr_owner_id r = owner \<and> jr_job_id r = job
          \<and> active_status (jr_status r) \<and> t \<le> jr_fired_at r)
   \<and> length (db_job_runs (snd (reap_stale_job_run db owner job t))) = length (db_job_runs db)
   \<and> (\<forall>i < length (db_job_runs db).
        let r = db_job_runs db ! i; r' = db_job_runs (snd (reap_stale_job_run db owner job t)) ! i
        in if stale_run owner job t r
           then jr_status r' = ''error'' \<and> run_key r' = run_key r \<and> jr_owner_id r' = owner
                \<and> jr_fired_at r' = jr_fired_at r \<and> jr_sent_at r' = jr_sent_at r
           else r' = r)"
proof (intro conjI)
  let ?P = "stale_run owner job t"
  have runs: "db_job_runs (snd (reap_stale_job_run db owner job t)) =
      map (\<lambda>r. if ?P r then r\<lparr> jr_status := ''error'',
               jr_error := Some ''reaped: stale job_run past max-send-timeout'' \<rparr> else r) (db_job_runs db)"
    by (simp add: reap_stale_job_run_def update_runs_def)
  show "length (db_job_runs (snd (reap_stale_job_run db owner job t))) = length (db_job_runs db)"
    by (simp add: runs)
  define f where "f = (\<lambda>r. if ?P r then r\<lparr> jr_status := ''error'',
               jr_error := Some ''reaped: stale job_run past max-send-timeout'' \<rparr> else r)"
  have key: "(jr_owner_id (f r) = owner \<and> jr_job_id (f r) = job \<and> active_status (jr_status (f r))) \<longleftrightarrow>
      (jr_owner_id r = owner \<and> jr_job_id r = job \<and> active_status (jr_status r) \<and> t \<le> jr_fired_at r)"
    for r by (auto simp: f_def stale_run_def active_status_def)
  show "has_active_job_run (snd (reap_stale_job_run db owner job t)) owner job
     = (\<exists>r \<in> set (db_job_runs db). jr_owner_id r = owner \<and> jr_job_id r = job
          \<and> active_status (jr_status r) \<and> t \<le> jr_fired_at r)"
    unfolding has_active_job_run_def list_ex_iff runs f_def [symmetric] set_map bex_simps(7) key ..
  show "\<forall>i < length (db_job_runs db).
        let r = db_job_runs db ! i; r' = db_job_runs (snd (reap_stale_job_run db owner job t)) ! i
        in if stale_run owner job t r
           then jr_status r' = ''error'' \<and> run_key r' = run_key r \<and> jr_owner_id r' = owner
                \<and> jr_fired_at r' = jr_fired_at r \<and> jr_sent_at r' = jr_sent_at r
           else r' = r"
    unfolding Let_def runs by (simp add: run_key_def) (simp add: stale_run_def)
qed

theorem reap_exact_witness:
  "let r = \<lparr> jr_job_id = ''j'', jr_owner_id = ''ana'', jr_window_start = ''w'', jr_fired_at = ''1'',
             jr_status = ''running'', jr_sent_at = None, jr_error = None \<rparr>;
       db = empty_state\<lparr> db_job_runs := [r] \<rparr>
   in has_active_job_run db ''ana'' ''j''
      \<and> \<not> has_active_job_run (snd (reap_stale_job_run db ''ana'' ''j'' ''2'')) ''ana'' ''j''"
  unfolding Let_def
  by (subst reap_exact [THEN conjunct1]) (simp add: has_active_job_run_def active_status_def)

text \<open>The returned flag is \<open>rowcount == 1\<close>: with two stale rows both are reaped and the answer is
  False.\<close>

lemma reap_flag_two_rows:
  "let r = \<lparr> jr_job_id = ''j'', jr_owner_id = ''ana'', jr_window_start = ''w1'', jr_fired_at = ''1'',
             jr_status = ''running'', jr_sent_at = None, jr_error = None \<rparr>;
       db = empty_state\<lparr> db_job_runs := [r, r\<lparr> jr_window_start := ''w2'' \<rparr>] \<rparr>;
       (flag, db') = reap_stale_job_run db ''ana'' ''j'' ''2''
   in \<not> flag \<and> map jr_status (db_job_runs db') = [''error'', ''error'']"
  by code_simp

section \<open>Job runs and tenants\<close>

definition owner_runs :: "state_db \<Rightarrow> string \<Rightarrow> job_run list" where
  "owner_runs db owner = filter (\<lambda>r. jr_owner_id r = owner) (db_job_runs db)"

lemma latest_job_runs_owner: "owner_runs db o1 = owner_runs db' o1 \<Longrightarrow>
   latest_job_runs db o1 = latest_job_runs db' o1 \<and> has_active_job_run db o1 j = has_active_job_run db' o1 j"
proof
  assume eq: "owner_runs db o1 = owner_runs db' o1"
  then show "latest_job_runs db o1 = latest_job_runs db' o1"
    by (simp add: latest_job_runs_def owner_runs_def)
  have "has_active_job_run d o1 j = list_ex (\<lambda>r. jr_job_id r = j \<and> active_status (jr_status r)) (owner_runs d o1)"
    for d by (auto simp: has_active_job_run_def owner_runs_def list_ex_iff)
  with eq show "has_active_job_run db o1 j = has_active_job_run db' o1 j" by simp
qed

lemma owner_runs_record [scope_simps]:
  "jr_owner_id run \<noteq> o1 \<Longrightarrow> owner_runs (snd (record_job_run db run)) o1 = owner_runs db o1"
  by (simp add: owner_runs_def record_job_run_def)

lemma filter_map_frame:
  "(\<And>x. x \<in> set xs \<Longrightarrow> Q x \<Longrightarrow> f x = x) \<Longrightarrow> (\<And>x. x \<in> set xs \<Longrightarrow> Q (f x) = Q x)
   \<Longrightarrow> filter Q (map f xs) = filter Q xs"
  by (induction xs) auto

lemma owner_runs_reap [scope_simps]:
  "owner \<noteq> o1 \<Longrightarrow> owner_runs (snd (reap_stale_job_run db owner j t)) o1 = owner_runs db o1"
  unfolding owner_runs_def reap_stale_job_run_def update_runs_def
  by (auto simp: stale_run_def intro!: filter_map_frame)

text \<open>C7: what an owner is shown of the job runs is untouched by the firings and the sweeps of
  another owner, even under the same job id, and so is the check that keeps two firings of one
  job apart.\<close>

theorem job_runs_tenancy:
  assumes "owner \<noteq> jr_owner_id run"
  shows "latest_job_runs (snd (record_job_run db run)) owner = latest_job_runs db owner
    \<and> has_active_job_run (snd (record_job_run db run)) owner j = has_active_job_run db owner j
    \<and> latest_job_runs (snd (reap_stale_job_run db (jr_owner_id run) j t)) owner = latest_job_runs db owner
    \<and> has_active_job_run (snd (reap_stale_job_run db (jr_owner_id run) j t)) owner j
        = has_active_job_run db owner j"
  using assms latest_job_runs_owner scope_simps by metis

theorem job_runs_tenancy_witness:
  "\<exists>run. jr_owner_id run = ''bob'' \<and>
     latest_job_runs (snd (record_job_run empty_state run)) ''ana'' = latest_job_runs empty_state ''ana''"
proof -
  let ?run = "\<lparr> jr_job_id = ''j'', jr_owner_id = ''bob'', jr_window_start = ''w'', jr_fired_at = ''1'',
             jr_status = ''queued'', jr_sent_at = None, jr_error = None \<rparr>"
  have "''ana'' \<noteq> jr_owner_id ?run" by simp
  from job_runs_tenancy [OF this] show ?thesis by (intro exI [of _ ?run]) simp
qed

lemma last_sort_key_max:
  assumes "xs \<noteq> []" "x \<in> set xs"
  shows "f x \<le> f (last (sort_key f xs))"
proof -
  let ?s = "sort_key f xs"
  have "?s \<noteq> []" using assms(1) by (metis length_0_conv length_sort)
  then have s: "?s = butlast ?s @ [last ?s]" by simp
  have "sorted (map f (butlast ?s @ [last ?s]))" using s by (metis sorted_sort_key)
  moreover have "x \<in> set (butlast ?s @ [last ?s])" using assms(2) s by (metis set_sort)
  ultimately show ?thesis by (auto simp: sorted_append)
qed

lemma latest_job_runs_spec:
  assumes "(j, s) \<in> set (latest_job_runs db owner)"
  shows "sum_latest s \<in> set (db_job_runs db)" "jr_owner_id (sum_latest s) = owner"
    "jr_job_id (sum_latest s) = j"
    "\<And>r. r \<in> set (db_job_runs db) \<Longrightarrow> jr_owner_id r = owner \<Longrightarrow> jr_job_id r = j
        \<Longrightarrow> jr_fired_at r \<le> jr_fired_at (sum_latest s)"
    "sum_last_sent_at s = Some t \<Longrightarrow> \<exists>r \<in> set (db_job_runs db). jr_owner_id r = owner \<and> jr_job_id r = j
        \<and> jr_status r = ''sent'' \<and> jr_sent_at r = Some t"
proof -
  define runs where "runs = filter (\<lambda>r. jr_job_id r = j) (filter (\<lambda>r. jr_owner_id r = owner) (db_job_runs db))"
  have s: "sum_latest s = last (sort_key jr_fired_at runs)" "sum_last_sent_at s = max_sent_at runs"
    and ne: "runs \<noteq> []"
    using assms by (auto simp: latest_job_runs_def Let_def runs_def filter_empty_conv)
  have "sum_latest s \<in> set runs"
    using ne last_in_set [of "sort_key jr_fired_at runs"] by (metis length_0_conv length_sort s(1) set_sort)
  then show "sum_latest s \<in> set (db_job_runs db)" "jr_owner_id (sum_latest s) = owner"
    "jr_job_id (sum_latest s) = j" by (auto simp: runs_def)
  show "jr_fired_at r \<le> jr_fired_at (sum_latest s)"
    if "r \<in> set (db_job_runs db)" "jr_owner_id r = owner" "jr_job_id r = j" for r
    using last_sort_key_max [OF ne, of r jr_fired_at] that s(1) by (simp add: runs_def)
  show "\<exists>r \<in> set (db_job_runs db). jr_owner_id r = owner \<and> jr_job_id r = j
        \<and> jr_status r = ''sent'' \<and> jr_sent_at r = Some t" if "sum_last_sent_at s = Some t"
  proof -
    define ts where "ts = [t. r \<leftarrow> runs, jr_status r = ''sent'', Some t \<leftarrow> [jr_sent_at r]]"
    have "ts \<noteq> []" "t = Max (set ts)"
      using that s(2) by (auto simp: max_sent_at_def Let_def ts_def [symmetric] split: if_splits)
    then have "t \<in> set ts" using Max_in [of "set ts"] by simp
    then show ?thesis by (auto simp: ts_def runs_def split: option.splits)
  qed
qed

section \<open>Migration\<close>

lemma add_column_simps [simp]:
  "set (sf_columns (add_column c f)) = insert c (set (sf_columns f))"
  "sf_rows (add_column c f) = sf_rows f"
  "c \<in> set (sf_columns f) \<Longrightarrow> add_column c f = f"
  by (auto simp: add_column_def)

lemma migrate_current:
  assumes "''owner_id'' \<in> set (sf_columns f)" "set MEMBER_COLUMNS \<subseteq> set (sf_columns f)"
    "sf_user_version f = 4"
  shows "migrate b f = f"
  using assms by (simp add: migrate_def MEMBER_COLUMNS_def)

lemma migrate_legacy:
  assumes "''owner_id'' \<notin> set (sf_columns f)"
  shows "set (sf_columns (migrate b f)) = set MEMBER_COLUMNS \<union> {''owner_id''} \<union> set (sf_columns f)"
    "sf_rows (migrate b f) =
       map (\<lambda>r. if row_owner r = None then r\<lparr> row_owner := Some b \<rparr> else r) (sf_rows f)"
    "sf_user_version (migrate b f) = 4"
  using assms by (auto simp: migrate_def MEMBER_COLUMNS_def Let_def)

text \<open>Opening a file made before tenancy keeps every row, in order and with its timestamps and
  prices, and gives each row an owner; opening an up-to-date file changes nothing, so a second
  migration is the identity whatever bootstrap owner it is given.\<close>

theorem migrate_keeps_history:
  assumes legacy: "''owner_id'' \<notin> set (sf_columns f)"
  shows "map (\<lambda>r. r\<lparr> row_owner := None \<rparr>) (sf_rows (migrate b f)) = map (\<lambda>r. r\<lparr> row_owner := None \<rparr>) (sf_rows f)
    \<and> (\<forall>r \<in> set (sf_rows (migrate b f)). row_owner r \<noteq> None)
    \<and> set MEMBER_COLUMNS \<union> {''owner_id''} \<subseteq> set (sf_columns (migrate b f))
    \<and> migrate b' (migrate b f) = migrate b f"
proof (intro conjI)
  show "migrate b' (migrate b f) = migrate b f"
    using migrate_legacy [OF legacy, of b] by (intro migrate_current) auto
qed (auto simp: migrate_legacy [OF legacy])

theorem migrate_keeps_history_witness:
  "let f = \<lparr> sf_columns = [''id'', ''ts''], sf_rows = [(record_row 1 ''x'' (indeterminate ''s'' ''t'' None ''e''))
              \<lparr> row_owner := None \<rparr>], sf_user_version = 1 \<rparr>
   in \<forall>r \<in> set (sf_rows (migrate ''bootstrap'' f)). row_owner r \<noteq> None"
  unfolding Let_def by (rule migrate_keeps_history [THEN conjunct2, THEN conjunct1]) simp

end
