(* ===== verification/Registry.thy ===== *)
theory Registry
  imports Python_Prelude
begin

text \<open>
  The configuration values of \<open>registry/ports.py\<close> and the pure functions on them: sites,
  products and sources with their derived identifiers, digest jobs with their options, schedules
  and the authoring-time validators; and the parser locator of \<open>parsers/ports.py\<close>.

  \<open>hashlib.sha256(..).hexdigest()\<close> and the IANA database behind \<open>available_timezones()\<close> are
  parameters.
\<close>

section \<open>Sites, products, sources\<close>

record parser_spec =
  ps_kind :: string
  ps_pix :: "string option"
  ps_card :: "string option"
  ps_availability :: "string option"

record site_config =
  site_name :: string
  site_fetcher :: string
  site_parser :: parser_spec
  site_domain :: string
  site_tier2_label :: "string option"
  site_subresource_domains :: "string list"

record product_source =
  src_id :: string
  src_product_id :: string
  src_site :: string
  src_url :: string

record product =
  prod_id :: string
  prod_name :: "string option"
  prod_sources :: "product_source list"

record registry =
  reg_sites :: "(string \<times> site_config) list"
  reg_products :: "product list"

text \<open>\<open>iter_sources\<close> is a generator that raises at the first source of an unknown site: the
  triples yielded before that, and the exception if there is one.\<close>

fun iter_product_sources ::
  "(string \<times> site_config) list \<Rightarrow> product \<Rightarrow> product_source list
    \<Rightarrow> (product \<times> product_source \<times> site_config) list \<times> exn option" where
  "iter_product_sources sites p [] = ([], None)"
| "iter_product_sources sites p (s # ss) =
     (case map_of sites (src_site s) of
        None \<Rightarrow> ([], Some (KeyError (''source '' @ py_repr (src_id s) @ '' references unknown site ''
                                   @ py_repr (src_site s))))
      | Some site \<Rightarrow> (let (rest, e) = iter_product_sources sites p ss in ((p, s, site) # rest, e)))"

fun iter_products ::
  "(string \<times> site_config) list \<Rightarrow> product list
    \<Rightarrow> (product \<times> product_source \<times> site_config) list \<times> exn option" where
  "iter_products sites [] = ([], None)"
| "iter_products sites (p # ps) =
     (case iter_product_sources sites p (prod_sources p) of
        (xs, Some e) \<Rightarrow> (xs, Some e)
      | (xs, None) \<Rightarrow> (let (rest, e) = iter_products sites ps in (xs @ rest, e)))"

definition iter_sources :: "registry \<Rightarrow> (product \<times> product_source \<times> site_config) list \<times> exn option" where
  "iter_sources r = iter_products (reg_sites r) (reg_products r)"

definition product_label :: "product \<Rightarrow> string" where
  "product_label p = (if truthy (prod_name p) then the (prod_name p) else prod_id p)"

text \<open>The comprehension assigns in order: a repeated source id keeps its place and takes the last
  label.\<close>

definition source_labels :: "registry \<Rightarrow> (string \<times> string) list" where
  "source_labels r =
     fold (\<lambda>(p, s). AList.update (src_id s) (product_label p @ '' -- '' @ src_site s))
       [(p, s). p \<leftarrow> reg_products r, s \<leftarrow> prod_sources p] []"

section \<open>Identifiers\<close>

definition validate_product_key :: "string \<Rightarrow> unit result" where
  "validate_product_key key =
     (if key = [] then Inl (ValueError ''product_key must not be empty'')
      else if CHR '':'' \<in> set key
      then Inl (ValueError (''product_key must not contain ':': '' @ py_repr key))
      else Inr ())"

definition make_source_id :: "(string \<Rightarrow> string) \<Rightarrow> string \<Rightarrow> string \<Rightarrow> string \<Rightarrow> string result" where
  "make_source_id sha256_hex key site url =
     bindE (validate_product_key key) (\<lambda>_.
       Inr (key @ '':'' @ site @ '':'' @ take 12 (sha256_hex url)))"

section \<open>Job options\<close>

text \<open>A value of the raw options dictionary. A finite float is the rational it denotes;
  \<open>Nonfinite\<close> stands for the infinities and NaN.\<close>

datatype opt_value =
    ONone
  | OBool bool
  | OInt int
  | OFloat rat
  | Nonfinite
  | OStr string
  | OOther

type_synonym raw_options = "(string \<times> opt_value) list"

record job_options =
  show_pix :: bool
  show_card :: bool
  variation_threshold_pct :: "rat option"

definition ALLOWED_OPTION_KEYS :: "string list" where
  "ALLOWED_OPTION_KEYS = [''show_pix'', ''show_card'', ''variation_threshold_pct'']"

definition dict_get :: "(string \<times> 'v) list \<Rightarrow> string \<Rightarrow> 'v \<Rightarrow> 'v" where
  "dict_get d k dflt = (case map_of d k of None \<Rightarrow> dflt | Some v \<Rightarrow> v)"

fun opt_bool :: "opt_value \<Rightarrow> bool option" where
  "opt_bool (OBool b) = Some b"
| "opt_bool _ = None"

text \<open>The threshold: absent or None, or a number that is not a bool, within bounds; no NaN is.\<close>

fun opt_threshold :: "opt_value \<Rightarrow> rat option result" where
  "opt_threshold ONone = Inr None"
| "opt_threshold (OInt i) =
     (if 0 \<le> i \<and> i \<le> 100 then Inr (Some (of_int i))
      else Inl (ValueError ''variation_threshold_pct must be within [0, 100]''))"
| "opt_threshold (OFloat q) =
     (if 0 \<le> q \<and> q \<le> 100 then Inr (Some q)
      else Inl (ValueError ''variation_threshold_pct must be within [0, 100]''))"
| "opt_threshold Nonfinite = Inl (ValueError ''variation_threshold_pct must be within [0, 100]'')"
| "opt_threshold _ = Inl (ValueError ''variation_threshold_pct must be numeric'')"

definition repr_list :: "string list \<Rightarrow> string" where
  "repr_list xs = ''['' @ join '', '' (map py_repr xs) @ '']''"

definition parse_job_options :: "raw_options \<Rightarrow> job_options result" where
  "parse_job_options raw =
     (let unknown = filter (\<lambda>k. k \<notin> set ALLOWED_OPTION_KEYS) (map fst raw)
      in if unknown \<noteq> []
         then Inl (ValueError (''unknown job option keys: '' @ repr_list (sort (remdups unknown))))
         else (case opt_bool (dict_get raw ''show_pix'' (OBool True)) of
                 None \<Rightarrow> Inl (ValueError ''show_pix must be a bool'')
               | Some pix \<Rightarrow>
                   (case opt_bool (dict_get raw ''show_card'' (OBool True)) of
                      None \<Rightarrow> Inl (ValueError ''show_card must be a bool'')
                    | Some crd \<Rightarrow>
                        bindE (opt_threshold (dict_get raw ''variation_threshold_pct'' ONone)) (\<lambda>t.
                          Inr \<lparr> show_pix = pix, show_card = crd, variation_threshold_pct = t \<rparr>))))"

definition dump_job_options :: "job_options \<Rightarrow> raw_options" where
  "dump_job_options o1 =
     [(''show_pix'', OBool (show_pix o1)), (''show_card'', OBool (show_card o1)),
      (''variation_threshold_pct'',
       case variation_threshold_pct o1 of None \<Rightarrow> ONone | Some q \<Rightarrow> OFloat q)]"

section \<open>Schedules and the other validators\<close>

definition normalize_schedule :: "string \<Rightarrow> int \<Rightarrow> int \<Rightarrow> string option \<Rightarrow> string result" where
  "normalize_schedule kind minute hour cron_expr =
     (if kind = ''hourly''
      then (if \<not> (0 \<le> minute \<and> minute \<le> 59) then Inl (ValueError ''minute must be within [0, 59]'')
            else Inr (string_of_int minute @ '' * * * *''))
      else if kind = ''daily''
      then (if \<not> (0 \<le> minute \<and> minute \<le> 59) then Inl (ValueError ''minute must be within [0, 59]'')
            else if \<not> (0 \<le> hour \<and> hour \<le> 23) then Inl (ValueError ''hour must be within [0, 23]'')
            else Inr (string_of_int minute @ '' '' @ string_of_int hour @ '' * * *''))
      else if kind = ''cron''
      then (if \<not> truthy cron_expr
            then Inl (ValueError (''cron_expr is required for frequency_kind='' @ py_repr ''cron''))
            else if length (split_ws (the cron_expr)) \<noteq> 5
            then Inl (ValueError (''cron_expr must have exactly 5 space-separated fields: ''
                                  @ py_repr (the cron_expr)))
            else Inr (the cron_expr))
      else Inl (ValueError (''unknown frequency_kind '' @ py_repr kind)))"

definition validate_timezone :: "string list \<Rightarrow> string \<Rightarrow> unit result" where
  "validate_timezone available tz =
     raise_if (tz \<notin> set available) (ValueError (''unknown IANA timezone '' @ py_repr tz))"

definition VALID_TEMPLATE_IDS :: "string list" where
  "VALID_TEMPLATE_IDS = [''default'']"

definition validate_template_id :: "string \<Rightarrow> unit result" where
  "validate_template_id t =
     raise_if (t \<notin> set VALID_TEMPLATE_IDS) (ValueError (''unknown template_id '' @ py_repr t))"

record digest_job =
  job_id :: string
  job_owner_id :: string
  job_name :: string
  job_frequency_kind :: string
  job_schedule_cron :: string
  job_timezone :: string
  job_template_id :: string
  job_options :: job_options
  job_enabled :: bool
  job_created_at :: "string option"
  job_source_ids :: "string list"

section \<open>Correctness of the values\<close>

lemma iter_product_sources_ok:
  "snd (iter_product_sources sites p ss) = None \<longleftrightarrow> (\<forall>s \<in> set ss. src_site s \<in> fst ` set sites)"
  by (induction sites p ss rule: iter_product_sources.induct)
    (auto simp: map_of_eq_None_iff Let_def split: option.splits prod.splits dest: map_of_SomeD
      intro: rev_image_eqI)

lemma iter_product_sources_list:
  "snd (iter_product_sources sites p ss) = None \<Longrightarrow>
     fst (iter_product_sources sites p ss) = map (\<lambda>s. (p, s, the (map_of sites (src_site s)))) ss"
  by (induction sites p ss rule: iter_product_sources.induct)
    (auto simp: Let_def split: option.splits prod.splits)

lemma iter_products_ok:
  "(\<And>p s. p \<in> set ps \<Longrightarrow> s \<in> set (prod_sources p) \<Longrightarrow> src_site s \<in> fst ` set sites) \<Longrightarrow>
     iter_products sites ps =
       ([(p, s, the (map_of sites (src_site s))). p \<leftarrow> ps, s \<leftarrow> prod_sources p], None)"
proof (induction ps)
  case (Cons p ps)
  have none: "snd (iter_product_sources sites p (prod_sources p)) = None"
    using Cons.prems by (subst iter_product_sources_ok) auto
  have "iter_product_sources sites p (prod_sources p)
      = (map (\<lambda>s. (p, s, the (map_of sites (src_site s)))) (prod_sources p), None)"
    using none iter_product_sources_list [OF none] by (metis surjective_pairing)
  moreover have "iter_products sites ps =
      ([(p, s, the (map_of sites (src_site s))). p \<leftarrow> ps, s \<leftarrow> prod_sources p], None)"
    using Cons.prems by (intro Cons.IH) auto
  ultimately show ?case by simp
qed simp

text \<open>Two sources of one owner get the same identifier exactly when they agree on product key
  and site and their URL digests share the first twelve characters; so the triple is recovered
  from the identifier up to a digest collision. Site names may contain the separator.\<close>

theorem make_source_id_injective:
  assumes "\<And>u. 12 \<le> length (sha256_hex u)"
    and "make_source_id sha256_hex k1 s1 u1 = Inr i1" and "make_source_id sha256_hex k2 s2 u2 = Inr i2"
  shows "i1 = i2 \<longleftrightarrow> k1 = k2 \<and> s1 = s2 \<and> take 12 (sha256_hex u1) = take 12 (sha256_hex u2)"
proof
  have key: "CHR '':'' \<notin> set k" if "make_source_id sha256_hex k s u = Inr i" for k s u i
    using that by (auto simp: make_source_id_def validate_product_key_def split: if_splits)
  have shape: "i = k @ '':'' @ s @ '':'' @ take 12 (sha256_hex u)"
    if "make_source_id sha256_hex k s u = Inr i" for k s u i
    using that by (auto simp: make_source_id_def bindE_Inr_iff)
  assume eq: "i1 = i2"
  have "py_partition (CHR '':'') i1 = (k1, True, s1 @ '':'' @ take 12 (sha256_hex u1))"
    "py_partition (CHR '':'') i2 = (k2, True, s2 @ '':'' @ take 12 (sha256_hex u2))"
    using key [OF assms(2)] key [OF assms(3)] shape [OF assms(2)] shape [OF assms(3)]
    by (simp_all add: py_partition_append)
  with eq have "k1 = k2" and rest: "s1 @ '':'' @ take 12 (sha256_hex u1) = s2 @ '':'' @ take 12 (sha256_hex u2)"
    by simp_all
  have "length (take 12 (sha256_hex u1)) = length (take 12 (sha256_hex u2))"
    using assms(1) by simp
  with rest \<open>k1 = k2\<close> show "k1 = k2 \<and> s1 = s2 \<and> take 12 (sha256_hex u1) = take 12 (sha256_hex u2)"
    by (simp add: append_eq_append_conv)
next
  assume "k1 = k2 \<and> s1 = s2 \<and> take 12 (sha256_hex u1) = take 12 (sha256_hex u2)"
  with assms(2,3) show "i1 = i2" by (auto simp: make_source_id_def bindE_Inr_iff)
qed

theorem make_source_id_injective_witness:
  "\<exists>i1 i2. make_source_id (\<lambda>u. u @ ''0123456789ab'') ''p'' ''a:b'' ''x'' = Inr i1
     \<and> make_source_id (\<lambda>u. u @ ''0123456789ab'') ''p'' ''a'' ''y'' = Inr i2 \<and> i1 \<noteq> i2"
proof -
  obtain i1 where i1: "make_source_id (\<lambda>u. u @ ''0123456789ab'') ''p'' ''a:b'' ''x'' = Inr i1"
    by (simp add: make_source_id_def validate_product_key_def)
  obtain i2 where i2: "make_source_id (\<lambda>u. u @ ''0123456789ab'') ''p'' ''a'' ''y'' = Inr i2"
    by (simp add: make_source_id_def validate_product_key_def)
  from make_source_id_injective [OF _ i1 i2] i1 i2 show ?thesis by simp
qed

definition options_ok :: "job_options \<Rightarrow> bool" where
  "options_ok o1 \<longleftrightarrow> (case variation_threshold_pct o1 of None \<Rightarrow> True | Some q \<Rightarrow> 0 \<le> q \<and> q \<le> 100)"

lemma opt_threshold_range: "opt_threshold v = Inr (Some q) \<Longrightarrow> 0 \<le> q \<and> q \<le> 100"
  by (cases v) (auto split: if_splits)

lemma parse_job_options_ok: "parse_job_options raw = Inr o1 \<Longrightarrow> options_ok o1"
  by (auto simp: parse_job_options_def options_ok_def bindE_Inr_iff opt_threshold_range Let_def
           split: if_splits option.splits)

lemma parse_dump: "options_ok o1 \<Longrightarrow> parse_job_options (dump_job_options o1) = Inr o1"
  by (cases "variation_threshold_pct o1")
    (simp_all add: parse_job_options_def dump_job_options_def ALLOWED_OPTION_KEYS_def dict_get_def
      options_ok_def)

text \<open>The options of a job. Whatever dictionary the caller sends, what passes validation has no
  key outside the whitelist and a threshold within 0 and 100, and dumping it for storage and
  parsing it again gives the same options.\<close>

theorem job_options_roundtrip:
  assumes "parse_job_options raw = Inr o1"
  shows "options_ok o1 \<and> set (map fst raw) \<subseteq> set ALLOWED_OPTION_KEYS
    \<and> parse_job_options (dump_job_options o1) = Inr o1"
  using assms parse_job_options_ok [OF assms] parse_dump
  by (auto simp: parse_job_options_def Let_def filter_empty_conv split: if_splits)

theorem job_options_roundtrip_witness:
  "\<exists>o1. parse_job_options [(''variation_threshold_pct'', OInt 5)] = Inr o1
     \<and> parse_job_options (dump_job_options o1) = Inr o1"
proof -
  obtain o1 where "parse_job_options [(''variation_threshold_pct'', OInt 5)] = Inr o1"
    by (simp add: parse_job_options_def dict_get_def ALLOWED_OPTION_KEYS_def)
  with job_options_roundtrip [OF this] show ?thesis by blast
qed

lemma split_ws_word:
  assumes "w \<noteq> []" "list_all (\<lambda>c. \<not> char_isspace c) w"
  shows "split_ws (w @ CHR '' '' # s) = w # split_ws s"
  using assms
proof (induction w)
  case (Cons c w)
  have sp: "char_isspace (CHR '' '')" by (simp add: char_isspace_def code_def)
  show ?case
  proof (cases w)
    case Nil
    with Cons.prems sp show ?thesis by simp
  next
    case (Cons d w')
    with Cons.IH Cons.prems show ?thesis by simp
  qed
qed simp

lemma string_of_int_word:
  "string_of_int i \<noteq> [] \<and> list_all (\<lambda>c. \<not> char_isspace c) (string_of_int i)"
proof -
  have "list_all (\<lambda>c. \<not> char_isspace c) (string_of_nat n)" for n
    using string_of_nat_digits [of n]
    by (auto simp: list_all_iff is_ascii_digit_def char_isspace_def)
  then show ?thesis by (simp add: string_of_int_def char_isspace_def code_def)
qed

lemma schedule_five:
  assumes "normalize_schedule kind minute hour cron_expr = Inr c"
  shows "length (split_ws c) = 5"
proof -
  have stars: "split_ws ''* * * *'' = [''*'', ''*'', ''*'', ''*'']" "split_ws ''* * *'' = [''*'', ''*'', ''*'']"
    by code_simp+
  have "length (split_ws (string_of_int minute @ '' * * * *'')) = 5"
    "length (split_ws (string_of_int minute @ '' '' @ string_of_int hour @ '' * * *'')) = 5"
    using split_ws_word [of "string_of_int minute"] split_ws_word [of "string_of_int hour"]
      string_of_int_word stars by simp_all
  with assms show ?thesis
    by (cases cron_expr) (auto simp: normalize_schedule_def split: if_splits)
qed

text \<open>A schedule that is accepted has exactly five fields, whichever of the three kinds it was
  written as; and the three kinds are the only ones. A cron expression is stored as it was
  written.\<close>

theorem normalize_schedule_fields:
  assumes "normalize_schedule kind minute hour cron_expr = Inr c"
  shows "length (split_ws c) = 5 \<and> kind \<in> {''hourly'', ''daily'', ''cron''}
    \<and> (kind = ''cron'' \<longrightarrow> cron_expr = Some c)"
  using schedule_five [OF assms] assms
  by (cases cron_expr) (auto simp: normalize_schedule_def split: if_splits)

theorem normalize_schedule_fields_witness:
  "\<exists>c. normalize_schedule ''daily'' 30 7 None = Inr c \<and> length (split_ws c) = 5"
proof -
  obtain c where "normalize_schedule ''daily'' 30 7 None = Inr c"
    by (simp add: normalize_schedule_def)
  with normalize_schedule_fields [OF this] show ?thesis by blast
qed

text \<open>Only the shape is checked: an expression no cron implementation accepts is stored.\<close>

lemma normalize_schedule_nonsense:
  "normalize_schedule ''cron'' 0 0 (Some ''99 99 99 99 99'') = Inr ''99 99 99 99 99''"
  by code_simp

end
