(* ===== verification/Config_Store.thy ===== *)
theory Config_Store
  imports Registry Ssrf_Guard "HOL-Library.Product_Lexorder"
begin

text \<open>
  The configuration database \<open>config.db\<close> (\<open>registry/sqlite_store.py\<close>,
  \<open>registry/domain_policy.py\<close>): the tables with the constraints of the schema (primary keys,
  unique keys, foreign keys with their cascades, all enforced since \<open>foreign_keys\<close> is ON) and
  every operation of \<open>SqliteConfigStore\<close>. A statement that violates a constraint raises
  IntegrityError and, since each operation is one transaction that commits at its end, leaves the
  database as it was. JSON columns hold the value that \<open>json.loads\<close> gives back.
\<close>

section \<open>Tables\<close>

record owner_row =
  ow_id :: string
  ow_name :: string
  ow_email :: "string option"
  ow_role :: string
  ow_state :: string
  ow_password_hash :: "string option"
  ow_created_at :: "string option"

record product_row =
  pr_owner :: string
  pr_key :: string
  pr_name :: "string option"

record source_row =
  sr_id :: string
  sr_owner :: string
  sr_product :: string
  sr_site :: string
  sr_url :: string

record job_row =
  jb_id :: string
  jb_owner :: string
  jb_name :: string
  jb_frequency_kind :: string
  jb_schedule_cron :: string
  jb_timezone :: string
  jb_template_id :: string
  jb_options :: raw_options
  jb_enabled :: bool
  jb_created_at :: "string option"

record link_row =
  ln_owner :: string
  ln_job :: string
  ln_source :: string

record config_db =
  c_owners :: "owner_row list"
  c_sites :: "site_config list"
  c_products :: "product_row list"
  c_sources :: "source_row list"
  c_jobs :: "job_row list"
  c_links :: "link_row list"

definition empty_config :: config_db where
  "empty_config = \<lparr> c_owners = [], c_sites = [], c_products = [], c_sources = [], c_jobs = [],
                    c_links = [] \<rparr>"

definition integrity_error :: exn where
  "integrity_error = IntegrityError ''constraint failed''"

section \<open>Reading the configuration\<close>

definition load_sites :: "config_db \<Rightarrow> (string \<times> site_config) list" where
  "load_sites db = map (\<lambda>s. (site_name s, s)) (sort_key site_name (c_sites db))"

definition site_domains :: "config_db \<Rightarrow> string list" where
  "site_domains db = filter (\<lambda>d. d \<noteq> []) (map site_domain (c_sites db))"

text \<open>\<open>CatalogueDomainPolicy\<close>: asked anew on every call.\<close>

definition catalogue_policy :: "config_db \<Rightarrow> domain_policy" where
  "catalogue_policy db = domain_allowed (site_domains db)"

definition row_to_source :: "source_row \<Rightarrow> product_source" where
  "row_to_source r = \<lparr> src_id = sr_id r, src_product_id = sr_product r, src_site = sr_site r,
                       src_url = sr_url r \<rparr>"

definition load_products :: "config_db \<Rightarrow> string \<Rightarrow> product list" where
  "load_products db owner =
     (let sources = sort_key (\<lambda>r. (sr_product r, sr_id r))
                      (filter (\<lambda>r. sr_owner r = owner) (c_sources db))
      in map (\<lambda>p. \<lparr> prod_id = pr_key p, prod_name = pr_name p,
                    prod_sources = map row_to_source (filter (\<lambda>r. sr_product r = pr_key p) sources) \<rparr>)
           (sort_key pr_key (filter (\<lambda>p. pr_owner p = owner) (c_products db))))"

definition load :: "config_db \<Rightarrow> string \<Rightarrow> registry" where
  "load db owner = \<lparr> reg_sites = load_sites db, reg_products = load_products db owner \<rparr>"

section \<open>Writing sites, products and sources\<close>

definition add_site_row :: "config_db \<Rightarrow> site_config \<Rightarrow> config_db" where
  "add_site_row db site =
     (if site_name site \<in> set (map site_name (c_sites db))
      then db\<lparr> c_sites := map (\<lambda>s. if site_name s = site_name site then site else s) (c_sites db) \<rparr>
      else db\<lparr> c_sites := c_sites db @ [site] \<rparr>)"

definition product_key :: "product_row \<Rightarrow> string \<times> string" where
  "product_key p = (pr_owner p, pr_key p)"

definition add_product_row :: "config_db \<Rightarrow> string \<Rightarrow> product \<Rightarrow> config_db" where
  "add_product_row db owner p =
     (if (owner, prod_id p) \<in> set (map product_key (c_products db))
      then db\<lparr> c_products := map (\<lambda>r. if product_key r = (owner, prod_id p)
                                     then r\<lparr> pr_name := prod_name p \<rparr> else r) (c_products db) \<rparr>
      else db\<lparr> c_products := c_products db @ [\<lparr> pr_owner = owner, pr_key = prod_id p,
                                                pr_name = prod_name p \<rparr>] \<rparr>)"

definition source_key :: "source_row \<Rightarrow> string \<times> string" where
  "source_key r = (sr_owner r, sr_id r)"

definition source_triple :: "source_row \<Rightarrow> string \<times> string \<times> string \<times> string" where
  "source_triple r = (sr_owner r, sr_product r, sr_site r, sr_url r)"

definition add_source_row :: "config_db \<Rightarrow> string \<Rightarrow> product_source \<Rightarrow> config_db result" where
  "add_source_row db owner s =
     (let r = \<lparr> sr_id = src_id s, sr_owner = owner, sr_product = src_product_id s,
                sr_site = src_site s, sr_url = src_url s \<rparr>
      in if source_key r \<in> set (map source_key (c_sources db)) then Inr db
         else if source_triple r \<in> set (map source_triple (c_sources db))
              \<or> (owner, src_product_id s) \<notin> set (map product_key (c_products db))
              \<or> src_site s \<notin> set (map site_name (c_sites db))
         then Inl integrity_error
         else Inr (db\<lparr> c_sources := c_sources db @ [r] \<rparr>))"

text \<open>Deleting sources deletes the links that reference them.\<close>

definition delete_sources :: "(source_row \<Rightarrow> bool) \<Rightarrow> config_db \<Rightarrow> config_db" where
  "delete_sources P db =
     db\<lparr> c_sources := filter (\<lambda>r. \<not> P r) (c_sources db),
         c_links := filter (\<lambda>l. (ln_owner l, ln_source l)
                       \<notin> set (map source_key (filter P (c_sources db)))) (c_links db) \<rparr>"

definition remove_source :: "config_db \<Rightarrow> string \<Rightarrow> string \<Rightarrow> config_db" where
  "remove_source db owner sid = delete_sources (\<lambda>r. sr_id r = sid \<and> sr_owner r = owner) db"

definition remove_product :: "config_db \<Rightarrow> string \<Rightarrow> string \<Rightarrow> config_db result" where
  "remove_product db owner key =
     (if (owner, key) \<notin> set (map product_key (c_products db))
      then Inl (KeyError (''unknown product '' @ py_repr key @ '' for owner '' @ py_repr owner))
      else (let db1 = delete_sources (\<lambda>r. sr_owner r = owner \<and> sr_product r = key) db
            in Inr (db1\<lparr> c_products := filter (\<lambda>p. product_key p \<noteq> (owner, key)) (c_products db1) \<rparr>)))"

section \<open>Digest jobs\<close>

definition load_job_sources :: "config_db \<Rightarrow> string \<Rightarrow> string \<Rightarrow> string list" where
  "load_job_sources db owner job =
     sort (map ln_source (filter (\<lambda>l. ln_owner l = owner \<and> ln_job l = job) (c_links db)))"

definition row_to_job :: "job_row \<Rightarrow> string list \<Rightarrow> digest_job result" where
  "row_to_job r sids =
     bindE (parse_job_options (jb_options r)) (\<lambda>opts.
       Inr \<lparr> job_id = jb_id r, job_owner_id = jb_owner r, job_name = jb_name r,
             job_frequency_kind = jb_frequency_kind r, job_schedule_cron = jb_schedule_cron r,
             job_timezone = jb_timezone r, job_template_id = jb_template_id r,
             job_options = opts, job_enabled = jb_enabled r, job_created_at = jb_created_at r,
             job_source_ids = sids \<rparr>)"

text \<open>\<open>INSERT ... SELECT ... ON CONFLICT DO NOTHING\<close> for each id; the ids actually linked.\<close>

fun link_sources :: "config_db \<Rightarrow> string \<Rightarrow> string \<Rightarrow> string list \<Rightarrow> string list \<times> config_db" where
  "link_sources db owner job [] = ([], db)"
| "link_sources db owner job (sid # sids) =
     (if (owner, sid) \<in> set (map source_key (c_sources db))
         \<and> (job, sid) \<notin> set (map (\<lambda>l. (ln_job l, ln_source l)) (c_links db))
      then (let (linked, db') = link_sources
              (db\<lparr> c_links := c_links db @ [\<lparr> ln_owner = owner, ln_job = job, ln_source = sid \<rparr>] \<rparr>)
              owner job sids
            in (sid # linked, db'))
      else link_sources db owner job sids)"

definition name_conflict :: "string \<Rightarrow> digest_job \<Rightarrow> exn" where
  "name_conflict owner job =
     ConfigError (''digest job name conflict for owner='' @ py_repr owner @ '' name=''
                  @ py_repr (job_name job) @ '': '' @ exn_str integrity_error)"

definition unknown_job :: "string \<Rightarrow> string \<Rightarrow> exn" where
  "unknown_job owner jid =
     KeyError (''unknown digest job '' @ py_repr jid @ '' for owner '' @ py_repr owner)"

definition new_job_row :: "string \<Rightarrow> digest_job \<Rightarrow> job_row" where
  "new_job_row owner job =
     \<lparr> jb_id = job_id job, jb_owner = owner, jb_name = job_name job,
       jb_frequency_kind = job_frequency_kind job, jb_schedule_cron = job_schedule_cron job,
       jb_timezone = job_timezone job, jb_template_id = job_template_id job,
       jb_options = dump_job_options (job_options job), jb_enabled = job_enabled job,
       jb_created_at = job_created_at job \<rparr>"

definition create_job_row ::
  "config_db \<Rightarrow> string \<Rightarrow> digest_job \<Rightarrow> string list \<Rightarrow> (digest_job \<times> config_db) result" where
  "create_job_row db owner job sids =
     (if job_id job \<in> set (map jb_id (c_jobs db))
         \<or> (owner, job_name job) \<in> set (map (\<lambda>j. (jb_owner j, jb_name j)) (c_jobs db))
      then Inl (name_conflict owner job)
      else (let (linked, db') = link_sources (db\<lparr> c_jobs := c_jobs db @ [new_job_row owner job] \<rparr>)
                                 owner (job_id job) sids
            in Inr (job\<lparr> job_owner_id := owner, job_source_ids := linked \<rparr>, db')))"

fun rows_to_jobs :: "config_db \<Rightarrow> job_row list \<Rightarrow> digest_job list result" where
  "rows_to_jobs db [] = Inr []"
| "rows_to_jobs db (r # rs) =
     bindE (row_to_job r (load_job_sources db (jb_owner r) (jb_id r))) (\<lambda>j.
     bindE (rows_to_jobs db rs) (\<lambda>js. Inr (j # js)))"

definition list_jobs :: "config_db \<Rightarrow> string \<Rightarrow> digest_job list result" where
  "list_jobs db owner =
     rows_to_jobs db (sort_key jb_name (filter (\<lambda>r. jb_owner r = owner) (c_jobs db)))"

definition list_all_enabled_jobs :: "config_db \<Rightarrow> digest_job list result" where
  "list_all_enabled_jobs db =
     rows_to_jobs db (sort_key (\<lambda>r. (jb_owner r, jb_name r)) (filter jb_enabled (c_jobs db)))"

definition list_referenced_fetcher_tiers :: "config_db \<Rightarrow> string list" where
  "list_referenced_fetcher_tiers db =
     remdups [site_fetcher s. r \<leftarrow> c_sources db, s \<leftarrow> c_sites db, site_name s = sr_site r]"

definition find_job :: "config_db \<Rightarrow> string \<Rightarrow> string \<Rightarrow> job_row option" where
  "find_job db owner jid = List.find (\<lambda>r. jb_owner r = owner \<and> jb_id r = jid) (c_jobs db)"

definition get_job :: "config_db \<Rightarrow> string \<Rightarrow> string \<Rightarrow> digest_job result" where
  "get_job db owner jid =
     (case find_job db owner jid of
        None \<Rightarrow> Inl (unknown_job owner jid)
      | Some r \<Rightarrow> row_to_job r (load_job_sources db owner jid))"

definition updated_job_row :: "digest_job \<Rightarrow> job_row \<Rightarrow> job_row" where
  "updated_job_row job r =
     r\<lparr> jb_name := job_name job, jb_frequency_kind := job_frequency_kind job,
        jb_schedule_cron := job_schedule_cron job, jb_timezone := job_timezone job,
        jb_template_id := job_template_id job, jb_options := dump_job_options (job_options job),
        jb_enabled := job_enabled job \<rparr>"

definition update_job_row ::
  "config_db \<Rightarrow> string \<Rightarrow> string \<Rightarrow> digest_job \<Rightarrow> (digest_job \<times> config_db) result" where
  "update_job_row db owner jid job =
     (case find_job db owner jid of
        None \<Rightarrow> Inl (unknown_job owner jid)
      | Some _ \<Rightarrow>
          if list_ex (\<lambda>r. jb_owner r = owner \<and> jb_name r = job_name job \<and> jb_id r \<noteq> jid) (c_jobs db)
          then Inl (name_conflict owner job)
          else Inr (job\<lparr> job_id := jid, job_owner_id := owner,
                         job_source_ids := load_job_sources db owner jid \<rparr>,
                    db\<lparr> c_jobs := map (\<lambda>r. if jb_owner r = owner \<and> jb_id r = jid
                                         then updated_job_row job r else r) (c_jobs db) \<rparr>))"

definition delete_job :: "config_db \<Rightarrow> string \<Rightarrow> string \<Rightarrow> config_db result" where
  "delete_job db owner jid =
     (case find_job db owner jid of
        None \<Rightarrow> Inl (unknown_job owner jid)
      | Some _ \<Rightarrow>
          Inr (db\<lparr> c_links := filter (\<lambda>l. ln_job l \<noteq> jid)
                     (filter (\<lambda>l. \<not> (ln_owner l = owner \<and> ln_job l = jid)) (c_links db)),
                   c_jobs := filter (\<lambda>r. \<not> (jb_owner r = owner \<and> jb_id r = jid)) (c_jobs db) \<rparr>))"

definition add_job_source :: "config_db \<Rightarrow> string \<Rightarrow> string \<Rightarrow> string \<Rightarrow> (bool \<times> config_db) result" where
  "add_job_source db owner jid sid =
     (case find_job db owner jid of
        None \<Rightarrow> Inl (unknown_job owner jid)
      | Some _ \<Rightarrow> (let (linked, db') = link_sources db owner jid [sid] in Inr (linked \<noteq> [], db')))"

definition remove_job_source :: "config_db \<Rightarrow> string \<Rightarrow> string \<Rightarrow> string \<Rightarrow> config_db" where
  "remove_job_source db owner jid sid =
     db\<lparr> c_links := filter (\<lambda>l. \<not> (ln_owner l = owner \<and> ln_job l = jid \<and> ln_source l = sid)) (c_links db) \<rparr>"

section \<open>Owners\<close>

text \<open>\<open>INSERT ... ON CONFLICT(id) DO UPDATE\<close> under the unique indexes on the name and on a
  present email; the state of an existing owner and its creation time are kept.\<close>

definition owner_conflict :: "config_db \<Rightarrow> string \<Rightarrow> string \<Rightarrow> string option \<Rightarrow> bool" where
  "owner_conflict db oid nm email =
     list_ex (\<lambda>r. ow_id r \<noteq> oid \<and> (ow_name r = nm \<or> (email \<noteq> None \<and> ow_email r = email))) (c_owners db)"

definition ensure_owner ::
  "config_db \<Rightarrow> string \<Rightarrow> string \<Rightarrow> string \<Rightarrow> string option \<Rightarrow> string option \<Rightarrow> string
    \<Rightarrow> config_db result" where
  "ensure_owner db oid nm role email pwhash created_at =
     (if owner_conflict db oid nm email
      then Inl (ConfigError (''owner identity conflict for name='' @ py_repr nm @ '' email=''
             @ (case email of None \<Rightarrow> ''None'' | Some e \<Rightarrow> py_repr e) @ '': '' @ exn_str integrity_error))
      else if oid \<in> set (map ow_id (c_owners db))
      then Inr (db\<lparr> c_owners := map (\<lambda>r. if ow_id r = oid
             then r\<lparr> ow_name := nm, ow_email := email, ow_role := role, ow_password_hash := pwhash \<rparr>
             else r) (c_owners db) \<rparr>)
      else Inr (db\<lparr> c_owners := c_owners db @ [\<lparr> ow_id = oid, ow_name = nm, ow_email = email,
             ow_role = role, ow_state = ''active'', ow_password_hash = pwhash,
             ow_created_at = Some created_at \<rparr>] \<rparr>))"

definition get_owner_role :: "config_db \<Rightarrow> string \<Rightarrow> string option" where
  "get_owner_role db oid = map_option ow_role (List.find (\<lambda>r. ow_id r = oid) (c_owners db))"

text \<open>The check a pre-existing file must pass before the unique indexes are made.\<close>

definition duplicates :: "string list \<Rightarrow> string list" where
  "duplicates xs = sort (remdups (filter (\<lambda>x. 1 < length (filter ((=) x) xs)) xs))"

definition reject_duplicate_identities :: "config_db \<Rightarrow> unit result" where
  "reject_duplicate_identities db =
     (let names = duplicates (map ow_name (c_owners db));
          emails = duplicates [e. r \<leftarrow> c_owners db, Some e \<leftarrow> [ow_email r]];
          parts = (if names = [] then [] else [''duplicate owner names: '' @ repr_list names])
                  @ (if emails = [] then [] else [''duplicate owner emails: '' @ repr_list emails])
      in if parts = [] then Inr ()
         else Inl (ConfigError (''cannot enforce owner identity uniqueness -- '' @ join ''; '' parts
                    @ ''. Resolve the duplicate rows before opening this config.db.'')))"

section \<open>The invariant: the constraints of the schema\<close>

definition config_inv :: "config_db \<Rightarrow> bool" where
  "config_inv db \<longleftrightarrow>
     distinct (map site_name (c_sites db))
     \<and> distinct (map product_key (c_products db))
     \<and> distinct (map source_key (c_sources db)) \<and> distinct (map source_triple (c_sources db))
     \<and> (\<forall>r \<in> set (c_sources db). (sr_owner r, sr_product r) \<in> set (map product_key (c_products db))
          \<and> sr_site r \<in> set (map site_name (c_sites db)))
     \<and> distinct (map jb_id (c_jobs db)) \<and> distinct (map (\<lambda>j. (jb_owner j, jb_name j)) (c_jobs db))
     \<and> (\<forall>j \<in> set (c_jobs db). \<exists>o1. parse_job_options (jb_options j) = Inr o1)
     \<and> distinct (map (\<lambda>l. (ln_job l, ln_source l)) (c_links db))
     \<and> (\<forall>l \<in> set (c_links db). (ln_owner l, ln_source l) \<in> set (map source_key (c_sources db))
          \<and> (\<exists>j \<in> set (c_jobs db). jb_id j = ln_job l \<and> jb_owner j = ln_owner l))
     \<and> distinct (map ow_id (c_owners db)) \<and> distinct (map ow_name (c_owners db))
     \<and> distinct [e. r \<leftarrow> c_owners db, Some e \<leftarrow> [ow_email r]]"

lemma empty_config_inv: "config_inv empty_config"
  by (simp add: config_inv_def empty_config_def)

text \<open>The parts of the invariant, one per table, so that an operation on one table meets only the
  parts that mention it.\<close>

definition sites_inv :: "config_db \<Rightarrow> bool" where
  "sites_inv db \<longleftrightarrow> distinct (map site_name (c_sites db)) \<and> distinct (map product_key (c_products db))"

definition sources_inv :: "config_db \<Rightarrow> bool" where
  "sources_inv db \<longleftrightarrow>
     distinct (map source_key (c_sources db)) \<and> distinct (map source_triple (c_sources db))
     \<and> (\<forall>r \<in> set (c_sources db). (sr_owner r, sr_product r) \<in> set (map product_key (c_products db))
          \<and> sr_site r \<in> set (map site_name (c_sites db)))"

definition jobs_inv :: "config_db \<Rightarrow> bool" where
  "jobs_inv db \<longleftrightarrow>
     distinct (map jb_id (c_jobs db)) \<and> distinct (map (\<lambda>j. (jb_owner j, jb_name j)) (c_jobs db))
     \<and> (\<forall>j \<in> set (c_jobs db). \<exists>o1. parse_job_options (jb_options j) = Inr o1)"

definition links_inv :: "config_db \<Rightarrow> bool" where
  "links_inv db \<longleftrightarrow>
     distinct (map (\<lambda>l. (ln_job l, ln_source l)) (c_links db))
     \<and> (\<forall>l \<in> set (c_links db). (ln_owner l, ln_source l) \<in> set (map source_key (c_sources db))
          \<and> (\<exists>j \<in> set (c_jobs db). jb_id j = ln_job l \<and> jb_owner j = ln_owner l))"

definition owners_inv :: "config_db \<Rightarrow> bool" where
  "owners_inv db \<longleftrightarrow>
     distinct (map ow_id (c_owners db)) \<and> distinct (map ow_name (c_owners db))
     \<and> distinct [e. r \<leftarrow> c_owners db, Some e \<leftarrow> [ow_email r]]"

lemma config_inv_parts:
  "config_inv db \<longleftrightarrow> sites_inv db \<and> sources_inv db \<and> jobs_inv db \<and> links_inv db \<and> owners_inv db"
  by (auto simp: config_inv_def sites_inv_def sources_inv_def jobs_inv_def links_inv_def owners_inv_def)

lemmas inv_parts = sites_inv_def sources_inv_def jobs_inv_def links_inv_def owners_inv_def

text \<open>An upsert keeps the list of keys, or appends the new one.\<close>

lemma add_site_row_names:
  "map site_name (c_sites (add_site_row db site)) =
     map site_name (c_sites db)
     @ (if site_name site \<in> set (map site_name (c_sites db)) then [] else [site_name site])"
  by (auto simp: add_site_row_def comp_def)

lemma add_site_row_frame:
  "c_products (add_site_row db site) = c_products db" "c_sources (add_site_row db site) = c_sources db"
  "c_jobs (add_site_row db site) = c_jobs db" "c_links (add_site_row db site) = c_links db"
  "c_owners (add_site_row db site) = c_owners db"
  by (simp_all add: add_site_row_def)

lemma add_site_row_inv: "config_inv db \<Longrightarrow> config_inv (add_site_row db site)"
  unfolding config_inv_parts inv_parts add_site_row_frame add_site_row_names
  by (auto split: if_splits)

lemma add_product_row_frame:
  "c_sites (add_product_row db owner p) = c_sites db" "c_sources (add_product_row db owner p) = c_sources db"
  "c_jobs (add_product_row db owner p) = c_jobs db" "c_links (add_product_row db owner p) = c_links db"
  "c_owners (add_product_row db owner p) = c_owners db"
  by (simp_all add: add_product_row_def)

lemma add_product_row_keys:
  "map product_key (c_products (add_product_row db owner p)) =
     map product_key (c_products db)
     @ (if (owner, prod_id p) \<in> set (map product_key (c_products db)) then [] else [(owner, prod_id p)])"
  by (auto simp: add_product_row_def comp_def product_key_def)

lemma add_product_row_inv: "config_inv db \<Longrightarrow> config_inv (add_product_row db owner p)"
  unfolding config_inv_parts inv_parts add_product_row_frame add_product_row_keys
  by (auto split: if_splits)

lemma add_source_row_Inr:
  assumes "add_source_row db owner s = Inr db'"
  shows "db' = db \<or> (\<exists>r. db' = db\<lparr> c_sources := c_sources db @ [r] \<rparr> \<and> sr_owner r = owner
    \<and> sr_id r = src_id s \<and> source_key r \<notin> set (map source_key (c_sources db))
    \<and> source_triple r \<notin> set (map source_triple (c_sources db))
    \<and> (owner, sr_product r) \<in> set (map product_key (c_products db))
    \<and> sr_site r \<in> set (map site_name (c_sites db)))"
  using assms unfolding add_source_row_def Let_def by (fastforce split: if_splits)

lemma add_source_row_inv: "config_inv db \<Longrightarrow> add_source_row db owner s = Inr db' \<Longrightarrow> config_inv db'"
  by (drule add_source_row_Inr) (auto simp: config_inv_parts inv_parts)

lemma delete_sources_inv: "config_inv db \<Longrightarrow> config_inv (delete_sources P db)"
proof -
  assume inv: "config_inv db"
  have key: "source_key r \<in> set (map source_key (filter (\<lambda>r. \<not> P r) (c_sources db)))"
    if "r \<in> set (c_sources db)" "source_key r \<notin> set (map source_key (filter P (c_sources db)))" for r
    using that by auto
  have "sources_inv (delete_sources P db)"
    using inv by (auto simp: config_inv_parts sources_inv_def delete_sources_def distinct_map
        intro: inj_on_subset)
  moreover have "links_inv (delete_sources P db)"
    using inv key by (fastforce simp: config_inv_parts links_inv_def delete_sources_def distinct_map
        intro: inj_on_subset)
  ultimately show ?thesis
    using inv by (simp add: config_inv_parts sites_inv_def jobs_inv_def owners_inv_def delete_sources_def)
qed

lemma remove_source_inv: "config_inv db \<Longrightarrow> config_inv (remove_source db owner sid)"
  unfolding remove_source_def by (rule delete_sources_inv)

lemma remove_product_inv: "config_inv db \<Longrightarrow> remove_product db owner key = Inr db' \<Longrightarrow> config_inv db'"
proof -
  assume inv: "config_inv db" and eq: "remove_product db owner key = Inr db'"
  define db1 where "db1 = delete_sources (\<lambda>r. sr_owner r = owner \<and> sr_product r = key) db"
  have inv1: "config_inv db1" unfolding db1_def using inv by (rule delete_sources_inv)
  have db': "db' = db1\<lparr> c_products := filter (\<lambda>p. product_key p \<noteq> (owner, key)) (c_products db1) \<rparr>"
    using eq by (auto simp: remove_product_def db1_def Let_def split: if_splits)
  have none: "(sr_owner r, sr_product r) \<noteq> (owner, key)" if "r \<in> set (c_sources db1)" for r
    using that by (auto simp: db1_def delete_sources_def)
  have "sources_inv db'"
    using inv1 none unfolding db' config_inv_parts sources_inv_def by (fastforce simp: image_iff)
  moreover have "sites_inv db'"
    using inv1 unfolding db' config_inv_parts sites_inv_def by (simp add: distinct_map inj_on_def)
  ultimately show ?thesis
    using inv1 unfolding db' by (simp add: config_inv_parts jobs_inv_def links_inv_def owners_inv_def)
qed

lemma link_sources_spec:
  assumes "link_sources db owner job sids = (linked, db')"
  shows "\<exists>new. db' = db\<lparr> c_links := c_links db @ new \<rparr> \<and> linked = map ln_source new
    \<and> (\<forall>l \<in> set new. ln_owner l = owner \<and> ln_job l = job
         \<and> (owner, ln_source l) \<in> set (map source_key (c_sources db)) \<and> ln_source l \<in> set sids)
    \<and> distinct (map (\<lambda>l. (ln_job l, ln_source l)) new)
    \<and> set (map (\<lambda>l. (ln_job l, ln_source l)) new) \<inter> set (map (\<lambda>l. (ln_job l, ln_source l)) (c_links db)) = {}
    \<and> (\<forall>sid \<in> set sids. (owner, sid) \<in> set (map source_key (c_sources db))
         \<longrightarrow> (job, sid) \<in> set (map (\<lambda>l. (ln_job l, ln_source l)) (c_links db @ new)))"
  using assms
proof (induction db owner job sids arbitrary: linked db' rule: link_sources.induct)
  case (1 db owner job)
  then show ?case by (intro exI [of _ "[]"]) simp
next
  case (2 db owner job sid sids)
  show ?case
  proof (cases "(owner, sid) \<in> set (map source_key (c_sources db))
         \<and> (job, sid) \<notin> set (map (\<lambda>l. (ln_job l, ln_source l)) (c_links db))")
    case True
    let ?l = "\<lparr> ln_owner = owner, ln_job = job, ln_source = sid \<rparr>"
    let ?db = "db\<lparr> c_links := c_links db @ [?l] \<rparr>"
    obtain linked' where rec: "link_sources ?db owner job sids = (linked', db')"
      and l: "linked = sid # linked'"
      using "2.prems" True by (auto split: prod.splits)
    from "2.IH"(1) [OF True rec] obtain new where new:
      "db' = ?db\<lparr> c_links := c_links ?db @ new \<rparr>" "linked' = map ln_source new"
      "\<forall>l \<in> set new. ln_owner l = owner \<and> ln_job l = job
         \<and> (owner, ln_source l) \<in> set (map source_key (c_sources ?db)) \<and> ln_source l \<in> set sids"
      "distinct (map (\<lambda>l. (ln_job l, ln_source l)) new)"
      "set (map (\<lambda>l. (ln_job l, ln_source l)) new) \<inter> set (map (\<lambda>l. (ln_job l, ln_source l)) (c_links ?db)) = {}"
      "\<forall>sid \<in> set sids. (owner, sid) \<in> set (map source_key (c_sources ?db))
         \<longrightarrow> (job, sid) \<in> set (map (\<lambda>l. (ln_job l, ln_source l)) (c_links ?db @ new))" by blast
    show ?thesis
      using new l True by (intro exI [of _ "?l # new"]) auto
  next
    case False
    then have "link_sources db owner job sids = (linked, db')"
      using "2.prems" by (auto split: if_splits)
    from "2.IH"(2) [OF False this] obtain new where
      "db' = db\<lparr> c_links := c_links db @ new \<rparr>" "linked = map ln_source new"
      "\<forall>l \<in> set new. ln_owner l = owner \<and> ln_job l = job
         \<and> (owner, ln_source l) \<in> set (map source_key (c_sources db)) \<and> ln_source l \<in> set sids"
      "distinct (map (\<lambda>l. (ln_job l, ln_source l)) new)"
      "set (map (\<lambda>l. (ln_job l, ln_source l)) new) \<inter> set (map (\<lambda>l. (ln_job l, ln_source l)) (c_links db)) = {}"
      "\<forall>sid \<in> set sids. (owner, sid) \<in> set (map source_key (c_sources db))
         \<longrightarrow> (job, sid) \<in> set (map (\<lambda>l. (ln_job l, ln_source l)) (c_links db @ new))" by blast
    with False show ?thesis by (intro exI [of _ new]) auto
  qed
qed

lemma link_sources_inv:
  assumes inv: "config_inv db" and job: "\<exists>j \<in> set (c_jobs db). jb_id j = job \<and> jb_owner j = owner"
    and ls: "link_sources db owner job sids = (linked, db')"
  shows "config_inv db'"
proof -
  obtain new where db': "db' = db\<lparr> c_links := c_links db @ new \<rparr>"
    and new: "\<forall>l \<in> set new. ln_owner l = owner \<and> ln_job l = job
         \<and> (owner, ln_source l) \<in> set (map source_key (c_sources db))"
      "distinct (map (\<lambda>l. (ln_job l, ln_source l)) new)"
      "set (map (\<lambda>l. (ln_job l, ln_source l)) new) \<inter> set (map (\<lambda>l. (ln_job l, ln_source l)) (c_links db)) = {}"
    using link_sources_spec [OF ls] by blast
  have "links_inv db'"
    using inv job new unfolding db' config_inv_parts links_inv_def
    by (auto simp: Int_commute)
  then show ?thesis
    using inv unfolding db' by (simp add: config_inv_parts sites_inv_def sources_inv_def jobs_inv_def owners_inv_def)
qed

lemma find_job_Some:
  "find_job db owner jid = Some r \<Longrightarrow> r \<in> set (c_jobs db) \<and> jb_owner r = owner \<and> jb_id r = jid"
  by (auto simp: find_job_def find_Some_iff)

lemma find_job_None:
  "find_job db owner jid = None \<longleftrightarrow> (\<forall>r \<in> set (c_jobs db). jb_owner r = owner \<longrightarrow> jb_id r \<noteq> jid)"
  by (auto simp: find_job_def find_None_iff)

lemma create_job_row_inv:
  assumes inv: "config_inv db" and ok: "options_ok (job_options job)"
    and cr: "create_job_row db owner job sids = Inr (job', db')"
  shows "config_inv db'"
proof -
  define row where "row = new_job_row owner job"
  have row: "jb_id row = job_id job" "jb_owner row = owner" "jb_name row = job_name job"
      "jb_options row = dump_job_options (job_options job)"
    by (simp_all add: row_def new_job_row_def)
  obtain linked where fresh: "job_id job \<notin> set (map jb_id (c_jobs db))"
      "(owner, job_name job) \<notin> set (map (\<lambda>j. (jb_owner j, jb_name j)) (c_jobs db))"
    and ls: "link_sources (db\<lparr> c_jobs := c_jobs db @ [row] \<rparr>) owner (job_id job) sids = (linked, db')"
    using cr by (auto simp: create_job_row_def Let_def row_def split: if_splits prod.splits)
  have "config_inv (db\<lparr> c_jobs := c_jobs db @ [row] \<rparr>)"
    using inv fresh row parse_dump [OF ok] by (auto simp: config_inv_parts inv_parts)
  from link_sources_inv [OF this _ ls] row show ?thesis by auto
qed

lemma update_job_row_inv:
  assumes inv: "config_inv db" and ok: "options_ok (job_options job)"
    and up: "update_job_row db owner jid job = Inr (job', db')"
  shows "config_inv db'"
proof -
  let ?f = "\<lambda>r. if jb_owner r = owner \<and> jb_id r = jid then updated_job_row job r else r"
  have other: "\<forall>r \<in> set (c_jobs db). jb_owner r = owner \<longrightarrow> jb_name r = job_name job \<longrightarrow> jb_id r = jid"
    and db': "db' = db\<lparr> c_jobs := map ?f (c_jobs db) \<rparr>"
    using up by (auto simp: update_job_row_def list_ex_iff split: option.splits if_splits)
  have ids: "jb_id (?f r) = jb_id r" "jb_owner (?f r) = jb_owner r" for r
    by (simp_all add: updated_job_row_def)
  have dist: "distinct (map jb_id (c_jobs db))" "distinct (map (\<lambda>j. (jb_owner j, jb_name j)) (c_jobs db))"
    using inv by (simp_all add: config_inv_parts jobs_inv_def)
  have id_inj: "x = y" if "x \<in> set (c_jobs db)" "y \<in> set (c_jobs db)" "jb_id x = jb_id y" for x y
    using dist(1) that by (simp add: distinct_map inj_on_def)
  have name_inj: "x = y" if "x \<in> set (c_jobs db)" "y \<in> set (c_jobs db)" "jb_owner x = jb_owner y"
    "jb_name x = jb_name y" for x y
    using dist(2) that by (simp add: distinct_map inj_on_def)
  have nm: "jb_name (?f r) = (if jb_owner r = owner \<and> jb_id r = jid then job_name job else jb_name r)" for r
    by (simp add: updated_job_row_def)
  have "x = y" if "x \<in> set (c_jobs db)" "y \<in> set (c_jobs db)" "jb_owner (?f x) = jb_owner (?f y)"
    "jb_name (?f x) = jb_name (?f y)" for x y
    using that id_inj name_inj other unfolding ids nm by (metis (full_types))
  then have "inj_on (\<lambda>j. (jb_owner j, jb_name j)) (set (c_jobs db'))"
    unfolding db' inj_on_def by (auto simp del: if_image_distrib split del: if_split)
  moreover have "map jb_id (c_jobs db') = map jb_id (c_jobs db)"
    unfolding db' using ids by (simp add: comp_def)
  moreover have "distinct (c_jobs db')"
    using calculation(2) dist(1) by (metis distinct_map)
  moreover have "\<forall>j \<in> set (c_jobs db'). \<exists>o1. parse_job_options (jb_options j) = Inr o1"
    using inv parse_dump [OF ok] unfolding db'
    by (auto simp: config_inv_parts jobs_inv_def updated_job_row_def)
  ultimately have "jobs_inv db'"
    using dist(1) by (simp add: jobs_inv_def distinct_map [of "\<lambda>j. (jb_owner j, jb_name j)"])
  moreover have "links_inv db'"
  proof -
    have jobs': "c_jobs db' = map ?f (c_jobs db)" "c_links db' = c_links db" "c_sources db' = c_sources db"
      by (simp_all add: db')
    have "(\<exists>j \<in> set (c_jobs db'). jb_id j = i \<and> jb_owner j = k) =
        (\<exists>j \<in> set (c_jobs db). jb_id j = i \<and> jb_owner j = k)" for i k
      unfolding jobs' set_map bex_simps(7) ids ..
    then show ?thesis
      using inv unfolding config_inv_parts links_inv_def jobs'(2,3) by simp
  qed
  ultimately show ?thesis
    using inv unfolding db' by (simp add: config_inv_parts sites_inv_def sources_inv_def owners_inv_def)
qed

lemma delete_job_inv: "config_inv db \<Longrightarrow> delete_job db owner jid = Inr db' \<Longrightarrow> config_inv db'"
proof -
  assume inv: "config_inv db" and del: "delete_job db owner jid = Inr db'"
  have db': "c_links db' = filter (\<lambda>l. ln_job l \<noteq> jid) (c_links db)"
      "c_jobs db' = filter (\<lambda>r. \<not> (jb_owner r = owner \<and> jb_id r = jid)) (c_jobs db)"
      "c_sites db' = c_sites db" "c_products db' = c_products db" "c_sources db' = c_sources db"
      "c_owners db' = c_owners db"
    using del by (auto simp: delete_job_def split: option.splits intro!: filter_cong)
  have "jobs_inv db'"
    using inv unfolding config_inv_parts jobs_inv_def db' by (auto simp: distinct_map inj_on_def)
  moreover have "links_inv db'"
    using inv unfolding config_inv_parts links_inv_def db' by (fastforce simp: distinct_map inj_on_def)
  ultimately show ?thesis
    using inv unfolding config_inv_parts sites_inv_def sources_inv_def owners_inv_def db' by simp
qed

lemma add_job_source_inv:
  "config_inv db \<Longrightarrow> add_job_source db owner jid sid = Inr (b, db') \<Longrightarrow> config_inv db'"
  by (auto simp: add_job_source_def simp del: link_sources.simps split: option.splits prod.splits
      intro: link_sources_inv dest!: find_job_Some)

lemma remove_job_source_inv: "config_inv db \<Longrightarrow> config_inv (remove_job_source db owner jid sid)"
  by (auto simp: remove_job_source_def config_inv_parts inv_parts distinct_map inj_on_def)

lemma ensure_owner_inv: "config_inv db \<Longrightarrow> ensure_owner db oid nm role email pw t = Inr db' \<Longrightarrow>
   distinct (map ow_id (c_owners db')) \<and> distinct (map ow_name (c_owners db'))"
proof -
  assume inv: "config_inv db" and en: "ensure_owner db oid nm role email pw t = Inr db'"
  have d: "distinct (map ow_id (c_owners db))" "distinct (map ow_name (c_owners db))"
    using inv by (simp_all add: config_inv_parts owners_inv_def)
  have other: "ow_name r \<noteq> nm" if "r \<in> set (c_owners db)" "ow_id r \<noteq> oid" for r
    using en that by (auto simp: ensure_owner_def owner_conflict_def list_ex_iff split: if_splits)
  let ?f = "\<lambda>r. if ow_id r = oid
             then r\<lparr> ow_name := nm, ow_email := email, ow_role := role, ow_password_hash := pw \<rparr> else r"
  show ?thesis
  proof (cases "oid \<in> set (map ow_id (c_owners db))")
    case True
    then have o': "c_owners db' = map ?f (c_owners db)"
      using en by (auto simp: ensure_owner_def split: if_splits)
    have fid: "ow_id (?f r) = ow_id r" and fnm: "ow_name (?f r) = (if ow_id r = oid then nm else ow_name r)" for r
      by simp_all
    have ids: "map ow_id (c_owners db') = map ow_id (c_owners db)"
      unfolding o' by (simp add: comp_def)
    have "x = y" if "x \<in> set (c_owners db)" "y \<in> set (c_owners db)" "ow_name (?f x) = ow_name (?f y)" for x y
      using that d other unfolding fnm distinct_map inj_on_def by metis
    then have "inj_on ow_name (set (c_owners db'))"
      unfolding o' inj_on_def by (auto simp del: if_image_distrib split del: if_split)
    moreover have "distinct (c_owners db')" using ids d(1) by (metis distinct_map)
    ultimately show ?thesis using d ids by (simp add: distinct_map)
  next
    case False
    then have "nm \<notin> set (map ow_name (c_owners db))" using other by fastforce
    then show ?thesis
      using en d False by (auto simp: ensure_owner_def split: if_splits)
  qed
qed

section \<open>Sequences of tenant operations\<close>

text \<open>Every write a tenant can cause, as data, and its effect on the database: a call that raises
  leaves it unchanged.\<close>

datatype config_op =
    AddProduct product
  | AddSource product_source
  | RemoveSource string
  | RemoveProduct string
  | CreateJob digest_job "string list"
  | UpdateJob string digest_job
  | DeleteJob string
  | AddJobSource string string
  | RemoveJobSource string string

definition or_keep :: "config_db \<Rightarrow> config_db result \<Rightarrow> config_db" where
  "or_keep db r = (case r of Inl _ \<Rightarrow> db | Inr db' \<Rightarrow> db')"

definition or_keep_snd :: "config_db \<Rightarrow> ('a \<times> config_db) result \<Rightarrow> config_db" where
  "or_keep_snd db r = (case r of Inl _ \<Rightarrow> db | Inr (_, db') \<Rightarrow> db')"

fun apply_op :: "config_db \<Rightarrow> string \<Rightarrow> config_op \<Rightarrow> config_db" where
  "apply_op db owner (AddProduct p) = add_product_row db owner p"
| "apply_op db owner (AddSource s) = or_keep db (add_source_row db owner s)"
| "apply_op db owner (RemoveSource sid) = remove_source db owner sid"
| "apply_op db owner (RemoveProduct k) = or_keep db (remove_product db owner k)"
| "apply_op db owner (CreateJob j sids) = or_keep_snd db (create_job_row db owner j sids)"
| "apply_op db owner (UpdateJob jid j) = or_keep_snd db (update_job_row db owner jid j)"
| "apply_op db owner (DeleteJob jid) = or_keep db (delete_job db owner jid)"
| "apply_op db owner (AddJobSource jid sid) = or_keep_snd db (add_job_source db owner jid sid)"
| "apply_op db owner (RemoveJobSource jid sid) = remove_job_source db owner jid sid"

fun op_options_ok :: "config_op \<Rightarrow> bool" where
  "op_options_ok (CreateJob j sids) = options_ok (job_options j)"
| "op_options_ok (UpdateJob jid j) = options_ok (job_options j)"
| "op_options_ok _ = True"

definition run_ops :: "config_db \<Rightarrow> (string \<times> config_op) list \<Rightarrow> config_db" where
  "run_ops db ops = foldl (\<lambda>d (owner, op). apply_op d owner op) db ops"

lemma apply_op_inv: "config_inv db \<Longrightarrow> op_options_ok op \<Longrightarrow> config_inv (apply_op db owner op)"
  by (cases op)
    (auto simp: or_keep_def or_keep_snd_def add_product_row_inv remove_source_inv remove_job_source_inv
      simp del: link_sources.simps split: sum.splits
      intro: add_source_row_inv remove_product_inv create_job_row_inv update_job_row_inv delete_job_inv
        add_job_source_inv)

text \<open>What an owner has in the database, and what the reads of an owner depend on.\<close>

definition owner_view ::
  "config_db \<Rightarrow> string \<Rightarrow> product_row list \<times> source_row list \<times> job_row list \<times> link_row list" where
  "owner_view db o1 =
     (filter (\<lambda>p. pr_owner p = o1) (c_products db), filter (\<lambda>r. sr_owner r = o1) (c_sources db),
      filter (\<lambda>j. jb_owner j = o1) (c_jobs db), filter (\<lambda>l. ln_owner l = o1) (c_links db))"

lemma owner_viewD:
  assumes "owner_view db o1 = owner_view db' o1"
  shows "filter (\<lambda>p. pr_owner p = o1) (c_products db) = filter (\<lambda>p. pr_owner p = o1) (c_products db')"
    "filter (\<lambda>r. sr_owner r = o1) (c_sources db) = filter (\<lambda>r. sr_owner r = o1) (c_sources db')"
    "filter (\<lambda>j. jb_owner j = o1) (c_jobs db) = filter (\<lambda>j. jb_owner j = o1) (c_jobs db')"
    "filter (\<lambda>l. ln_owner l = o1) (c_links db) = filter (\<lambda>l. ln_owner l = o1) (c_links db')"
  using assms unfolding owner_view_def by simp_all

lemma load_view:
  assumes "owner_view db o1 = owner_view db' o1" "c_sites db = c_sites db'"
  shows "load db o1 = load db' o1"
  unfolding load_def load_sites_def load_products_def assms(2) by (simp only: owner_viewD [OF assms(1)])

lemma find_filter_split: "List.find (\<lambda>x. P x \<and> Q x) xs = List.find Q (filter P xs)"
  by (induction xs) auto

lemma load_job_sources_view:
  assumes "owner_view db o1 = owner_view db' o1"
  shows "load_job_sources db o1 j = load_job_sources db' o1 j"
proof -
  have "load_job_sources d o1 j =
      sort (map ln_source (filter (\<lambda>l. ln_job l = j) (filter (\<lambda>l. ln_owner l = o1) (c_links d))))" for d
    by (simp add: load_job_sources_def)
  then show ?thesis by (simp only: owner_viewD [OF assms])
qed

lemma find_job_view:
  assumes "owner_view db o1 = owner_view db' o1"
  shows "find_job db o1 j = find_job db' o1 j"
  unfolding find_job_def find_filter_split by (simp only: owner_viewD [OF assms])

lemma rows_to_jobs_view:
  assumes "owner_view db o1 = owner_view db' o1" and "\<And>r. r \<in> set rs \<Longrightarrow> jb_owner r = o1"
  shows "rows_to_jobs db rs = rows_to_jobs db' rs"
  using assms(2)
proof (induction rs)
  case (Cons r rs)
  then have "jb_owner r = o1" "rows_to_jobs db rs = rows_to_jobs db' rs" by auto
  then show ?case by (simp add: load_job_sources_view [OF assms(1)])
qed simp

lemma reads_view:
  assumes "owner_view db o1 = owner_view db' o1" "c_sites db = c_sites db'"
  shows "load db o1 = load db' o1 \<and> list_jobs db o1 = list_jobs db' o1 \<and> get_job db o1 j = get_job db' o1 j"
proof (intro conjI)
  show "load db o1 = load db' o1" using assms by (rule load_view)
  show "list_jobs db o1 = list_jobs db' o1"
    unfolding list_jobs_def owner_viewD(3) [OF assms(1)] by (rule rows_to_jobs_view [OF assms(1)]) simp
  show "get_job db o1 j = get_job db' o1 j"
    unfolding get_job_def find_job_view [OF assms(1)] load_job_sources_view [OF assms(1)] ..
qed

section \<open>Tenants do not see each other\<close>

lemma filter_frame_map:
  "(\<And>x. x \<in> set xs \<Longrightarrow> Q x \<Longrightarrow> f x = x) \<Longrightarrow> (\<And>x. x \<in> set xs \<Longrightarrow> Q (f x) = Q x)
   \<Longrightarrow> filter Q (map f xs) = filter Q xs"
  by (induction xs) auto

lemma filter_frame_filter:
  "(\<And>x. x \<in> set xs \<Longrightarrow> Q x \<Longrightarrow> P x) \<Longrightarrow> filter Q (filter P xs) = filter Q xs"
  by (induction xs) auto

lemma add_product_view: "owner \<noteq> o1 \<Longrightarrow> owner_view (add_product_row db owner p) o1 = owner_view db o1"
  by (auto simp: add_product_row_def owner_view_def product_key_def intro!: filter_frame_map)

lemma add_source_view: "owner \<noteq> o1 \<Longrightarrow> add_source_row db owner s = Inr db' \<Longrightarrow> owner_view db' o1 = owner_view db o1"
  by (drule add_source_row_Inr) (auto simp: owner_view_def)

lemma delete_sources_view:
  assumes "\<And>r. P r \<Longrightarrow> sr_owner r = owner" "owner \<noteq> o1"
  shows "owner_view (delete_sources P db) o1 = owner_view db o1"
proof -
  have "filter (\<lambda>r. sr_owner r = o1) (filter (\<lambda>r. \<not> P r) (c_sources db)) = filter (\<lambda>r. sr_owner r = o1) (c_sources db)"
    using assms by (intro filter_frame_filter) auto
  moreover have "filter (\<lambda>l. ln_owner l = o1) (filter (\<lambda>l. (ln_owner l, ln_source l)
      \<notin> set (map source_key (filter P (c_sources db)))) (c_links db)) = filter (\<lambda>l. ln_owner l = o1) (c_links db)"
    using assms by (intro filter_frame_filter) (auto simp: source_key_def)
  ultimately show ?thesis
    unfolding owner_view_def delete_sources_def by (simp del: filter_filter)
qed

lemma remove_product_view:
  assumes "owner \<noteq> o1" "remove_product db owner key = Inr db'"
  shows "owner_view db' o1 = owner_view db o1"
proof -
  define db1 where "db1 = delete_sources (\<lambda>r. sr_owner r = owner \<and> sr_product r = key) db"
  have v1: "owner_view db1 o1 = owner_view db o1"
    unfolding db1_def by (rule delete_sources_view [OF _ assms(1)]) simp
  have db': "db' = db1\<lparr> c_products := filter (\<lambda>p. product_key p \<noteq> (owner, key)) (c_products db1) \<rparr>"
    using assms(2) by (auto simp: remove_product_def db1_def Let_def split: if_splits)
  have "filter (\<lambda>p. pr_owner p = o1) (filter (\<lambda>p. product_key p \<noteq> (owner, key)) (c_products db1))
      = filter (\<lambda>p. pr_owner p = o1) (c_products db1)"
    using assms(1) by (intro filter_frame_filter) (auto simp: product_key_def)
  then have "owner_view db' o1 = owner_view db1 o1"
    unfolding owner_view_def db' by (simp del: filter_filter)
  with v1 show ?thesis by simp
qed

lemma link_sources_view:
  assumes "owner \<noteq> o1" "link_sources db owner job sids = (linked, db')"
  shows "owner_view db' o1 = owner_view db o1"
proof -
  obtain new where "db' = db\<lparr> c_links := c_links db @ new \<rparr>" "\<forall>l \<in> set new. ln_owner l = owner"
    using link_sources_spec [OF assms(2)] by blast
  with assms(1) show ?thesis by (auto simp: owner_view_def filter_empty_conv)
qed

lemma create_job_view:
  assumes "owner \<noteq> o1" "create_job_row db owner job sids = Inr (job', db')"
  shows "owner_view db' o1 = owner_view db o1"
proof -
  obtain linked where
    "link_sources (db\<lparr> c_jobs := c_jobs db @ [new_job_row owner job] \<rparr>) owner (job_id job) sids = (linked, db')"
    using assms(2) by (auto simp: create_job_row_def Let_def split: if_splits prod.splits)
  from link_sources_view [OF assms(1) this] assms(1) show ?thesis
    by (simp add: owner_view_def new_job_row_def)
qed

lemma update_job_view:
  assumes "owner \<noteq> o1" "update_job_row db owner jid job = Inr (job', db')"
  shows "owner_view db' o1 = owner_view db o1"
proof -
  let ?f = "\<lambda>r. if jb_owner r = owner \<and> jb_id r = jid then updated_job_row job r else r"
  have "db' = db\<lparr> c_jobs := map ?f (c_jobs db) \<rparr>"
    using assms(2) by (auto simp: update_job_row_def split: option.splits if_splits)
  moreover have "filter (\<lambda>j. jb_owner j = o1) (map ?f (c_jobs db)) = filter (\<lambda>j. jb_owner j = o1) (c_jobs db)"
    using assms(1) by (intro filter_frame_map) (auto simp: updated_job_row_def)
  ultimately show ?thesis by (simp add: owner_view_def)
qed

lemma delete_job_view:
  assumes inv: "config_inv db" and "owner \<noteq> o1" "delete_job db owner jid = Inr db'"
  shows "owner_view db' o1 = owner_view db o1"
proof -
  obtain r where r: "r \<in> set (c_jobs db)" "jb_owner r = owner" "jb_id r = jid"
    using assms(3) find_job_Some by (fastforce simp: delete_job_def split: option.splits)
  have mine: "ln_owner l = owner" if "l \<in> set (c_links db)" "ln_job l = jid" for l
    using inv r that unfolding config_inv_def distinct_map inj_on_def by metis
  have db': "db' = db\<lparr> c_links := filter (\<lambda>l. ln_job l \<noteq> jid)
                     (filter (\<lambda>l. \<not> (ln_owner l = owner \<and> ln_job l = jid)) (c_links db)),
                   c_jobs := filter (\<lambda>r. \<not> (jb_owner r = owner \<and> jb_id r = jid)) (c_jobs db) \<rparr>"
    using assms(3) by (auto simp: delete_job_def split: option.splits)
  have "filter (\<lambda>l. ln_owner l = o1) (filter (\<lambda>l. ln_job l \<noteq> jid)
        (filter (\<lambda>l. \<not> (ln_owner l = owner \<and> ln_job l = jid)) (c_links db)))
      = filter (\<lambda>l. ln_owner l = o1) (c_links db)"
    unfolding filter_filter [where P = "\<lambda>l. ln_job l \<noteq> jid"]
    using mine assms(2) by (intro filter_frame_filter) auto
  moreover have "filter (\<lambda>j. jb_owner j = o1) (filter (\<lambda>r. \<not> (jb_owner r = owner \<and> jb_id r = jid)) (c_jobs db))
      = filter (\<lambda>j. jb_owner j = o1) (c_jobs db)"
    using assms(2) by (intro filter_frame_filter) auto
  ultimately show ?thesis
    unfolding owner_view_def db' by (simp del: filter_filter)
qed

lemma add_job_source_view:
  assumes "owner \<noteq> o1" "add_job_source db owner jid sid = Inr (b, db')"
  shows "owner_view db' o1 = owner_view db o1"
proof -
  obtain linked where "link_sources db owner jid [sid] = (linked, db')"
    using assms(2) by (auto simp: add_job_source_def simp del: link_sources.simps
        split: option.splits prod.splits)
  then show ?thesis by (rule link_sources_view [OF assms(1)])
qed

lemma remove_job_source_view:
  "owner \<noteq> o1 \<Longrightarrow> owner_view (remove_job_source db owner jid sid) o1 = owner_view db o1"
  unfolding remove_job_source_def owner_view_def
  by (auto simp del: filter_filter intro!: filter_frame_filter)

lemma remove_source_view:
  "owner \<noteq> o1 \<Longrightarrow> owner_view (remove_source db owner sid) o1 = owner_view db o1"
  unfolding remove_source_def by (rule delete_sources_view) auto

lemmas view_intros = add_source_view remove_product_view create_job_view update_job_view
  delete_job_view add_job_source_view

lemma apply_op_view:
  assumes "config_inv db" "owner \<noteq> o1"
  shows "owner_view (apply_op db owner op) o1 = owner_view db o1"
  using assms
  by (cases op)
    (simp_all add: or_keep_def or_keep_snd_def add_product_view remove_source_view
        remove_job_source_view view_intros split: sum.splits prod.splits)

lemma link_sources_sites: "c_sites (snd (link_sources db owner job sids)) = c_sites db"
  using link_sources_spec [of db owner job sids] by (metis (no_types, lifting) config_db.select_convs(2)
      config_db.surjective config_db.update_convs(6) surjective_pairing)

lemma apply_op_sites: "c_sites (apply_op db owner op) = c_sites db"
proof (cases op)
  case (CreateJob j sids)
  then show ?thesis
    using link_sources_sites [of "db\<lparr> c_jobs := c_jobs db @ [new_job_row owner j] \<rparr>" owner "job_id j" sids]
    by (auto simp: or_keep_snd_def create_job_row_def split: prod.splits)
next
  case (AddJobSource jid sid)
  then show ?thesis
    using link_sources_sites [of db owner jid "[sid]"]
    by (auto simp: or_keep_snd_def add_job_source_def simp del: link_sources.simps
        split: prod.splits option.splits)
qed (auto simp: or_keep_def or_keep_snd_def add_product_row_def add_source_row_def remove_source_def
    remove_product_def delete_sources_def update_job_row_def delete_job_def remove_job_source_def
    Let_def split: sum.splits if_splits option.splits prod.splits)

lemma run_ops_inv_view:
  assumes "config_inv db" "\<forall>(owner, op) \<in> set ops. op_options_ok op \<and> owner \<noteq> o1"
  shows "config_inv (run_ops db ops) \<and> owner_view (run_ops db ops) o1 = owner_view db o1
    \<and> c_sites (run_ops db ops) = c_sites db"
  using assms
proof (induction ops arbitrary: db)
  case (Cons x ops)
  obtain owner op where x: "x = (owner, op)" by (cases x)
  have "config_inv (apply_op db owner op)" using Cons.prems x by (auto intro: apply_op_inv)
  from Cons.IH [OF this] Cons.prems x show ?case
    by (auto simp: run_ops_def apply_op_view apply_op_sites)
qed (simp add: run_ops_def)

text \<open>C8: tenancy of the configuration. However long a sequence of writes other owners make,
  succeeding or failing, guessing identifiers of this owner or not, everything this owner reads
  stays as it was: the registry, the list of jobs and every single job; and the constraints of
  the schema hold after every write.\<close>

theorem config_tenancy:
  assumes "config_inv db" and "\<forall>(owner, op) \<in> set ops. op_options_ok op \<and> owner \<noteq> o1"
  shows "config_inv (run_ops db ops) \<and> load (run_ops db ops) o1 = load db o1
    \<and> list_jobs (run_ops db ops) o1 = list_jobs db o1
    \<and> get_job (run_ops db ops) o1 jid = get_job db o1 jid"
  using run_ops_inv_view [OF assms] reads_view by metis

theorem config_tenancy_witness:
  "let db = apply_op empty_config ''ana'' (AddProduct \<lparr> prod_id = ''p'', prod_name = None, prod_sources = [] \<rparr>);
       ops = [(''bob'', RemoveProduct ''p''), (''bob'', DeleteJob ''j'')]
   in load (run_ops db ops) ''ana'' = load db ''ana'' \<and> map prod_id (reg_products (load db ''ana'')) = [''p'']"
proof -
  let ?db = "apply_op empty_config ''ana'' (AddProduct \<lparr> prod_id = ''p'', prod_name = None, prod_sources = [] \<rparr>)"
  let ?ops = "[(''bob'', RemoveProduct ''p''), (''bob'', DeleteJob ''j'')]"
  have "config_inv ?db" by (rule apply_op_inv [OF empty_config_inv]) simp
  moreover have "\<forall>(owner, op) \<in> set ?ops. op_options_ok op \<and> owner \<noteq> ''ana''" by simp
  ultimately have "load (run_ops ?db ?ops) ''ana'' = load ?db ''ana''"
    using config_tenancy by blast
  then show ?thesis
    by (simp add: Let_def load_def load_products_def add_product_row_def empty_config_def)
qed

section \<open>What a load returns\<close>

lemma map_of_load_sites:
  "fst ` set (load_sites db) = set (map site_name (c_sites db))"
  by (auto simp: load_sites_def image_comp)

lemma map_of_load_sites_Some:
  assumes "config_inv db" "s \<in> set (c_sites db)"
  shows "map_of (load_sites db) (site_name s) = Some s"
proof -
  have "distinct (map site_name (c_sites db))" using assms(1) by (simp add: config_inv_def)
  then have "distinct (map site_name (sort_key site_name (c_sites db)))"
    by (simp add: distinct_map)
  then have "distinct (map fst (load_sites db))" by (simp add: load_sites_def comp_def)
  moreover have "(site_name s, s) \<in> set (load_sites db)" using assms(2) by (simp add: load_sites_def)
  ultimately show ?thesis by (rule map_of_is_SomeI)
qed

lemma in_load_products:
  assumes "p \<in> set (load_products db owner)" "s \<in> set (prod_sources p)"
  shows "\<exists>r \<in> set (c_sources db). sr_owner r = owner \<and> s = row_to_source r \<and> sr_product r = prod_id p"
  using assms by (auto simp: load_products_def Let_def)

lemma load_products_ids:
  assumes "config_inv db" "r \<in> set (c_sources db)" "sr_owner r = owner"
  shows "\<exists>p \<in> set (load_products db owner). prod_id p = sr_product r \<and> row_to_source r \<in> set (prod_sources p)"
proof -
  obtain pr where pr: "pr \<in> set (c_products db)" "product_key pr = (owner, sr_product r)"
    using assms unfolding config_inv_def by (metis (no_types, lifting) imageE list.set_map)
  then show ?thesis
    using assms(2,3) by (auto simp: load_products_def Let_def product_key_def)
qed

lemma load_iter_ok:
  assumes inv: "config_inv db"
  shows "iter_sources (load db owner) =
      ([(p, s, the (map_of (load_sites db) (src_site s))). p \<leftarrow> load_products db owner, s \<leftarrow> prod_sources p], None)"
proof -
  have "src_site s \<in> fst ` set (load_sites db)"
    if "p \<in> set (load_products db owner)" "s \<in> set (prod_sources p)" for p s
    using in_load_products [OF that] inv unfolding map_of_load_sites
    by (auto simp: row_to_source_def config_inv_def)
  then show ?thesis
    unfolding iter_sources_def load_def by (simp add: iter_products_ok)
qed

text \<open>Loading an owner's registry and walking its sources never raises, whatever the other
  tenants did: every source refers to a site of the catalogue. The walk visits exactly the
  owner's stored sources, each with its own product and with the configuration of its site.\<close>

theorem load_iter_sources:
  assumes inv: "config_inv db"
  shows "snd (iter_sources (load db owner)) = None
    \<and> (\<lambda>(p, s, site). (prod_id p, s)) ` set (fst (iter_sources (load db owner)))
        = (\<lambda>r. (sr_product r, row_to_source r)) ` {r \<in> set (c_sources db). sr_owner r = owner}
    \<and> (\<forall>(p, s, site) \<in> set (fst (iter_sources (load db owner))).
         site \<in> set (c_sites db) \<and> site_name site = src_site s)"
proof -
  note it = load_iter_ok [OF inv, of owner]
  have site: "the (map_of (load_sites db) (src_site s)) \<in> set (c_sites db)
      \<and> site_name (the (map_of (load_sites db) (src_site s))) = src_site s"
    if mem: "p \<in> set (load_products db owner)" "s \<in> set (prod_sources p)" for p s
  proof -
    obtain r where "r \<in> set (c_sources db)" "s = row_to_source r" using in_load_products [OF mem] by blast
    then obtain st where st: "st \<in> set (c_sites db)" "site_name st = src_site s"
      using inv unfolding config_inv_def by (auto simp: row_to_source_def)
    with map_of_load_sites_Some [OF inv st(1)] show ?thesis by simp
  qed
  have "(\<lambda>(p, s, site). (prod_id p, s)) ` set (fst (iter_sources (load db owner)))
      = {(prod_id p, s) | p s. p \<in> set (load_products db owner) \<and> s \<in> set (prod_sources p)}"
    unfolding it by force
  also have "\<dots> = (\<lambda>r. (sr_product r, row_to_source r)) ` {r \<in> set (c_sources db). sr_owner r = owner}"
    using load_products_ids [OF inv] in_load_products by (auto simp: image_iff) (metis+)
  finally show ?thesis using site unfolding it by auto
qed

theorem load_iter_sources_witness:
  "config_inv empty_config \<and> snd (iter_sources (load empty_config ''ana'')) = None"
  using empty_config_inv load_iter_sources [OF empty_config_inv, of "''ana''"] by simp

section \<open>Creating and changing jobs\<close>

lemma create_job_links:
  assumes "create_job_row db owner job sids = Inr (job', db')"
  shows "\<forall>sid \<in> set (job_source_ids job'). (owner, sid) \<in> set (map source_key (c_sources db))"
proof -
  obtain linked where ls: "link_sources (db\<lparr> c_jobs := c_jobs db @ [new_job_row owner job] \<rparr>) owner (job_id job) sids
      = (linked, db')"
    and "job_source_ids job' = linked"
    using assms by (auto simp: create_job_row_def Let_def split: if_splits prod.splits)
  with link_sources_spec [OF ls] show ?thesis by auto
qed

lemma find_append_None: "List.find P xs = None \<Longrightarrow> List.find P (xs @ ys) = List.find P ys"
  by (induction xs) (auto split: if_splits)

text \<open>A created job is read back as it was returned, up to the order of its sources: every
  field, the parsed options included. It is linked to exactly those of the requested sources the
  owner has; an unknown source and another owner's source are dropped alike.\<close>

theorem create_job_roundtrip:
  assumes inv: "config_inv db" and ok: "options_ok (job_options job)"
    and cr: "create_job_row db owner job sids = Inr (job', db')"
  shows "get_job db' owner (job_id job) = Inr (job'\<lparr> job_source_ids := sort (job_source_ids job') \<rparr>)
    \<and> set (job_source_ids job') = {sid \<in> set sids. (owner, sid) \<in> set (map source_key (c_sources db))}
    \<and> distinct (job_source_ids job') \<and> job_owner_id job' = owner"
proof -
  let ?row = "new_job_row owner job"
  let ?db1 = "db\<lparr> c_jobs := c_jobs db @ [?row] \<rparr>"
  obtain linked where fresh: "job_id job \<notin> set (map jb_id (c_jobs db))"
    and ls: "link_sources ?db1 owner (job_id job) sids = (linked, db')"
    and job': "job' = job\<lparr> job_owner_id := owner, job_source_ids := linked \<rparr>"
    using cr by (auto simp: create_job_row_def Let_def split: if_splits prod.splits)
  obtain new where db': "db' = ?db1\<lparr> c_links := c_links ?db1 @ new \<rparr>" and linked: "linked = map ln_source new"
    and new: "\<forall>l \<in> set new. ln_owner l = owner \<and> ln_job l = job_id job
         \<and> (owner, ln_source l) \<in> set (map source_key (c_sources ?db1)) \<and> ln_source l \<in> set sids"
    and dist: "distinct (map (\<lambda>l. (ln_job l, ln_source l)) new)"
    and all: "\<forall>sid \<in> set sids. (owner, sid) \<in> set (map source_key (c_sources ?db1))
         \<longrightarrow> (job_id job, sid) \<in> set (map (\<lambda>l. (ln_job l, ln_source l)) (c_links ?db1 @ new))"
    using link_sources_spec [OF ls] by blast
  have none: "ln_job l \<noteq> job_id job" if "l \<in> set (c_links db)" for l
    using inv fresh that unfolding config_inv_def by (metis (no_types, lifting) image_eqI list.set_map)
  have "List.find (\<lambda>r. jb_owner r = owner \<and> jb_id r = job_id job) (c_jobs db) = None"
    using fresh by (force simp: find_None_iff)
  then have find: "find_job db' owner (job_id job) = Some ?row"
    unfolding db' find_job_def by (simp add: find_append_None new_job_row_def)
  have "load_job_sources db' owner (job_id job) = sort linked"
    unfolding db' load_job_sources_def linked using none new by (simp add: filter_empty_conv filter_id_conv)
  then have "get_job db' owner (job_id job) = Inr (job'\<lparr> job_source_ids := sort (job_source_ids job') \<rparr>)"
    unfolding get_job_def find using parse_dump [OF ok]
    by (simp add: row_to_job_def new_job_row_def job')
  moreover have "set linked = {sid \<in> set sids. (owner, sid) \<in> set (map source_key (c_sources db))}"
    unfolding linked using new all none by (fastforce simp: image_iff)
  moreover have "distinct linked"
    using dist new unfolding linked distinct_map inj_on_def by auto
  ultimately show ?thesis by (simp add: job')
qed

definition sample_job :: digest_job where
  "sample_job = \<lparr> job_id = ''j'', job_owner_id = ''ana'', job_name = ''n'', job_frequency_kind = ''hourly'',
     job_schedule_cron = ''0 * * * *'', job_timezone = ''UTC'', job_template_id = ''default'',
     job_options = \<lparr> show_pix = True, show_card = True, variation_threshold_pct = None \<rparr>,
     job_enabled = True, job_created_at = Some ''t'', job_source_ids = [] \<rparr>"

theorem create_job_roundtrip_witness:
  "\<exists>job' db'. create_job_row empty_config ''ana'' sample_job [''s''] = Inr (job', db')
     \<and> get_job db' ''ana'' ''j'' = Inr (job'\<lparr> job_source_ids := sort (job_source_ids job') \<rparr>)
     \<and> job_source_ids job' = []"
proof -
  obtain job' db' where cr: "create_job_row empty_config ''ana'' sample_job [''s''] = Inr (job', db')"
    by (simp add: create_job_row_def empty_config_def)
  have "options_ok (job_options sample_job)" by (simp add: sample_job_def options_ok_def)
  from create_job_roundtrip [OF empty_config_inv this cr] cr show ?thesis
    by (auto simp: sample_job_def empty_config_def)
qed

text \<open>Linking a source twice answers False the second time, although the source is the owner's; and
  the job an update returns has lost its creation time, which the stored job keeps.\<close>

lemma second_link_answers_false:
  "let db = \<lparr> c_owners = [], c_sites = [], c_products = [],
              c_sources = [\<lparr> sr_id = ''s'', sr_owner = ''ana'', sr_product = ''p'', sr_site = ''k'', sr_url = ''u'' \<rparr>],
              c_jobs = [new_job_row ''ana'' sample_job], c_links = [] \<rparr>
   in map_sum id fst (add_job_source db ''ana'' ''j'' ''s'') = Inr True
      \<and> map_sum id fst (bindE (add_job_source db ''ana'' ''j'' ''s'') (\<lambda>(b, db'). add_job_source db' ''ana'' ''j'' ''s''))
          = Inr False"
  by code_simp

lemma update_job_returns_no_created_at:
  "let db = empty_config\<lparr> c_jobs := [new_job_row ''ana'' sample_job] \<rparr>;
       r = update_job_row db ''ana'' ''j'' (sample_job\<lparr> job_created_at := None \<rparr>)
   in map_sum id (\<lambda>(j, db'). (job_created_at j, map jb_created_at (c_jobs db'))) r = Inr (None, [Some ''t''])"
  by code_simp

end
