(* ===== verification/App_Service.thy ===== *)
theory App_Service
  imports State_Store Config_Store
begin

text \<open>
  The use cases of \<open>core/app/services.py\<close>: the tenant-scoped reads and writes, the bulk import
  and \<open>run_now\<close>, over the two databases. The router (\<open>autolycos/router.py\<close>), the parser
  factory, the digest of \<open>hashlib\<close>, the IANA zones, \<open>uuid4\<close> and the clock are injected in the
  code and are arguments here. The domain policy is asked at each check, so it is a function of
  the configuration database (the policy of the site catalogue reads it live).
\<close>

section \<open>Collaborators and values\<close>

record 'w router =
  rt_known_tiers :: "string list"
  rt_tier_available :: "string \<Rightarrow> bool result"
  rt_select :: "string \<Rightarrow> string list \<Rightarrow> 'w fetcher result"

type_synonym parser_factory = "parser_spec \<Rightarrow> (string \<Rightarrow> page_extract result) result"
type_synonym live_policy = "config_db \<Rightarrow> domain_policy"

record principal =
  p_owner_id :: string
  p_role :: string

record digest_job_spec =
  sp_name :: string
  sp_frequency_kind :: string
  sp_minute :: int
  sp_hour :: int
  sp_cron_expr :: "string option"
  sp_timezone :: string
  sp_template_id :: string
  sp_options :: raw_options
  sp_enabled :: bool
  sp_source_ids :: "string list"

record run_result =
  run_records :: "scrape_record list"
  run_generated_at :: string
  run_tier2_labels :: "(string \<times> string) list"
  run_source_labels :: "(string \<times> string) list"

record import_summary =
  imp_sites :: nat
  imp_products :: nat

definition combined_policy :: "domain_policy \<Rightarrow> domain_policy \<Rightarrow> domain_policy" where
  "combined_policy base batch host \<longleftrightarrow> base host \<or> batch host"

definition tier_unavailable :: "'w router \<Rightarrow> site_config \<Rightarrow> bool result" where
  "tier_unavailable router site = map_sum id Not (rt_tier_available router (site_fetcher site))"

section \<open>Writes\<close>

definition unknown_fetcher_tier_error :: "'w router \<Rightarrow> site_config \<Rightarrow> string option" where
  "unknown_fetcher_tier_error router spec =
     (if site_fetcher spec \<notin> set (rt_known_tiers router)
      then Some (''site '' @ py_repr (site_name spec) @ '' references unknown fetcher tier ''
                 @ py_repr (site_fetcher spec) @ '' (known: ''
                 @ repr_list (sort (remdups (rt_known_tiers router))) @ '')'')
      else None)"

definition not_allowed_site :: "principal \<Rightarrow> exn" where
  "not_allowed_site pr =
     PermissionError (''principal '' @ py_repr (p_owner_id pr) @ '' (role='' @ py_repr (p_role pr)
                      @ '') is not allowed to add a site'')"

definition svc_add_site :: "'w router \<Rightarrow> config_db \<Rightarrow> principal \<Rightarrow> site_config \<Rightarrow> config_db result" where
  "svc_add_site router db pr spec =
     (if p_role pr \<noteq> ''admin'' then Inl (not_allowed_site pr)
      else (case unknown_fetcher_tier_error router spec of
              Some e \<Rightarrow> Inl (ConfigError e)
            | None \<Rightarrow> Inr (add_site_row db spec)))"

definition svc_add_product ::
  "config_db \<Rightarrow> string \<Rightarrow> string \<Rightarrow> string option \<Rightarrow> (product \<times> config_db) result" where
  "svc_add_product db owner key nm =
     (if owner = [] then Inl (ValueError ''owner must not be empty'')
      else bindE (validate_product_key key) (\<lambda>_.
        let p = \<lparr> prod_id = key, prod_name = nm, prod_sources = [] \<rparr>
        in Inr (p, add_product_row db owner p)))"

definition svc_add_source ::
  "(string \<Rightarrow> string) \<Rightarrow> 'w router \<Rightarrow> live_policy \<Rightarrow> config_db \<Rightarrow> string \<Rightarrow> string \<Rightarrow> string \<Rightarrow> string
    \<Rightarrow> (product_source \<times> config_db) result" where
  "svc_add_source sha router policy db owner key site url =
     (if owner = [] then Inl (ValueError ''owner must not be empty'')
      else bindE (validate_product_key key) (\<lambda>_.
        case map_of (reg_sites (load db owner)) site of
          None \<Rightarrow> Inl (KeyError (''unknown site '' @ py_repr site))
        | Some sc \<Rightarrow>
            bindE (rt_tier_available router (site_fetcher sc)) (\<lambda>available.
            bindE (raise_if (\<not> available)
                    (FetcherTierUnavailableError (''site '' @ py_repr site @ '' needs fetcher tier ''
                       @ py_repr (site_fetcher sc)
                       @ '', which is not available in this deployment''))) (\<lambda>_.
            bindE (validate_source_url url
                    (''add_source(owner='' @ py_repr owner @ '', product_key='' @ py_repr key @ '')'')
                    (policy db)) (\<lambda>_.
            bindE (make_source_id sha key site url) (\<lambda>sid.
              let source = \<lparr> src_id = sid, src_product_id = key, src_site = site, src_url = url \<rparr>
              in bindE (add_source_row db owner source) (\<lambda>db'. Inr (source, db'))))))))"

section \<open>Bulk import\<close>

text \<open>Validation, with every error collected. An exception that is not a ValueError (the probe of a
  tier raising) leaves the method.\<close>

definition import_ctx :: "string \<Rightarrow> string \<Rightarrow> string" where
  "import_ctx owner key = ''import_config(owner='' @ py_repr owner @ '', product_key='' @ py_repr key @ '')''"

definition source_errors ::
  "'w router \<Rightarrow> domain_policy \<Rightarrow> (string \<times> site_config) list \<Rightarrow> string \<Rightarrow> string \<Rightarrow> string \<times> string
    \<Rightarrow> string list result" where
  "source_errors router policy sites owner key su =
     (case map_of sites (fst su) of
        None \<Rightarrow> Inr [''product '' @ py_repr key @ '' source (site='' @ py_repr (fst su) @ ''): unknown site'']
      | Some sc \<Rightarrow>
          bindE (rt_tier_available router (site_fetcher sc)) (\<lambda>available.
            let e1 = (if available then []
                      else [''product '' @ py_repr key @ '' source (site='' @ py_repr (fst su)
                            @ ''): fetcher tier '' @ py_repr (site_fetcher sc)
                            @ '' not available in this deployment''])
            in (case validate_source_url (snd su) (import_ctx owner key) policy of
                  Inr _ \<Rightarrow> Inr e1
                | Inl e \<Rightarrow>
                    if is_value_error e
                    then Inr (e1 @ [''product '' @ py_repr key @ '' source (site='' @ py_repr (fst su)
                                    @ '', url='' @ py_repr (snd su) @ ''): '' @ exn_str e])
                    else Inl e)))"

fun collect :: "('a \<Rightarrow> string list result) \<Rightarrow> 'a list \<Rightarrow> string list result" where
  "collect f [] = Inr []"
| "collect f (x # xs) = bindE (f x) (\<lambda>a. bindE (collect f xs) (\<lambda>b. Inr (a @ b)))"

definition product_errors ::
  "'w router \<Rightarrow> domain_policy \<Rightarrow> (string \<times> site_config) list \<Rightarrow> string
    \<Rightarrow> string \<times> (string \<times> string) list \<Rightarrow> string list result" where
  "product_errors router policy sites owner ps =
     (let e1 = (case validate_product_key (fst ps) of
                  Inl e \<Rightarrow> [''product '' @ py_repr (fst ps) @ '': '' @ exn_str e]
                | Inr _ \<Rightarrow> [])
      in bindE (collect (source_errors router policy sites owner (fst ps)) (snd ps)) (\<lambda>e2. Inr (e1 @ e2)))"

text \<open>The write phase: each write commits on its own, so an exception leaves what was written.\<close>

fun import_sites :: "'w router \<Rightarrow> principal \<Rightarrow> site_config list \<Rightarrow> config_db \<Rightarrow> unit result \<times> config_db" where
  "import_sites router pr [] db = (Inr (), db)"
| "import_sites router pr (s # ss) db =
     (case svc_add_site router db pr s of
        Inl e \<Rightarrow> (Inl e, db)
      | Inr db' \<Rightarrow> import_sites router pr ss db')"

fun import_sources ::
  "(string \<Rightarrow> string) \<Rightarrow> 'w router \<Rightarrow> live_policy \<Rightarrow> string \<Rightarrow> string \<Rightarrow> (string \<times> string) list
    \<Rightarrow> config_db \<Rightarrow> unit result \<times> config_db" where
  "import_sources sha router policy owner key [] db = (Inr (), db)"
| "import_sources sha router policy owner key ((site, url) # sus) db =
     (case svc_add_source sha router policy db owner key site url of
        Inl e \<Rightarrow> (Inl e, db)
      | Inr (_, db') \<Rightarrow> import_sources sha router policy owner key sus db')"

fun import_products ::
  "(string \<Rightarrow> string) \<Rightarrow> 'w router \<Rightarrow> live_policy \<Rightarrow> string \<Rightarrow> (string \<times> (string \<times> string) list) list
    \<Rightarrow> config_db \<Rightarrow> unit result \<times> config_db" where
  "import_products sha router policy owner [] db = (Inr (), db)"
| "import_products sha router policy owner ((key, sus) # ps) db =
     (case svc_add_product db owner key None of
        Inl e \<Rightarrow> (Inl e, db)
      | Inr (_, db1) \<Rightarrow>
          (case import_sources sha router policy owner key sus db1 of
             (Inl e, db2) \<Rightarrow> (Inl e, db2)
           | (Inr _, db2) \<Rightarrow> import_products sha router policy owner ps db2))"

fun partial_error :: "exn \<Rightarrow> exn" where
  "partial_error (PermissionError m) = PermissionError m"
| "partial_error e = ConfigImportPartialError (''write phase interrupted, import PARTIAL: '' @ exn_str e)"

definition import_config ::
  "(string \<Rightarrow> string) \<Rightarrow> 'w router \<Rightarrow> live_policy \<Rightarrow> principal \<Rightarrow> string option
    \<Rightarrow> (string \<times> site_config) list \<Rightarrow> (string \<times> (string \<times> string) list) list
    \<Rightarrow> config_db \<Rightarrow> import_summary result \<times> config_db" where
  "import_config sha router policy pr owner sites products db =
     (if sites \<noteq> [] \<and> p_role pr \<noteq> ''admin'' then (Inl (not_allowed_site pr), db)
      else if p_role pr \<noteq> ''admin'' \<and> owner \<noteq> None \<and> owner \<noteq> Some (p_owner_id pr)
      then (Inl (PermissionError (''principal '' @ py_repr (p_owner_id pr) @ '' (role='' @ py_repr (p_role pr)
              @ '') is not allowed to import products for owner '' @ py_repr (the owner))), db)
      else
        (let site_errors = [e. (k, s) \<leftarrow> sites, Some e \<leftarrow> [unknown_fetcher_tier_error router s]];
             vpolicy = combined_policy (policy db) (domain_allowed (map (site_domain \<circ> snd) sites));
             own = (case owner of Some o1 \<Rightarrow> o1 | None \<Rightarrow> []);
             prods = (if own \<noteq> [] then products else [])
         in case collect (product_errors router vpolicy sites own) prods of
              Inl e \<Rightarrow> (Inl e, db)
            | Inr perrors \<Rightarrow>
                if site_errors @ perrors \<noteq> [] then (Inl (ConfigImportError (site_errors @ perrors)), db)
                else (case import_sites router pr (map snd sites) db of
                        (Inl e, db1) \<Rightarrow> (Inl (partial_error e), db1)
                      | (Inr _, db1) \<Rightarrow>
                          (case import_products sha router policy own prods db1 of
                             (Inl e, db2) \<Rightarrow> (Inl (partial_error e), db2)
                           | (Inr _, db2) \<Rightarrow>
                               (Inr \<lparr> imp_sites = length sites, imp_products = length prods \<rparr>, db2)))))"

section \<open>Digest jobs\<close>

definition checked_job ::
  "string list \<Rightarrow> string \<Rightarrow> string \<Rightarrow> string option \<Rightarrow> digest_job_spec \<Rightarrow> digest_job result" where
  "checked_job zones owner jid created spec =
     bindE (normalize_schedule (sp_frequency_kind spec) (sp_minute spec) (sp_hour spec) (sp_cron_expr spec)) (\<lambda>cron.
     bindE (validate_timezone zones (sp_timezone spec)) (\<lambda>_.
     bindE (validate_template_id (sp_template_id spec)) (\<lambda>_.
     bindE (parse_job_options (sp_options spec)) (\<lambda>opts.
       Inr \<lparr> job_id = jid, job_owner_id = owner, job_name = sp_name spec,
             job_frequency_kind = sp_frequency_kind spec, job_schedule_cron = cron,
             job_timezone = sp_timezone spec, job_template_id = sp_template_id spec,
             job_options = opts, job_enabled = sp_enabled spec, job_created_at = created,
             job_source_ids = [] \<rparr>))))"

definition svc_create_job ::
  "string list \<Rightarrow> string \<Rightarrow> string \<Rightarrow> config_db \<Rightarrow> principal \<Rightarrow> digest_job_spec
    \<Rightarrow> (digest_job \<times> config_db) result" where
  "svc_create_job zones uuid now db pr spec =
     (if p_owner_id pr = [] then Inl (ValueError ''owner must not be empty'')
      else bindE (checked_job zones (p_owner_id pr) uuid (Some now) spec) (\<lambda>job.
        create_job_row db (p_owner_id pr) job (sp_source_ids spec)))"

definition svc_update_job ::
  "string list \<Rightarrow> config_db \<Rightarrow> string \<Rightarrow> string \<Rightarrow> digest_job_spec \<Rightarrow> (digest_job \<times> config_db) result" where
  "svc_update_job zones db owner jid spec =
     (if owner = [] then Inl (ValueError ''owner must not be empty'')
      else bindE (checked_job zones owner jid None spec) (\<lambda>job. update_job_row db owner jid job))"

definition list_jobs_with_status ::
  "config_db \<Rightarrow> state_db \<Rightarrow> string \<Rightarrow> (digest_job \<times> job_run_summary option) list result" where
  "list_jobs_with_status db sdb owner =
     bindE (list_jobs db owner) (\<lambda>jobs.
       let latest = latest_job_runs sdb owner in Inr (map (\<lambda>j. (j, map_of latest (job_id j))) jobs))"

section \<open>Running all sources of an owner\<close>

definition source_failed :: "string \<Rightarrow> string \<Rightarrow> exn \<Rightarrow> scrape_record" where
  "source_failed sid ts e = indeterminate sid ts None (''source failed: '' @ exn_name e @ '': '' @ exn_str e)"

text \<open>The body of the loop: None when the source is skipped, else the record.\<close>

definition run_source ::
  "'w router \<Rightarrow> parser_factory \<Rightarrow> string \<Rightarrow> string \<Rightarrow> 'w sleeper \<Rightarrow> product_source \<Rightarrow> site_config
    \<Rightarrow> state_db \<times> 'w \<Rightarrow> scrape_record option \<times> (state_db \<times> 'w)" where
  "run_source router factory owner now sleep source site dw =
     (case tier_unavailable router site of
        Inl e \<Rightarrow> (Some (source_failed (src_id source) now e), dw)
      | Inr True \<Rightarrow> (None, dw)
      | Inr False \<Rightarrow>
          (case rt_select router (site_fetcher site) (site_subresource_domains site) of
             Inl e \<Rightarrow> (Some (source_failed (src_id source) now e), dw)
           | Inr fetch \<Rightarrow>
               (case factory (site_parser site) of
                  Inl e \<Rightarrow> (Some (source_failed (src_id source) now e), dw)
                | Inr parse \<Rightarrow>
                    (case scrape_and_record fetch parse owner (src_id source) (src_url source)
                            (Some now) now sleep dw of
                       (Inl e, dw') \<Rightarrow> (Some (source_failed (src_id source) now e), dw')
                     | (Inr rec, dw') \<Rightarrow> (Some rec, dw')))))"

fun run_sources ::
  "'w router \<Rightarrow> parser_factory \<Rightarrow> string \<Rightarrow> string \<Rightarrow> 'w sleeper
    \<Rightarrow> (product \<times> product_source \<times> site_config) list \<Rightarrow> state_db \<times> 'w
    \<Rightarrow> scrape_record list \<times> (string \<times> string) list \<times> (state_db \<times> 'w)" where
  "run_sources router factory owner now sleep [] dw = ([], [], dw)"
| "run_sources router factory owner now sleep ((p, source, site) # rest) dw =
     (let (r, dw1) = run_source router factory owner now sleep source site dw;
          (rs, labels, dw2) = run_sources router factory owner now sleep rest dw1
      in ((case r of None \<Rightarrow> rs | Some rec \<Rightarrow> rec # rs),
          (if truthy (site_tier2_label site) then (src_id source, the (site_tier2_label site)) # labels
           else labels), dw2))"

text \<open>The label dictionary is built by assignment; the generator's exception leaves the method
  after the sources before it were scraped.\<close>

definition run_now ::
  "'w router \<Rightarrow> parser_factory \<Rightarrow> config_db \<Rightarrow> string \<Rightarrow> string \<Rightarrow> 'w sleeper \<Rightarrow> state_db \<times> 'w
    \<Rightarrow> run_result result \<times> (state_db \<times> 'w)" where
  "run_now router factory cdb owner now sleep dw =
     (let reg = load cdb owner;
          (triples, err) = iter_sources reg;
          (rs, labels, dw') = run_sources router factory owner now sleep triples dw
      in (case err of
            Some e \<Rightarrow> Inl e
          | None \<Rightarrow> Inr \<lparr> run_records = rs, run_generated_at = now,
                           run_tier2_labels = fold (\<lambda>(k, v). AList.update k v) labels [],
                           run_source_labels = source_labels reg \<rparr>, dw'))"

section \<open>The write gate\<close>

lemma validate_source_url_Inr:
  "validate_source_url url ctx policy = Inr u \<longleftrightarrow> (\<exists>sh. check_scheme_and_domain url policy = Inr sh)"
  by (auto simp: validate_source_url_def split: sum.splits exn.splits)

lemma check_scheme_and_domain_mono:
  assumes "check_scheme_and_domain url p = Inr sh" "\<And>h. p h \<Longrightarrow> q h"
  shows "check_scheme_and_domain url q = Inr sh"
  using assms by (auto simp: check_scheme_and_domain_def bindE_Inr_iff Let_def split: if_splits option.splits)

lemma domain_allowed_mono: "set a \<subseteq> set b \<Longrightarrow> domain_allowed a h \<Longrightarrow> domain_allowed b h"
  by (auto simp: domain_allowed_def list_ex_iff Let_def)

text \<open>The identifier of every stored source is the one derived from its row.\<close>

definition ids_derived :: "(string \<Rightarrow> string) \<Rightarrow> config_db \<Rightarrow> bool" where
  "ids_derived sha db \<longleftrightarrow>
     (\<forall>r \<in> set (c_sources db). make_source_id sha (sr_product r) (sr_site r) (sr_url r) = Inr (sr_id r))"

lemma svc_add_source_Inr:
  assumes "svc_add_source sha router policy db owner key site url = Inr (s, db')"
  shows "owner \<noteq> [] \<and> validate_product_key key = Inr () \<and> make_source_id sha key site url = Inr (src_id s)
    \<and> src_product_id s = key \<and> src_site s = site \<and> src_url s = url
    \<and> (\<exists>sc. map_of (load_sites db) site = Some sc \<and> rt_tier_available router (site_fetcher sc) = Inr True)
    \<and> (\<exists>sh. check_scheme_and_domain url (policy db) = Inr sh)
    \<and> add_source_row db owner s = Inr db'"
  using assms
  by (auto simp: svc_add_source_def bindE_Inr_iff load_def validate_source_url_Inr Let_def
           split: if_splits option.splits)

lemma add_source_row_key:
  "add_source_row db owner s = Inr db' \<Longrightarrow> (owner, src_id s) \<in> set (map source_key (c_sources db'))"
  by (auto simp: add_source_row_def source_key_def Let_def split: if_splits)


text \<open>A deployment used in the examples below: one site, the http tier, one product of one owner.\<close>

definition kabum_site :: site_config where
  "kabum_site = \<lparr> site_name = ''kabum'', site_fetcher = ''http'',
     site_parser = \<lparr> ps_kind = ''statejson'', ps_pix = None, ps_card = None, ps_availability = None \<rparr>,
     site_domain = ''kabum.com.br'', site_tier2_label = None, site_subresource_domains = [] \<rparr>"

definition http_router :: "nat router" where
  "http_router = \<lparr> rt_known_tiers = [''http''], rt_tier_available = (\<lambda>t. Inr (t = ''http'')),
     rt_select = (\<lambda>t ds. Inr sold_out_fetch) \<rparr>"

definition admin :: principal where
  "admin = \<lparr> p_owner_id = ''root'', p_role = ''admin'' \<rparr>"

definition sample_config :: config_db where
  "sample_config = add_product_row (add_site_row empty_config kabum_site) ''ana''
     \<lparr> prod_id = ''p'', prod_name = Some ''P'', prod_sources = [] \<rparr>"

lemma sample_config_inv: "config_inv sample_config"
  unfolding sample_config_def by (intro add_product_row_inv add_site_row_inv empty_config_inv)


section \<open>Import: all or nothing\<close>

lemma collect_Nil: "collect f xs = Inr [] \<longleftrightarrow> (\<forall>x \<in> set xs. f x = Inr [])"
proof (induction xs)
  case (Cons x xs)
  show ?case
    by (cases "f x"; cases "collect f xs") (use Cons in auto)
qed simp

lemma set_add_site_row:
  "set (c_sites (add_site_row db s)) = insert s {x \<in> set (c_sites db). site_name x \<noteq> site_name s}"
  by (auto simp: add_site_row_def image_iff)

lemma set_add_sites:
  "distinct (map site_name ss) \<Longrightarrow>
     set (c_sites (foldl add_site_row db ss)) =
       set ss \<union> {x \<in> set (c_sites db). site_name x \<notin> set (map site_name ss)}"
proof (induction ss arbitrary: db)
  case (Cons s ss)
  then show ?case by (auto simp: set_add_site_row)
qed simp

lemma add_sites_inv: "config_inv db \<Longrightarrow> config_inv (foldl add_site_row db ss)"
  by (induction ss arbitrary: db) (simp_all add: add_site_row_inv)

lemma add_sites_frame: "c_sources (foldl add_site_row db ss) = c_sources db"
  by (induction ss arbitrary: db) (simp_all add: add_site_row_frame)

lemma import_sites_ok:
  assumes "p_role pr = ''admin'' \<or> ss = []" "\<And>s. s \<in> set ss \<Longrightarrow> unknown_fetcher_tier_error router s = None"
  shows "import_sites router pr ss db = (Inr (), foldl add_site_row db ss)"
  using assms by (induction ss arbitrary: db) (auto simp: svc_add_site_def)

text \<open>A source entry of the batch that the write phase will accept in a given catalogue.\<close>

definition writable :: "'w router \<Rightarrow> config_db \<Rightarrow> string \<times> string \<Rightarrow> bool" where
  "writable router db su \<longleftrightarrow>
     (\<exists>sc. map_of (load_sites db) (fst su) = Some sc \<and> rt_tier_available router (site_fetcher sc) = Inr True)
     \<and> (\<exists>sh. check_scheme_and_domain (snd su) (catalogue_policy db) = Inr sh)"

lemma writable_sites: "c_sites db' = c_sites db \<Longrightarrow> writable router db' su = writable router db su"
  by (simp add: writable_def load_sites_def catalogue_policy_def site_domains_def)

lemma add_source_row_ok:
  assumes "ids_derived sha db" "make_source_id sha (src_product_id s) (src_site s) (src_url s) = Inr (src_id s)"
    "(owner, src_product_id s) \<in> set (map product_key (c_products db))" "src_site s \<in> set (map site_name (c_sites db))"
  shows "\<exists>db'. add_source_row db owner s = Inr db' \<and> c_sites db' = c_sites db \<and> c_products db' = c_products db
    \<and> ids_derived sha db' \<and> set (map source_key (c_sources db)) \<subseteq> set (map source_key (c_sources db'))"
proof (cases "(owner, src_id s) \<in> set (map source_key (c_sources db))")
  case True
  then show ?thesis using assms(1) by (auto simp: add_source_row_def source_key_def)
next
  case False
  have "(owner, src_product_id s, src_site s, src_url s) \<notin> set (map source_triple (c_sources db))"
  proof
    assume "(owner, src_product_id s, src_site s, src_url s) \<in> set (map source_triple (c_sources db))"
    then obtain r where r: "r \<in> set (c_sources db)" "sr_owner r = owner" "sr_product r = src_product_id s"
      "sr_site r = src_site s" "sr_url r = src_url s" by (auto simp: source_triple_def)
    with assms(1,2) have "sr_id r = src_id s" by (auto simp: ids_derived_def)
    with r False show False by (force simp: source_key_def)
  qed
  with False assms show ?thesis
    by (auto simp: add_source_row_def source_key_def source_triple_def ids_derived_def Let_def)
qed

text \<open>An entry of the batch is stored when its derived identifier is a source of the owner.\<close>

definition stored :: "(string \<Rightarrow> string) \<Rightarrow> config_db \<Rightarrow> string \<Rightarrow> string \<Rightarrow> string \<times> string \<Rightarrow> bool" where
  "stored sha db owner key su \<longleftrightarrow> (\<exists>sid. make_source_id sha key (fst su) (snd su) = Inr sid
     \<and> (owner, sid) \<in> set (map source_key (c_sources db)))"

lemma stored_mono:
  "set (map source_key (c_sources db)) \<subseteq> set (map source_key (c_sources db')) \<Longrightarrow>
     stored sha db owner key su \<Longrightarrow> stored sha db' owner key su"
  unfolding stored_def by blast

lemma svc_add_source_ok:
  assumes "writable router db (site, url)" "owner \<noteq> []" "validate_product_key key = Inr ()" "ids_derived sha db"
    "(owner, key) \<in> set (map product_key (c_products db))"
  shows "\<exists>s db'. svc_add_source sha router catalogue_policy db owner key site url = Inr (s, db')
    \<and> c_sites db' = c_sites db \<and> c_products db' = c_products db \<and> ids_derived sha db'
    \<and> set (map source_key (c_sources db)) \<subseteq> set (map source_key (c_sources db'))
    \<and> stored sha db' owner key (site, url)"
proof -
  obtain sc sh where w: "map_of (load_sites db) site = Some sc" "rt_tier_available router (site_fetcher sc) = Inr True"
    "check_scheme_and_domain url (catalogue_policy db) = Inr sh"
    using assms(1) by (auto simp: writable_def)
  obtain sid where sid: "make_source_id sha key site url = Inr sid"
    using assms(3) by (simp add: make_source_id_def)
  define s where "s = \<lparr> src_id = sid, src_product_id = key, src_site = site, src_url = url \<rparr>"
  have "site \<in> set (map site_name (c_sites db))"
    using map_of_SomeD [OF w(1)] by (auto simp: load_sites_def)
  then obtain db' where db': "add_source_row db owner s = Inr db'" "c_sites db' = c_sites db"
    "c_products db' = c_products db" "ids_derived sha db'"
    "set (map source_key (c_sources db)) \<subseteq> set (map source_key (c_sources db'))"
    using add_source_row_ok [OF assms(4), of s owner] sid assms(5) by (auto simp: s_def)
  have "validate_source_url url ctx (catalogue_policy db) = Inr ()" for ctx
    using w(3) by (simp add: validate_source_url_Inr)
  then have "svc_add_source sha router catalogue_policy db owner key site url = Inr (s, db')"
    using w assms(2,3) sid db'(1) by (simp add: svc_add_source_def load_def s_def)
  with db' sid add_source_row_key [OF db'(1)] show ?thesis by (auto simp: s_def stored_def)
qed

lemma import_sources_ok:
  assumes "\<And>su. su \<in> set sus \<Longrightarrow> writable router db su" "owner \<noteq> []" "validate_product_key key = Inr ()"
    "ids_derived sha db" "(owner, key) \<in> set (map product_key (c_products db))"
  shows "\<exists>db'. import_sources sha router catalogue_policy owner key sus db = (Inr (), db')
    \<and> c_sites db' = c_sites db \<and> c_products db' = c_products db \<and> ids_derived sha db'
    \<and> set (map source_key (c_sources db)) \<subseteq> set (map source_key (c_sources db'))
    \<and> (\<forall>su \<in> set sus. stored sha db' owner key su)"
  using assms
proof (induction sus arbitrary: db)
  case (Cons su sus)
  obtain site url where su: "su = (site, url)" by (cases su)
  have "writable router db (site, url)" using Cons.prems(1) su by auto
  from svc_add_source_ok [OF this Cons.prems(2-5)] obtain s db1 where
    one: "svc_add_source sha router catalogue_policy db owner key site url = Inr (s, db1)"
    and f1: "c_sites db1 = c_sites db" "c_products db1 = c_products db" "ids_derived sha db1"
      "set (map source_key (c_sources db)) \<subseteq> set (map source_key (c_sources db1))"
      "stored sha db1 owner key (site, url)"
    by blast
  have "\<exists>db'. import_sources sha router catalogue_policy owner key sus db1 = (Inr (), db')
    \<and> c_sites db' = c_sites db1 \<and> c_products db' = c_products db1 \<and> ids_derived sha db'
    \<and> set (map source_key (c_sources db1)) \<subseteq> set (map source_key (c_sources db'))
    \<and> (\<forall>su \<in> set sus. stored sha db' owner key su)"
    using Cons.prems f1 by (intro Cons.IH) (auto simp: writable_sites [OF f1(1)])
  then obtain db' where rest: "import_sources sha router catalogue_policy owner key sus db1 = (Inr (), db')"
    and f2: "c_sites db' = c_sites db1" "c_products db' = c_products db1" "ids_derived sha db'"
      "set (map source_key (c_sources db1)) \<subseteq> set (map source_key (c_sources db'))"
      "\<forall>su \<in> set sus. stored sha db' owner key su" by blast
  have "set (map source_key (c_sources db)) \<subseteq> set (map source_key (c_sources db'))"
    using f1(4) f2(4) by (rule subset_trans)
  with one rest f1 f2 stored_mono [OF f2(4) f1(5)] show ?case
    unfolding su by (intro exI [of _ db']) simp
qed simp

lemma import_products_ok:
  assumes "\<And>key sus. (key, sus) \<in> set ps \<Longrightarrow> validate_product_key key = Inr () \<and> (\<forall>su \<in> set sus. writable router db su)"
    "owner \<noteq> [] \<or> ps = []" "ids_derived sha db"
  shows "\<exists>db'. import_products sha router catalogue_policy owner ps db = (Inr (), db')
    \<and> c_sites db' = c_sites db \<and> ids_derived sha db'
    \<and> set (map product_key (c_products db)) \<subseteq> set (map product_key (c_products db'))
    \<and> set (map source_key (c_sources db)) \<subseteq> set (map source_key (c_sources db'))
    \<and> (\<forall>(key, sus) \<in> set ps. (owner, key) \<in> set (map product_key (c_products db'))
         \<and> (\<forall>su \<in> set sus. stored sha db' owner key su))"
  using assms
proof (induction ps arbitrary: db)
  case (Cons p ps)
  obtain key sus where p: "p = (key, sus)" by (cases p)
  have key: "validate_product_key key = Inr ()" and own: "owner \<noteq> []" using Cons.prems p by auto
  define db1 where "db1 = add_product_row db owner \<lparr> prod_id = key, prod_name = None, prod_sources = [] \<rparr>"
  have svc: "\<exists>pp. svc_add_product db owner key None = Inr (pp, db1)"
    using key own by (simp add: svc_add_product_def db1_def Let_def)
  have f1: "c_sites db1 = c_sites db" "c_sources db1 = c_sources db" "ids_derived sha db1"
    "(owner, key) \<in> set (map product_key (c_products db1))"
    "set (map product_key (c_products db)) \<subseteq> set (map product_key (c_products db1))"
    using Cons.prems(3) unfolding db1_def add_product_row_keys
    by (auto simp: add_product_row_frame ids_derived_def)
  have "\<And>su. su \<in> set sus \<Longrightarrow> writable router db1 su"
    using Cons.prems(1) p by (auto simp: writable_sites [OF f1(1)])
  from import_sources_ok [OF this own key f1(3,4)] obtain db2 where
    two: "import_sources sha router catalogue_policy owner key sus db1 = (Inr (), db2)"
    and f2: "c_sites db2 = c_sites db1" "c_products db2 = c_products db1" "ids_derived sha db2"
      "set (map source_key (c_sources db1)) \<subseteq> set (map source_key (c_sources db2))"
      "\<forall>su \<in> set sus. stored sha db2 owner key su" by blast
  have "\<exists>db'. import_products sha router catalogue_policy owner ps db2 = (Inr (), db')
    \<and> c_sites db' = c_sites db2 \<and> ids_derived sha db'
    \<and> set (map product_key (c_products db2)) \<subseteq> set (map product_key (c_products db'))
    \<and> set (map source_key (c_sources db2)) \<subseteq> set (map source_key (c_sources db'))
    \<and> (\<forall>(key, sus) \<in> set ps. (owner, key) \<in> set (map product_key (c_products db'))
         \<and> (\<forall>su \<in> set sus. stored sha db' owner key su))"
  proof (rule Cons.IH)
    have same: "c_sites db2 = c_sites db" using f1 f2 by simp
    show "validate_product_key k = Inr () \<and> (\<forall>su \<in> set ss. writable router db2 su)" if "(k, ss) \<in> set ps" for k ss
      unfolding writable_sites [OF same] using Cons.prems(1) that by auto
    show "owner \<noteq> [] \<or> ps = []" using own ..
    show "ids_derived sha db2" by (rule f2(3))
  qed
  then obtain db' where three: "import_products sha router catalogue_policy owner ps db2 = (Inr (), db')"
    and f3: "c_sites db' = c_sites db2" "ids_derived sha db'"
      "set (map product_key (c_products db2)) \<subseteq> set (map product_key (c_products db'))"
      "set (map source_key (c_sources db2)) \<subseteq> set (map source_key (c_sources db'))"
      "\<forall>(key, sus) \<in> set ps. (owner, key) \<in> set (map product_key (c_products db'))
         \<and> (\<forall>su \<in> set sus. stored sha db' owner key su)" by blast
  have all: "import_products sha router catalogue_policy owner (p # ps) db = (Inr (), db')"
    using svc two three unfolding p by auto
  have "set (map product_key (c_products db)) \<subseteq> set (map product_key (c_products db'))"
    using f1(5) f2(2) f3(3) by auto
  moreover have "set (map source_key (c_sources db)) \<subseteq> set (map source_key (c_sources db'))"
    using f1(2) f2(4) f3(4) by auto
  moreover have "(owner, key) \<in> set (map product_key (c_products db'))"
    using f1(4) f2(2) f3(3) by auto
  moreover have "\<forall>su \<in> set sus. stored sha db' owner key su"
    using f2(5) stored_mono [OF f3(4)] by blast
  ultimately show ?case
    using all f1 f2 f3 unfolding p by (intro exI [of _ db']) simp
qed simp

lemma product_errors_Nil:
  "product_errors router policy sites owner (key, sus) = Inr [] \<longleftrightarrow>
     validate_product_key key = Inr () \<and> (\<forall>su \<in> set sus. source_errors router policy sites owner key su = Inr [])"
  by (auto simp: product_errors_def bindE_Inr_iff collect_Nil Let_def split: sum.splits)

lemma source_errors_Nil:
  assumes "source_errors router policy sites owner key su = Inr []"
  shows "\<exists>sc. map_of sites (fst su) = Some sc \<and> rt_tier_available router (site_fetcher sc) = Inr True
    \<and> (\<exists>sh. check_scheme_and_domain (snd su) policy = Inr sh)"
proof -
  obtain sc av where sc: "map_of sites (fst su) = Some sc" "rt_tier_available router (site_fetcher sc) = Inr av"
    using assms by (cases "map_of sites (fst su)") (auto simp: source_errors_def bindE_Inr_iff)
  obtain v where v: "validate_source_url (snd su) (import_ctx owner key) policy = Inr v"
    using assms sc by (cases "validate_source_url (snd su) (import_ctx owner key) policy")
      (auto simp: source_errors_def Let_def split: if_splits)
  moreover have "av" using assms sc v by (auto simp: source_errors_def Let_def split: if_splits)
  ultimately show ?thesis using sc by (auto simp: validate_source_url_Inr)
qed

text \<open>The catalogue after the batch's sites are written, when none of them moves to another domain.\<close>

definition stable_sites :: "config_db \<Rightarrow> (string \<times> site_config) list \<Rightarrow> bool" where
  "stable_sites db sites \<longleftrightarrow>
     distinct (map fst sites) \<and> (\<forall>(k, s) \<in> set sites. k = site_name s \<and> site_domain s \<noteq> []
       \<and> (\<forall>x \<in> set (c_sites db). site_name x = site_name s \<longrightarrow> site_domain x = site_domain s))"

lemma stable_sites_names: "stable_sites db sites \<Longrightarrow> distinct (map site_name (map snd sites))"
proof -
  assume st: "stable_sites db sites"
  then have "map fst sites = map site_name (map snd sites)" by (auto simp: stable_sites_def)
  with st show ?thesis by (metis stable_sites_def)
qed

lemma stable_sites_domains:
  assumes "stable_sites db sites"
  shows "set (site_domains db) \<union> set (map (site_domain \<circ> snd) sites)
    \<subseteq> set (site_domains (foldl add_site_row db (map snd sites)))"
proof -
  note sites = set_add_sites [OF stable_sites_names [OF assms], of db]
  have new: "d \<in> set (site_domains (foldl add_site_row db (map snd sites)))"
    if "(k, s) \<in> set sites" "d = site_domain s" for k s d
  proof -
    have "s \<in> set (map snd sites)" using that(1) by (metis image_eqI set_map snd_conv)
    then have "s \<in> set (c_sites (foldl add_site_row db (map snd sites)))" unfolding sites by (rule UnI1)
    then show ?thesis using that assms by (auto simp: site_domains_def stable_sites_def)
  qed
  have "d \<in> set (site_domains (foldl add_site_row db (map snd sites)))" if d: "d \<in> set (site_domains db)" for d
  proof -
    obtain x where x: "x \<in> set (c_sites db)" "d = site_domain x" "d \<noteq> []"
      using d by (auto simp: site_domains_def)
    show ?thesis
    proof (cases "site_name x \<in> set (map site_name (map snd sites))")
      case True
      then obtain k s where "(k, s) \<in> set sites" "site_name s = site_name x" by auto
      with x assms new show ?thesis by (auto simp: stable_sites_def)
    next
      case False
      then have "x \<in> set (c_sites (foldl add_site_row db (map snd sites)))" using sites x(1) by auto
      with x show ?thesis by (auto simp: site_domains_def)
    qed
  qed
  with new show ?thesis by auto
qed

lemma batch_writable:
  assumes inv: "config_inv db" and st: "stable_sites db sites"
    and ok: "source_errors router (combined_policy (catalogue_policy db)
               (domain_allowed (map (site_domain \<circ> snd) sites))) sites owner key su = Inr []"
  shows "writable router (foldl add_site_row db (map snd sites)) su"
proof -
  let ?db = "foldl add_site_row db (map snd sites)"
  obtain sc sh where sc: "map_of sites (fst su) = Some sc" "rt_tier_available router (site_fetcher sc) = Inr True"
    and chk: "check_scheme_and_domain (snd su) (combined_policy (catalogue_policy db)
               (domain_allowed (map (site_domain \<circ> snd) sites))) = Inr sh"
    using source_errors_Nil [OF ok] by blast
  have mem: "(fst su, sc) \<in> set sites" using sc(1) by (rule map_of_SomeD)
  have "sc \<in> set (map snd sites)" using mem by (metis image_eqI set_map snd_conv)
  then have "sc \<in> set (c_sites ?db)"
    unfolding set_add_sites [OF stable_sites_names [OF st], of db] by (rule UnI1)
  then have "map_of (load_sites ?db) (site_name sc) = Some sc"
    by (rule map_of_load_sites_Some [OF add_sites_inv [OF inv]])
  moreover have "site_name sc = fst su" using st mem by (auto simp: stable_sites_def)
  moreover have "catalogue_policy ?db h"
    if "combined_policy (catalogue_policy db) (domain_allowed (map (site_domain \<circ> snd) sites)) h" for h
    using that stable_sites_domains [OF st]
      domain_allowed_mono [of "map (site_domain \<circ> snd) sites" "site_domains ?db" h]
      domain_allowed_mono [of "site_domains db" "site_domains ?db" h]
    unfolding combined_policy_def catalogue_policy_def by (metis Un_subset_iff)
  ultimately show ?thesis
    using sc(2) check_scheme_and_domain_mono [OF chk, of "catalogue_policy ?db"] by (auto simp: writable_def)
qed

lemma import_batch_written:
  assumes inv: "config_inv db" and ids: "ids_derived sha db" and st: "stable_sites db sites"
    and coll: "collect (product_errors router (combined_policy (catalogue_policy db) (domain_allowed (map (site_domain \<circ> snd) sites)))
      sites own) prods = Inr []"
    and own: "own \<noteq> [] \<or> prods = []"
  shows "\<exists>db2. import_products sha router catalogue_policy own prods (foldl add_site_row db (map snd sites)) = (Inr (), db2)
    \<and> c_sites db2 = c_sites (foldl add_site_row db (map snd sites))
    \<and> (\<forall>(key, sus) \<in> set prods. (own, key) \<in> set (map product_key (c_products db2))
         \<and> (\<forall>su \<in> set sus. stored sha db2 own key su))"
proof -
  let ?db1 = "foldl add_site_row db (map snd sites)"
  have "\<exists>db2. import_products sha router catalogue_policy own prods ?db1 = (Inr (), db2)
      \<and> c_sites db2 = c_sites ?db1 \<and> ids_derived sha db2
      \<and> set (map product_key (c_products ?db1)) \<subseteq> set (map product_key (c_products db2))
      \<and> set (map source_key (c_sources ?db1)) \<subseteq> set (map source_key (c_sources db2))
      \<and> (\<forall>(key, sus) \<in> set prods. (own, key) \<in> set (map product_key (c_products db2))
           \<and> (\<forall>su \<in> set sus. stored sha db2 own key su))"
  proof (rule import_products_ok)
    fix key sus assume "(key, sus) \<in> set prods"
    then have "product_errors router (combined_policy (catalogue_policy db) (domain_allowed (map (site_domain \<circ> snd) sites)))
        sites own (key, sus) = Inr []"
      using coll by (auto simp: collect_Nil)
    then show "validate_product_key key = Inr () \<and> (\<forall>su \<in> set sus. writable router ?db1 su)"
      unfolding product_errors_Nil using batch_writable [OF inv st] by blast
  next
    show "own \<noteq> [] \<or> prods = []" by (rule own)
    show "ids_derived sha ?db1" using ids by (simp add: ids_derived_def add_sites_frame)
  qed
  then show ?thesis by blast
qed



text \<open>Without that condition the import can stop half-way: a batch that moves a site to a new domain
  and still has a source on the old one passes the validation, which also consults the old
  catalogue, and fails in the write phase after the site and the product are stored.\<close>

lemma import_partial_after_domain_move:
  "let db = add_site_row empty_config (kabum_site\<lparr> site_domain := ''kabum.com'' \<rparr>);
       (res, db') = import_config (\<lambda>u. u) http_router catalogue_policy admin (Some ''ana'')
                      [(''kabum'', kabum_site)] [(''p'', [(''kabum'', ''https://kabum.com/x'')])] db
   in (case res of Inl (ConfigImportPartialError _) \<Rightarrow> True | _ \<Rightarrow> False)
      \<and> map site_domain (c_sites db') = [''kabum.com.br''] \<and> map pr_key (c_products db') = [''p'']
      \<and> c_sources db' = []"
  by code_simp

section \<open>Jobs through the service\<close>

lemma checked_job_ok:
  assumes "checked_job zones owner uuid now spec = Inr j"
  shows "length (split_ws (job_schedule_cron j)) = 5" "job_timezone j \<in> set zones"
    "job_template_id j \<in> set VALID_TEMPLATE_IDS" "options_ok (job_options j)" "job_id j = uuid"
    "job_created_at j = now"
  using assms schedule_five [of "sp_frequency_kind spec"] parse_job_options_ok [of "sp_options spec"]
  by (auto simp: checked_job_def bindE_Inr_iff validate_timezone_def validate_template_id_def)

lemma svc_create_job_inv:
  assumes "config_inv db" "svc_create_job zones uuid now db pr spec = Inr (job, db')"
  shows "config_inv db'"
  using assms(2)
  by (auto simp: svc_create_job_def bindE_Inr_iff intro: create_job_row_inv [OF assms(1) checked_job_ok(4)]
      split: if_splits)

text \<open>A job that the service creates belongs to the caller, has a five-field schedule, a known
  time zone, a whitelisted template and options within bounds; it carries the new identifier and
  the creation time, and is linked to sources of the caller only.\<close>

theorem create_job_checked:
  assumes inv: "config_inv db" and cr: "svc_create_job zones uuid now db pr spec = Inr (job, db')"
  shows "job_owner_id job = p_owner_id pr \<and> p_owner_id pr \<noteq> [] \<and> job_id job = uuid
    \<and> job_created_at job = Some now \<and> length (split_ws (job_schedule_cron job)) = 5
    \<and> job_timezone job \<in> set zones \<and> job_template_id job \<in> set VALID_TEMPLATE_IDS
    \<and> options_ok (job_options job) \<and> config_inv db'
    \<and> (\<forall>sid \<in> set (job_source_ids job). (p_owner_id pr, sid) \<in> set (map source_key (c_sources db)))"
proof -
  obtain j where own: "p_owner_id pr \<noteq> []"
    and j: "checked_job zones (p_owner_id pr) uuid (Some now) spec = Inr j"
    and row: "create_job_row db (p_owner_id pr) j (sp_source_ids spec) = Inr (job, db')"
    using cr by (auto simp: svc_create_job_def bindE_Inr_iff split: if_splits)
  obtain linked where job: "job = j\<lparr> job_owner_id := p_owner_id pr, job_source_ids := linked \<rparr>"
    using row by (auto simp: create_job_row_def Let_def split: if_splits prod.splits)
  note chk = checked_job_ok [OF j]
  have "set (job_source_ids job) \<subseteq> {sid. (p_owner_id pr, sid) \<in> set (map source_key (c_sources db))}"
    using create_job_links [OF row] by auto
  with own job chk svc_create_job_inv [OF inv cr] show ?thesis by auto
qed

definition sample_spec :: digest_job_spec where
  "sample_spec = \<lparr> sp_name = ''n'', sp_frequency_kind = ''hourly'', sp_minute = 5, sp_hour = 0,
     sp_cron_expr = None, sp_timezone = ''UTC'', sp_template_id = ''default'', sp_options = [],
     sp_enabled = True, sp_source_ids = [''s''] \<rparr>"

theorem create_job_checked_witness:
  "\<exists>job db'. svc_create_job [''UTC''] ''j'' ''t'' empty_config \<lparr> p_owner_id = ''ana'', p_role = ''user'' \<rparr> sample_spec
      = Inr (job, db') \<and> job_owner_id job = ''ana'' \<and> length (split_ws (job_schedule_cron job)) = 5"
proof -
  let ?pr = "\<lparr> p_owner_id = ''ana'', p_role = ''user'' \<rparr>"
  have "\<exists>job db'. svc_create_job [''UTC''] ''j'' ''t'' empty_config ?pr sample_spec = Inr (job, db')"
    by (simp add: svc_create_job_def checked_job_def sample_spec_def normalize_schedule_def
        validate_timezone_def validate_template_id_def VALID_TEMPLATE_IDS_def parse_job_options_def
        dict_get_def create_job_row_def empty_config_def)
  then obtain job db' where cr: "svc_create_job [''UTC''] ''j'' ''t'' empty_config ?pr sample_spec = Inr (job, db')"
    by blast
  from cr create_job_checked [OF empty_config_inv cr] show ?thesis by auto
qed

section \<open>Running all sources\<close>

lemma source_failed_id [simp]: "rec_source_id (source_failed sid ts e) = sid"
  by (simp add: source_failed_def)

lemma run_source_id:
  "run_source router factory owner now sleep source site dw = (Some r, dw') \<Longrightarrow> rec_source_id r = src_id source"
  by (auto simp: run_source_def scrape_and_record_id split: sum.splits bool.splits prod.splits)

lemma run_source_None:
  "fst (run_source router factory owner now sleep source site dw) = None \<longleftrightarrow>
     rt_tier_available router (site_fetcher site) = Inr False"
  by (cases "rt_tier_available router (site_fetcher site)")
    (auto simp: run_source_def tier_unavailable_def split: sum.splits bool.splits prod.splits)

lemma run_source_same:
  assumes "run_source router factory owner now sleep source site (db, w) = (r, (db', w'))" "owner' \<noteq> owner"
  shows "histories.same_for owner' db db'"
  using assms histories.same_refl scrape_and_record_same
  by (auto simp: run_source_def split: sum.splits bool.splits prod.splits)

definition attempted :: "'w router \<Rightarrow> (product \<times> product_source \<times> site_config) list \<Rightarrow> string list" where
  "attempted router triples =
     [src_id s. (p, s, site) \<leftarrow> triples, rt_tier_available router (site_fetcher site) \<noteq> Inr False]"

lemma run_sources_ids:
  "map rec_source_id (fst (run_sources router factory owner now sleep triples dw)) = attempted router triples"
proof (induction router factory owner now sleep triples dw rule: run_sources.induct)
  case (2 router factory owner now sleep p source site rest dw)
  obtain r dw1 where r: "run_source router factory owner now sleep source site dw = (r, dw1)" by (metis surj_pair)
  have IH: "map rec_source_id (fst (run_sources router factory owner now sleep rest dw1)) = attempted router rest"
    using "2" r by simp
  show ?case
  proof (cases r)
    case None
    then show ?thesis
      using r IH run_source_None [of router factory owner now sleep source site dw]
      by (auto simp: attempted_def split: prod.splits)
  next
    case (Some rec)
    then show ?thesis
      using r IH run_source_id [of router factory owner now sleep source site dw rec dw1]
        run_source_None [of router factory owner now sleep source site dw]
      by (auto simp: attempted_def split: prod.splits)
  qed
qed (simp add: attempted_def)

lemma run_sources_same:
  assumes "run_sources router factory owner now sleep triples (db, w) = (rs, lb, (db', w'))" "owner' \<noteq> owner"
  shows "histories.same_for owner' db db'"
  using assms
proof (induction triples arbitrary: db w rs lb)
  case (Cons t ts)
  obtain p source site where t: "t = (p, source, site)" by (cases t)
  obtain r db1 w1 where r: "run_source router factory owner now sleep source site (db, w) = (r, (db1, w1))"
    by (metis surj_pair)
  obtain rs2 lb2 where rest: "run_sources router factory owner now sleep ts (db1, w1) = (rs2, lb2, (db', w'))"
    using Cons.prems(1) r unfolding t by (auto split: prod.splits)
  show ?case
    using run_source_same [OF r Cons.prems(2)] Cons.IH [OF rest Cons.prems(2)] by (rule histories.same_trans)
qed (use histories.same_refl in auto)

text \<open>C11: a run of an owner's sources always completes, whatever the fetchers, the parsers, the
  router and the store raise. It reports exactly one record for every source whose tier this
  deployment has, in the order of the registry, so a failing source never hides another; and no
  other owner's history changes.\<close>

theorem run_now_complete:
  assumes inv: "config_inv cdb" and run: "run_now router factory cdb owner now sleep (db, w) = (res, (db', w'))"
  shows "(\<exists>r. res = Inr r \<and> run_generated_at r = now
        \<and> map rec_source_id (run_records r) = attempted router (fst (iter_sources (load cdb owner))))
    \<and> (\<forall>owner' sid n. owner' \<noteq> owner \<longrightarrow> history db' owner' sid n = history db owner' sid n)"
proof -
  define triples where "triples = fst (iter_sources (load cdb owner))"
  have it: "iter_sources (load cdb owner) = (triples, None)"
    unfolding triples_def load_iter_ok [OF inv] by simp
  obtain rs lb where rs: "run_sources router factory owner now sleep triples (db, w) = (rs, lb, (db', w'))"
    using run it by (auto simp: run_now_def Let_def split: prod.splits)
  have "\<exists>r. res = Inr r \<and> run_generated_at r = now \<and> run_records r = rs"
    using run it rs by (auto simp: run_now_def Let_def)
  moreover have "map rec_source_id rs = attempted router triples"
    using run_sources_ids [of router factory owner now sleep triples "(db, w)"] rs by simp
  moreover have "history db' owner' sid n = history db owner' sid n" if "owner' \<noteq> owner" for owner' sid n
    using run_sources_same [OF rs that] by (simp add: histories.same_for_def)
  ultimately show ?thesis using it by auto
qed

definition stocked_config :: config_db where
  "stocked_config = (case svc_add_source (\<lambda>u. u) http_router catalogue_policy sample_config ''ana'' ''p''
       ''kabum'' ''https://www.kabum.com.br/x'' of Inr (s, db) \<Rightarrow> db | Inl _ \<Rightarrow> sample_config)"

lemma stocked_config_inv: "config_inv stocked_config"
  using sample_config_inv svc_add_source_Inr add_source_row_inv
  by (fastforce simp: stocked_config_def split: sum.splits)

theorem run_now_complete_witness:
  "\<exists>r db' w'. run_now http_router (\<lambda>spec. Inr (\<lambda>h. Inr sold_out_page)) stocked_config ''ana'' ''t'' (\<lambda>d w. w)
       (empty_state, 0) = (Inr r, (db', w'))
     \<and> map rec_source_id (run_records r) = [''p:kabum:https://www.'']"
proof -
  obtain res db' w' where run: "run_now http_router (\<lambda>spec. Inr (\<lambda>h. Inr sold_out_page)) stocked_config ''ana'' ''t''
     (\<lambda>d w. w) (empty_state, 0) = (res, (db', w'))" by (metis surj_pair)
  have "attempted http_router (fst (iter_sources (load stocked_config ''ana''))) = [''p:kabum:https://www.'']"
    by code_simp
  with run run_now_complete [OF stocked_config_inv run] show ?thesis by auto
qed

end
