(* ===== verification/Run_Queue.thy ===== *)
theory Run_Queue
  imports Python_Prelude "HOL-Library.AList"
begin

text \<open>
  The background queue of \<open>core/run_queue.py\<close>: enqueueing with per-owner coalescing and
  cooldown, the consumer loop, and the supervisor with its restart budget.

  The queue lives on one event loop. Between two suspension points a coroutine runs alone, and the
  lock is only ever held across code that does not suspend, so the steps of the machine are the
  stretches between suspensions: a call of \<open>enqueue\<close>; the consumer receiving an owner from the
  asyncio queue; the consumer marking it running and handing it to a thread; the end of that run,
  with or without an exception, up to the end of the \<open>finally\<close> block; a crash of the consumer
  together with what the supervisor does about it. \<open>run_now\<close> itself is a parameter: all the
  queue sees of it is whether it raised. Time is the value of \<open>time.monotonic()\<close>.
\<close>

section \<open>State\<close>

datatype run_state = QUEUED | RUNNING | DONE | ERROR

record run_status =
  rs_state :: run_state
  rs_finished_at :: "string option"
  rs_error :: "string option"

text \<open>Where the consumer is: waiting for the queue, holding an owner it just received, running it,
  or gone after a shutdown.\<close>

datatype phase = Waiting | Holding string | Running string | Stopped

record run_queue =
  q_max_restarts :: nat
  q_cooldown_seconds :: rat
  q_backlog_threshold :: int
  q_queue :: "string list"
  q_members :: "string list" \<comment> \<open>the set \<open>_queued_or_running\<close>\<close>
  q_status :: "(string \<times> run_status) list"
  q_backlog_warned :: bool
  q_done_monotonic :: "(string \<times> rat) list"
  q_dead :: bool
  q_dead_reason :: "string option"
  q_restarts :: nat
  q_phase :: phase

definition new_queue :: "nat \<Rightarrow> rat \<Rightarrow> int \<Rightarrow> run_queue" where
  "new_queue restarts cooldown threshold =
     \<lparr> q_max_restarts = restarts, q_cooldown_seconds = cooldown, q_backlog_threshold = threshold,
       q_queue = [], q_members = [], q_status = [], q_backlog_warned = False,
       q_done_monotonic = [], q_dead = False, q_dead_reason = None, q_restarts = 0, q_phase = Waiting \<rparr>"

definition plain_status :: "run_state \<Rightarrow> run_status" where
  "plain_status s = \<lparr> rs_state = s, rs_finished_at = None, rs_error = None \<rparr>"

section \<open>Reads\<close>

definition queued_count :: "run_queue \<Rightarrow> nat" where
  "queued_count q = length (q_members q)"

definition backlog_warning_active :: "run_queue \<Rightarrow> bool" where
  "backlog_warning_active q =
     (if q_backlog_threshold q \<le> 0 then False else int (queued_count q) \<ge> q_backlog_threshold q)"

definition status_for :: "run_queue \<Rightarrow> string \<Rightarrow> run_status option" where
  "status_for q owner = map_of (q_status q) owner"

definition cooldown_remaining_seconds :: "run_queue \<Rightarrow> rat \<Rightarrow> string \<Rightarrow> rat option" where
  "cooldown_remaining_seconds q now owner =
     (if q_cooldown_seconds q \<le> 0 then None
      else (case map_of (q_status q) owner of
              None \<Rightarrow> None
            | Some st \<Rightarrow>
                if rs_state st \<noteq> DONE then None
                else (case map_of (q_done_monotonic q) owner of
                        None \<Rightarrow> None
                      | Some done_at \<Rightarrow>
                          let remaining = q_cooldown_seconds q - (now - done_at)
                          in if remaining > 0 then Some remaining else None)))"

section \<open>Steps\<close>

definition check_backlog_warning :: "run_queue \<Rightarrow> run_queue" where
  "check_backlog_warning q =
     (if q_backlog_threshold q \<le> 0 then q
      else let depth = int (length (q_members q))
           in if depth \<ge> q_backlog_threshold q \<and> \<not> q_backlog_warned q then q\<lparr> q_backlog_warned := True \<rparr>
              else if depth < q_backlog_threshold q \<and> q_backlog_warned q then q\<lparr> q_backlog_warned := False \<rparr>
              else q)"

definition set_status :: "string \<Rightarrow> run_status \<Rightarrow> run_queue \<Rightarrow> run_queue" where
  "set_status owner st q = q\<lparr> q_status := AList.update owner st (q_status q) \<rparr>"

definition discard :: "string \<Rightarrow> run_queue \<Rightarrow> run_queue" where
  "discard owner q = q\<lparr> q_members := removeAll owner (q_members q) \<rparr>"

definition enqueue :: "run_queue \<Rightarrow> rat \<Rightarrow> string \<Rightarrow> bool \<times> run_queue" where
  "enqueue q now owner =
     (if q_dead q
      then (False, set_status owner \<lparr> rs_state = ERROR, rs_finished_at = None, rs_error = q_dead_reason q \<rparr> q)
      else if cooldown_remaining_seconds q now owner \<noteq> None then (False, q)
      else if owner \<in> set (q_members q) then (False, q)
      else (let q1 = q\<lparr> q_members := q_members q @ [owner] \<rparr>;
                q2 = check_backlog_warning (set_status owner (plain_status QUEUED) q1)
            in (True, q2\<lparr> q_queue := q_queue q2 @ [owner] \<rparr>)))"

definition receive :: "run_queue \<Rightarrow> run_queue" where
  "receive q = q\<lparr> q_queue := tl (q_queue q), q_phase := Holding (hd (q_queue q)) \<rparr>"

definition start_run :: "string \<Rightarrow> run_queue \<Rightarrow> run_queue" where
  "start_run owner q = (set_status owner (plain_status RUNNING) q)\<lparr> q_phase := Running owner \<rparr>"

definition finally_run :: "string \<Rightarrow> run_queue \<Rightarrow> run_queue" where
  "finally_run owner q = (check_backlog_warning (discard owner q))\<lparr> q_phase := Waiting \<rparr>"

definition finish_error :: "string \<Rightarrow> string \<Rightarrow> run_queue \<Rightarrow> run_queue" where
  "finish_error owner err q =
     finally_run owner (set_status owner \<lparr> rs_state = ERROR, rs_finished_at = None, rs_error = Some err \<rparr> q)"

definition finish_done :: "string \<Rightarrow> string \<Rightarrow> rat \<Rightarrow> run_queue \<Rightarrow> run_queue" where
  "finish_done owner finished_at now q =
     finally_run owner
       ((set_status owner \<lparr> rs_state = DONE, rs_finished_at = Some finished_at, rs_error = None \<rparr> q)
          \<lparr> q_done_monotonic := AList.update owner now (q_done_monotonic q), q_restarts := 0 \<rparr>)"

text \<open>The supervisor's \<open>except\<close> branch: the budget, the sweep over the statuses, the end of the
  loop or the next restart.\<close>

definition crashed_status :: run_status where
  "crashed_status = \<lparr> rs_state = ERROR, rs_finished_at = None, rs_error = Some ''run_queue consumer crashed'' \<rparr>"

definition lost :: "bool \<Rightarrow> run_status \<Rightarrow> bool" where
  "lost dying st \<longleftrightarrow> rs_state st = RUNNING \<or> (dying \<and> rs_state st = QUEUED)"

definition sweep :: "bool \<Rightarrow> run_queue \<Rightarrow> run_queue" where
  "sweep dying q =
     (let gone = map fst (filter (\<lambda>(owner, st). lost dying st) (q_status q))
      in q\<lparr> q_status := map (\<lambda>(owner, st). (owner, if lost dying st then crashed_status else st)) (q_status q),
            q_members := filter (\<lambda>owner. owner \<notin> set gone) (q_members q) \<rparr>)"

definition supervise_crash :: "bool \<Rightarrow> run_queue \<Rightarrow> run_queue" where
  "supervise_crash stopping q0 =
     (let q = q0\<lparr> q_restarts := Suc (q_restarts q0) \<rparr>;
          dying = q_restarts q > q_max_restarts q;
          q1 = check_backlog_warning (sweep dying q)
      in if stopping then q1\<lparr> q_phase := Stopped \<rparr>
         else if dying
         then q1\<lparr> q_dead := True,
                  q_dead_reason := Some (''run_queue consumer crashed '' @ string_of_nat (q_restarts q)
                                         @ '' times, exceeding the restart budget''),
                  q_phase := Stopped \<rparr>
         else q1\<lparr> q_phase := Waiting \<rparr>)"

text \<open>A crash while a run is in progress passes through the \<open>finally\<close> block first.\<close>

definition crash :: "bool \<Rightarrow> run_queue \<Rightarrow> run_queue" where
  "crash stopping q =
     supervise_crash stopping (case q_phase q of Running owner \<Rightarrow> finally_run owner q | _ \<Rightarrow> q)"

text \<open>Cancelling the task runs the \<open>finally\<close> block of a run in progress and nothing else.\<close>

definition cancel :: "run_queue \<Rightarrow> run_queue" where
  "cancel q = (case q_phase q of Running owner \<Rightarrow> finally_run owner q | _ \<Rightarrow> q)\<lparr> q_phase := Stopped \<rparr>"

inductive queue_step :: "run_queue \<Rightarrow> run_queue \<Rightarrow> bool" where
  step_enqueue: "queue_step q (snd (enqueue q now owner))"
| step_receive: "q_phase q = Waiting \<Longrightarrow> q_queue q \<noteq> [] \<Longrightarrow> queue_step q (receive q)"
| step_start: "q_phase q = Holding owner \<Longrightarrow> queue_step q (start_run owner q)"
| step_error: "q_phase q = Running owner \<Longrightarrow> queue_step q (finish_error owner err q)"
| step_done: "q_phase q = Running owner \<Longrightarrow> queue_step q (finish_done owner fin now q)"
| step_crash: "q_phase q = Waiting \<or> q_phase q = Running owner \<Longrightarrow> queue_step q (crash stopping q)"
| step_stop: "q_phase q = Waiting \<Longrightarrow> queue_step q (q\<lparr> q_phase := Stopped \<rparr>)"
| step_cancel: "queue_step q (cancel q)"

inductive queue_reachable :: "run_queue \<Rightarrow> bool" where
  reach_new: "queue_reachable (new_queue restarts cooldown threshold)"
| reach_step: "queue_reachable q \<Longrightarrow> queue_step q q' \<Longrightarrow> queue_reachable q'"

section \<open>The invariant\<close>

fun in_hand :: "phase \<Rightarrow> string list" where
  "in_hand (Holding o1) = [o1]"
| "in_hand (Running o1) = [o1]"
| "in_hand _ = []"

definition state_of :: "run_queue \<Rightarrow> string \<Rightarrow> run_state option" where
  "state_of q owner = map_option rs_state (map_of (q_status q) owner)"

text \<open>While the queue is alive: no owner is twice in the queue and the consumer's hand together,
  the members are exactly those owners, a status says queued exactly for the owners waiting in the
  queue or just received, running exactly for the one being run; the restart budget is not
  exceeded. A dead queue has no member and no owner that still believes to be served.\<close>

definition alive_inv :: "run_queue \<Rightarrow> bool" where
  "alive_inv q \<longleftrightarrow>
     distinct (q_queue q @ in_hand (q_phase q))
     \<and> set (q_members q) = set (q_queue q @ in_hand (q_phase q))
     \<and> (\<forall>o1. state_of q o1 = Some QUEUED \<longleftrightarrow> o1 \<in> set (q_queue q) \<or> q_phase q = Holding o1)
     \<and> (\<forall>o1. state_of q o1 = Some RUNNING \<longleftrightarrow> q_phase q = Running o1)"

definition queue_inv :: "run_queue \<Rightarrow> bool" where
  "queue_inv q \<longleftrightarrow>
     distinct (q_members q) \<and> distinct (map fst (q_status q))
     \<and> (\<forall>o1. o1 \<in> set (q_members q) \<longrightarrow> state_of q o1 = Some QUEUED \<or> state_of q o1 = Some RUNNING)
     \<and> (q_phase q \<noteq> Stopped \<longrightarrow> alive_inv q \<and> q_restarts q \<le> q_max_restarts q)
     \<and> (q_dead q \<longrightarrow> q_phase q = Stopped \<and> q_members q = []
          \<and> (\<forall>o1. state_of q o1 \<noteq> Some QUEUED \<and> state_of q o1 \<noteq> Some RUNNING))
     \<and> (q_backlog_threshold q > 0 \<longrightarrow>
          q_backlog_warned q = (int (length (q_members q)) \<ge> q_backlog_threshold q))"

section \<open>How the steps change what the invariant reads\<close>

lemma state_of_set_status [simp]:
  "state_of (set_status o1 st q) o2 = (if o2 = o1 then Some (rs_state st) else state_of q o2)"
  by (simp add: state_of_def set_status_def AList.update_conv')

lemma set_status_fields [simp]:
  "q_max_restarts (set_status o1 st q) = q_max_restarts q"
  "q_cooldown_seconds (set_status o1 st q) = q_cooldown_seconds q"
  "q_backlog_threshold (set_status o1 st q) = q_backlog_threshold q"
  "q_queue (set_status o1 st q) = q_queue q" "q_members (set_status o1 st q) = q_members q"
  "q_backlog_warned (set_status o1 st q) = q_backlog_warned q"
  "q_done_monotonic (set_status o1 st q) = q_done_monotonic q"
  "q_dead (set_status o1 st q) = q_dead q" "q_dead_reason (set_status o1 st q) = q_dead_reason q"
  "q_restarts (set_status o1 st q) = q_restarts q" "q_phase (set_status o1 st q) = q_phase q"
  by (simp_all add: set_status_def)

lemma set_status_distinct [simp]:
  "distinct (map fst (q_status q)) \<Longrightarrow> distinct (map fst (q_status (set_status o1 st q)))"
  by (simp add: set_status_def AList.distinct_update)

lemma check_backlog_fields [simp]:
  "q_max_restarts (check_backlog_warning q) = q_max_restarts q"
  "q_cooldown_seconds (check_backlog_warning q) = q_cooldown_seconds q"
  "q_backlog_threshold (check_backlog_warning q) = q_backlog_threshold q"
  "q_queue (check_backlog_warning q) = q_queue q" "q_members (check_backlog_warning q) = q_members q"
  "q_status (check_backlog_warning q) = q_status q"
  "q_done_monotonic (check_backlog_warning q) = q_done_monotonic q"
  "q_dead (check_backlog_warning q) = q_dead q" "q_dead_reason (check_backlog_warning q) = q_dead_reason q"
  "q_restarts (check_backlog_warning q) = q_restarts q" "q_phase (check_backlog_warning q) = q_phase q"
  by (simp_all add: check_backlog_warning_def Let_def)

lemma check_backlog_warned [simp]:
  "q_backlog_threshold q > 0 \<Longrightarrow>
     q_backlog_warned (check_backlog_warning q) = (int (length (q_members q)) \<ge> q_backlog_threshold q)"
  by (auto simp: check_backlog_warning_def Let_def)

lemma state_of_cong: "q_status q = q_status q' \<Longrightarrow> state_of q = state_of q'"
  by (simp add: state_of_def fun_eq_iff)

lemma state_of_check_backlog [simp]: "state_of (check_backlog_warning q) = state_of q"
  by (rule state_of_cong) simp

lemma state_of_updates [simp]:
  "state_of (q\<lparr> q_queue := a \<rparr>) = state_of q" "state_of (q\<lparr> q_members := b \<rparr>) = state_of q"
  "state_of (q\<lparr> q_done_monotonic := c \<rparr>) = state_of q" "state_of (q\<lparr> q_dead := d \<rparr>) = state_of q"
  "state_of (q\<lparr> q_dead_reason := e \<rparr>) = state_of q" "state_of (q\<lparr> q_restarts := f \<rparr>) = state_of q"
  "state_of (q\<lparr> q_phase := g \<rparr>) = state_of q"
  by (simp_all add: state_of_def fun_eq_iff)

lemma finally_run_fields [simp]:
  "q_max_restarts (finally_run o1 q) = q_max_restarts q"
  "q_backlog_threshold (finally_run o1 q) = q_backlog_threshold q"
  "q_queue (finally_run o1 q) = q_queue q" "q_members (finally_run o1 q) = removeAll o1 (q_members q)"
  "q_status (finally_run o1 q) = q_status q" "state_of (finally_run o1 q) = state_of q"
  "q_dead (finally_run o1 q) = q_dead q" "q_restarts (finally_run o1 q) = q_restarts q"
  "q_phase (finally_run o1 q) = Waiting"
  by (simp_all add: finally_run_def discard_def)

lemma finally_run_warned [simp]:
  "q_backlog_threshold q > 0 \<Longrightarrow>
     q_backlog_warned (finally_run o1 q) =
       (int (length (removeAll o1 (q_members q))) \<ge> q_backlog_threshold q)"
  by (simp add: finally_run_def discard_def)

lemma sweep_fields [simp]:
  "q_max_restarts (sweep b q) = q_max_restarts q" "q_backlog_threshold (sweep b q) = q_backlog_threshold q"
  "q_queue (sweep b q) = q_queue q" "q_dead (sweep b q) = q_dead q"
  "q_restarts (sweep b q) = q_restarts q" "q_phase (sweep b q) = q_phase q"
  "map fst (q_status (sweep b q)) = map fst (q_status q)"
  by (simp_all add: sweep_def Let_def case_prod_unfold comp_def)

lemma state_of_sweep:
  "state_of (sweep b q) o1 =
     (if state_of q o1 = Some RUNNING \<or> (b \<and> state_of q o1 = Some QUEUED) then Some ERROR
      else state_of q o1)"
  by (cases "map_of (q_status q) o1")
     (auto simp: sweep_def Let_def state_of_def map_of_map lost_def crashed_status_def)

lemma members_sweep:
  assumes "distinct (map fst (q_status q))"
  shows "q_members (sweep b q) =
    filter (\<lambda>o1. \<not> (state_of q o1 = Some RUNNING \<or> (b \<and> state_of q o1 = Some QUEUED))) (q_members q)"
proof -
  have "o1 \<in> set (map fst (filter (\<lambda>(owner, st). lost b st) (q_status q)))
        \<longleftrightarrow> state_of q o1 = Some RUNNING \<or> (b \<and> state_of q o1 = Some QUEUED)" for o1
    using assms by (force simp: state_of_def lost_def dest: map_of_SomeD)
  then show ?thesis by (simp only: sweep_def Let_def) simp
qed

section \<open>The invariant holds in every reachable state\<close>

lemma queue_inv_new: "queue_inv (new_queue restarts cooldown threshold)"
  by (auto simp: queue_inv_def alive_inv_def new_queue_def state_of_def)

lemma queue_inv_enqueue:
  assumes inv: "queue_inv q"
  shows "queue_inv (snd (enqueue q now owner))"
proof (cases "q_dead q \<or> cooldown_remaining_seconds q now owner \<noteq> None \<or> owner \<in> set (q_members q)")
  case True
  then show ?thesis using inv by (auto simp: enqueue_def queue_inv_def)
next
  case False
  let ?q = "snd (enqueue q now owner)"
  have q: "?q = (check_backlog_warning (set_status owner (plain_status QUEUED)
                   (q\<lparr> q_members := q_members q @ [owner] \<rparr>)))\<lparr> q_queue := q_queue q @ [owner] \<rparr>"
    using False by (simp add: enqueue_def Let_def)
  have "alive_inv ?q \<and> q_restarts ?q \<le> q_max_restarts ?q" if "q_phase q \<noteq> Stopped"
    using inv False that unfolding q
    by (auto simp: queue_inv_def alive_inv_def plain_status_def)
  then show ?thesis using inv False unfolding q
    by (auto simp: queue_inv_def plain_status_def)
qed

lemma queue_inv_receive:
  assumes "queue_inv q" "q_phase q = Waiting" "q_queue q \<noteq> []"
  shows "queue_inv (receive q)"
  using assms by (cases "q_queue q") (auto simp: queue_inv_def receive_def alive_inv_def)

lemma queue_inv_start:
  assumes "queue_inv q" "q_phase q = Holding owner"
  shows "queue_inv (start_run owner q)"
  using assms by (auto simp: queue_inv_def start_run_def alive_inv_def plain_status_def)

text \<open>The \<open>finally\<close> block, entered with the final status of the run already written.\<close>

lemma queue_inv_finally:
  assumes inv: "queue_inv q" and run: "q_phase q = Running owner"
    and st: "state_of q' = (state_of q)(owner \<mapsto> s)" "s = DONE \<or> s = ERROR"
    and eq: "q_members q' = q_members q" "q_queue q' = q_queue q" "q_max_restarts q' = q_max_restarts q"
      "q_backlog_threshold q' = q_backlog_threshold q" "q_dead q' = q_dead q"
      "q_restarts q' \<le> q_restarts q" "distinct (map fst (q_status q'))"
  shows "queue_inv (finally_run owner q')"
  using inv run st eq
  by (auto simp: queue_inv_def alive_inv_def distinct_removeAll removeAll_id)

lemma queue_inv_finish_error:
  assumes "queue_inv q" "q_phase q = Running owner"
  shows "queue_inv (finish_error owner err q)"
  unfolding finish_error_def using assms
  by (intro queue_inv_finally [of q _ _ ERROR]) (auto simp: fun_eq_iff queue_inv_def)

lemma queue_inv_finish_done:
  assumes "queue_inv q" "q_phase q = Running owner"
  shows "queue_inv (finish_done owner fin now q)"
  unfolding finish_done_def using assms
  by (intro queue_inv_finally [of q _ _ DONE]) (auto simp: fun_eq_iff queue_inv_def)

text \<open>Before a crash reaches the supervisor the members are the owners still in the queue; a crash
  in the middle of a run has left its owner marked running.\<close>

definition crash_inv :: "run_queue \<Rightarrow> bool" where
  "crash_inv q \<longleftrightarrow>
     distinct (q_members q) \<and> distinct (map fst (q_status q)) \<and> distinct (q_queue q)
     \<and> set (q_members q) = set (q_queue q) \<and> \<not> q_dead q
     \<and> (\<forall>o1. state_of q o1 = Some QUEUED \<longleftrightarrow> o1 \<in> set (q_queue q))"

lemma crash_inv_before:
  assumes "queue_inv q" "q_phase q = Waiting \<or> q_phase q = Running owner"
  shows "crash_inv (case q_phase q of Running owner \<Rightarrow> finally_run owner q | _ \<Rightarrow> q)"
  using assms
  by (auto simp: queue_inv_def alive_inv_def crash_inv_def distinct_removeAll)

lemma queue_inv_supervise_crash:
  assumes ci: "crash_inv q"
  shows "queue_inv (supervise_crash stopping q)"
proof -
  let ?q = "q\<lparr> q_restarts := Suc (q_restarts q) \<rparr>"
  have d: "distinct (map fst (q_status ?q))" using ci by (simp add: crash_inv_def)
  note facts = queue_inv_def alive_inv_def supervise_crash_def Let_def state_of_sweep members_sweep [OF d]
  have idle: "state_of q o1 \<noteq> Some RUNNING" if "o1 \<in> set (q_queue q)" for o1
  proof -
    have "state_of q o1 = Some QUEUED" using ci that by (simp add: crash_inv_def)
    then show ?thesis by simp
  qed
  show ?thesis using ci idle
    by (auto simp: facts crash_inv_def filter_empty_conv split: if_splits)
qed

lemma queue_inv_crash:
  assumes "queue_inv q" "q_phase q = Waiting \<or> q_phase q = Running owner"
  shows "queue_inv (crash stopping q)"
  unfolding crash_def by (rule queue_inv_supervise_crash) (rule crash_inv_before [OF assms])

lemma queue_inv_cancel: "queue_inv q \<Longrightarrow> queue_inv (cancel q)"
  by (auto simp: cancel_def queue_inv_def distinct_removeAll split: phase.splits)

lemma queue_inv_stop: "queue_inv q \<Longrightarrow> q_phase q = Waiting \<Longrightarrow> queue_inv (q\<lparr> q_phase := Stopped \<rparr>)"
  by (auto simp: queue_inv_def)

lemmas queue_inv_steps = queue_inv_enqueue queue_inv_receive queue_inv_start queue_inv_finish_error
  queue_inv_finish_done queue_inv_crash queue_inv_stop queue_inv_cancel

lemma queue_inv_step: "queue_step q q' \<Longrightarrow> queue_inv q \<Longrightarrow> queue_inv q'"
  by (erule queue_step.cases) (use queue_inv_steps in simp_all)

lemma queue_inv_reachable: "queue_reachable q \<Longrightarrow> queue_inv q"
  by (induction rule: queue_reachable.induct) (auto intro: queue_inv_new queue_inv_step)

section \<open>Serving the queue\<close>

text \<open>One round of the consumer loop that does not crash: receive, mark as running, run, write the
  outcome. The outcome is what the call of \<open>run_now\<close> gave: an exception's text, or the two
  clock readings taken after it returned.\<close>

definition consumer_round :: "string + string \<times> rat \<Rightarrow> run_queue \<Rightarrow> run_queue" where
  "consumer_round outcome q =
     (let owner = hd (q_queue q);
          q1 = start_run owner (receive q)
      in case outcome of Inl err \<Rightarrow> finish_error owner err q1
         | Inr (fin, now) \<Rightarrow> finish_done owner fin now q1)"

definition final_status :: "string + string \<times> rat \<Rightarrow> run_status" where
  "final_status outcome =
     (case outcome of Inl err \<Rightarrow> \<lparr> rs_state = ERROR, rs_finished_at = None, rs_error = Some err \<rparr>
      | Inr (fin, now) \<Rightarrow> \<lparr> rs_state = DONE, rs_finished_at = Some fin, rs_error = None \<rparr>)"

lemma consumer_round_steps:
  assumes "q_phase q = Waiting" "q_queue q \<noteq> []"
  shows "queue_step\<^sup>*\<^sup>* q (consumer_round outcome q)"
proof -
  let ?o = "hd (q_queue q)"
  have a: "queue_step q (receive q)" using assms by (rule step_receive)
  have b: "queue_step (receive q) (start_run ?o (receive q))"
    by (rule step_start) (simp add: receive_def)
  have r: "q_phase (start_run ?o (receive q)) = Running ?o" by (simp add: start_run_def)
  have "queue_step (start_run ?o (receive q)) (consumer_round outcome q)"
    using step_error [OF r] step_done [OF r]
    by (auto simp: consumer_round_def Let_def split: sum.splits)
  with a b show ?thesis by (meson converse_rtranclp_into_rtranclp rtranclp.rtrancl_refl)
qed

lemma consumer_round_fields:
  assumes "q_queue q \<noteq> []"
  shows "q_phase (consumer_round outcome q) = Waiting"
    and "q_queue (consumer_round outcome q) = tl (q_queue q)"
    and "q_members (consumer_round outcome q) = removeAll (hd (q_queue q)) (q_members q)"
    and "status_for (consumer_round outcome q) =
           (status_for q)(hd (q_queue q) \<mapsto> final_status outcome)"
  using assms
  by (auto simp: consumer_round_def Let_def finish_error_def finish_done_def start_run_def receive_def
      status_for_def final_status_def set_status_def AList.update_conv' fun_eq_iff
      split: sum.splits)

lemma steps_keep_reachable: "queue_step\<^sup>*\<^sup>* q q' \<Longrightarrow> queue_reachable q \<Longrightarrow> queue_reachable q'"
  by (induction rule: rtranclp_induct) (auto intro: reach_step)

fun serve_all :: "(string + string \<times> rat) list \<Rightarrow> run_queue \<Rightarrow> run_queue" where
  "serve_all [] q = q"
| "serve_all (outcome # outcomes) q = serve_all outcomes (consumer_round outcome q)"

lemma serve_all_fields:
  assumes "q_phase q = Waiting" "length outcomes \<le> length (q_queue q)" "distinct (q_queue q)"
  shows "queue_step\<^sup>*\<^sup>* q (serve_all outcomes q)
    \<and> q_phase (serve_all outcomes q) = Waiting
    \<and> q_queue (serve_all outcomes q) = drop (length outcomes) (q_queue q)
    \<and> set (q_members (serve_all outcomes q)) = set (q_members q) - set (take (length outcomes) (q_queue q))
    \<and> status_for (serve_all outcomes q) =
        status_for q ++ map_of (zip (q_queue q) (map final_status outcomes))"
  using assms
proof (induction outcomes arbitrary: q)
  case (Cons oc ocs)
  then obtain o1 os where q: "q_queue q = o1 # os" by (cases "q_queue q") auto
  let ?q = "consumer_round oc q"
  note f = consumer_round_fields [of q oc, unfolded q]
  have qq: "q_queue ?q = os" using f by simp
  have pre: "q_phase ?q = Waiting" "length ocs \<le> length (q_queue ?q)" "distinct (q_queue ?q)"
    using Cons.prems q f by simp_all
  note IH = Cons.IH [OF pre, unfolded qq]
  have "o1 \<notin> dom (map_of (zip os (map final_status ocs)))"
    using Cons.prems q by (auto dest!: in_set_zipE map_of_SomeD)
  then have st: "status_for ?q ++ map_of (zip os (map final_status ocs))
     = status_for q ++ map_of (zip (o1 # os) (final_status oc # map final_status ocs))"
    by (auto simp: f fun_eq_iff map_add_def split: option.splits)
  have "queue_step\<^sup>*\<^sup>* q ?q" using Cons.prems q by (intro consumer_round_steps) auto
  moreover have "status_for (serve_all (oc # ocs) q)
      = status_for q ++ map_of (zip (q_queue q) (map final_status (oc # ocs)))"
    using IH st q by (metis list.simps(9) serve_all.simps(2))
  moreover have "queue_step\<^sup>*\<^sup>* q (serve_all (oc # ocs) q)"
    using calculation(1) IH by (metis rtranclp_trans serve_all.simps(2))
  moreover have "q_phase (serve_all (oc # ocs) q) = Waiting
      \<and> q_queue (serve_all (oc # ocs) q) = drop (length (oc # ocs)) (q_queue q)
      \<and> set (q_members (serve_all (oc # ocs) q)) =
          set (q_members q) - set (take (length (oc # ocs)) (q_queue q))"
    using IH f q by auto
  ultimately show ?case by blast
qed simp

section \<open>Properties\<close>

text \<open>C12: In every state the queue can reach by any interleaving of enqueues, consumer steps,
  crashes, shutdowns and cancellations: no owner is in the queue and the consumer's hand twice, the
  member set is exactly those owners, an owner is shown as queued exactly while it waits and as
  running exactly while it is being run, the restart counter stays within the budget, a queue
  declared dead shows nobody as queued or running, and the backlog alarm is raised exactly while the
  depth is at or above the threshold.\<close>

theorem run_queue_invariant: "queue_reachable q \<Longrightarrow> queue_inv q"
  by (rule queue_inv_reachable)

theorem run_queue_invariant_witness:
  "queue_inv (snd (enqueue (crash False (snd (enqueue (new_queue 0 0 1) 0 ''ada''))) 1 ''ada''))"
  by (intro run_queue_invariant reach_step [OF _ step_enqueue]
        reach_step [OF _ step_crash] reach_new)
     (simp add: enqueue_def new_queue_def cooldown_remaining_seconds_def check_backlog_warning_def
        set_status_def Let_def)

text \<open>A call of \<open>enqueue\<close> succeeds exactly when the queue is alive, the owner is
  not cooling down and has no run waiting or running; it then appends the owner once and shows it as
  queued. The three refusals are told apart by what a caller can read afterwards: a dead queue shows
  an error with the reason, a cooldown leaves the done status and a positive remaining time, a
  coalesced call leaves a queued or running status and no cooldown; the last two change nothing.\<close>

theorem enqueue_outcomes:
  assumes "queue_reachable q" and "enqueue q now owner = (ok, q')"
  shows "(ok \<longleftrightarrow> \<not> q_dead q \<and> cooldown_remaining_seconds q now owner = None
                 \<and> owner \<notin> set (q_members q))
    \<and> (if ok
       then q_queue q' = q_queue q @ [owner]
            \<and> status_for q' = (status_for q)(owner \<mapsto> plain_status QUEUED)
       else if q_dead q
       then status_for q' owner
              = Some \<lparr> rs_state = ERROR, rs_finished_at = None, rs_error = q_dead_reason q \<rparr>
            \<and> q_queue q' = q_queue q
       else q' = q
            \<and> (state_of q owner = Some DONE \<and> (\<exists>s > 0. cooldown_remaining_seconds q now owner = Some s)
               \<or> state_of q owner \<in> {Some QUEUED, Some RUNNING}
                  \<and> cooldown_remaining_seconds q now owner = None))"
proof -
  have inv: "queue_inv q" by (rule queue_inv_reachable) fact
  have member: "state_of q owner \<in> {Some QUEUED, Some RUNNING}" if "owner \<in> set (q_members q)"
    using inv that by (auto simp: queue_inv_def)
  have cooling: "state_of q owner = Some DONE \<and> s > 0"
    if "cooldown_remaining_seconds q now owner = Some s" for s
    using that by (auto simp: cooldown_remaining_seconds_def state_of_def Let_def
        split: if_splits option.splits)
  show ?thesis using assms(2) member cooling
    by (auto simp: enqueue_def Let_def status_for_def set_status_def AList.update_conv' fun_eq_iff
        split: if_splits)
qed

theorem enqueue_outcomes_witness:
  "state_of (snd (enqueue (new_queue 5 60 0) 0 ''ada'')) ''ada'' = Some QUEUED
   \<and> enqueue (snd (enqueue (new_queue 5 60 0) 0 ''ada'')) 1 ''ada''
       = (False, snd (enqueue (new_queue 5 60 0) 0 ''ada''))"
proof -
  let ?q = "snd (enqueue (new_queue 5 60 0) 0 ''ada'')"
  have r: "queue_reachable ?q" by (rule reach_step [OF reach_new step_enqueue])
  have e: "enqueue ?q 1 ''ada'' = (False, ?q)" by code_simp
  show ?thesis using enqueue_outcomes [OF r e] e
    by (simp add: enqueue_def new_queue_def cooldown_remaining_seconds_def plain_status_def)
qed

text \<open>C13: Owners are served in order and none is forgotten: from a state where the consumer waits,
  as many rounds of the consumer as there are owners in the queue bring, by steps of the machine, a
  state with an empty queue and no members, where every owner that was waiting shows the outcome of
  its own run and every other status is what it was; a failing run does not stop the rounds after
  it.\<close>

theorem queue_drains:
  assumes "queue_reachable q" and "q_phase q = Waiting" and "length outcomes = length (q_queue q)"
  shows "queue_step\<^sup>*\<^sup>* q (serve_all outcomes q)
    \<and> q_queue (serve_all outcomes q) = [] \<and> q_members (serve_all outcomes q) = []
    \<and> status_for (serve_all outcomes q)
        = status_for q ++ map_of (zip (q_queue q) (map final_status outcomes))"
proof -
  have inv: "queue_inv q" by (rule queue_inv_reachable) fact
  then have "distinct (q_queue q)" "set (q_members q) = set (q_queue q)"
    using assms(2) by (auto simp: queue_inv_def alive_inv_def)
  then show ?thesis using serve_all_fields [OF assms(2), of outcomes] assms(3) by simp
qed

theorem queue_drains_witness:
  "status_for (serve_all [Inl ''boom'', Inr (''t'', 3)]
      (snd (enqueue (snd (enqueue (new_queue 5 0 0) 0 ''ada'')) 0 ''bob''))) ''bob''
   = Some \<lparr> rs_state = DONE, rs_finished_at = Some ''t'', rs_error = None \<rparr>"
proof -
  let ?q = "snd (enqueue (snd (enqueue (new_queue 5 0 0) 0 ''ada'')) 0 ''bob'')"
  have r: "queue_reachable ?q" by (intro reach_step [OF _ step_enqueue] reach_new)
  have p: "q_phase ?q = Waiting" and l: "q_queue ?q = [''ada'', ''bob'']" by code_simp+
  then show ?thesis
    using queue_drains [OF r p, of "[Inl ''boom'', Inr (''t'', 3)]"]
    by (simp add: final_status_def)
qed

end
