(* ===== verification/Datetimes.thy ===== *)
theory Datetimes
  imports Python_Prelude
begin

text \<open>
  Timestamps as the program writes them: \<open>datetime.isoformat\<close> on an aware UTC value. An
  instant is the number of microseconds since 0001-01-01T00:00 UTC. The text is stored in both
  databases and compared there as text (\<open>fired_at < ?\<close>, \<open>ORDER BY ts\<close>), so the point of
  the theory is that the order of the texts is the order of the instants, also between a value
  with microseconds and one without, which Python prints shorter.
\<close>

section \<open>The calendar\<close>

definition is_leap :: "nat \<Rightarrow> bool" where
  "is_leap y \<longleftrightarrow> y mod 4 = 0 \<and> (y mod 100 \<noteq> 0 \<or> y mod 400 = 0)"

definition days_in_year :: "nat \<Rightarrow> nat" where
  "days_in_year y = (if is_leap y then 366 else 365)"

definition month_lengths :: "nat \<Rightarrow> nat list" where
  "month_lengths y = [31, if is_leap y then 29 else 28, 31, 30, 31, 30, 31, 31, 30, 31, 30, 31]"

text \<open>Year and day in it of a day number, by cycles of 400, 100, 4 and 1 years; then month and
  day.\<close>

definition year_of :: "nat \<Rightarrow> nat \<times> nat" where
  "year_of n0 =
     (let n400 = n0 div 146097; n1 = n0 mod 146097;
          n100 = n1 div 36524; n2 = n1 mod 36524;
          n4 = n2 div 1461; n3 = n2 mod 1461;
          one = n3 div 365; n = n3 mod 365;
          year = n400 * 400 + n100 * 100 + n4 * 4 + one + 1
      in if one = 4 \<or> n100 = 4 then (year - 1, 365) else (year, n))"

fun month_of :: "nat \<Rightarrow> nat list \<Rightarrow> nat \<Rightarrow> nat \<times> nat" where
  "month_of m [] n = (m, n)"
| "month_of m (l # ls) n = (if n < l then (m, n) else month_of (Suc m) ls (n - l))"

section \<open>Printing\<close>

definition dec_digit :: "nat \<Rightarrow> char" where
  "dec_digit d = char_of (48 + d mod 10)"

fun pad :: "nat \<Rightarrow> nat \<Rightarrow> string" where
  "pad 0 n = []"
| "pad (Suc w) n = pad w (n div 10) @ [dec_digit n]"

definition iso_date :: "nat \<Rightarrow> string" where
  "iso_date d =
     (let (y, yd) = year_of d; (m, md) = month_of 1 (month_lengths y) yd
      in pad 4 y @ ''-'' @ pad 2 m @ ''-'' @ pad 2 (Suc md))"

definition iso_time :: "nat \<Rightarrow> string" where
  "iso_time s = pad 2 (s div 3600) @ '':'' @ pad 2 (s div 60 mod 60) @ '':'' @ pad 2 (s mod 60)"

definition iso_fraction :: "nat \<Rightarrow> string" where
  "iso_fraction u = (if u = 0 then [] else ''.'' @ pad 6 u)"

definition isoformat :: "nat \<Rightarrow> string" where
  "isoformat t =
     (let s = t div 1000000
      in iso_date (s div 86400) @ ''T'' @ iso_time (s mod 86400) @ iso_fraction (t mod 1000000) @ ''+00:00'')"

text \<open>The last representable instant is the end of the year 9999.\<close>

definition MAX_INSTANT :: nat where
  "MAX_INSTANT = 3652059 * 86400 * 1000000"

section \<open>The order of texts\<close>

lemma append_less_iff:
  fixes a b x y :: string
  assumes "length a = length b"
  shows "a @ x < b @ y \<longleftrightarrow> a < b \<or> (a = b \<and> x < y)"
  using assms
proof (induction a arbitrary: b)
  case (Cons c a)
  then obtain d b' where "b = d # b'" by (cases b) auto
  with Cons show ?case by auto
qed simp

lemma less_iff_div_mod:
  fixes a b k :: nat
  assumes "0 < k"
  shows "a < b \<longleftrightarrow> a div k < b div k \<or> (a div k = b div k \<and> a mod k < b mod k)"
proof (cases "a div k = b div k")
  case True
  then have "a = a div k * k + a mod k" "b = a div k * k + b mod k"
    using div_mult_mod_eq [of a k] div_mult_mod_eq [of b k] by simp_all
  then have "a < b \<longleftrightarrow> a mod k < b mod k" by (metis nat_add_left_cancel_less)
  with True show ?thesis by simp
next
  case False
  have "a div k \<le> b div k" if "a < b" using that by (simp add: div_le_mono)
  moreover have "b div k \<le> a div k" if "\<not> a < b" using that by (simp add: div_le_mono)
  ultimately show ?thesis using False by (meson leD le_neq_implies_less)
qed

lemma eq_iff_div_mod:
  fixes a b k :: nat
  shows "a = b \<longleftrightarrow> a div k = b div k \<and> a mod k = b mod k"
  by (metis div_mult_mod_eq)

lemma length_pad [simp]: "length (pad w n) = w"
  by (induction w arbitrary: n) simp_all

lemma dec_digit_less_iff: "a < 10 \<Longrightarrow> b < 10 \<Longrightarrow> dec_digit a < dec_digit b \<longleftrightarrow> a < b"
  by (simp add: dec_digit_def less_char_def)

lemma dec_digit_mod: "dec_digit (n mod 10) = dec_digit n"
  by (simp add: dec_digit_def)

lemma dec_digit_eq_iff: "a < 10 \<Longrightarrow> b < 10 \<Longrightarrow> dec_digit a = dec_digit b \<longleftrightarrow> a = b"
  by (metis dec_digit_less_iff less_irrefl linorder_neqE_nat)

lemma pad_inj: "a < 10 ^ w \<Longrightarrow> b < 10 ^ w \<Longrightarrow> pad w a = pad w b \<longleftrightarrow> a = b"
proof (induction w arbitrary: a b)
  case (Suc w)
  have "a div 10 < 10 ^ w" "b div 10 < 10 ^ w" using Suc.prems by (simp_all add: less_mult_imp_div_less)
  moreover have "dec_digit a = dec_digit b \<longleftrightarrow> a mod 10 = b mod 10"
    using dec_digit_eq_iff [of "a mod 10" "b mod 10"] by (simp add: dec_digit_mod)
  ultimately show ?case using Suc.IH by simp (metis div_mult_mod_eq)
qed simp

lemma pad_less_iff: "a < 10 ^ w \<Longrightarrow> b < 10 ^ w \<Longrightarrow> pad w a < pad w b \<longleftrightarrow> a < b"
proof (induction w arbitrary: a b)
  case (Suc w)
  have d: "a div 10 < 10 ^ w" "b div 10 < 10 ^ w" using Suc.prems by (simp_all add: less_mult_imp_div_less)
  have l: "dec_digit a < dec_digit b \<longleftrightarrow> a mod 10 < b mod 10"
    using dec_digit_less_iff [of "a mod 10" "b mod 10"] by (simp add: dec_digit_mod)
  have "a < b \<longleftrightarrow> a div 10 < b div 10 \<or> (a div 10 = b div 10 \<and> a mod 10 < b mod 10)"
    by (rule less_iff_div_mod) simp
  then show ?case using Suc.IH [OF d] pad_inj [OF d] l by (simp add: append_less_iff)
qed simp

section \<open>The order of the fields\<close>

fun days_before :: "nat \<Rightarrow> nat" where
  "days_before 0 = 0"
| "days_before (Suc y) = days_before y + days_in_year y"

lemma days_before_mono: "y \<le> z \<Longrightarrow> days_before y \<le> days_before z"
  by (induction z) (auto simp: le_Suc_eq)

lemma days_before_closed:
  "days_before (Suc y) + y div 100 = 365 * Suc y + y div 4 + y div 400 + 1"
proof (induction y)
  case (Suc y)
  define p q r where "p \<longleftrightarrow> Suc y mod 4 = 0" and "q \<longleftrightarrow> Suc y mod 100 = 0" and "r \<longleftrightarrow> Suc y mod 400 = 0"
  define a b c where "a = y div 4" and "b = y div 100" and "c = y div 400"
  have imp: "r \<Longrightarrow> q" "q \<Longrightarrow> p"
    unfolding p_def q_def r_def
    by (auto simp: mod_eq_0_iff_dvd intro: dvd_trans [of 100 400] dvd_trans [of 4 100])
  have divs: "Suc y div 4 = (if p then Suc a else a)" "Suc y div 100 = (if q then Suc b else b)"
    "Suc y div 400 = (if r then Suc c else c)"
    by (simp_all add: div_Suc p_def q_def r_def a_def b_def c_def)
  have year: "days_in_year (Suc y) = (if p \<and> (\<not> q \<or> r) then 366 else 365)"
    by (simp add: days_in_year_def is_leap_def p_def q_def r_def)
  have "days_before (Suc (Suc y)) = days_before (Suc y) + days_in_year (Suc y)" by simp
  with Suc [folded a_def b_def c_def] imp show ?case unfolding divs year
    by (cases p; cases q; cases r) simp_all
qed (simp add: days_in_year_def is_leap_def)

lemma cycle_divs:
  fixes a b c d :: nat
  assumes "b < 4" "c < 25" "d < 4"
  shows "(a * 400 + b * 100 + c * 4 + d) div 4 = a * 100 + b * 25 + c"
    "(a * 400 + b * 100 + c * 4 + d) div 100 = a * 4 + b"
    "(a * 400 + b * 100 + c * 4 + d) div 400 = a"
  using assms by (simp_all add: div_nat_eqI)

lemma days_before_cycle:
  fixes a b c d :: nat
  assumes "b < 4" "c < 25" "d < 4"
  shows "days_before (Suc (a * 400 + b * 100 + c * 4 + d)) = 366 + a * 146097 + b * 36524 + c * 1461 + d * 365"
  using days_before_closed [of "a * 400 + b * 100 + c * 4 + d"] unfolding cycle_divs [OF assms] by simp

lemma leap_last:
  fixes a b c :: nat
  assumes "b < 4" "c < 24"
  shows "is_leap (Suc (a * 400 + b * 100 + c * 4 + 3))" "is_leap (Suc (a * 400 + 399))"
proof -
  have e: "Suc (a * 400 + b * 100 + c * 4 + 3) = (a * 4 + b) * 100 + Suc c * 4"
    "Suc (a * 400 + b * 100 + c * 4 + 3) = (a * 100 + b * 25 + Suc c) * 4"
    "Suc (a * 400 + 399) = Suc a * 400" "Suc a * 400 = (Suc a * 100) * 4" by simp_all
  have "((a * 4 + b) * 100 + Suc c * 4) mod 100 = Suc c * 4"
    using assms(2) by (subst mod_mult_self3) simp
  then show "is_leap (Suc (a * 400 + b * 100 + c * 4 + 3))"
    unfolding is_leap_def by (metis e(1,2) mod_mult_self2_is_0 mult_is_0 nat.simps(3) zero_neq_numeral)
  show "is_leap (Suc (a * 400 + 399))"
    unfolding is_leap_def by (metis e(3,4) mod_mult_self2_is_0)
qed

lemma year_of_spec:
  assumes "year_of n = (z, r)"
  shows "days_before z + r = 366 + n \<and> r < days_in_year z"
proof -
  define a n1 where "a = n div 146097" and "n1 = n mod 146097"
  define b n2 where "b = n1 div 36524" and "n2 = n1 mod 36524"
  define c n3 where "c = n2 div 1461" and "n3 = n2 mod 1461"
  define d r4 where "d = n3 div 365" and "r4 = n3 mod 365"
  note defs = a_def n1_def b_def n2_def c_def n3_def d_def r4_def
  have n: "n = a * 146097 + n1" "n1 = b * 36524 + n2" "n2 = c * 1461 + n3" "n3 = d * 365 + r4"
    unfolding defs by (simp_all add: div_mult_mod_eq)
  have lt: "n1 < 146097" "n2 < 36524" "n3 < 1461" "r4 < 365" unfolding defs by simp_all
  have zr: "(z, r) = (if d = 4 \<or> b = 4 then (a * 400 + b * 100 + c * 4 + d + 1 - 1, 365)
      else (a * 400 + b * 100 + c * 4 + d + 1, r4))"
    using assms unfolding year_of_def Let_def defs by simp
  show ?thesis
  proof (cases "b = 4")
    case True
    then have "n2 = 0" using n lt by simp
    then have "c = 0" "d = 0" "r4 = 0" using n by simp_all
    then have "z = Suc (a * 400 + 3 * 100 + 24 * 4 + 3)" "r = 365" "n = a * 146097 + 146096"
      using zr True n by simp_all
    then show ?thesis using days_before_cycle [of 3 24 3 a] leap_last(2) [of 0 0 a]
      by (simp add: days_in_year_def)
  next
    case False
    then have b: "b < 4" using n lt by simp
    have c: "c < 25" using n lt by simp
    show ?thesis
    proof (cases "d = 4")
      case True
      then have "c < 24" using n lt by simp
      moreover have "r4 = 0" using True n lt by simp
      ultimately show ?thesis
        using zr True n days_before_cycle [OF b c, of 3 a] leap_last(1) [OF b, of c a]
        by (simp add: days_in_year_def)
    next
      case d: False
      then have "d < 4" using n lt by simp
      then show ?thesis using zr False d n lt(4) days_before_cycle [OF b c, of d a]
        by (simp add: days_in_year_def)
    qed
  qed
qed

lemma year_of_less_iff:
  assumes "year_of a = (y, r)" "year_of b = (z, s)"
  shows "a < b \<longleftrightarrow> y < z \<or> (y = z \<and> r < s)"
proof -
  have a: "days_before y + r = 366 + a" "r < days_in_year y"
    and b: "days_before z + s = 366 + b" "s < days_in_year z"
    using assms year_of_spec by blast+
  have "y < z \<Longrightarrow> a < b" using days_before_mono [of "Suc y" z] a b by simp
  moreover have "z < y \<Longrightarrow> b < a" using days_before_mono [of "Suc z" y] a b by simp
  ultimately show ?thesis using a b by (cases y z rule: linorder_cases) auto
qed

lemma month_of_less_iff:
  "a < sum_list ls \<Longrightarrow> b < sum_list ls \<Longrightarrow> month_of m ls a = (i, r) \<Longrightarrow> month_of m ls b = (j, s) \<Longrightarrow>
     a < b \<longleftrightarrow> i < j \<or> (i = j \<and> r < s)"
proof (induction ls arbitrary: m a b)
  case (Cons l ls)
  have ge: "month_of m' ls' n' = (i', r') \<Longrightarrow> m' \<le> i'" for m' ls' n' i' r'
    by (induction m' ls' n' rule: month_of.induct) (auto split: if_splits)
  show ?case
  proof (cases "a < l \<or> b < l")
    case True
    then show ?thesis using Cons.prems ge by (auto split: if_splits) (fastforce dest: ge)+
  next
    case False
    then have "a - l < sum_list ls" "b - l < sum_list ls" using Cons.prems by auto
    with False show ?thesis using Cons.IH [of "a - l" "b - l" "Suc m"] Cons.prems by auto
  qed
qed simp

lemma month_of_bounds:
  "month_of m ls n = (i, r) \<Longrightarrow> n < sum_list ls \<Longrightarrow> (\<forall>l \<in> set ls. l \<le> 31) \<Longrightarrow> i < m + length ls \<and> r < 31"
  by (induction m ls n rule: month_of.induct) (auto split: if_splits)

lemma sum_month_lengths: "sum_list (month_lengths y) = days_in_year y"
  by (simp add: month_lengths_def days_in_year_def)

section \<open>The order of dates and of timestamps\<close>

lemma iso_date_less_iff:
  assumes "a < 3652059" "b < 3652059"
  shows "iso_date a < iso_date b \<longleftrightarrow> a < b" and "length (iso_date a) = 10"
proof -
  obtain y yd where ya: "year_of a = (y, yd)" by (metis surj_pair)
  obtain z zd where yb: "year_of b = (z, zd)" by (metis surj_pair)
  obtain m md where ma: "month_of 1 (month_lengths y) yd = (m, md)" by (metis surj_pair)
  obtain k kd where mb: "month_of 1 (month_lengths z) zd = (k, kd)" by (metis surj_pair)
  have bound: "yd < sum_list (month_lengths y)" "zd < sum_list (month_lengths z)"
    using year_of_spec [OF ya] year_of_spec [OF yb] by (simp_all add: sum_month_lengths)
  have ml: "\<forall>l \<in> set (month_lengths x). l \<le> 31" "length (month_lengths x) = 12" for x
    by (simp_all add: month_lengths_def)
  have mm: "m < 100" "k < 100" "Suc md < 100" "Suc kd < 100"
    using month_of_bounds [OF ma bound(1) ml(1)] month_of_bounds [OF mb bound(2) ml(1)] ml(2) by auto
  have big: "days_before 10000 = 366 + 3652059"
    using days_before_closed [of 9999] by simp
  have "y < 10000" "z < 10000"
    using year_of_spec [OF ya] year_of_spec [OF yb] assms big
      days_before_mono [of 10000 y] days_before_mono [of 10000 z] by (force simp: not_less [symmetric])+
  have forms: "iso_date a = pad 4 y @ ''-'' @ pad 2 m @ ''-'' @ pad 2 (Suc md)"
    "iso_date b = pad 4 z @ ''-'' @ pad 2 k @ ''-'' @ pad 2 (Suc kd)"
    unfolding iso_date_def ya yb using ma mb by simp_all
  note pads = pad_less_iff [of _ 4] pad_less_iff [of _ 2] pad_inj [of _ 4] pad_inj [of _ 2]
  have eq: "y = z \<Longrightarrow> (yd < zd \<longleftrightarrow> m < k \<or> (m = k \<and> md < kd))"
    using month_of_less_iff [OF bound(1) _ ma, of zd k kd] bound(2) mb by auto
  show "iso_date a < iso_date b \<longleftrightarrow> a < b"
    unfolding year_of_less_iff [OF ya yb] using eq \<open>y < 10000\<close> \<open>z < 10000\<close> mm
    unfolding forms by (auto simp: append_less_iff pads)
  show "length (iso_date a) = 10" by (simp add: forms)
qed

lemma iso_time_less_iff:
  assumes "a < 86400" "b < 86400"
  shows "iso_time a < iso_time b \<longleftrightarrow> a < b" and "iso_time a = iso_time b \<longleftrightarrow> a = b"
proof -
  have h: "a div 3600 < 100" "b div 3600 < 100" "a div 60 mod 60 < 100" "b div 60 mod 60 < 100"
    "a mod 60 < 100" "b mod 60 < 100"
    using assms by (simp_all add: div_less_iff_less_mult order_less_trans [OF mod_less_divisor])
  note pads = pad_less_iff [of _ 2] pad_inj [of _ 2]
  have dd: "x div 60 div 60 = x div 3600" for x :: nat by (simp add: div_mult2_eq [symmetric])
  have "a < b \<longleftrightarrow> a div 3600 < b div 3600 \<or> (a div 3600 = b div 3600 \<and>
      (a div 60 mod 60 < b div 60 mod 60)) \<or> (a div 3600 = b div 3600 \<and>
       a div 60 mod 60 = b div 60 mod 60 \<and> a mod 60 < b mod 60)"
    using less_iff_div_mod [of 60 a b] less_iff_div_mod [of 60 "a div 60" "b div 60"]
      eq_iff_div_mod [of "a div 60" "b div 60" 60] by (auto simp: dd)
  then show "iso_time a < iso_time b \<longleftrightarrow> a < b"
    using h by (auto simp: iso_time_def append_less_iff pads)
  have "a = b \<longleftrightarrow> a div 3600 = b div 3600 \<and> a div 60 mod 60 = b div 60 mod 60 \<and> a mod 60 = b mod 60"
    using eq_iff_div_mod [of a b 60] eq_iff_div_mod [of "a div 60" "b div 60" 60] by (auto simp: dd)
  then show "iso_time a = iso_time b \<longleftrightarrow> a = b" using h by (auto simp: iso_time_def pads)
qed

lemma length_iso_time [simp]: "length (iso_time s) = 8"
  by (simp add: iso_time_def)

lemma iso_fraction_less_iff:
  assumes "a < 1000000" "b < 1000000"
  shows "iso_fraction a @ ''+00:00'' < iso_fraction b @ ''+00:00'' \<longleftrightarrow> a < b"
  using assms pad_less_iff [of a 6 b] pad_inj [of a 6 b]
  by (auto simp: iso_fraction_def append_less_iff less_char_def)

theorem isoformat_less_iff:
  assumes "a < MAX_INSTANT" "b < MAX_INSTANT"
  shows "isoformat a < isoformat b \<longleftrightarrow> a < b"
proof -
  let ?d = "\<lambda>t. t div 1000000 div 86400" and ?s = "\<lambda>t. t div 1000000 mod 86400" and ?u = "\<lambda>t. t mod 1000000"
  have d: "?d a < 3652059" "?d b < 3652059"
    using assms by (simp_all add: MAX_INSTANT_def div_less_iff_less_mult)
  have eqd: "iso_date (?d a) = iso_date (?d b) \<longleftrightarrow> ?d a = ?d b"
    using iso_date_less_iff(1) [OF d] iso_date_less_iff(1) [OF d(2,1)]
    by (metis less_irrefl linorder_neqE_nat)
  have "a < b \<longleftrightarrow> ?d a < ?d b \<or> (?d a = ?d b \<and> (?s a < ?s b \<or> (?s a = ?s b \<and> ?u a < ?u b)))"
    using less_iff_div_mod [of 1000000 a b] less_iff_div_mod [of 86400 "a div 1000000" "b div 1000000"]
      eq_iff_div_mod [of "a div 1000000" "b div 1000000" 86400] by auto
  then show ?thesis
    using iso_date_less_iff [OF d] iso_date_less_iff(2) [OF d(2,1)] eqd
      iso_time_less_iff [of "?s a" "?s b"] iso_fraction_less_iff [of "?u a" "?u b"]
    by (simp add: isoformat_def Let_def append_less_iff)
qed

end
