(* ===== verification/Evaluator.thy ===== *)
theory Evaluator
  imports App_Service Datetimes
begin

text \<open>
  The digest evaluator: \<open>core/scheduler.py\<close> and \<open>core/evaluator.py\<close>. One tick reaps stale
  firings, scrapes what is due (plan A) and sends one digest per due job (plan B); the loop runs
  ticks until it is told to stop.

  croniter, the time-zone database and \<open>datetime.fromisoformat\<close> are parameters (record
  \<open>calendar\<close>); an instant is a number of microseconds as in \<open>Datetimes\<close>. A send runs in a
  thread of an executor under a deadline: the parameter \<open>sender\<close> tells what the awaiting
  coroutine sees (a value, an exception, or the deadline with the future still cancellable or
  already running), and the world tells which futures are done. The jobs of a tick are handled one
  after the other, so the semaphore never has a second holder inside one tick and has no state here.
  The component \<open>ev_sends\<close> is a log that the program does not keep: the job and window of every
  submitted send, in order; a future is named by its position in it.
\<close>

section \<open>Windows\<close>

record local_dt =
  ld_wall :: int \<comment> \<open>wall-clock fields, in microseconds\<close>
  ld_zone :: "string option" \<comment> \<open>tzinfo\<close>
  ld_fold :: bool

datatype stamp = Naive nat | Aware nat

record calendar =
  cal_zone :: "string \<Rightarrow> string result" \<comment> \<open>\<open>ZoneInfo(name)\<close>\<close>
  cal_local :: "string \<Rightarrow> nat \<Rightarrow> local_dt" \<comment> \<open>\<open>astimezone\<close>, to a zone\<close>
  cal_utc :: "local_dt \<Rightarrow> nat" \<comment> \<open>\<open>astimezone(utc)\<close> of an aware value\<close>
  cal_prev :: "string \<Rightarrow> local_dt \<Rightarrow> local_dt result" \<comment> \<open>\<open>croniter(expr, base).get_prev\<close>\<close>
  cal_next :: "string \<Rightarrow> nat \<Rightarrow> nat result" \<comment> \<open>\<open>croniter(expr, base).get_next\<close>\<close>
  cal_fromiso :: "string \<Rightarrow> stamp result"

definition INCLUSIVE_EPSILON :: int where
  "INCLUSIVE_EPSILON = 1"

text \<open>Adding a timedelta to an aware value moves its wall clock and forgets the fold.\<close>

definition add_wall :: "local_dt \<Rightarrow> int \<Rightarrow> local_dt" where
  "add_wall d delta = d\<lparr> ld_wall := ld_wall d + delta, ld_fold := False \<rparr>"

definition compute_window_start :: "calendar \<Rightarrow> string \<Rightarrow> string \<Rightarrow> nat \<Rightarrow> string result" where
  "compute_window_start cal schedule_cron tz_name now_utc =
     (case cal_zone cal tz_name of
        Inl e \<Rightarrow> Inl e
      | Inr zone \<Rightarrow>
          (case cal_prev cal schedule_cron (add_wall (cal_local cal zone now_utc) INCLUSIVE_EPSILON) of
             Inl e \<Rightarrow> Inl e
           | Inr occurrence \<Rightarrow>
               (let occurrence_local =
                      (if ld_zone occurrence = None then occurrence\<lparr> ld_zone := Some zone \<rparr> else occurrence)
                in Inr (isoformat (cal_utc cal occurrence_local)))))"

definition job_period :: "calendar \<Rightarrow> string \<Rightarrow> nat \<Rightarrow> int result" where
  "job_period cal schedule_cron now =
     bindE (cal_next cal schedule_cron now) (\<lambda>first.
     bindE (cal_next cal schedule_cron first) (\<lambda>second. Inr (int second - int first)))"

definition parse_ts :: "calendar \<Rightarrow> string \<Rightarrow> nat result" where
  "parse_ts cal ts = bindE (cal_fromiso cal ts) (\<lambda>d. Inr (case d of Naive t \<Rightarrow> t | Aware t \<Rightarrow> t))"

section \<open>Executors and the warning tracker\<close>

definition LIVE_ORPHANS_PER_WORKER :: nat where
  "LIVE_ORPHANS_PER_WORKER = 3"

text \<open>A pool is named by its generation; the pools that were told to shut down are kept in a
  list.\<close>

record rotating_executor =
  rx_max_workers :: nat
  rx_current :: nat
  rx_retired :: "(nat \<times> nat) list" \<comment> \<open>pool and orphaned future\<close>
  rx_shut :: "nat list"

definition new_rotating :: "nat \<Rightarrow> rotating_executor" where
  "new_rotating n = \<lparr> rx_max_workers = n, rx_current = 0, rx_retired = [], rx_shut = [] \<rparr>"

definition max_live_orphans :: "rotating_executor \<Rightarrow> nat" where
  "max_live_orphans ex = rx_max_workers ex * LIVE_ORPHANS_PER_WORKER"

definition prune_retired :: "(nat \<Rightarrow> bool) \<Rightarrow> rotating_executor \<Rightarrow> rotating_executor" where
  "prune_retired is_done ex =
     ex\<lparr> rx_retired := filter (\<lambda>(pool, future). \<not> is_done future) (rx_retired ex),
         rx_shut := rx_shut ex @ map fst (filter (\<lambda>(pool, future). is_done future) (rx_retired ex)) \<rparr>"

definition rotate_executor :: "(nat \<Rightarrow> bool) \<Rightarrow> nat option \<Rightarrow> rotating_executor \<Rightarrow> rotating_executor" where
  "rotate_executor is_done orphan ex =
     (let stuck = rx_current ex; ex1 = ex\<lparr> rx_current := Suc stuck \<rparr>
      in case orphan of
           Some future \<Rightarrow> prune_retired is_done (ex1\<lparr> rx_retired := rx_retired ex1 @ [(stuck, future)] \<rparr>)
         | None \<Rightarrow> ex1\<lparr> rx_shut := rx_shut ex1 @ [stuck] \<rparr>)"

definition shutdown_executor :: "rotating_executor \<Rightarrow> rotating_executor" where
  "shutdown_executor ex =
     ex\<lparr> rx_shut := rx_shut ex @ rx_current ex # map fst (rx_retired ex), rx_retired := [] \<rparr>"

datatype send_executor = Rotating rotating_executor | Daemon

fun can_submit :: "(nat \<Rightarrow> bool) \<Rightarrow> send_executor \<Rightarrow> bool \<times> send_executor" where
  "can_submit is_done (Rotating ex) =
     (let ex' = prune_retired is_done ex
      in (length (rx_retired ex') < max_live_orphans ex', Rotating ex'))"
| "can_submit is_done Daemon = (True, Daemon)"

fun rotate :: "(nat \<Rightarrow> bool) \<Rightarrow> nat option \<Rightarrow> send_executor \<Rightarrow> send_executor" where
  "rotate is_done orphan (Rotating ex) = Rotating (rotate_executor is_done orphan ex)"
| "rotate is_done orphan Daemon = Daemon"

fun shutdown :: "send_executor \<Rightarrow> send_executor" where
  "shutdown (Rotating ex) = Rotating (shutdown_executor ex)"
| "shutdown Daemon = Daemon"

definition EMPTY_DIGEST_WARNING_TTL :: int where
  "EMPTY_DIGEST_WARNING_TTL = 2 * 86400 * 1000000"

type_synonym warned = "((string \<times> string) \<times> nat) list"

definition should_warn :: "warned \<Rightarrow> string \<Rightarrow> string \<Rightarrow> nat \<Rightarrow> bool \<times> warned" where
  "should_warn ws jid window_start tick_now =
     (let cutoff = int tick_now - EMPTY_DIGEST_WARNING_TTL;
          kept = filter (\<lambda>(key, seen). int seen \<ge> cutoff) ws;
          key = (jid, window_start)
      in if key \<in> set (map fst kept) then (False, kept) else (True, kept @ [(key, tick_now)]))"

section \<open>State of an evaluation\<close>

record evaluation_summary =
  scraped_sources :: nat
  notified_jobs :: nat
  skipped_jobs :: nat
  errors :: nat

definition zero_summary :: evaluation_summary where
  "zero_summary = \<lparr> scraped_sources = 0, notified_jobs = 0, skipped_jobs = 0, errors = 0 \<rparr>"

record 'w evaluation =
  ev_db :: state_db
  ev_world :: 'w
  ev_summary :: evaluation_summary
  ev_executor :: send_executor
  ev_warned :: warned
  ev_sends :: "(string \<times> string) list"

definition count_scraped :: "'w evaluation \<Rightarrow> 'w evaluation" where
  "count_scraped st = st\<lparr> ev_summary := (ev_summary st)\<lparr> scraped_sources := Suc (scraped_sources (ev_summary st)) \<rparr> \<rparr>"

definition count_notified :: "'w evaluation \<Rightarrow> 'w evaluation" where
  "count_notified st = st\<lparr> ev_summary := (ev_summary st)\<lparr> notified_jobs := Suc (notified_jobs (ev_summary st)) \<rparr> \<rparr>"

definition count_skipped :: "'w evaluation \<Rightarrow> 'w evaluation" where
  "count_skipped st = st\<lparr> ev_summary := (ev_summary st)\<lparr> skipped_jobs := Suc (skipped_jobs (ev_summary st)) \<rparr> \<rparr>"

definition count_error :: "'w evaluation \<Rightarrow> 'w evaluation" where
  "count_error st = st\<lparr> ev_summary := (ev_summary st)\<lparr> errors := Suc (errors (ev_summary st)) \<rparr> \<rparr>"

datatype send_outcome =
    Returned bool
  | Raised exn
  | Deadline bool \<comment> \<open>the deadline passed; whether the future could be cancelled\<close>

type_synonym 'w sender =
  "digest_job \<Rightarrow> scrape_record list \<Rightarrow> string \<Rightarrow> (string \<times> string) list \<Rightarrow> 'w \<Rightarrow> send_outcome \<times> 'w"

text \<open>What a deployment gives the evaluator.\<close>

record 'w platform =
  pf_calendar :: calendar
  pf_router :: "'w router"
  pf_factory :: parser_factory
  pf_sleep :: "'w sleeper"
  pf_sender :: "'w sender"
  pf_done :: "'w \<Rightarrow> nat \<Rightarrow> bool"
  pf_reaper_timeout_seconds :: nat

definition should_start_intra_process_evaluator :: "int \<Rightarrow> bool" where
  "should_start_intra_process_evaluator workers \<longleftrightarrow> workers \<le> 1"

type_synonym source_entry = "product \<times> product_source \<times> site_config"
type_synonym source_index = "(string \<times> source_entry) list"

definition build_source_index :: "registry \<Rightarrow> source_index result" where
  "build_source_index reg =
     (let (triples, err) = iter_sources reg
      in case err of Some e \<Rightarrow> Inl e
         | None \<Rightarrow> Inr (foldl (\<lambda>ix (p, source, site). AList.update (src_id source) (p, source, site) ix) [] triples))"

section \<open>Plan A: scrape what is due\<close>

definition merge_period :: "int \<Rightarrow> string \<times> string \<Rightarrow> ((string \<times> string) \<times> int) list \<Rightarrow> ((string \<times> string) \<times> int) list" where
  "merge_period period key rp =
     (case map_of rp key of
        None \<Rightarrow> AList.update key period rp
      | Some current \<Rightarrow> if period < current then AList.update key period rp else rp)"

fun required_period ::
  "calendar \<Rightarrow> nat \<Rightarrow> digest_job list \<Rightarrow> ((string \<times> string) \<times> int) list \<Rightarrow> ((string \<times> string) \<times> int) list result" where
  "required_period cal tick_now [] rp = Inr rp"
| "required_period cal tick_now (job # jobs) rp =
     bindE (job_period cal (job_schedule_cron job) tick_now) (\<lambda>period.
       required_period cal tick_now jobs
         (foldl (\<lambda>rp sid. merge_period period (job_owner_id job, sid) rp) rp (job_source_ids job)))"

text \<open>Whether the newest record is younger than the period.\<close>

definition fresh_enough :: "calendar \<Rightarrow> nat \<Rightarrow> int \<Rightarrow> scrape_record list \<Rightarrow> bool result" where
  "fresh_enough cal tick_now period hist =
     (case hist of [] \<Rightarrow> Inr False
      | r # _ \<Rightarrow> bindE (parse_ts cal (rec_ts r)) (\<lambda>ts. Inr (int tick_now - int ts < period)))"

definition scrape_due ::
  "'w platform \<Rightarrow> string \<Rightarrow> string \<Rightarrow> source_entry \<Rightarrow> 'w evaluation \<Rightarrow> 'w evaluation" where
  "scrape_due pf now_iso owner entry st =
     (case entry of (_, source, site) \<Rightarrow>
       (case tier_unavailable (pf_router pf) site of
          Inl e \<Rightarrow> count_error st
        | Inr True \<Rightarrow> st
        | Inr False \<Rightarrow>
            (case rt_select (pf_router pf) (site_fetcher site) (site_subresource_domains site) of
               Inl e \<Rightarrow> count_error st
             | Inr fetch \<Rightarrow>
                 (case pf_factory pf (site_parser site) of
                    Inl e \<Rightarrow> count_error st
                  | Inr parse \<Rightarrow>
                      (case scrape_and_record fetch parse owner (src_id source) (src_url source)
                              (Some now_iso) now_iso (pf_sleep pf) (ev_db st, ev_world st) of
                         (Inl e, (db, w)) \<Rightarrow> count_error (st\<lparr> ev_db := db, ev_world := w \<rparr>)
                       | (Inr rec, (db, w)) \<Rightarrow> count_scraped (st\<lparr> ev_db := db, ev_world := w \<rparr>))))))"

definition plan_a_source ::
  "'w platform \<Rightarrow> (string \<times> source_index) list \<Rightarrow> nat \<Rightarrow> (string \<times> string) \<times> int \<Rightarrow> 'w evaluation \<Rightarrow> 'w evaluation" where
  "plan_a_source pf index tick_now kp st =
     (case kp of ((owner, sid), period) \<Rightarrow>
       (case (case map_of index owner of None \<Rightarrow> None | Some ix \<Rightarrow> map_of ix sid) of
          None \<Rightarrow> st
        | Some entry \<Rightarrow>
            (case bindE (history (ev_db st) owner sid 1) (fresh_enough (pf_calendar pf) tick_now period) of
               Inl e \<Rightarrow> count_error st
             | Inr True \<Rightarrow> st
             | Inr False \<Rightarrow> scrape_due pf (isoformat tick_now) owner entry st)))"

fun plan_a_sources ::
  "'w platform \<Rightarrow> (string \<times> source_index) list \<Rightarrow> nat \<Rightarrow> ((string \<times> string) \<times> int) list \<Rightarrow> 'w evaluation \<Rightarrow> 'w evaluation" where
  "plan_a_sources pf index tick_now [] st = st"
| "plan_a_sources pf index tick_now (kp # kps) st =
     plan_a_sources pf index tick_now kps (plan_a_source pf index tick_now kp st)"

definition run_plan_a ::
  "'w platform \<Rightarrow> (string \<times> source_index) list \<Rightarrow> nat \<Rightarrow> digest_job list \<Rightarrow> 'w evaluation \<Rightarrow> unit result \<times> 'w evaluation" where
  "run_plan_a pf index tick_now jobs st =
     (case required_period (pf_calendar pf) tick_now jobs [] of
        Inl e \<Rightarrow> (Inl e, st)
      | Inr rp \<Rightarrow> (Inr (), plan_a_sources pf index tick_now rp st))"

section \<open>Plan B: one digest per due job\<close>

fun collect_records :: "state_db \<Rightarrow> string \<Rightarrow> string list \<Rightarrow> scrape_record list result" where
  "collect_records db owner [] = Inr []"
| "collect_records db owner (sid # sids) =
     bindE (history db owner sid 1) (\<lambda>h.
     bindE (collect_records db owner sids) (\<lambda>rs. Inr (take 1 h @ rs)))"

definition tier2_labels_of :: "source_index \<Rightarrow> string list \<Rightarrow> (string \<times> string) list" where
  "tier2_labels_of ix sids =
     foldl (\<lambda>ls sid. case map_of ix sid of
              None \<Rightarrow> ls
            | Some (_, _, site) \<Rightarrow>
                if truthy (site_tier2_label site) then AList.update sid (the (site_tier2_label site)) ls else ls) [] sids"

definition collect_job_digest ::
  "digest_job \<Rightarrow> source_index \<Rightarrow> state_db \<Rightarrow> (scrape_record list \<times> (string \<times> string) list) result" where
  "collect_job_digest job ix db =
     bindE (collect_records db (job_owner_id job) (job_source_ids job)) (\<lambda>rs.
       Inr (rs, tier2_labels_of ix (job_source_ids job)))"

definition exn_text :: "exn \<Rightarrow> string" where
  "exn_text e = take 500 (exn_name e @ '': '' @ exn_str e)"

text \<open>The row of the window leaves the active states; \<open>status\<close> is terminal.\<close>

definition finish_run ::
  "digest_job \<Rightarrow> string \<Rightarrow> string \<Rightarrow> string option \<Rightarrow> string option \<Rightarrow> 'w evaluation \<Rightarrow> 'w evaluation" where
  "finish_run job window_start status sent_at err st =
     st\<lparr> ev_db := snd (update_job_run (ev_db st) (job_id job) window_start status sent_at err) \<rparr>"

text \<open>The send of a claimed window. A send that itself raises \<open>TimeoutError\<close> takes the branch of
  the deadline: its future is finished, so it cannot be cancelled.\<close>

definition send_claimed ::
  "'w platform \<Rightarrow> string \<Rightarrow> digest_job \<Rightarrow> string \<Rightarrow> scrape_record list \<Rightarrow> (string \<times> string) list
    \<Rightarrow> 'w evaluation \<Rightarrow> 'w evaluation" where
  "send_claimed pf now_iso job window_start records tier2 st0 =
     (let st1 = st0\<lparr> ev_db := snd (update_job_run (ev_db st0) (job_id job) window_start ''running'' None None) \<rparr>;
          future = length (ev_sends st1);
          (outcome, w) = pf_sender pf job records now_iso tier2 (ev_world st1);
          st = st1\<lparr> ev_world := w, ev_sends := ev_sends st1 @ [(job_id job, window_start)] \<rparr>;
          timed_out = (\<lambda>cancelled.
            count_error (finish_run job window_start ''error'' None (Some (exn_text TimeoutError))
              (st\<lparr> ev_executor := rotate (pf_done pf w) (if cancelled then None else Some future) (ev_executor st) \<rparr>)))
      in case outcome of
           Deadline cancelled \<Rightarrow> timed_out cancelled
         | Raised e \<Rightarrow>
             if e = TimeoutError then timed_out False
             else count_error (finish_run job window_start ''error'' None (Some (exn_text e)) st)
         | Returned True \<Rightarrow> count_notified (finish_run job window_start ''sent'' (Some now_iso) None st)
         | Returned False \<Rightarrow> count_skipped (finish_run job window_start ''skipped_no_email'' None None st))"

definition plan_b_job ::
  "'w platform \<Rightarrow> (string \<times> source_index) list \<Rightarrow> nat \<Rightarrow> digest_job \<Rightarrow> 'w evaluation \<Rightarrow> 'w evaluation" where
  "plan_b_job pf index tick_now job st =
     (if has_active_job_run (ev_db st) (job_owner_id job) (job_id job) then count_skipped st
      else case collect_job_digest job (case map_of index (job_owner_id job) of None \<Rightarrow> [] | Some ix \<Rightarrow> ix) (ev_db st) of
        Inl e \<Rightarrow> count_error st
      | Inr (records, tier2) \<Rightarrow>
          let window = compute_window_start (pf_calendar pf) (job_schedule_cron job) (job_timezone job) tick_now
          in if records = []
             then (case window of
                     Inl e \<Rightarrow> count_error st
                   | Inr ws \<Rightarrow> count_skipped (st\<lparr> ev_warned := snd (should_warn (ev_warned st) (job_id job) ws tick_now) \<rparr>))
             else (let (ok, ex) = can_submit (pf_done pf (ev_world st)) (ev_executor st);
                       st1 = st\<lparr> ev_executor := ex \<rparr>
                   in if \<not> ok then count_skipped st1
                      else case window of
                        Inl e \<Rightarrow> count_error st1
                      | Inr ws \<Rightarrow>
                          (let (first, db1) = record_job_run (ev_db st1)
                                 \<lparr> jr_job_id = job_id job, jr_owner_id = job_owner_id job, jr_window_start = ws,
                                   jr_fired_at = isoformat tick_now, jr_status = ''queued'', jr_sent_at = None,
                                   jr_error = None \<rparr>;
                               st2 = st1\<lparr> ev_db := db1 \<rparr>
                           in if \<not> first then count_skipped st2
                              else send_claimed pf (isoformat tick_now) job ws records tier2 st2)))"

fun run_plan_b ::
  "'w platform \<Rightarrow> (string \<times> source_index) list \<Rightarrow> nat \<Rightarrow> digest_job list \<Rightarrow> 'w evaluation \<Rightarrow> 'w evaluation" where
  "run_plan_b pf index tick_now [] st = st"
| "run_plan_b pf index tick_now (job # jobs) st =
     run_plan_b pf index tick_now jobs (plan_b_job pf index tick_now job st)"

section \<open>The tick and the loop\<close>

definition reap_stale_job_runs :: "nat \<Rightarrow> nat \<Rightarrow> digest_job list \<Rightarrow> state_db \<Rightarrow> state_db" where
  "reap_stale_job_runs timeout_seconds tick_now jobs db =
     (let fired_before = isoformat (tick_now - timeout_seconds * 1000000)
      in foldl (\<lambda>db job. snd (reap_stale_job_run db (job_owner_id job) (job_id job) fired_before)) db jobs)"

fun build_indexes :: "config_db \<Rightarrow> string list \<Rightarrow> (string \<times> source_index) list result" where
  "build_indexes cdb [] = Inr []"
| "build_indexes cdb (owner # owners) =
     bindE (build_source_index (load cdb owner)) (\<lambda>ix.
     bindE (build_indexes cdb owners) (\<lambda>ixs. Inr ((owner, ix) # ixs)))"

text \<open>The result is the summary, or the exception that leaves the coroutine.\<close>

fun plan_b_after ::
  "'w platform \<Rightarrow> (string \<times> source_index) list \<Rightarrow> nat \<Rightarrow> digest_job list \<Rightarrow> unit result \<times> 'w evaluation
    \<Rightarrow> evaluation_summary result \<times> 'w evaluation" where
  "plan_b_after pf index tick_now jobs (Inl e, st) = (Inl e, st)"
| "plan_b_after pf index tick_now jobs (Inr _, st) =
     (let st' = run_plan_b pf index tick_now jobs st in (Inr (ev_summary st'), st'))"

definition evaluate_jobs ::
  "'w platform \<Rightarrow> config_db \<Rightarrow> nat \<Rightarrow> digest_job list \<Rightarrow> 'w evaluation
    \<Rightarrow> evaluation_summary result \<times> 'w evaluation" where
  "evaluate_jobs pf cdb tick_now jobs st =
     (let st1 = st\<lparr> ev_db := reap_stale_job_runs (pf_reaper_timeout_seconds pf) tick_now jobs (ev_db st) \<rparr>
      in case build_indexes cdb (sort (remdups (map job_owner_id jobs))) of
           Inl e \<Rightarrow> (Inl e, st1)
         | Inr index \<Rightarrow> plan_b_after pf index tick_now jobs (run_plan_a pf index tick_now jobs st1))"

definition evaluate_tick ::
  "'w platform \<Rightarrow> config_db \<Rightarrow> nat \<Rightarrow> 'w evaluation \<Rightarrow> evaluation_summary result \<times> 'w evaluation" where
  "evaluate_tick pf cdb tick_now st0 =
     (let st = st0\<lparr> ev_summary := zero_summary \<rparr>
      in case list_all_enabled_jobs cdb of
           Inl e \<Rightarrow> (Inr (ev_summary (count_error st)), count_error st)
         | Inr jobs \<Rightarrow>
             if jobs = [] then (Inr (ev_summary st), st) else evaluate_jobs pf cdb tick_now jobs st)"

text \<open>A call that brings no executor and no tracker of its own gets fresh ones for itself.\<close>

definition evaluate_once ::
  "'w platform \<Rightarrow> config_db \<Rightarrow> nat \<Rightarrow> state_db \<Rightarrow> 'w \<Rightarrow> (string \<times> string) list
    \<Rightarrow> evaluation_summary result \<times> 'w evaluation" where
  "evaluate_once pf cdb tick_now db w sends =
     (case evaluate_tick pf cdb tick_now
             \<lparr> ev_db = db, ev_world = w, ev_summary = zero_summary, ev_executor = Daemon, ev_warned = [],
               ev_sends = sends \<rparr> of
        (r, st) \<Rightarrow> (r, st\<lparr> ev_executor := shutdown (ev_executor st) \<rparr>))"

text \<open>Between two ticks other parts of the program work on the databases: a turn of the loop brings
  the configuration it sees, the time, and what happened to the state and the world meanwhile. A tick
  that raises is logged and the loop goes on with the state it left.\<close>

type_synonym 'w turn = "config_db \<times> nat \<times> (state_db \<Rightarrow> state_db) \<times> ('w \<Rightarrow> 'w)"

fun loop_turns :: "'w platform \<Rightarrow> 'w turn list \<Rightarrow> 'w evaluation \<Rightarrow> 'w evaluation" where
  "loop_turns pf [] st = st"
| "loop_turns pf ((cdb, tick_now, other, elapse) # turns) st =
     loop_turns pf turns
       (snd (evaluate_tick pf cdb tick_now (st\<lparr> ev_db := other (ev_db st), ev_world := elapse (ev_world st) \<rparr>)))"

definition loop_start :: "int \<Rightarrow> state_db \<Rightarrow> 'w \<Rightarrow> 'w evaluation" where
  "loop_start max_concurrent_sends db w =
     \<lparr> ev_db = db, ev_world = w, ev_summary = zero_summary,
       ev_executor = Rotating (new_rotating (nat (max max_concurrent_sends 1))),
       ev_warned = [], ev_sends = [] \<rparr>"

definition run_evaluator_loop ::
  "'w platform \<Rightarrow> int \<Rightarrow> 'w turn list \<Rightarrow> state_db \<Rightarrow> 'w \<Rightarrow> 'w evaluation" where
  "run_evaluator_loop pf max_concurrent_sends turns db w =
     (let st = loop_turns pf turns (loop_start max_concurrent_sends db w)
      in st\<lparr> ev_executor := shutdown (ev_executor st) \<rparr>)"

section \<open>What the parts of a tick keep\<close>

lemma count_fields [simp]:
  "ev_db (count_scraped st) = ev_db st" "ev_db (count_notified st) = ev_db st"
  "ev_db (count_skipped st) = ev_db st" "ev_db (count_error st) = ev_db st"
  "ev_sends (count_scraped st) = ev_sends st" "ev_sends (count_notified st) = ev_sends st"
  "ev_sends (count_skipped st) = ev_sends st" "ev_sends (count_error st) = ev_sends st"
  "ev_executor (count_scraped st) = ev_executor st" "ev_executor (count_notified st) = ev_executor st"
  "ev_executor (count_skipped st) = ev_executor st" "ev_executor (count_error st) = ev_executor st"
  "ev_world (count_scraped st) = ev_world st" "ev_world (count_notified st) = ev_world st"
  "ev_world (count_skipped st) = ev_world st" "ev_world (count_error st) = ev_world st"
  "ev_warned (count_scraped st) = ev_warned st" "ev_warned (count_notified st) = ev_warned st"
  "ev_warned (count_skipped st) = ev_warned st" "ev_warned (count_error st) = ev_warned st"
  by (simp_all add: count_scraped_def count_notified_def count_skipped_def count_error_def)

lemma finish_run_fields [simp]:
  "ev_sends (finish_run job ws s sa er st) = ev_sends st"
  "ev_executor (finish_run job ws s sa er st) = ev_executor st"
  "ev_world (finish_run job ws s sa er st) = ev_world st"
  "ev_warned (finish_run job ws s sa er st) = ev_warned st"
  "ev_summary (finish_run job ws s sa er st) = ev_summary st"
  "ev_db (finish_run job ws s sa er st) = snd (update_job_run (ev_db st) (job_id job) ws s sa er)"
  by (simp_all add: finish_run_def)

lemma scrape_and_record_runs:
  "scrape_and_record fetch parse owner sid url now clock sleep (db, w) = (r, (db', w')) \<Longrightarrow>
     db_job_runs db' = db_job_runs db"
  by (auto simp: scrape_and_record_def record_scrape_Inr Let_def split: prod.splits sum.splits)

lemma scrape_due_fields [simp]:
  "db_job_runs (ev_db (scrape_due pf now_iso owner entry st)) = db_job_runs (ev_db st)"
  "ev_sends (scrape_due pf now_iso owner entry st) = ev_sends st"
  "ev_executor (scrape_due pf now_iso owner entry st) = ev_executor st"
  "ev_warned (scrape_due pf now_iso owner entry st) = ev_warned st"
  by (auto simp: scrape_due_def split: prod.splits sum.splits bool.splits dest: scrape_and_record_runs)

lemma plan_a_source_fields [simp]:
  "db_job_runs (ev_db (plan_a_source pf index t kp st)) = db_job_runs (ev_db st)"
  "ev_sends (plan_a_source pf index t kp st) = ev_sends st"
  "ev_executor (plan_a_source pf index t kp st) = ev_executor st"
  "ev_warned (plan_a_source pf index t kp st) = ev_warned st"
  by (auto simp: plan_a_source_def split: prod.splits sum.splits bool.splits option.splits)

lemma plan_a_fields [simp]:
  "db_job_runs (ev_db (snd (run_plan_a pf index t jobs st))) = db_job_runs (ev_db st)"
  "ev_sends (snd (run_plan_a pf index t jobs st)) = ev_sends st"
  "ev_executor (snd (run_plan_a pf index t jobs st)) = ev_executor st"
  "ev_warned (snd (run_plan_a pf index t jobs st)) = ev_warned st"
proof -
  have "db_job_runs (ev_db (plan_a_sources pf index t rp st)) = db_job_runs (ev_db st)
    \<and> ev_sends (plan_a_sources pf index t rp st) = ev_sends st
    \<and> ev_executor (plan_a_sources pf index t rp st) = ev_executor st
    \<and> ev_warned (plan_a_sources pf index t rp st) = ev_warned st" for rp
    by (induction rp arbitrary: st) simp_all
  then show "db_job_runs (ev_db (snd (run_plan_a pf index t jobs st))) = db_job_runs (ev_db st)"
    "ev_sends (snd (run_plan_a pf index t jobs st)) = ev_sends st"
    "ev_executor (snd (run_plan_a pf index t jobs st)) = ev_executor st"
    "ev_warned (snd (run_plan_a pf index t jobs st)) = ev_warned st"
    by (simp_all add: run_plan_a_def split: sum.splits)
qed

lemma plan_a_sends: "run_plan_a pf index t jobs st = (r, st') \<Longrightarrow> ev_sends st' = ev_sends st"
  using plan_a_fields(2) [of pf index t jobs st] by simp

lemma reap_all_keys: "claimed_keys (reap_stale_job_runs secs t jobs db) = claimed_keys db"
proof -
  have "claimed_keys (foldl (\<lambda>db job. snd (reap_stale_job_run db (job_owner_id job) (job_id job) fb)) db jobs)
      = claimed_keys db" for fb
    by (induction jobs arbitrary: db) (simp_all add: sqlite_runs.reap_keys)
  then show ?thesis by (simp add: reap_stale_job_runs_def)
qed

text \<open>A property of the evaluation state that holds before and that plan A, the sweep, and the
  handling of one job keep, holds after the tick.\<close>

lemma tick_induct:
  assumes st: "P st"
    and summary: "\<And>st s. P st \<Longrightarrow> P (st\<lparr> ev_summary := s \<rparr>)"
    and reap: "\<And>st jobs. P st \<Longrightarrow>
       P (st\<lparr> ev_db := reap_stale_job_runs (pf_reaper_timeout_seconds pf) t jobs (ev_db st) \<rparr>)"
    and plan_a: "\<And>st index jobs. P st \<Longrightarrow> P (snd (run_plan_a pf index t jobs st))"
    and job: "\<And>st index job. P st \<Longrightarrow> P (plan_b_job pf index t job st)"
  shows "P (snd (evaluate_tick pf cdb t st))"
proof -
  have b: "P (run_plan_b pf index t jobs st)" if "P st" for index jobs st
    using that by (induction jobs arbitrary: st) (simp_all add: job)
  have a: "P st2" if "run_plan_a pf index t jobs st = (r, st2)" "P st" for index jobs st r st2
    using plan_a [OF that(2), of index jobs] that(1) by simp
  have ab: "P (snd (plan_b_after pf index t jobs (run_plan_a pf index t jobs st)))" if "P st" for index jobs st
  proof (cases "run_plan_a pf index t jobs st")
    case (Pair r st2)
    then show ?thesis using a [OF Pair that] b by (cases r) (simp_all add: Let_def)
  qed
  have j: "P (snd (evaluate_jobs pf cdb t jobs st))" if "P st" for jobs st
    using reap [OF that, of jobs] ab by (auto simp: evaluate_jobs_def Let_def split: sum.split)
  show ?thesis using summary [OF st]
    by (auto simp: evaluate_tick_def Let_def count_error_def intro: j summary split: sum.split)
qed

section \<open>At most one send per window\<close>

definition sends_ok :: "(string \<times> string) set \<Rightarrow> 'w evaluation \<Rightarrow> bool" where
  "sends_ok old st \<longleftrightarrow> sqlite_runs.covers old (ev_db st) (ev_sends st)"

lemma sends_ok_cong:
  "db_job_runs (ev_db st') = db_job_runs (ev_db st) \<Longrightarrow> ev_sends st' = ev_sends st \<Longrightarrow>
     sends_ok old st \<Longrightarrow> sends_ok old st'"
  by (simp add: sends_ok_def sqlite_runs.covers_def claimed_keys_def)

text \<open>Sending a window right after it was claimed.\<close>

lemma send_claimed_covers:
  assumes "sqlite_runs.covers old (ev_db st) (ev_sends st @ [(job_id job, ws)])"
  shows "sends_ok old (send_claimed pf now_iso job ws records tier2 st)"
  using assms
  by (auto simp: sends_ok_def send_claimed_def Let_def sqlite_runs.covers_update
      split: prod.split send_outcome.split bool.split)

lemma plan_b_job_sends_ok: "sends_ok old st \<Longrightarrow> sends_ok old (plan_b_job pf index t job st)"
proof -
  assume ok: "sends_ok old st"
  define run where "run ws = \<lparr> jr_job_id = job_id job, jr_owner_id = job_owner_id job, jr_window_start = ws,
    jr_fired_at = isoformat t, jr_status = ''queued'', jr_sent_at = None, jr_error = None \<rparr>" for ws
  have key: "run_key (run ws) = (job_id job, ws)" for ws by (simp add: run_def run_key_def)
  have claimed: "sends_ok old (send_claimed pf now_iso job ws records tier2 (st\<lparr> ev_executor := ex, ev_db := db1 \<rparr>))"
    if "record_job_run (ev_db st) (run ws) = (True, db1)" for ws db1 ex now_iso records tier2
    using ok sqlite_runs.covers_claim [of old "ev_db st" "ev_sends st" "run ws"] that key [of ws]
    by (intro send_claimed_covers) (simp add: sends_ok_def)
  have refused: "sends_ok old (count_skipped (st\<lparr> ev_executor := ex, ev_db := db1 \<rparr>))"
    if "record_job_run (ev_db st) (run ws) = (False, db1)" for ws db1 ex
    using ok that sqlite_runs.covers_refused [of old "ev_db st" "ev_sends st" "run ws"]
    by (simp add: sends_ok_def)
  have same: "sends_ok old (count_skipped (st\<lparr> ev_executor := ex \<rparr>))" "sends_ok old (count_error (st\<lparr> ev_executor := ex \<rparr>))"
    "sends_ok old (count_skipped (st\<lparr> ev_warned := ws \<rparr>))" "sends_ok old (count_error st)" "sends_ok old (count_skipped st)"
    for ex ws by (auto intro: sends_ok_cong [OF _ _ ok])
  show ?thesis
    unfolding plan_b_job_def run_def [symmetric] Let_def
    by (auto simp: same intro: claimed refused split: sum.split prod.split bool.split)
qed

lemma tick_sends_ok: "sends_ok old st \<Longrightarrow> sends_ok old (snd (evaluate_tick pf cdb t st))"
proof (rule tick_induct)
  fix st :: "'a evaluation" and jobs
  assume "sends_ok old st"
  then show "sends_ok old (st\<lparr> ev_db := reap_stale_job_runs (pf_reaper_timeout_seconds pf) t jobs (ev_db st) \<rparr>)"
    by (simp add: sends_ok_def sqlite_runs.covers_def reap_all_keys)
qed (auto intro: plan_b_job_sends_ok sends_ok_cong [rotated 2])

lemma turns_sends_ok:
  assumes "\<And>cdb t other el db. (cdb, t, other, el) \<in> set turns \<Longrightarrow> claimed_keys db \<subseteq> claimed_keys (other db)"
    and "sends_ok old st"
  shows "sends_ok old (loop_turns pf turns st)"
  using assms
proof (induction turns arbitrary: st)
  case (Cons turn turns)
  obtain cdb t other el where turn: "turn = (cdb, t, other, el)" by (cases turn)
  have "sends_ok old (st\<lparr> ev_db := other (ev_db st), ev_world := el (ev_world st) \<rparr>)"
    using Cons.prems(2) sqlite_runs.covers_mono Cons.prems(1) [of cdb t other el "ev_db st"] turn
    by (auto simp: sends_ok_def)
  then have "sends_ok old (snd (evaluate_tick pf cdb t (st\<lparr> ev_db := other (ev_db st), ev_world := el (ev_world st) \<rparr>)))"
    by (rule tick_sends_ok)
  moreover have "claimed_keys db \<subseteq> claimed_keys (other' db)" if "(c, t', other', el') \<in> set turns" for c t' other' el' db
    using Cons.prems(1) that by (metis list.set_intros(2))
  ultimately show ?case using Cons.IH turn by simp
qed simp

section \<open>The outcome of one job\<close>

text \<open>A job is due in a state when it has no firing in flight, something to report, an executor that
  takes a send, and a window that nobody claimed.\<close>

definition due ::
  "'w platform \<Rightarrow> (string \<times> source_index) list \<Rightarrow> nat \<Rightarrow> digest_job \<Rightarrow> 'w evaluation \<Rightarrow> string option" where
  "due pf index t job st =
     (if has_active_job_run (ev_db st) (job_owner_id job) (job_id job) then None
      else case collect_job_digest job (case map_of index (job_owner_id job) of None \<Rightarrow> [] | Some ix \<Rightarrow> ix) (ev_db st) of
        Inl e \<Rightarrow> None
      | Inr (records, tier2) \<Rightarrow>
          if records = [] \<or> \<not> fst (can_submit (pf_done pf (ev_world st)) (ev_executor st)) then None
          else case compute_window_start (pf_calendar pf) (job_schedule_cron job) (job_timezone job) t of
            Inl e \<Rightarrow> None
          | Inr ws \<Rightarrow> if (job_id job, ws) \<in> claimed_keys (ev_db st) then None else Some ws)"

definition final_statuses :: "string set" where
  "final_statuses = {''sent'', ''error'', ''skipped_no_email''}"

text \<open>How the three counters moved, with the status of the row for a send.\<close>

definition counted :: "string \<Rightarrow> evaluation_summary \<Rightarrow> evaluation_summary \<Rightarrow> bool" where
  "counted status s s' \<longleftrightarrow>
     scraped_sources s' = scraped_sources s
     \<and> notified_jobs s' = notified_jobs s + (if status = ''sent'' then 1 else 0)
     \<and> skipped_jobs s' = skipped_jobs s + (if status = ''skipped_no_email'' then 1 else 0)
     \<and> errors s' = errors s + (if status = ''error'' then 1 else 0)"

lemma counted_intros:
  "counted ''sent'' (ev_summary st) (ev_summary (count_notified st))"
  "counted ''skipped_no_email'' (ev_summary st) (ev_summary (count_skipped st))"
  "counted ''error'' (ev_summary st) (ev_summary (count_error st))"
  by (simp_all add: counted_def count_notified_def count_skipped_def count_error_def)

lemma update_job_run_rows:
  "db_job_runs (snd (update_job_run db j w st sa er)) =
     map (\<lambda>r. if run_key r = (j, w) then r\<lparr> jr_status := st, jr_sent_at := sa, jr_error := er \<rparr> else r) (db_job_runs db)"
  by (simp add: update_job_run_def update_runs_def run_key_def)

text \<open>The claimed row after the two updates of a send.\<close>

lemma update_twice_rows:
  fixes sa er :: "string option"
  assumes "status \<in> final_statuses"
    and "db_job_runs db = old @ [run]" "run_key run = (j, w)" "(j, w) \<notin> run_key ` set old"
    and "\<not> list_ex (\<lambda>r. jr_owner_id r = owner \<and> jr_job_id r = j \<and> active_status (jr_status r)) old"
  defines "db' \<equiv> snd (update_job_run (snd (update_job_run db j w ''running'' None None)) j w status sa er)"
  shows "db_job_runs db' = old @ [run\<lparr> jr_status := status, jr_sent_at := sa, jr_error := er \<rparr>]"
    and "\<not> has_active_job_run db' owner j"
proof -
  have "map (\<lambda>r. if run_key r = (j, w) then f r else r) old = old" for f
    using assms(4) by (intro map_idI) force
  moreover have "run_key (run\<lparr> jr_status := a, jr_sent_at := b, jr_error := c \<rparr>) = run_key run" for a b c
    by (simp add: run_key_def)
  ultimately show rows: "db_job_runs db' = old @ [run\<lparr> jr_status := status, jr_sent_at := sa, jr_error := er \<rparr>]"
    unfolding db'_def update_job_run_rows assms(2) using assms(3) by simp
  show "\<not> has_active_job_run db' owner j"
    using assms(1,5) unfolding has_active_job_run_def rows
    by (auto simp: final_statuses_def active_status_def)
qed

lemma send_claimed_spec:
  fixes pf :: "'w platform" and st :: "'w evaluation" and now_iso records ls
  assumes "db_job_runs (ev_db st) = old @ [run]" "run_key run = (job_id job, ws)"
    "(job_id job, ws) \<notin> run_key ` set old"
    "\<not> list_ex (\<lambda>r. jr_owner_id r = owner \<and> jr_job_id r = job_id job \<and> active_status (jr_status r)) old"
  defines "st' \<equiv> send_claimed pf now_iso job ws records ls st"
  shows "\<exists>status sa er. status \<in> final_statuses
    \<and> (status = ''sent'' \<longleftrightarrow> fst (pf_sender pf job records now_iso ls (ev_world st)) = Returned True)
    \<and> db_job_runs (ev_db st') = old @ [run\<lparr> jr_status := status, jr_sent_at := sa, jr_error := er \<rparr>]
    \<and> \<not> has_active_job_run (ev_db st') owner (job_id job)
    \<and> ev_sends st' = ev_sends st @ [(job_id job, ws)] \<and> counted status (ev_summary st) (ev_summary st')"
proof -
  obtain outcome w where out: "pf_sender pf job records now_iso ls (ev_world st) = (outcome, w)"
    by (metis surj_pair)
  define status where "status = (case outcome of Returned True \<Rightarrow> ''sent'' | Returned False \<Rightarrow> ''skipped_no_email'' | _ \<Rightarrow> ''error'')"
  have "\<exists>sa er. ev_db st' = snd (update_job_run (snd (update_job_run (ev_db st) (job_id job) ws ''running'' None None))
      (job_id job) ws status sa er)"
    by (auto simp: st'_def send_claimed_def Let_def out status_def split: send_outcome.split bool.split)
  then obtain sa er where db: "ev_db st' = snd (update_job_run (snd (update_job_run (ev_db st) (job_id job) ws ''running'' None None))
      (job_id job) ws status sa er)" by blast
  have fin: "status \<in> final_statuses"
    by (simp add: status_def final_statuses_def split: send_outcome.split bool.split)
  have "status = ''sent'' \<longleftrightarrow> outcome = Returned True"
    by (simp add: status_def split: send_outcome.split bool.split)
  moreover have "ev_sends st' = ev_sends st @ [(job_id job, ws)]"
    by (simp add: st'_def send_claimed_def Let_def out split: send_outcome.split bool.split)
  moreover have "counted status (ev_summary st) (ev_summary st')"
    by (simp add: st'_def send_claimed_def Let_def out status_def counted_def count_notified_def
        count_skipped_def count_error_def split: send_outcome.split bool.split)
  ultimately show ?thesis
    using update_twice_rows [OF fin assms(1-4), of sa er] fin unfolding db [symmetric] out fst_conv by blast
qed

lemma plan_b_job_not_due:
  assumes "due pf index t job st = None"
  defines "st' \<equiv> plan_b_job pf index t job st"
  shows "ev_sends st' = ev_sends st \<and> db_job_runs (ev_db st') = db_job_runs (ev_db st)
    \<and> (\<exists>status \<in> {''error'', ''skipped_no_email''}. counted status (ev_summary st) (ev_summary st'))"
  using assms(1) unfolding st'_def plan_b_job_def due_def
  by (auto simp: Let_def record_job_run_def run_key_def claimed_keys_def counted_def count_skipped_def count_error_def
      split: if_splits sum.splits prod.splits)

lemma plan_b_job_due:
  assumes "due pf index t job st = Some ws"
  defines "st' \<equiv> plan_b_job pf index t job st"
  shows "\<exists>row records tier2. db_job_runs (ev_db st') = db_job_runs (ev_db st) @ [row]
    \<and> run_key row = (job_id job, ws) \<and> jr_owner_id row = job_owner_id job \<and> jr_fired_at row = isoformat t
    \<and> jr_status row \<in> final_statuses \<and> records \<noteq> []
    \<and> (jr_status row = ''sent'' \<longleftrightarrow>
         fst (pf_sender pf job records (isoformat t) tier2 (ev_world st)) = Returned True)
    \<and> \<not> has_active_job_run (ev_db st') (job_owner_id job) (job_id job)
    \<and> ev_sends st' = ev_sends st @ [(job_id job, ws)]
    \<and> counted (jr_status row) (ev_summary st) (ev_summary st')"
proof -
  define run where "run = \<lparr> jr_job_id = job_id job, jr_owner_id = job_owner_id job, jr_window_start = ws,
    jr_fired_at = isoformat t, jr_status = ''queued'', jr_sent_at = None, jr_error = None \<rparr>"
  let ?ix = "case map_of index (job_owner_id job) of None \<Rightarrow> [] | Some ix \<Rightarrow> ix"
  obtain records tier2 where
    facts: "\<not> has_active_job_run (ev_db st) (job_owner_id job) (job_id job)" "records \<noteq> []"
      "(job_id job, ws) \<notin> claimed_keys (ev_db st)"
    and parts: "collect_job_digest job ?ix (ev_db st) = Inr (records, tier2)"
      "fst (can_submit (pf_done pf (ev_world st)) (ev_executor st))"
      "compute_window_start (pf_calendar pf) (job_schedule_cron job) (job_timezone job) t = Inr ws"
    using assms(1) by (auto simp: due_def split: if_splits sum.splits prod.splits)
  obtain ex where ex: "can_submit (pf_done pf (ev_world st)) (ev_executor st) = (True, ex)"
    using parts(2) by (metis (full_types) prod.collapse)
  have "record_job_run (ev_db st) run = (True, (ev_db st)\<lparr> db_job_runs := db_job_runs (ev_db st) @ [run] \<rparr>)"
    using facts(3) by (auto simp: record_job_run_def run_def run_key_def claimed_keys_def)
  then have st': "st' = send_claimed pf (isoformat t) job ws records tier2
      (st\<lparr> ev_executor := ex, ev_db := (ev_db st)\<lparr> db_job_runs := db_job_runs (ev_db st) @ [run] \<rparr> \<rparr>)"
    using facts(1,2) unfolding st'_def plan_b_job_def run_def [symmetric]
    by (simp add: parts(1,3) ex run_def [symmetric])
  let ?st = "st\<lparr> ev_executor := ex, ev_db := (ev_db st)\<lparr> db_job_runs := db_job_runs (ev_db st) @ [run] \<rparr> \<rparr>"
  have "db_job_runs (ev_db ?st) = db_job_runs (ev_db st) @ [run]" "run_key run = (job_id job, ws)"
    "(job_id job, ws) \<notin> run_key ` set (db_job_runs (ev_db st))"
    "\<not> list_ex (\<lambda>r. jr_owner_id r = job_owner_id job \<and> jr_job_id r = job_id job \<and> active_status (jr_status r))
        (db_job_runs (ev_db st))"
    using facts by (simp_all add: run_def run_key_def claimed_keys_def has_active_job_run_def)
  from send_claimed_spec [OF this, where pf = pf and now_iso = "isoformat t" and records = records
      and ls = tier2, folded st'] facts(2)
  obtain status sa er where
    "status \<in> final_statuses"
    "status = ''sent'' \<longleftrightarrow> fst (pf_sender pf job records (isoformat t) tier2 (ev_world st)) = Returned True"
    "db_job_runs (ev_db st') = db_job_runs (ev_db st) @ [run\<lparr> jr_status := status, jr_sent_at := sa, jr_error := er \<rparr>]"
    "\<not> has_active_job_run (ev_db st') (job_owner_id job) (job_id job)"
    "ev_sends st' = ev_sends st @ [(job_id job, ws)]" "counted status (ev_summary st) (ev_summary st')"
    by auto
  with facts(2) show ?thesis
    by (intro exI [of _ "run\<lparr> jr_status := status, jr_sent_at := sa, jr_error := er \<rparr>"] exI [of _ records] exI [of _ tier2])
       (simp add: run_def run_key_def)
qed

section \<open>Live orphans\<close>

text \<open>Every pool below the current one is retired or shut, and the retired ones respect the
  ceiling.\<close>

fun executor_ok :: "nat \<Rightarrow> send_executor \<Rightarrow> bool" where
  "executor_ok n (Rotating ex) \<longleftrightarrow>
     rx_max_workers ex = n \<and> length (rx_retired ex) \<le> n * LIVE_ORPHANS_PER_WORKER
     \<and> set (rx_shut ex) \<union> fst ` set (rx_retired ex) = {..<rx_current ex}"
| "executor_ok n Daemon = True"

lemma prune_pools:
  "set (rx_shut (prune_retired d ex)) \<union> fst ` set (rx_retired (prune_retired d ex))
     = set (rx_shut ex) \<union> fst ` set (rx_retired ex)"
  by (force simp: prune_retired_def)

lemma prune_fields [simp]:
  "rx_max_workers (prune_retired d ex) = rx_max_workers ex" "rx_current (prune_retired d ex) = rx_current ex"
  "length (rx_retired (prune_retired d ex)) \<le> length (rx_retired ex)"
  by (simp_all add: prune_retired_def)

lemma can_submit_ok: "executor_ok n ex \<Longrightarrow> executor_ok n (snd (can_submit d ex))"
proof (cases ex)
  case (Rotating r)
  assume "executor_ok n ex"
  then show ?thesis using prune_pools [of d r] prune_fields(3) [of d r]
    by (auto simp: Rotating Let_def simp del: prune_fields(3))
qed simp

lemma rotate_ok:
  assumes "executor_ok n ex" "fst (can_submit d ex)"
  shows "executor_ok n (rotate d' orphan (snd (can_submit d ex)))"
proof (cases ex)
  case (Rotating r)
  let ?r = "prune_retired d r"
  have ok: "executor_ok n (Rotating ?r)" and room: "length (rx_retired ?r) < n * LIVE_ORPHANS_PER_WORKER"
    using assms can_submit_ok [OF assms(1), of d] by (auto simp: Rotating Let_def max_live_orphans_def)
  show ?thesis
  proof (cases orphan)
    case None
    then show ?thesis using ok
      by (auto simp: Rotating Let_def rotate_executor_def lessThan_Suc)
  next
    case (Some future)
    let ?s = "?r\<lparr> rx_current := Suc (rx_current ?r), rx_retired := rx_retired ?r @ [(rx_current ?r, future)] \<rparr>"
    have "set (rx_shut ?s) \<union> fst ` set (rx_retired ?s) = {..<rx_current ?s}"
      using ok by (auto simp: lessThan_Suc)
    moreover have "length (rx_retired ?s) \<le> n * LIVE_ORPHANS_PER_WORKER" using room by simp
    ultimately show ?thesis using prune_pools [of d' ?s] prune_fields [of d' ?s] ok Some
      by (auto simp: Rotating Let_def rotate_executor_def simp del: prune_fields(3))
  qed
qed simp

lemma send_claimed_executor:
  "ev_executor (send_claimed pf now_iso job ws records tier2 st) \<in>
     insert (ev_executor st) (range (\<lambda>(d, orphan). rotate d orphan (ev_executor st)))"
proof -
  have rot: "rotate d orphan ex \<in> range (\<lambda>(d, orphan). rotate d orphan ex)" for d orphan ex
    by (rule image_eqI [of _ _ "(d, orphan)"]) simp_all
  show ?thesis
    by (auto simp: send_claimed_def Let_def intro!: rot split: prod.split send_outcome.split bool.split)
qed

lemma plan_b_job_executor_ok:
  assumes ok: "executor_ok n (ev_executor st)"
  shows "executor_ok n (ev_executor (plan_b_job pf index t job st))"
proof -
  obtain b ex where cs: "can_submit (pf_done pf (ev_world st)) (ev_executor st) = (b, ex)"
    by (metis surj_pair)
  have ex: "executor_ok n ex" using can_submit_ok [OF ok, of "pf_done pf (ev_world st)"] cs by simp
  have rot: "executor_ok n (rotate d orphan ex)" if b for d orphan
    using rotate_ok [OF ok, of "pf_done pf (ev_world st)"] cs that by simp
  have sent: "executor_ok n (ev_executor (send_claimed pf now_iso job ws records tier2 (st\<lparr> ev_executor := ex, ev_db := db \<rparr>)))"
    if b for now_iso ws records tier2 db
    using send_claimed_executor [of pf now_iso job ws records tier2 "st\<lparr> ev_executor := ex, ev_db := db \<rparr>"]
      ex rot [OF that] by auto
  show ?thesis
    using ok ex sent by (auto simp: plan_b_job_def Let_def cs split: sum.split prod.split)
qed

lemma tick_executor_ok:
  "executor_ok n (ev_executor st) \<Longrightarrow> executor_ok n (ev_executor (snd (evaluate_tick pf cdb t st)))"
  by (rule tick_induct [where P = "\<lambda>st. executor_ok n (ev_executor st)"]) (simp_all add: plan_b_job_executor_ok)

lemma turns_executor_ok:
  "executor_ok n (ev_executor st) \<Longrightarrow> executor_ok n (ev_executor (loop_turns pf turns st))"
  by (induction pf turns st rule: loop_turns.induct) (simp_all add: tick_executor_ok)

lemma new_rotating_ok: "executor_ok n (Rotating (new_rotating n))"
  by (simp add: new_rotating_def)

section \<open>Cadence union\<close>

definition referencing :: "digest_job list \<Rightarrow> string \<times> string \<Rightarrow> digest_job list" where
  "referencing jobs key = filter (\<lambda>j. job_owner_id j = fst key \<and> snd key \<in> set (job_source_ids j)) jobs"

definition min_opt :: "int option \<Rightarrow> int \<Rightarrow> int option" where
  "min_opt a p = (case a of None \<Rightarrow> Some p | Some c \<Rightarrow> Some (min c p))"

lemma merge_period_map: "map_of (merge_period p key rp) = (map_of rp)(key := min_opt (map_of rp key) p)"
  by (auto simp: merge_period_def min_opt_def AList.update_conv' fun_eq_iff split: option.split)

lemma merge_periods_map:
  "map_of (foldl (\<lambda>rp sid. merge_period p (owner, sid) rp) rp sids) key =
     (if fst key = owner \<and> snd key \<in> set sids then min_opt (map_of rp key) p else map_of rp key)"
proof (induction sids arbitrary: rp)
  case (Cons sid sids)
  have "min_opt (min_opt a p) p = min_opt a p" for a by (auto simp: min_opt_def split: option.split)
  with Cons show ?case by (cases key) (auto simp: merge_period_map)
qed simp

lemma required_period_map:
  assumes "required_period cal t jobs rp = Inr rp'"
  shows "map_of rp' key = fold (\<lambda>j a. min_opt a (projr (job_period cal (job_schedule_cron j) t))) (referencing jobs key) (map_of rp key)
    \<and> (\<forall>j \<in> set jobs. \<not> isl (job_period cal (job_schedule_cron j) t))"
  using assms
proof (induction jobs arbitrary: rp)
  case (Cons j js)
  then obtain p where p: "job_period cal (job_schedule_cron j) t = Inr p"
    and rest: "required_period cal t js (foldl (\<lambda>rp sid. merge_period p (job_owner_id j, sid) rp) rp (job_source_ids j)) = Inr rp'"
    by (auto simp: bindE_Inr_iff)
  from Cons.IH [OF rest] p show ?case by (auto simp: referencing_def merge_periods_map)
qed (simp add: referencing_def)

lemma fold_min_opt:
  "fold (\<lambda>j a. min_opt a (f j)) js a =
     (if js = [] then a else Some (Min (set_option a \<union> f ` set js)))"
proof (induction js arbitrary: a)
  case (Cons j js)
  then show ?case
    by (cases a; cases "js = []") (simp_all add: min_opt_def ac_simps)
qed simp

section \<open>When a tick raises\<close>

lemma required_period_Inl:
  "isl (required_period cal t jobs rp) \<longleftrightarrow> (\<exists>j \<in> set jobs. isl (job_period cal (job_schedule_cron j) t))"
proof (induction jobs arbitrary: rp)
  case (Cons j js)
  then show ?case by (cases "job_period cal (job_schedule_cron j) t") simp_all
qed simp

lemma build_indexes_ok: "config_inv cdb \<Longrightarrow> \<not> isl (build_indexes cdb owners)"
proof (induction owners)
  case (Cons owner owners)
  obtain ix where "build_source_index (load cdb owner) = Inr ix"
    using load_iter_ok [OF Cons.prems, of owner] by (simp add: build_source_index_def Let_def)
  with Cons show ?case by (cases "build_indexes cdb owners") simp_all
qed simp

lemma evaluate_tick_jobs:
  "list_all_enabled_jobs cdb = Inr jobs \<Longrightarrow> jobs \<noteq> [] \<Longrightarrow>
     evaluate_tick pf cdb t st = evaluate_jobs pf cdb t jobs (st\<lparr> ev_summary := zero_summary \<rparr>)"
  by (simp add: evaluate_tick_def)

lemma evaluate_jobs_raises:
  assumes "config_inv cdb"
  shows "isl (fst (evaluate_jobs pf cdb t jobs st)) \<longleftrightarrow>
    (\<exists>j \<in> set jobs. isl (job_period (pf_calendar pf) (job_schedule_cron j) t))"
proof -
  obtain index where ix: "build_indexes cdb (sort (remdups (map job_owner_id jobs))) = Inr index"
    using build_indexes_ok [OF assms] by (metis isl_def sum.exhaust)
  show ?thesis unfolding required_period_Inl [of "pf_calendar pf" t jobs "[]", symmetric]
    by (auto simp: evaluate_jobs_def Let_def ix run_plan_a_def split: sum.split)
qed

section \<open>A deployment for the examples\<close>

text \<open>A calendar with one zone and an hourly grid, one job of one owner, a relay that accepts every
  mail; time is counted from year 1.\<close>

definition HOUR :: nat where
  "HOUR = 3600 * 1000000"

definition same_local :: "string \<Rightarrow> nat \<Rightarrow> local_dt" where
  "same_local z t = \<lparr> ld_wall = int t, ld_zone = Some z, ld_fold = False \<rparr>"

definition same_utc :: "local_dt \<Rightarrow> nat" where
  "same_utc d = nat (ld_wall d)"

definition hourly_prev :: "string \<Rightarrow> local_dt \<Rightarrow> local_dt result" where
  "hourly_prev expr d = Inr (d\<lparr> ld_wall := (ld_wall d - 1) div int HOUR * int HOUR, ld_zone := None \<rparr>)"

definition hourly_next :: "string \<Rightarrow> nat \<Rightarrow> nat result" where
  "hourly_next expr t = Inr ((t div HOUR + 1) * HOUR)"

definition hourly_calendar :: calendar where
  "hourly_calendar =
     \<lparr> cal_zone = Inr, cal_local = same_local, cal_utc = same_utc, cal_prev = hourly_prev,
       cal_next = hourly_next, cal_fromiso = (\<lambda>s. Inr (Aware 0)) \<rparr>"

definition sample_platform :: "nat platform" where
  "sample_platform =
     \<lparr> pf_calendar = hourly_calendar, pf_router = http_router, pf_factory = (\<lambda>spec. Inr (\<lambda>h. Inr sold_out_page)),
       pf_sleep = (\<lambda>d w. w), pf_sender = (\<lambda>job rs now ls w. (Returned True, Suc w)), pf_done = (\<lambda>w f. True),
       pf_reaper_timeout_seconds = 300 \<rparr>"

definition job_config :: config_db where
  "job_config = (case svc_create_job [''UTC''] ''j'' ''t'' stocked_config \<lparr> p_owner_id = ''ana'', p_role = ''user'' \<rparr>
       (sample_spec\<lparr> sp_source_ids := [''p:kabum:https://www.''] \<rparr>) of Inr (_, db) \<Rightarrow> db | Inl _ \<Rightarrow> stocked_config)"

definition two_turns :: "nat turn list" where
  "two_turns = [(job_config, 2 * HOUR, \<lambda>db. db, \<lambda>w. w), (job_config, 2 * HOUR + 60000000, \<lambda>db. db, \<lambda>w. w)]"

section \<open>Properties\<close>

text \<open>C14: No digest goes out twice. Whatever the ticks of the loop meet (any configuration, any
  outcome of scrapes and sends, any activity of other parts of the program between ticks that keeps
  the recorded firings), every submitted send is for a job and window that was not recorded before
  the loop started and was not sent before by it, and its record is in the database at the end.\<close>

theorem digest_at_most_once:
  assumes "\<And>cdb t other elapse db'. (cdb, t, other, elapse) \<in> set turns \<Longrightarrow> claimed_keys db' \<subseteq> claimed_keys (other db')"
  shows "distinct (ev_sends (run_evaluator_loop pf n turns db w))
    \<and> set (ev_sends (run_evaluator_loop pf n turns db w)) \<inter> claimed_keys db = {}
    \<and> set (ev_sends (run_evaluator_loop pf n turns db w)) \<subseteq> claimed_keys (ev_db (run_evaluator_loop pf n turns db w))"
proof -
  have "sends_ok (claimed_keys db) (loop_turns pf turns (loop_start n db w))"
    using assms by (rule turns_sends_ok) (simp_all add: sends_ok_def loop_start_def sqlite_runs.covers_start)
  then show ?thesis
    by (auto simp: run_evaluator_loop_def Let_def sends_ok_def sqlite_runs.covers_def)
qed

theorem digest_at_most_once_witness:
  "distinct (ev_sends (run_evaluator_loop sample_platform 1 two_turns empty_state 0))
   \<and> ev_sends (run_evaluator_loop sample_platform 1 two_turns empty_state 0)
       = [(''j'', ''0001-01-01T02:00:00+00:00'')]"
proof -
  have "ev_sends (run_evaluator_loop sample_platform 1 two_turns empty_state 0)
       = [(''j'', ''0001-01-01T02:00:00+00:00'')]" by code_simp
  moreover have "distinct (ev_sends (run_evaluator_loop sample_platform 1 two_turns empty_state 0))"
    using digest_at_most_once [of two_turns sample_platform 1 empty_state 0] by (auto simp: two_turns_def)
  ultimately show ?thesis by simp
qed

text \<open>What plan B does with one job. When the job is due for a window (nothing in flight,
  something to report, room on the executor, window not recorded), exactly one send is submitted for
  that window; afterwards the window has a row of this owner fired at this tick with a final status,
  which is sent exactly when the sender returned true, the job has nothing in flight any more and the
  matching counter went up by one. When it is not due nothing is sent, no row is written, and the job
  counts as skipped or as an error, never as notified.\<close>

theorem plan_b_job_outcome:
  "case due pf index t job st of
     None \<Rightarrow>
       ev_sends (plan_b_job pf index t job st) = ev_sends st
       \<and> db_job_runs (ev_db (plan_b_job pf index t job st)) = db_job_runs (ev_db st)
       \<and> (counted ''error'' (ev_summary st) (ev_summary (plan_b_job pf index t job st))
          \<or> counted ''skipped_no_email'' (ev_summary st) (ev_summary (plan_b_job pf index t job st)))
   | Some ws \<Rightarrow>
       \<exists>row records tier2.
         db_job_runs (ev_db (plan_b_job pf index t job st)) = db_job_runs (ev_db st) @ [row]
         \<and> run_key row = (job_id job, ws) \<and> jr_owner_id row = job_owner_id job \<and> jr_fired_at row = isoformat t
         \<and> jr_status row \<in> final_statuses \<and> records \<noteq> []
         \<and> (jr_status row = ''sent'' \<longleftrightarrow>
              fst (pf_sender pf job records (isoformat t) tier2 (ev_world st)) = Returned True)
         \<and> \<not> has_active_job_run (ev_db (plan_b_job pf index t job st)) (job_owner_id job) (job_id job)
         \<and> ev_sends (plan_b_job pf index t job st) = ev_sends st @ [(job_id job, ws)]
         \<and> counted (jr_status row) (ev_summary st) (ev_summary (plan_b_job pf index t job st))"
proof (cases "due pf index t job st")
  case None
  then show ?thesis using plan_b_job_not_due [OF None] by auto
next
  case (Some ws)
  then show ?thesis using plan_b_job_due [OF Some] by simp
qed

text \<open>The number of send threads left behind by timeouts is bounded. At every point between two
  turns of the loop at most three retired pools per worker still hold an unfinished send, no pool is
  forgotten: each pool that was ever replaced is either shut down or among the retired ones; and when
  the loop ends every pool has been told to shut down.\<close>

theorem live_orphans_bounded:
  "(case ev_executor (loop_turns pf turns (loop_start n db w)) of
      Rotating ex \<Rightarrow> length (rx_retired ex) \<le> 3 * nat (max n 1)
        \<and> set (rx_shut ex) \<union> fst ` set (rx_retired ex) = {..<rx_current ex}
    | Daemon \<Rightarrow> True)
   \<and> (case ev_executor (run_evaluator_loop pf n turns db w) of
      Rotating ex \<Rightarrow> rx_retired ex = [] \<and> set (rx_shut ex) = {..rx_current ex}
    | Daemon \<Rightarrow> True)"
proof -
  have ok: "executor_ok (nat (max n 1)) (ev_executor (loop_turns pf turns (loop_start n db w)))"
    by (rule turns_executor_ok) (simp only: loop_start_def evaluation.simps new_rotating_ok)
  show ?thesis
  proof (cases "ev_executor (loop_turns pf turns (loop_start n db w))")
    case (Rotating ex)
    have "{..rx_current ex} = insert (rx_current ex) {..<rx_current ex}" by auto
    with ok Rotating show ?thesis
      by (auto simp: run_evaluator_loop_def Let_def shutdown_executor_def LIVE_ORPHANS_PER_WORKER_def mult.commute)
  next
    case Daemon
    then show ?thesis by (simp add: run_evaluator_loop_def Let_def)
  qed
qed

text \<open>Plan A asks for every source at the shortest period of the jobs that name it: the table of
  required periods has an entry for an owner's source exactly when some job of that owner names it,
  and the entry is the minimum over those jobs, whatever their order.\<close>

theorem required_period_is_min:
  assumes "required_period cal t jobs [] = Inr rp"
  shows "map_of rp key =
    (if referencing jobs key = [] then None
     else Some (Min ((\<lambda>j. projr (job_period cal (job_schedule_cron j) t)) ` set (referencing jobs key))))"
  using required_period_map [OF assms, of key] by (simp add: fold_min_opt)

theorem required_period_is_min_witness:
  "\<exists>rp. required_period hourly_calendar 5 (projr (list_all_enabled_jobs job_config)) [] = Inr rp
     \<and> map_of rp (''ana'', ''p:kabum:https://www.'') = Some (int HOUR)"
proof -
  let ?jobs = "projr (list_all_enabled_jobs job_config)" and ?key = "(''ana'', ''p:kabum:https://www.'')"
  have "\<not> isl (job_period hourly_calendar e 5)" for e
    by (simp add: job_period_def hourly_calendar_def hourly_next_def)
  then have "\<not> isl (required_period hourly_calendar 5 ?jobs [])" by (simp add: required_period_Inl)
  then obtain rp where rp: "required_period hourly_calendar 5 ?jobs [] = Inr rp"
    by (cases "required_period hourly_calendar 5 ?jobs []") simp_all
  have "referencing ?jobs ?key \<noteq> []" by code_simp
  moreover have "projr (job_period hourly_calendar e 5) = int HOUR" for e
    by (simp add: job_period_def hourly_calendar_def hourly_next_def HOUR_def)
  ultimately show ?thesis using required_period_is_min [OF rp, of ?key] rp by (auto simp: image_constant_conv)
qed

text \<open>The reaper goes by age. For a row fired at an instant and a sweep at a tick, the comparison
  of the two printed timestamps in the database is the comparison of the instants: a queued or
  running row of the job is reaped exactly when it was fired more than the timeout before the tick.\<close>

theorem reaper_by_age:
  assumes "f < MAX_INSTANT" "t < MAX_INSTANT" "secs * 1000000 \<le> t" "jr_fired_at r = isoformat f"
  shows "stale_run owner job (isoformat (t - secs * 1000000)) r \<longleftrightarrow>
    jr_owner_id r = owner \<and> jr_job_id r = job \<and> active_status (jr_status r) \<and> f + secs * 1000000 < t"
  using isoformat_less_iff [of f "t - secs * 1000000"] assms by (auto simp: stale_run_def)

theorem reaper_by_age_witness:
  "\<not> stale_run ''ana'' ''j'' (isoformat (600000000 - 300 * 1000000))
       \<lparr> jr_job_id = ''j'', jr_owner_id = ''ana'', jr_window_start = ''w'', jr_fired_at = isoformat 300000001,
         jr_status = ''running'', jr_sent_at = None, jr_error = None \<rparr>"
  using reaper_by_age [of 300000001 600000000 300 "\<lparr> jr_job_id = ''j'', jr_owner_id = ''ana'', jr_window_start = ''w'',
         jr_fired_at = isoformat 300000001, jr_status = ''running'', jr_sent_at = None, jr_error = None \<rparr>" "''ana''" "''j''"]
  by (simp add: MAX_INSTANT_def)


text \<open>The scheduler's own expression check lets five arbitrary fields through, so such a job can exist;
  croniter rejects its expression when the tick asks for the period.\<close>

definition strict_platform :: "nat platform" where
  "strict_platform = sample_platform\<lparr> pf_calendar := hourly_calendar
     \<lparr> cal_next := (\<lambda>expr t. Inl (OtherError ''CroniterBadCronError'' expr)) \<rparr> \<rparr>"


text \<open>The window of a tick. In a zone with a fixed offset, and with croniter returning the last
  point of the schedule's grid strictly before its base, the window start is the last grid point at
  or before the tick, the boundary included, printed in UTC; so all ticks up to the next grid point
  share one window.\<close>

theorem window_start_inclusive:
  assumes zone: "cal_zone cal tz = Inr tz"
    and offset: "\<And>t. cal_local cal tz t = \<lparr> ld_wall = int t + off, ld_zone = Some tz, ld_fold = False \<rparr>"
    and utc: "\<And>wall. cal_utc cal \<lparr> ld_wall = wall, ld_zone = Some tz, ld_fold = False \<rparr> = nat (wall - off)"
    and prev: "\<And>base. cal_prev cal expr base =
        Inr \<lparr> ld_wall = Max {g \<in> grid. g < ld_wall base}, ld_zone = None, ld_fold = False \<rparr>"
    and later: "now \<le> t" "\<And>g. g \<in> grid \<Longrightarrow> int now + off < g \<Longrightarrow> int t + off < g"
  shows "compute_window_start cal expr tz t = Inr (isoformat (nat (Max {g \<in> grid. g \<le> int now + off} - off)))"
proof -
  have "{g \<in> grid. g < int t + off + INCLUSIVE_EPSILON} = {g \<in> grid. g \<le> int now + off}"
    using later by (force simp: INCLUSIVE_EPSILON_def)
  then show ?thesis
    by (simp add: compute_window_start_def zone offset prev utc add_wall_def)
qed

definition grid_calendar :: calendar where
  "grid_calendar = hourly_calendar\<lparr> cal_prev := (\<lambda>expr base.
     Inr \<lparr> ld_wall = Max {g \<in> {0, 10}. g < ld_wall base}, ld_zone = None, ld_fold = False \<rparr>) \<rparr>"

theorem window_start_inclusive_witness:
  "compute_window_start grid_calendar ''e'' ''UTC'' 12 = Inr (isoformat 10)"
proof -
  have "{g \<in> {0, 10 :: int}. g \<le> 10} = {0, 10}" by auto
  then show ?thesis
    using window_start_inclusive [of grid_calendar "''UTC''" 0 "''e''" "{0, 10}" 10 12]
    by (simp add: grid_calendar_def hourly_calendar_def same_local_def same_utc_def)
qed

end
