(* ===== verification/Float64.thy ===== *)
theory Float64
  imports Python_Prelude "HOL-Library.Log_Nat"
begin

text \<open>
  Python's \<open>float\<close>: IEEE 754 binary64 with round to nearest, ties to even. A finite float is the
  rational it denotes; signed zeros are not told apart. \<open>double\<close> is the rounding of a rational,
  \<open>None\<close> when the result overflows; \<open>py_float\<close> is \<open>float(text)\<close> and \<open>float_mul\<close> the product.
\<close>

datatype pyfloat = Fin rat | Infinity bool | NaN

section \<open>Rounding\<close>

text \<open>\<open>round(x)\<close> of a finite float: to the nearest integer, ties to even.\<close>

definition round_half_even :: "rat \<Rightarrow> int" where
  "round_half_even q =
     (let f = \<lfloor>q\<rfloor>; d = q - of_int f
      in if d < 1 / 2 then f else if 1 / 2 < d then f + 1 else if even f then f else f + 1)"

text \<open>The binary exponent of a positive rational.\<close>

definition ilog2 :: "rat \<Rightarrow> int" where
  "ilog2 q =
     (let (n, d) = quotient_of q;
          k = int (floorlog 2 (nat n)) - int (floorlog 2 (nat d))
      in if 2 powi k \<le> q then k else k - 1)"

text \<open>The spacing of the doubles around \<open>q\<close> is \<open>2 powi ulp_exponent q\<close>: 53 significant bits, and
  a fixed spacing for the subnormal numbers. Only with the widest spacing, 971, can the rounded
  value reach \<open>2 ^ 1024\<close>.\<close>

definition ulp_exponent :: "rat \<Rightarrow> int" where
  "ulp_exponent q = max (ilog2 \<bar>q\<bar> - 52) (- 1074)"

definition double :: "rat \<Rightarrow> rat option" where
  "double q =
     (if q = 0 then Some 0
      else (let u = 2 powi ulp_exponent q; r = of_int (round_half_even (q / u)) * u
            in if ulp_exponent q < 971 then Some r
               else if \<bar>r\<bar> < 2 ^ 1024 then Some r else None))"

definition to_float :: "rat \<Rightarrow> pyfloat" where
  "to_float q = (case double q of Some r \<Rightarrow> Fin r | None \<Rightarrow> Infinity (q < 0))"

section \<open>Operations\<close>

fun is_finite :: "pyfloat \<Rightarrow> bool" where
  "is_finite (Fin _) = True"
| "is_finite _ = False"

text \<open>\<open>x * k\<close> for a finite \<open>x\<close>.\<close>

definition float_mul :: "rat \<Rightarrow> rat \<Rightarrow> pyfloat" where
  "float_mul x k = to_float (x * k)"

text \<open>\<open>round(x)\<close>.\<close>

fun py_round :: "pyfloat \<Rightarrow> int result" where
  "py_round (Fin q) = Inr (round_half_even q)"
| "py_round (Infinity _) = Inl (OverflowError ''cannot convert float infinity to integer'')"
| "py_round NaN = Inl (ValueError ''cannot convert float NaN to integer'')"

text \<open>The implicit conversion of an \<open>int\<close> to \<open>float\<close>, which raises instead of rounding to an
  infinity.\<close>

definition int_to_float :: "int \<Rightarrow> rat result" where
  "int_to_float i =
     (case double (of_int i) of
        Some r \<Rightarrow> Inr r
      | None \<Rightarrow> Inl (OverflowError ''int too large to convert to float''))"

section \<open>Text\<close>

text \<open>Underscores are allowed between two digits only.\<close>

fun drop_underscores :: "bool \<Rightarrow> string \<Rightarrow> string option" where
  "drop_underscores after_digit [] = Some []"
| "drop_underscores after_digit (c # cs) =
     (if c = CHR ''_''
      then (if after_digit \<and> cs \<noteq> [] \<and> is_ascii_digit (hd cs) then drop_underscores False cs else None)
      else map_option ((#) c) (drop_underscores (is_ascii_digit c) cs))"

text \<open>An unsigned decimal: digits, an optional fraction, an optional exponent.\<close>

definition split_exponent :: "string \<Rightarrow> string \<times> bool \<times> string" where
  "split_exponent s = py_partition (CHR ''e'') s"

definition decimal_mantissa :: "string \<Rightarrow> rat option" where
  "decimal_mantissa s =
     (let (ip, dot, fp) = py_partition (CHR ''.'') s
      in if list_all is_ascii_digit ip \<and> list_all is_ascii_digit fp \<and> ip @ fp \<noteq> []
         then Some (of_nat (digits_value (ip @ fp)) / 10 ^ length fp) else None)"

definition signed_digits :: "string \<Rightarrow> int option" where
  "signed_digits s =
     (let neg = starts_with ''-'' s; ds = (if neg \<or> starts_with ''+'' s then tl s else s)
      in if ds \<noteq> [] \<and> list_all is_ascii_digit ds
         then Some (if neg then - int (digits_value ds) else int (digits_value ds)) else None)"

definition decimal_value :: "string \<Rightarrow> rat option" where
  "decimal_value s =
     (let (m, has_exp, x) = split_exponent s
      in case decimal_mantissa m of
           None \<Rightarrow> None
         | Some q \<Rightarrow>
             if \<not> has_exp then Some q
             else (case signed_digits x of None \<Rightarrow> None | Some k \<Rightarrow> Some (q * 10 powi k)))"

text \<open>\<open>float(text)\<close>: surrounding white space, a sign, then \<open>inf\<close>, \<open>infinity\<close>, \<open>nan\<close> in any case
  or a decimal; anything else raises ValueError.\<close>

definition py_float :: "string \<Rightarrow> pyfloat result" where
  "py_float s =
     (let t = py_strip s;
          neg = starts_with ''-'' t;
          body = py_lower (if neg \<or> starts_with ''+'' t then tl t else t)
      in if body = ''inf'' \<or> body = ''infinity'' then Inr (Infinity neg)
         else if body = ''nan'' then Inr NaN
         else (case Option.bind (drop_underscores False body) decimal_value of
                 Some q \<Rightarrow> Inr (to_float (if neg then - q else q))
               | None \<Rightarrow> Inl (ValueError (''could not convert string to float: '' @ py_repr s))))"

section \<open>Facts about the rounding\<close>

lemma round_half_even_close: "\<bar>of_int (round_half_even q) - q\<bar> \<le> 1 / 2"
  unfolding round_half_even_def Let_def by (auto simp: abs_if; linarith)

lemma round_half_even_near:
  assumes "\<bar>q - of_int c\<bar> < 1 / 2" shows "round_half_even q = c"
proof -
  have "\<bar>of_int (round_half_even q) - (of_int c :: rat)\<bar> < 1"
    using assms round_half_even_close [of q] by linarith
  then have "\<bar>of_int (round_half_even q - c) :: rat\<bar> < of_int 1" by simp
  then have "\<bar>round_half_even q - c\<bar> < 1" by linarith
  then show ?thesis by simp
qed

lemma round_half_even_of_int [simp]: "round_half_even (of_int i) = i"
  by (simp add: round_half_even_def)

lemma power_int_add_rat: "(2 :: rat) powi (i + j) = 2 powi i * 2 powi j"
  by (simp add: power_int_add)

lemma floorlog_rat_bounds:
  assumes "0 < n"
  shows "(2 :: rat) powi (int (floorlog 2 n) - 1) \<le> of_nat n" "(of_nat n :: rat) < 2 powi int (floorlog 2 n)"
proof -
  define b where "b = floorlog 2 n"
  have b: "2 ^ (b - 1) \<le> n" "n < 2 ^ b" using floorlog_bounds [of n 2] assms by (auto simp: b_def)
  have "0 < b" using b(2) assms by (cases b) auto
  then have e: "int b - 1 = int (b - 1)" by simp
  have "(of_nat (2 ^ (b - 1)) :: rat) \<le> of_nat n" using b(1) by (simp only: of_nat_le_iff)
  then show "(2 :: rat) powi (int (floorlog 2 n) - 1) \<le> of_nat n"
    unfolding b_def [symmetric] e by simp
  have "(of_nat n :: rat) < of_nat (2 ^ b)" using b(2) by (simp only: of_nat_less_iff)
  then show "(of_nat n :: rat) < 2 powi int (floorlog 2 n)" unfolding b_def [symmetric] by simp
qed

lemma ilog2_bounds:
  assumes "0 < q"
  shows "2 powi ilog2 q \<le> q" "q < 2 powi (ilog2 q + 1)"
proof -
  obtain n d where nd: "quotient_of q = (n, d)" by (cases "quotient_of q")
  have q: "q = of_int n / of_int d" and d: "0 < d"
    using quotient_of_div [OF nd] quotient_of_denom_pos [OF nd] by auto
  have n: "0 < n" using assms q d by (simp add: zero_less_divide_iff)
  define a b where "a = int (floorlog 2 (nat n))" and "b = int (floorlog 2 (nat d))"
  have n_eq: "(of_nat (nat n) :: rat) = of_int n" and d_eq: "(of_nat (nat d) :: rat) = of_int d"
    using n d by simp_all
  have nb: "2 powi (a - 1) \<le> (of_int n :: rat)" "(of_int n :: rat) < 2 powi a"
    using floorlog_rat_bounds [of "nat n"] n unfolding a_def n_eq by auto
  have db: "2 powi (b - 1) \<le> (of_int d :: rat)" "(of_int d :: rat) < 2 powi b"
    using floorlog_rat_bounds [of "nat d"] d unfolding b_def d_eq by auto
  have up: "q < 2 powi (a - b + 1)"
  proof -
    have "q * 2 powi (b - 1) \<le> q * of_int d" using db(1) assms by (intro mult_left_mono) auto
    also have "\<dots> = of_int n" using q d by simp
    also have "\<dots> < 2 powi a" by (rule nb(2))
    also have "(2 :: rat) powi a = 2 powi (a - b + 1) * 2 powi (b - 1)"
      by (simp flip: power_int_add_rat)
    finally show ?thesis by simp
  qed
  have lo: "2 powi (a - b - 1) \<le> q"
  proof -
    have "(2 :: rat) powi (a - b - 1) * 2 powi b = 2 powi (a - 1)" by (simp flip: power_int_add_rat)
    also have "\<dots> \<le> of_int n" by (rule nb(1))
    also have "\<dots> = q * of_int d" using q d by simp
    also have "\<dots> \<le> q * 2 powi b" using db(2) assms by (intro mult_left_mono) auto
    finally show ?thesis by simp
  qed
  have il: "ilog2 q = (if 2 powi (a - b) \<le> q then a - b else a - b - 1)"
    by (simp add: ilog2_def nd a_def b_def)
  show "2 powi ilog2 q \<le> q" using lo by (simp add: il)
  show "q < 2 powi (ilog2 q + 1)" using up by (auto simp: il)
qed

lemma powi_less_iff: "(2 :: rat) powi i < 2 powi j \<longleftrightarrow> i < j"
  using power_int_strict_increasing [of i j "2 :: rat"] power_int_increasing [of j i "2 :: rat"] by fastforce

lemma ilog2_unique:
  assumes "2 powi k \<le> q" "q < 2 powi (k + 1)" shows "ilog2 q = k"
proof -
  have "(0 :: rat) < 2 powi k" by simp
  with assms(1) have q: "0 < q" by linarith
  have "(2 :: rat) powi k < 2 powi (ilog2 q + 1)" "(2 :: rat) powi ilog2 q < 2 powi (k + 1)"
    using assms ilog2_bounds [OF q] by linarith+
  then show ?thesis by (simp add: powi_less_iff)
qed

text \<open>The relative error of one rounding in the normal range is at most \<open>2 powi - 53\<close>; only huge
  numbers overflow.\<close>

lemma double_rounds:
  assumes "1 / 1000 \<le> q"
  shows "(\<exists>r. double q = Some r \<and> \<bar>r - q\<bar> \<le> q / 2 ^ 53) \<or> (double q = None \<and> 2 ^ 1000 < q)"
proof -
  have pos: "0 < q" using assms by linarith
  have small: "- 1022 \<le> ilog2 q"
  proof (rule ccontr)
    assume "\<not> - 1022 \<le> ilog2 q"
    then have "ilog2 q + 1 \<le> - 10" by simp
    then have "(2 :: rat) powi (ilog2 q + 1) \<le> 2 powi (- 10)" by (intro power_int_increasing) auto
    also have "(2 :: rat) powi (- 10) < 1 / 1000" by (simp add: power_int_def power_divide)
    finally show False using ilog2_bounds(2) [OF pos] assms by linarith
  qed
  define u where "u = (2 :: rat) powi (ilog2 q - 52)"
  have p: "(2 :: rat) ^ 52 = 2 powi 52" by (simp add: power_int_def)
  have u: "0 < u" "u * 2 ^ 52 = 2 powi ilog2 q"
    unfolding u_def p power_int_add_rat [symmetric] by simp_all
  define r where "r = of_int (round_half_even (q / u)) * u"
  have d: "double q = (if ilog2 q < 1023 then Some r else if \<bar>r\<bar> < 2 ^ 1024 then Some r else None)"
    using pos small by (simp add: double_def ulp_exponent_def r_def u_def Let_def)
  have "\<bar>r - q\<bar> = \<bar>of_int (round_half_even (q / u)) - q / u\<bar> * u"
    using u(1) by (simp add: r_def abs_mult flip: abs_of_pos) (simp add: field_simps flip: abs_mult)
  also have "\<dots> \<le> 1 / 2 * u" using u(1) by (intro mult_right_mono round_half_even_close) simp
  also have "\<dots> \<le> q / 2 ^ 53" using ilog2_bounds(1) [OF pos] u(2) by simp
  finally have err: "\<bar>r - q\<bar> \<le> q / 2 ^ 53" .
  have huge: "2 ^ 1000 < q" if "\<not> ilog2 q < 1023"
  proof -
    have "(2 :: rat) ^ 1000 = 2 powi 1000" by (simp add: power_int_def)
    also have "\<dots> < 2 powi ilog2 q" using that by (intro power_int_strict_increasing) auto
    also have "\<dots> \<le> q" by (rule ilog2_bounds(1) [OF pos])
    finally show ?thesis .
  qed
  show ?thesis using d err huge by (auto split: if_splits)
qed

text \<open>An integer of \<open>2 ^ 1024\<close> does not fit: the conversion raises.\<close>

lemma int_to_float_overflow: "int_to_float (2 ^ 1024) = Inl (OverflowError ''int too large to convert to float'')"
proof -
  have p: "(2 :: rat) ^ 1024 = 2 powi 1024" by (simp only: power_int_numeral)
  have il: "ilog2 (2 powi 1024) = 1024" by (rule ilog2_unique) (simp_all add: powi_less_iff)
  have "(2 :: rat) powi 1024 / 2 powi 972 = 2 powi 52"
    by (subst power_int_diff [symmetric]) simp_all
  also have "\<dots> = of_int (2 ^ 52)" by simp
  finally have q: "(2 :: rat) powi 1024 / 2 powi 972 = of_int (2 ^ 52)" .
  have "(of_int (2 ^ 52) :: rat) * 2 powi 972 = 2 powi 1024" unfolding q [symmetric] by simp
  then have r: "of_int (round_half_even (2 powi 1024 / 2 powi 972)) * (2 :: rat) powi 972 = 2 powi 1024"
    by (simp only: q round_half_even_of_int)
  define M where "M = (2 :: rat) ^ 1024"
  have M: "(2 :: rat) powi 1024 = M" "0 < M" using p by (simp_all add: M_def)
  have "double M = None"
    unfolding double_def ulp_exponent_def Let_def M_def [symmetric] using M r il by simp
  then show ?thesis unfolding int_to_float_def by (simp add: M_def)
qed

end
