(* ===== verification/Regex.thy ===== *)
theory Regex
  imports Python_Prelude
begin

text \<open>
  The part of Python's \<open>re\<close> that the page parsers use: a backtracking matcher that lists the
  ends of all matches at a position in the order in which \<open>re\<close> tries them, so that its head is
  the match \<open>re\<close> reports. A match sees the text only up to an end position, as with the
  \<open>endpos\<close> argument. Groups are recorded as pairs of positions, also those set inside a
  lookahead. A repetition does not go on after an empty match of its body.
\<close>

datatype regex =
    Eps
  | Cls "char \<Rightarrow> bool"
  | Seq regex regex
  | Alt regex regex
  | Star regex
  | Lazy regex
  | Grp nat regex
  | Look regex
  | WordB
  | AtEnd

type_synonym groups = "(nat \<times> nat \<times> nat) list"

text \<open>\<open>\w\<close> on code points below 256.\<close>

definition word_char :: "char \<Rightarrow> bool" where
  "word_char c \<longleftrightarrow> is_ascii_alnum c \<or> c = CHR ''_'' \<or> code c \<in> {170, 178, 179, 181, 185, 186, 188, 189, 190}
     \<or> (192 \<le> code c \<and> code c \<noteq> 215 \<and> code c \<noteq> 247)"

definition at_boundary :: "string \<Rightarrow> nat \<Rightarrow> nat \<Rightarrow> bool" where
  "at_boundary s e i \<longleftrightarrow> (0 < i \<and> word_char (s ! (i - 1))) \<noteq> (i < e \<and> word_char (s ! i))"

text \<open>\<open>$\<close>: at the end, or before a newline that ends the text.\<close>

definition at_end :: "string \<Rightarrow> nat \<Rightarrow> nat \<Rightarrow> bool" where
  "at_end s e i \<longleftrightarrow> i = e \<or> (Suc i = e \<and> s ! i = CHR 0x0A)"

text \<open>\<open>ends_each\<close> continues every partial match with a second pattern, \<open>again\<close> every one that
  made progress with the repetition itself.\<close>

function (sequential) ends :: "string \<Rightarrow> nat \<Rightarrow> regex \<Rightarrow> nat \<Rightarrow> groups \<Rightarrow> (nat \<times> groups) list"
  and ends_each :: "string \<Rightarrow> nat \<Rightarrow> regex \<Rightarrow> (nat \<times> groups) list \<Rightarrow> (nat \<times> groups) list"
  and again :: "string \<Rightarrow> nat \<Rightarrow> regex \<Rightarrow> nat \<Rightarrow> (nat \<times> groups) list \<Rightarrow> (nat \<times> groups) list" where
  "ends s e Eps i g = [(i, g)]"
| "ends s e (Cls P) i g = (if i < e \<and> P (s ! i) then [(Suc i, g)] else [])"
| "ends s e (Seq r1 r2) i g = ends_each s e r2 (ends s e r1 i g)"
| "ends s e (Alt r1 r2) i g = ends s e r1 i g @ ends s e r2 i g"
| "ends s e (Star r) i g = again s e (Star r) i (ends s e r i g) @ [(i, g)]"
| "ends s e (Lazy r) i g = (i, g) # again s e (Lazy r) i (ends s e r i g)"
| "ends s e (Grp n r) i g = map (\<lambda>(j, h). (j, AList.update n (i, j) h)) (ends s e r i g)"
| "ends s e (Look r) i g = (case ends s e r i g of [] \<Rightarrow> [] | (j, h) # _ \<Rightarrow> [(i, h)])"
| "ends s e WordB i g = (if at_boundary s e i then [(i, g)] else [])"
| "ends s e AtEnd i g = (if at_end s e i then [(i, g)] else [])"
| "ends_each s e r [] = []"
| "ends_each s e r ((j, h) # xs) = ends s e r j h @ ends_each s e r xs"
| "again s e r i [] = []"
| "again s e r i ((j, h) # xs) = (if i < j \<and> j \<le> e then ends s e r j h else []) @ again s e r i xs"
  by pat_completeness auto
termination
  by (relation "measures
        [\<lambda>x. case x of Inl (s, e, r, i, g) \<Rightarrow> 2 * size r
                     | Inr (Inl (s, e, r, xs)) \<Rightarrow> Suc (2 * size r) | Inr (Inr (s, e, r, i, xs)) \<Rightarrow> 2 * size r,
         \<lambda>x. case x of Inl (s, e, r, i, g) \<Rightarrow> e - i
                     | Inr (Inl _) \<Rightarrow> 0 | Inr (Inr (s, e, r, i, xs)) \<Rightarrow> e - i,
         \<lambda>x. case x of Inl _ \<Rightarrow> 1 | _ \<Rightarrow> 0,
         \<lambda>x. case x of Inr (Inl (s, e, r, xs)) \<Rightarrow> length xs | Inr (Inr (s, e, r, i, xs)) \<Rightarrow> length xs | _ \<Rightarrow> 0]")
     auto

section \<open>Patterns\<close>

definition Chr :: "char \<Rightarrow> regex" where
  "Chr c = Cls (\<lambda>x. x = c)"

fun Lit :: "string \<Rightarrow> regex" where
  "Lit [] = Eps"
| "Lit (c # cs) = Seq (Chr c) (Lit cs)"

definition NotChr :: "char \<Rightarrow> regex" where
  "NotChr c = Cls (\<lambda>x. x \<noteq> c)"

definition Any :: regex where
  "Any = Cls (\<lambda>x. True)"

definition Digit :: regex where
  "Digit = Cls is_ascii_digit"

definition Space :: regex where
  "Space = Cls char_isspace"

definition Plus :: "regex \<Rightarrow> regex" where
  "Plus r = Seq r (Star r)"

definition Opt :: "regex \<Rightarrow> regex" where
  "Opt r = Alt r Eps"

fun Rep :: "nat \<Rightarrow> regex \<Rightarrow> regex" where
  "Rep 0 r = Eps"
| "Rep (Suc n) r = Seq r (Rep n r)"

text \<open>\<open>r{m,m+n}\<close>, as many as possible first.\<close>

fun RepTo :: "nat \<Rightarrow> nat \<Rightarrow> regex \<Rightarrow> regex" where
  "RepTo m 0 r = Rep m r"
| "RepTo m (Suc n) r = Alt (Rep (m + Suc n) r) (RepTo m n r)"

fun SeqAll :: "regex list \<Rightarrow> regex" where
  "SeqAll [] = Eps"
| "SeqAll (r # rs) = Seq r (SeqAll rs)"

section \<open>Searching\<close>

definition slice :: "string \<Rightarrow> nat \<Rightarrow> nat \<Rightarrow> string" where
  "slice s i j = take (j - i) (drop i s)"

definition group :: "string \<Rightarrow> nat \<Rightarrow> groups \<Rightarrow> string option" where
  "group s n g = map_option (\<lambda>(i, j). slice s i j) (map_of g n)"

text \<open>The first position from \<open>i\<close> on, \<open>n\<close> of them, where the pattern matches.\<close>

fun search_from :: "string \<Rightarrow> nat \<Rightarrow> regex \<Rightarrow> nat \<Rightarrow> nat \<Rightarrow> (nat \<times> nat \<times> groups) option" where
  "search_from s e r i 0 = None"
| "search_from s e r i (Suc n) =
     (case ends s e r i [] of [] \<Rightarrow> search_from s e r (Suc i) n | (j, g) # _ \<Rightarrow> Some (i, j, g))"

definition re_search :: "regex \<Rightarrow> string \<Rightarrow> nat \<Rightarrow> nat \<Rightarrow> (nat \<times> nat \<times> groups) option" where
  "re_search r s pos endpos =
     (let e = min endpos (length s) in search_from s e r pos (Suc e - pos))"

text \<open>All matches from left to right; after an empty match the search resumes one further.\<close>

function re_finditer :: "regex \<Rightarrow> string \<Rightarrow> nat \<Rightarrow> (nat \<times> nat \<times> groups) list" where
  "re_finditer r s pos =
     (case re_search r s pos (length s) of
        None \<Rightarrow> []
      | Some (i, j, g) \<Rightarrow>
          (let next = (if i < j then j else Suc i)
           in if pos < next \<and> next \<le> Suc (length s) then (i, j, g) # re_finditer r s next else [(i, j, g)]))"
  by pat_completeness auto
termination
  by (relation "measure (\<lambda>(r, s, pos). Suc (length s) - pos)") (auto simp: Let_def split: if_splits)

declare re_finditer.simps [simp del]

text \<open>\<open>pattern.sub(by, s)\<close>.\<close>

fun sub_matches :: "string \<Rightarrow> string \<Rightarrow> nat \<Rightarrow> (nat \<times> nat \<times> groups) list \<Rightarrow> string" where
  "sub_matches by_text s pos [] = drop pos s"
| "sub_matches by_text s pos ((i, j, g) # ms) = slice s pos i @ by_text @ sub_matches by_text s j ms"

definition re_sub :: "regex \<Rightarrow> string \<Rightarrow> string \<Rightarrow> string" where
  "re_sub r by_text s = sub_matches by_text s 0 (re_finditer r s 0)"

section \<open>Facts about the matcher\<close>

lemma ends_bounds_all:
  "i \<le> e \<Longrightarrow> (j, h) \<in> set (ends s e r i g) \<Longrightarrow> i \<le> j \<and> j \<le> e"
  "(\<And>k m. (k, m) \<in> set xs \<Longrightarrow> a \<le> k \<and> k \<le> e) \<Longrightarrow> (j, h) \<in> set (ends_each s e r xs) \<Longrightarrow> a \<le> j \<and> j \<le> e"
  "i \<le> e \<Longrightarrow> (j, h) \<in> set (again s e r i xs) \<Longrightarrow> i \<le> j \<and> j \<le> e"
proof (induction s e r i g and s e r xs and s e r i xs arbitrary: j h and a j h and j h
       rule: ends_ends_each_again.induct)
  case (3 s e r1 r2 i g)
  have first: "i \<le> k \<and> k \<le> e" if "(k, m) \<in> set (ends s e r1 i g)" for k m
    using "3.IH"(1) [OF "3.prems"(1) that] .
  show ?case
  proof (rule "3.IH"(2))
    show "(j, h) \<in> set (ends_each s e r2 (ends s e r1 i g))" using "3.prems"(2) by simp
  qed (rule first)
next
  case (5 s e r i g)
  from "5.IH"(2) [OF "5.prems"(1), of j h] "5.prems" show ?case by auto
next
  case (6 s e r i g)
  from "6.IH"(2) [OF "6.prems"(1), of j h] "6.prems" show ?case by auto
next
  case (7 s e n r i g)
  from "7.prems"(2) obtain m where "(j, m) \<in> set (ends s e r i g)" by auto
  from "7.IH" [OF "7.prems"(1) this] show ?case .
next
  case (8 s e r i g)
  then show ?case by (auto split: list.splits)
next
  case (12 s e r k m xs)
  have k: "a \<le> k \<and> k \<le> e" by (rule "12.prems"(1) [of k m]) simp
  have xs: "a \<le> k' \<and> k' \<le> e" if "(k', m') \<in> set xs" for k' m'
    by (rule "12.prems"(1) [of k' m']) (use that in simp)
  have rest: "a \<le> j \<and> j \<le> e" if "(j, h) \<in> set (ends_each s e r xs)"
    using that by (rule "12.IH"(2) [rotated]) (rule xs)
  from "12.IH"(1) [of j h] k rest "12.prems"(2) show ?case by auto
next
  case (14 s e r i k m xs)
  from "14.IH"(1) [of j h] "14.IH"(2) [OF "14.prems"(1), of j h] "14.prems"(2) show ?case
    by (auto split: if_splits)
qed (auto split: list.splits if_splits)

lemmas ends_bounds = ends_bounds_all(1)

lemma search_from_Some:
  "search_from s e r i n = Some (p, j, g) \<Longrightarrow> i + n \<le> Suc e \<Longrightarrow>
     i \<le> p \<and> p \<le> j \<and> j \<le> e \<and> (j, g) = hd (ends s e r p []) \<and> ends s e r p [] \<noteq> []
     \<and> (\<forall>q. i \<le> q \<and> q < p \<longrightarrow> ends s e r q [] = [])"
proof (induction n arbitrary: i)
  case (Suc n)
  show ?case
  proof (cases "ends s e r i []")
    case Nil
    then have "search_from s e r (Suc i) n = Some (p, j, g)" using Suc.prems by simp
    with Suc.IH [of "Suc i"] Suc.prems Nil show ?thesis by (auto simp: Suc_le_eq) (metis le_neq_implies_less)
  next
    case (Cons x xs)
    then have "p = i" "(j, g) = x" using Suc.prems by (auto split: prod.splits)
    moreover have "(j, g) \<in> set (ends s e r i [])" using Cons \<open>(j, g) = x\<close> by simp
    ultimately show ?thesis using ends_bounds [of i e j g s r "[]"] Suc.prems(2) Cons by auto
  qed
qed simp

text \<open>A search finds the leftmost position where the pattern matches, inside its bounds, and the
  match tried first there.\<close>

lemma re_search_Some:
  assumes "re_search r s pos endpos = Some (p, j, g)" "pos \<le> min endpos (length s)"
  shows "pos \<le> p \<and> p \<le> j \<and> j \<le> min endpos (length s)
    \<and> (j, g) = hd (ends s (min endpos (length s)) r p [])
    \<and> (\<forall>q. pos \<le> q \<and> q < p \<longrightarrow> ends s (min endpos (length s)) r q [] = [])"
  using search_from_Some [of s "min endpos (length s)" r pos "Suc (min endpos (length s)) - pos" p j g] assms
  by (simp add: re_search_def Let_def)


section \<open>The words a pattern matches\<close>

text \<open>The language of a pattern, with lookaheads and anchors read as the empty word: what a match
  consumed belongs to it.\<close>

inductive lang :: "regex \<Rightarrow> string \<Rightarrow> bool" where
  lang_Eps: "lang Eps []"
| lang_Cls: "P c \<Longrightarrow> lang (Cls P) [c]"
| lang_Seq: "lang r1 v \<Longrightarrow> lang r2 w \<Longrightarrow> lang (Seq r1 r2) (v @ w)"
| lang_Alt1: "lang r1 w \<Longrightarrow> lang (Alt r1 r2) w"
| lang_Alt2: "lang r2 w \<Longrightarrow> lang (Alt r1 r2) w"
| lang_Star0: "lang (Star r) []"
| lang_Star: "lang r v \<Longrightarrow> lang (Star r) w \<Longrightarrow> lang (Star r) (v @ w)"
| lang_Lazy0: "lang (Lazy r) []"
| lang_Lazy: "lang r v \<Longrightarrow> lang (Lazy r) w \<Longrightarrow> lang (Lazy r) (v @ w)"
| lang_Grp: "lang r w \<Longrightarrow> lang (Grp n r) w"
| lang_Look: "lang (Look r) []"
| lang_WordB: "lang WordB []"
| lang_AtEnd: "lang AtEnd []"

inductive_simps lang_simps [simp]:
  "lang Eps w"
  "lang (Cls P) w"
  "lang (Seq r1 r2) w"
  "lang (Alt r1 r2) w"
  "lang (Grp n r) w"
  "lang (Look r) w"
  "lang WordB w"
  "lang AtEnd w"

lemma slice_self [simp]: "slice s i i = []"
  by (simp add: slice_def)

lemma slice_split: "i \<le> k \<Longrightarrow> k \<le> j \<Longrightarrow> slice s i j = slice s i k @ slice s k j"
proof -
  assume le: "i \<le> k" "k \<le> j"
  then have "j - i = (k - i) + (j - k)" by simp
  then have "slice s i j = take (k - i) (drop i s) @ take (j - k) (drop (k - i) (drop i s))"
    unfolding slice_def by (simp only: take_add)
  with le show ?thesis by (simp add: slice_def)
qed

lemma slice_one: "i < length s \<Longrightarrow> slice s i (Suc i) = [s ! i]"
  by (simp add: slice_def take_Suc_conv_app_nth Cons_nth_drop_Suc [symmetric])

lemma ends_lang_all:
  "i \<le> e \<Longrightarrow> e \<le> length s \<Longrightarrow> (j, h) \<in> set (ends s e r i g) \<Longrightarrow> lang r (slice s i j)"
  "(\<And>k m. (k, m) \<in> set xs \<Longrightarrow> k \<le> e) \<Longrightarrow> e \<le> length s \<Longrightarrow> (j, h) \<in> set (ends_each s e r xs) \<Longrightarrow>
     \<exists>(k, m) \<in> set xs. k \<le> j \<and> lang r (slice s k j)"
  "i \<le> e \<Longrightarrow> e \<le> length s \<Longrightarrow> (j, h) \<in> set (again s e r i xs) \<Longrightarrow>
     \<exists>(k, m) \<in> set xs. i < k \<and> k \<le> j \<and> lang r (slice s k j)"
proof (induction s e r i g and s e r xs and s e r i xs arbitrary: j h and j h and j h
       rule: ends_ends_each_again.induct)
  case (3 s e r1 r2 i g)
  have bnd: "i \<le> k \<and> k \<le> e" if "(k, m) \<in> set (ends s e r1 i g)" for k m
    using ends_bounds [OF "3.prems"(1) that] .
  have "(j, h) \<in> set (ends_each s e r2 (ends s e r1 i g))" using "3.prems"(3) by simp
  from "3.IH"(2) [OF _ "3.prems"(2) this] bnd
  obtain k m where km: "(k, m) \<in> set (ends s e r1 i g)" "k \<le> j" "lang r2 (slice s k j)" by auto
  from "3.IH"(1) [OF "3.prems"(1,2) km(1)] km(3) show ?case
    using slice_split [of i k j s] bnd [OF km(1)] km(2) by auto
next
  case (5 s e r i g)
  show ?case
  proof (cases "j = i")
    case False
    then have "(j, h) \<in> set (again s e (Star r) i (ends s e r i g))"
      using "5.prems"(3) by auto
    from "5.IH"(2) [OF "5.prems"(1,2) this] obtain k m
      where km: "(k, m) \<in> set (ends s e r i g)" "i < k" "k \<le> j" "lang (Star r) (slice s k j)" by auto
    from "5.IH"(1) [OF "5.prems"(1,2) km(1)] km(4) show ?thesis
      using slice_split [of i k j s] km(2,3) by (auto intro: lang_Star)
  qed (simp add: lang_Star0)
next
  case (6 s e r i g)
  show ?case
  proof (cases "j = i")
    case False
    then have "(j, h) \<in> set (again s e (Lazy r) i (ends s e r i g))"
      using "6.prems"(3) by auto
    from "6.IH"(2) [OF "6.prems"(1,2) this] obtain k m
      where km: "(k, m) \<in> set (ends s e r i g)" "i < k" "k \<le> j" "lang (Lazy r) (slice s k j)" by auto
    from "6.IH"(1) [OF "6.prems"(1,2) km(1)] km(4) show ?thesis
      using slice_split [of i k j s] km(2,3) by (auto intro: lang_Lazy)
  qed (simp add: lang_Lazy0)
next
  case (12 s e r k m xs)
  have k: "k \<le> e" by (rule "12.prems"(1) [of k m]) simp
  show ?case
  proof (cases "(j, h) \<in> set (ends s e r k m)")
    case True
    from "12.IH"(1) [OF k "12.prems"(2) this] ends_bounds [OF k this] show ?thesis by auto
  next
    case False
    then have rest: "(j, h) \<in> set (ends_each s e r xs)" using "12.prems"(3) by auto
    have "k' \<le> e" if "(k', m') \<in> set xs" for k' m' by (rule "12.prems"(1) [of k' m']) (use that in simp)
    from "12.IH"(2) [OF this "12.prems"(2) rest] show ?thesis by auto
  qed
next
  case (14 s e r i k m xs)
  show ?case
  proof (cases "i < k \<and> k \<le> e \<and> (j, h) \<in> set (ends s e r k m)")
    case True
    with "14.IH"(1) [OF _ _ "14.prems"(2), of j h] ends_bounds [of k e j h s r m] show ?thesis by auto
  next
    case False
    then have "(j, h) \<in> set (again s e r i xs)" using "14.prems"(3) by (auto split: if_splits)
    from "14.IH"(2) [OF "14.prems"(1,2) this] show ?thesis by auto
  qed
qed (auto simp: slice_one split: list.splits if_splits)

lemmas ends_lang = ends_lang_all(1)

text \<open>The bodies of the groups numbered \<open>n\<close>, and whether every match sets that group.\<close>

fun grp_bodies :: "nat \<Rightarrow> regex \<Rightarrow> regex set" where
  "grp_bodies n (Seq r1 r2) = grp_bodies n r1 \<union> grp_bodies n r2"
| "grp_bodies n (Alt r1 r2) = grp_bodies n r1 \<union> grp_bodies n r2"
| "grp_bodies n (Star r) = grp_bodies n r"
| "grp_bodies n (Lazy r) = grp_bodies n r"
| "grp_bodies n (Look r) = grp_bodies n r"
| "grp_bodies n (Grp m r) = (if m = n then {r} else {}) \<union> grp_bodies n r"
| "grp_bodies n _ = {}"

fun sets_grp :: "nat \<Rightarrow> regex \<Rightarrow> bool" where
  "sets_grp n (Seq r1 r2) \<longleftrightarrow> sets_grp n r1 \<or> sets_grp n r2"
| "sets_grp n (Alt r1 r2) \<longleftrightarrow> sets_grp n r1 \<and> sets_grp n r2"
| "sets_grp n (Look r) \<longleftrightarrow> sets_grp n r"
| "sets_grp n (Grp m r) \<longleftrightarrow> m = n \<or> sets_grp n r"
| "sets_grp n _ \<longleftrightarrow> False"

text \<open>Group \<open>n\<close> lies between \<open>l\<close> and \<open>e\<close> and holds a word of one of the bodies.\<close>

definition grp_ok :: "string \<Rightarrow> nat \<Rightarrow> nat \<Rightarrow> nat \<Rightarrow> regex set \<Rightarrow> groups \<Rightarrow> bool" where
  "grp_ok s l e n B g \<longleftrightarrow>
     (\<forall>a b. map_of g n = Some (a, b) \<longrightarrow> l \<le> a \<and> a \<le> b \<and> b \<le> e \<and> (\<exists>r \<in> B. lang r (slice s a b)))"

lemma grp_ok_Nil [simp]: "grp_ok s l e n B []"
  by (simp add: grp_ok_def)

lemma grp_ok_update:
  "grp_ok s l e n B (AList.update m (i, j) g) \<longleftrightarrow>
     (if m = n then l \<le> i \<and> i \<le> j \<and> j \<le> e \<and> (\<exists>r \<in> B. lang r (slice s i j)) else grp_ok s l e n B g)"
  by (auto simp: grp_ok_def update_conv')

lemma ends_Look: "(j, h) \<in> set (ends s e (Look r) i g) \<Longrightarrow> \<exists>k. (k, h) \<in> set (ends s e r i g)"
  by (cases "ends s e r i g") auto

lemma ends_groups_all:
  "l \<le> i \<and> i \<le> e \<Longrightarrow> e \<le> length s \<Longrightarrow> grp_bodies n r \<subseteq> B \<Longrightarrow> grp_ok s l e n B g \<Longrightarrow>
     (j, h) \<in> set (ends s e r i g) \<Longrightarrow> grp_ok s l e n B h"
  "(\<And>k m. (k, m) \<in> set xs \<Longrightarrow> l \<le> k \<and> k \<le> e \<and> grp_ok s l e n B m) \<Longrightarrow> e \<le> length s \<Longrightarrow> grp_bodies n r \<subseteq> B \<Longrightarrow>
     (j, h) \<in> set (ends_each s e r xs) \<Longrightarrow> grp_ok s l e n B h"
  "(\<And>k m. (k, m) \<in> set xs \<Longrightarrow> grp_ok s l e n B m) \<Longrightarrow> l \<le> i \<and> e \<le> length s \<Longrightarrow> grp_bodies n r \<subseteq> B \<Longrightarrow>
     (j, h) \<in> set (again s e r i xs) \<Longrightarrow> grp_ok s l e n B h"
proof (induction s e r i g and s e r xs and s e r i xs arbitrary: j h and j h and j h
       rule: ends_ends_each_again.induct)
  case (3 s e r1 r2 i g)
  have "l \<le> k \<and> k \<le> e \<and> grp_ok s l e n B m" if "(k, m) \<in> set (ends s e r1 i g)" for k m
    using ends_bounds [OF conjunct2 [OF "3.prems"(1)] that] "3.prems"(1) "3.IH"(1) [OF "3.prems"(1,2) _ "3.prems"(4) that] "3.prems"(3) by simp
  from "3.IH"(2) [of j h, OF this "3.prems"(2)] "3.prems"(3,5) show ?case by simp
next
  case (5 s e r i g)
  have "grp_ok s l e n B m" if "(k, m) \<in> set (ends s e r i g)" for k m
    using "5.IH"(1) [OF "5.prems"(1,2) _ "5.prems"(4) that] "5.prems"(3) by simp
  from "5.IH"(2) [of j h, OF this conjI [OF conjunct1 [OF "5.prems"(1)] "5.prems"(2)]] "5.prems"(3,4,5) show ?case by auto
next
  case (6 s e r i g)
  have "grp_ok s l e n B m" if "(k, m) \<in> set (ends s e r i g)" for k m
    using "6.IH"(1) [OF "6.prems"(1,2) _ "6.prems"(4) that] "6.prems"(3) by simp
  from "6.IH"(2) [of j h, OF this conjI [OF conjunct1 [OF "6.prems"(1)] "6.prems"(2)]] "6.prems"(3,4,5) show ?case by auto
next
  case (7 s e m r i g)
  from "7.prems"(5) obtain h' where h': "(j, h') \<in> set (ends s e r i g)" "h = AList.update m (i, j) h'"
    by auto
  from ends_lang [OF conjunct2 [OF "7.prems"(1)] "7.prems"(2) h'(1)] ends_bounds [OF conjunct2 [OF "7.prems"(1)] h'(1)]
    "7.prems"(1) "7.IH" [OF "7.prems"(1,2) _ "7.prems"(4) h'(1)] "7.prems"(3)
  show ?case by (auto simp: h'(2) grp_ok_update split: if_splits)
next
  case (8 s e r i g)
  from ends_Look [OF "8.prems"(5)] obtain k where "(k, h) \<in> set (ends s e r i g)" ..
  from "8.IH" [OF "8.prems"(1,2) _ "8.prems"(4) this] "8.prems"(3) show ?case by simp
next
  case (12 s e r k m xs)
  have k: "l \<le> k \<and> k \<le> e \<and> grp_ok s l e n B m" by (rule "12.prems"(1) [of k m]) simp
  have xs: "l \<le> k' \<and> k' \<le> e \<and> grp_ok s l e n B m'" if "(k', m') \<in> set xs" for k' m'
    by (rule "12.prems"(1) [of k' m']) (use that in simp)
  from k "12.IH"(1) [OF _ "12.prems"(2,3), of j h] "12.IH"(2) [of j h, OF xs "12.prems"(2,3)] "12.prems"(4)
  show ?case by auto
next
  case (14 s e r i k m xs)
  have k: "grp_ok s l e n B m" by (rule "14.prems"(1) [of k m]) simp
  have xs: "grp_ok s l e n B m'" if "(k', m') \<in> set xs" for k' m'
    by (rule "14.prems"(1) [of k' m']) (use that in simp)
  from k "14.IH"(1) [OF _ _ conjunct2 [OF "14.prems"(2)] "14.prems"(3), of j h] "14.prems"(2) "14.IH"(2) [of j h, OF xs "14.prems"(2,3)] "14.prems"(4)
  show ?case by (auto split: if_splits)
qed (auto split: if_splits)

lemma ends_sets_all:
  "sets_grp n r \<or> map_of g n \<noteq> None \<Longrightarrow> (j, h) \<in> set (ends s e r i g) \<Longrightarrow> map_of h n \<noteq> None"
  "(\<And>k m. (k, m) \<in> set xs \<Longrightarrow> sets_grp n r \<or> map_of m n \<noteq> None) \<Longrightarrow>
     (j, h) \<in> set (ends_each s e r xs) \<Longrightarrow> map_of h n \<noteq> None"
  "(\<And>k m. (k, m) \<in> set xs \<Longrightarrow> sets_grp n r \<or> map_of m n \<noteq> None) \<Longrightarrow>
     (j, h) \<in> set (again s e r i xs) \<Longrightarrow> map_of h n \<noteq> None"
proof (induction s e r i g and s e r xs and s e r i xs arbitrary: j h and j h and j h
       rule: ends_ends_each_again.induct)
  case (3 s e r1 r2 i g)
  have "sets_grp n r2 \<or> map_of m n \<noteq> None" if "(k, m) \<in> set (ends s e r1 i g)" for k m
    using "3.IH"(1) [OF _ that] "3.prems"(1) by auto
  from "3.IH"(2) [of j h, OF this] "3.prems"(2) show ?case by simp
next
  case (4 s e r1 r2 i g)
  from "4.prems"(1) have "sets_grp n r1 \<or> map_of g n \<noteq> None" "sets_grp n r2 \<or> map_of g n \<noteq> None" by auto
  from "4.IH"(1) [OF this(1), of j h] "4.IH"(2) [OF this(2), of j h] "4.prems"(2) show ?case by auto
next
  case (5 s e r i g)
  have "sets_grp n (Star r) \<or> map_of m n \<noteq> None" if "(k, m) \<in> set (ends s e r i g)" for k m
    using "5.IH"(1) [OF _ that] "5.prems"(1) by auto
  from "5.IH"(2) [of j h, OF this] "5.prems" show ?case by auto
next
  case (6 s e r i g)
  have "sets_grp n (Lazy r) \<or> map_of m n \<noteq> None" if "(k, m) \<in> set (ends s e r i g)" for k m
    using "6.IH"(1) [OF _ that] "6.prems"(1) by auto
  from "6.IH"(2) [of j h, OF this] "6.prems" show ?case by auto
next
  case (7 s e m r i g)
  from "7.prems"(2) obtain h' where h': "(j, h') \<in> set (ends s e r i g)" "h = AList.update m (i, j) h'"
    by auto
  from "7.IH" [OF _ h'(1)] "7.prems"(1) show ?case by (auto simp: h'(2) update_conv')
next
  case (8 s e r i g)
  from ends_Look [OF "8.prems"(2)] obtain k where "(k, h) \<in> set (ends s e r i g)" ..
  from "8.IH" [OF _ this] "8.prems"(1) show ?case by simp
next
  case (12 s e r k m xs)
  have k: "sets_grp n r \<or> map_of m n \<noteq> None" by (rule "12.prems"(1) [of k m]) simp
  have xs: "sets_grp n r \<or> map_of m' n \<noteq> None" if "(k', m') \<in> set xs" for k' m'
    by (rule "12.prems"(1) [of k' m']) (use that in simp)
  from "12.IH"(1) [OF k, of j h] "12.IH"(2) [of j h, OF xs] "12.prems"(2) show ?case by auto
next
  case (14 s e r i k m xs)
  have k: "sets_grp n r \<or> map_of m n \<noteq> None" by (rule "14.prems"(1) [of k m]) simp
  have xs: "sets_grp n r \<or> map_of m' n \<noteq> None" if "(k', m') \<in> set xs" for k' m'
    by (rule "14.prems"(1) [of k' m']) (use that in simp)
  from "14.IH"(1) [OF _ k, of j h] "14.IH"(2) [of j h, OF xs] "14.prems"(2) show ?case
    by (auto split: if_splits)
qed (simp_all split: if_splits)

text \<open>What a caller may rely on after a successful search: the group is set and its text is in the
  language of a body of that group.\<close>

lemma search_group:
  assumes "re_search r s pos endpos = Some (p, j, g)" "pos \<le> min endpos (length s)" "sets_grp n r"
  obtains i k b where "group s n g = Some (slice s i k)" "pos \<le> i" "i \<le> k" "k \<le> min endpos (length s)"
    "b \<in> grp_bodies n r" "lang b (slice s i k)"
proof -
  define e where "e = min endpos (length s)"
  note found = search_from_Some [of s e r pos "Suc e - pos" p j g]
  have hit: "pos \<le> p \<and> p \<le> e" "(j, g) \<in> set (ends s e r p [])"
  proof -
    have "search_from s e r pos (Suc e - pos) = Some (p, j, g)"
      using assms(1) by (simp add: re_search_def e_def Let_def)
    with found assms(2) show "pos \<le> p \<and> p \<le> e" "(j, g) \<in> set (ends s e r p [])" by (auto simp: e_def)
  qed
  have "grp_ok s pos e n (grp_bodies n r) g"
    using ends_groups_all(1) [OF hit(1) _ order_refl _ hit(2)] by (simp add: e_def)
  moreover have "map_of g n \<noteq> None" using ends_sets_all(1) [OF _ hit(2)] assms(3) by blast
  ultimately show thesis using that by (auto simp: grp_ok_def group_def e_def)
qed

end
