(* ===== verification/Embedded_State.thy ===== *)
theory Embedded_State
  imports Scraping Registry Float64 Regex
begin

text \<open>
  Prices out of embedded JSON: the normalisation of an amount to integer cents
  (\<open>parsers/normalize.py\<close>), the path traverser (\<open>parsers/pathtraverse.py\<close>), the capture of the
  \<open>__NEXT_DATA__\<close> script (\<open>parsers/nextdata.py\<close>) and the two parsers built on them,
  \<open>adapters/statejson.py\<close> and \<open>adapters/magalu.py\<close>.

  \<open>json.loads\<close> and the tokenisation of a page by \<open>html.parser.HTMLParser\<close> (the sequence of handler
  calls that one \<open>feed\<close> and \<open>close\<close> make) are parameters; either may raise.
\<close>

section \<open>JSON values\<close>

datatype json =
    JNull
  | JBool bool
  | JInt int
  | JFloat pyfloat
  | JStr string
  | JList "json list"
  | JObj "(string \<times> json) list"

type_synonym json_loads = "string \<Rightarrow> json result"

fun type_name :: "json \<Rightarrow> string" where
  "type_name JNull = ''NoneType''"
| "type_name (JBool _) = ''bool''"
| "type_name (JInt _) = ''int''"
| "type_name (JFloat _) = ''float''"
| "type_name (JStr _) = ''str''"
| "type_name (JList _) = ''list''"
| "type_name (JObj _) = ''dict''"

fun is_recursion_error :: "exn \<Rightarrow> bool" where
  "is_recursion_error (OtherError n _) = (n = ''RecursionError'')"
| "is_recursion_error _ = False"

fun is_json_decode_error :: "exn \<Rightarrow> bool" where
  "is_json_decode_error (OtherError n _) = (n = ''JSONDecodeError'')"
| "is_json_decode_error _ = False"

fun is_overflow_error :: "exn \<Rightarrow> bool" where
  "is_overflow_error (OverflowError _) = True"
| "is_overflow_error _ = False"

section \<open>Reais to cents\<close>

definition MAX_PRICE_CENTS :: int where
  "MAX_PRICE_CENTS = 100000000"

definition sane_cents :: "int \<Rightarrow> int option" where
  "sane_cents cents = (if cents \<le> 0 \<or> MAX_PRICE_CENTS < cents then None else Some cents)"

text \<open>\<open>math.isfinite\<close> converts an integer to \<open>float\<close> first, outside the \<open>try\<close>; the product and
  \<open>round\<close> of an integer are exact.\<close>

fun to_cents :: "json \<Rightarrow> int option result" where
  "to_cents (JInt i) =
     (case int_to_float i of
        Inl e \<Rightarrow> Inl e
      | Inr _ \<Rightarrow> Inr (if i \<le> 0 then None else sane_cents (i * 100)))"
| "to_cents (JFloat (Fin q)) =
     (if q \<le> 0 then Inr None
      else (case py_round (float_mul q 100) of
              Inl e \<Rightarrow> (if is_overflow_error e then Inr None else Inl e)
            | Inr cents \<Rightarrow> Inr (sane_cents cents)))"
| "to_cents _ = Inr None"

section \<open>Paths\<close>

text \<open>The loop over the \<open>[n]\<close> groups after the name of a token.\<close>

function parse_indices :: "string \<Rightarrow> string \<Rightarrow> int list result" where
  "parse_indices token rest =
     (if rest = [] then Inr []
      else if \<not> starts_with ''['' rest
      then Inl (PathResolutionError (''malformed index in token '' @ py_repr token))
      else (case py_find '']'' rest of
              None \<Rightarrow> Inl (PathResolutionError (''unclosed index in token '' @ py_repr token))
            | Some close \<Rightarrow>
                (let inner = slice rest 1 close
                 in if inner = [] \<or> \<not> py_isdigit (lstrip_chars ''-'' inner)
                    then Inl (PathResolutionError (''non-integer index in token '' @ py_repr token))
                    else (case py_int inner of
                            Inl e \<Rightarrow> Inl e
                          | Inr n \<Rightarrow>
                              (case parse_indices token (drop (close + 1) rest) of
                                 Inl e \<Rightarrow> Inl e
                               | Inr ns \<Rightarrow> Inr (n # ns))))))"
  by pat_completeness auto
termination
  by (relation "measure (\<lambda>(t, rest). length rest)") (auto dest: py_find_Some_bound)

declare parse_indices.simps [simp del]

definition parse_token :: "string \<Rightarrow> (string \<times> int list) result" where
  "parse_token token =
     (if token = [] then Inl (PathResolutionError ''empty path token'')
      else (case py_find ''['' token of
              None \<Rightarrow> Inr (token, [])
            | Some bracket \<Rightarrow>
                (case parse_indices token (drop bracket token) of
                   Inl e \<Rightarrow> Inl e
                 | Inr indices \<Rightarrow> Inr (take bracket token, indices))))"

definition step_key :: "json \<Rightarrow> string \<Rightarrow> json result" where
  "step_key node name =
     (case node of
        JObj kvs \<Rightarrow>
          (case map_of kvs name of
             None \<Rightarrow> Inl (PathResolutionError (''missing key '' @ py_repr name))
           | Some v \<Rightarrow> Inr v)
      | _ \<Rightarrow> Inl (PathResolutionError (''expected dict for key '' @ py_repr name @ '', got '' @ type_name node)))"

definition step_index :: "json \<Rightarrow> int \<Rightarrow> json result" where
  "step_index node idx =
     (case node of
        JList xs \<Rightarrow>
          (if idx < 0 \<or> int (length xs) \<le> idx
           then Inl (PathResolutionError (''index ['' @ string_of_int idx @ ''] out of range''))
           else Inr (xs ! nat idx))
      | _ \<Rightarrow> Inl (PathResolutionError (''expected list for index ['' @ string_of_int idx @ ''], got ''
                                     @ type_name node)))"

fun step_indices :: "json \<Rightarrow> int list \<Rightarrow> json result" where
  "step_indices node [] = Inr node"
| "step_indices node (i # is) =
     (case step_index node i of Inl e \<Rightarrow> Inl e | Inr v \<Rightarrow> step_indices v is)"

definition step_token :: "json \<Rightarrow> string \<Rightarrow> json result" where
  "step_token node token =
     (case parse_token token of
        Inl e \<Rightarrow> Inl e
      | Inr (name, indices) \<Rightarrow>
          if name = [] then step_indices node indices
          else (case step_key node name of Inl e \<Rightarrow> Inl e | Inr v \<Rightarrow> step_indices v indices))"

fun step_tokens :: "json \<Rightarrow> string list \<Rightarrow> json result" where
  "step_tokens node [] = Inr node"
| "step_tokens node (t # ts) =
     (case step_token node t of Inl e \<Rightarrow> Inl e | Inr v \<Rightarrow> step_tokens v ts)"

definition resolve_path :: "json \<Rightarrow> string \<Rightarrow> json result" where
  "resolve_path data path =
     (if path = [] then Inl (PathResolutionError ''empty path'')
      else step_tokens data (split_on (CHR ''.'') path))"

fun is_path_error :: "exn \<Rightarrow> bool" where
  "is_path_error (PathResolutionError _) = True"
| "is_path_error _ = False"

section \<open>The \<open>__NEXT_DATA__\<close> script\<close>

datatype html_event =
    StartTag string "(string \<times> string option) list"
  | EndTag string
  | Data string

type_synonym html_events = "string \<Rightarrow> html_event list result"

record next_data_extractor =
  nd_capture :: bool
  nd_buf :: "string list"
  nd_data :: "string option"

definition new_extractor :: next_data_extractor where
  "new_extractor = \<lparr> nd_capture = False, nd_buf = [], nd_data = None \<rparr>"

text \<open>\<open>dict(attrs).get(k)\<close>: the last value of a repeated attribute; \<open>None\<close> also for an attribute
  without a value.\<close>

definition attr_get :: "(string \<times> string option) list \<Rightarrow> string \<Rightarrow> string option" where
  "attr_get attrs k = Option.bind (map_of (rev attrs) k) id"

fun handle_event :: "html_event \<Rightarrow> next_data_extractor \<Rightarrow> next_data_extractor" where
  "handle_event (StartTag tag attrs) x =
     (if tag = ''script'' \<and> attr_get attrs ''id'' = Some ''__NEXT_DATA__'' then x\<lparr>nd_capture := True\<rparr> else x)"
| "handle_event (EndTag tag) x =
     (if tag = ''script'' \<and> nd_capture x
      then x\<lparr>nd_capture := False,
             nd_data := (case nd_data x of None \<Rightarrow> Some (concat (nd_buf x)) | Some d \<Rightarrow> Some d)\<rparr>
      else x)"
| "handle_event (Data d) x = (if nd_capture x then x\<lparr>nd_buf := nd_buf x @ [d]\<rparr> else x)"

definition extract_next_data :: "html_events \<Rightarrow> string \<Rightarrow> string option result" where
  "extract_next_data events page =
     (case events page of Inl e \<Rightarrow> Inl e | Inr es \<Rightarrow> Inr (nd_data (fold handle_event es new_extractor)))"

section \<open>The statejson parser\<close>

definition BRL :: string where
  "BRL = ''BRL''"

fun map_availability :: "json \<Rightarrow> availability" where
  "map_availability (JBool True) = IN_STOCK"
| "map_availability (JBool False) = OUT_OF_STOCK"
| "map_availability _ = UNKNOWN"

definition price_at :: "json \<Rightarrow> string option \<Rightarrow> int option result" where
  "price_at state path =
     (if \<not> truthy path then Inr None
      else (case resolve_path state (the path) of
              Inl e \<Rightarrow> (if is_path_error e then Inr None else Inl e)
            | Inr v \<Rightarrow> to_cents v))"

definition availability_at :: "json \<Rightarrow> string option \<Rightarrow> availability result" where
  "availability_at state path =
     (if \<not> truthy path then Inr UNKNOWN
      else (case resolve_path state (the path) of
              Inl e \<Rightarrow> (if is_path_error e then Inr UNKNOWN else Inl e)
            | Inr v \<Rightarrow> Inr (map_availability v)))"

definition regular_extract :: "int option \<Rightarrow> int option \<Rightarrow> availability \<Rightarrow> page_extract" where
  "regular_extract pix card_price av =
     \<lparr> ex_price_pix_cents = pix, ex_price_card_cents = card_price, ex_currency = BRL, ex_availability = av,
       ex_price_pix_member_cents = None, ex_price_card_member_cents = None \<rparr>"

definition statejson_extract :: "json_loads \<Rightarrow> html_events \<Rightarrow> parser_spec \<Rightarrow> string \<Rightarrow> page_extract result" where
  "statejson_extract loads events spec page =
     (case extract_next_data events page of
        Inl e \<Rightarrow> Inl e
      | Inr None \<Rightarrow> Inl (ParseError ''no __NEXT_DATA__ state script found'')
      | Inr (Some raw) \<Rightarrow>
          (case loads raw of
             Inl e \<Rightarrow>
               (if is_json_decode_error e \<or> is_recursion_error e \<or> is_value_error e \<or> is_overflow_error e
                then Inl (ParseError (''invalid state JSON: '' @ exn_str e)) else Inl e)
           | Inr state \<Rightarrow>
               (case price_at state (ps_pix spec) of
                  Inl e \<Rightarrow> Inl e
                | Inr pix \<Rightarrow>
                    (case price_at state (ps_card spec) of
                       Inl e \<Rightarrow> Inl e
                     | Inr card_price \<Rightarrow>
                         if pix = None \<and> card_price = None
                         then Inl (ParseError ''no price resolved at pix/card paths'')
                         else (case availability_at state (ps_availability spec) of
                                 Inl e \<Rightarrow> Inl e
                               | Inr av \<Rightarrow> Inr (regular_extract pix card_price av))))))"

section \<open>The magalu parser\<close>

definition PIX_PATH :: string where
  "PIX_PATH = ''props.pageProps.data.item.offers[0].bestPrice.totalAmount''"

definition CARD_PATH :: string where
  "CARD_PATH = ''props.pageProps.data.item.offers[0].price''"

definition AVAIL_PATH :: string where
  "AVAIL_PATH = ''props.pageProps.data.item.available''"

fun is_number :: "json \<Rightarrow> bool" where
  "is_number (JInt _) = True"
| "is_number (JFloat _) = True"
| "is_number _ = False"

definition offer_price :: "json \<Rightarrow> string \<Rightarrow> int option result" where
  "offer_price data path =
     (case resolve_path data path of
        Inl e \<Rightarrow> (if is_path_error e then Inr None else Inl e)
      | Inr v \<Rightarrow> if \<not> is_number v then Inr None else to_cents v)"

definition magalu_availability :: "json \<Rightarrow> availability result" where
  "magalu_availability data =
     (case resolve_path data AVAIL_PATH of
        Inl e \<Rightarrow> (if is_path_error e then Inr UNKNOWN else Inl e)
      | Inr v \<Rightarrow> Inr (map_availability v))"

text \<open>\<open>repr\<close> of an exception with one text argument.\<close>

definition exn_repr :: "exn \<Rightarrow> string" where
  "exn_repr e = exn_name e @ ''('' @ py_repr (exn_str e) @ '')''"

definition magalu_extract :: "json_loads \<Rightarrow> html_events \<Rightarrow> string \<Rightarrow> page_extract result" where
  "magalu_extract loads events page =
     (case extract_next_data events page of
        Inl e \<Rightarrow> Inl e
      | Inr None \<Rightarrow> Inl (ParseError ''no __NEXT_DATA__ (Magalu challenge or non-product page)'')
      | Inr (Some raw) \<Rightarrow>
          (case loads raw of
             Inl e \<Rightarrow>
               (if is_json_decode_error e \<or> is_recursion_error e \<or> is_value_error e
                then Inl (ParseError (''malformed __NEXT_DATA__: '' @ exn_repr e)) else Inl e)
           | Inr data \<Rightarrow>
               (case offer_price data PIX_PATH of
                  Inl e \<Rightarrow> Inl e
                | Inr pix \<Rightarrow>
                    (case offer_price data CARD_PATH of
                       Inl e \<Rightarrow> Inl e
                     | Inr card_price \<Rightarrow>
                         if pix = None \<and> card_price = None
                         then Inl (ParseError ''no Magalu offer price located (offers[0])'')
                         else (case magalu_availability data of
                                 Inl e \<Rightarrow> Inl e
                               | Inr av \<Rightarrow> Inr (regular_extract pix card_price av))))))"

section \<open>Cents\<close>

lemma sane_cents_Some: "sane_cents n = Some c \<longleftrightarrow> c = n \<and> 1 \<le> n \<and> n \<le> MAX_PRICE_CENTS"
  by (auto simp: sane_cents_def)

lemma sane_too_big: "MAX_PRICE_CENTS < n \<Longrightarrow> sane_cents n = None"
  by (simp add: sane_cents_def)

lemma to_cents_range: "to_cents v = Inr (Some c) \<Longrightarrow> 1 \<le> c \<and> c \<le> MAX_PRICE_CENTS"
  by (induction v rule: to_cents.induct)
     (auto simp: sane_cents_def split: sum.splits if_splits)

lemma to_cents_raises: "to_cents v = Inl e \<longleftrightarrow> (\<exists>i. v = JInt i \<and> int_to_float i = Inl e)"
proof (cases v)
  case (JFloat f)
  show ?thesis
  proof (cases f)
    case (Fin q)
    obtain g where g: "float_mul q 100 = g" by blast
    have "g \<noteq> NaN" using g by (auto simp: float_mul_def to_float_def split: option.splits)
    with g show ?thesis by (cases g) (auto simp: JFloat Fin)
  qed (simp_all add: JFloat)
qed (auto split: sum.splits)

lemma rounded_price:
  assumes "1 \<le> n"
  shows "(case double (of_int n / 100) of
            None \<Rightarrow> MAX_PRICE_CENTS < n
          | Some x \<Rightarrow> 0 < x \<and> (case double (x * 100) of
                        None \<Rightarrow> MAX_PRICE_CENTS < n
                      | Some y \<Rightarrow> sane_cents (round_half_even y) = sane_cents n))"
proof -
  define q where "q = (of_int n / 100 :: rat)"
  have n: "(1 :: rat) \<le> of_int n" using assms by simp
  have big: "MAX_PRICE_CENTS < n" if "10 ^ 9 < (of_int n :: rat)"
  proof -
    from that have "(of_int (10 ^ 9) :: rat) < of_int n" by simp
    then show ?thesis by (simp only: of_int_less_iff) (simp add: MAX_PRICE_CENTS_def)
  qed
  have "10 ^ 9 < (2 :: rat) ^ 999" by (rule less_le_trans [of _ "2 ^ 30"]) (simp, rule power_increasing, simp_all)
  note huge = this
  have q1: "1 / 1000 \<le> q" using n by (simp add: q_def)
  show ?thesis
  proof (cases "double q")
    case None
    with double_rounds [OF q1] have "2 ^ 1000 < q" by auto
    moreover have "(2 :: rat) ^ 999 < 2 ^ 1000" by (rule power_strict_increasing) auto
    ultimately have "10 ^ 9 < (of_int n :: rat)" using huge n by (simp add: q_def)
    with None big show ?thesis by (simp add: q_def)
  next
    case (Some x)
    with double_rounds [OF q1] have x: "\<bar>x - q\<bar> \<le> q / 2 ^ 53" by auto
    from x have "x - q \<le> q / 2 ^ 53" "q - x \<le> q / 2 ^ 53" unfolding abs_le_iff by simp_all
    with q1 have "q / 2 \<le> x \<and> x \<le> 2 * q" by simp
    then have x1: "q / 2 \<le> x" "x \<le> 2 * q" by simp_all
    have x2: "1 / 1000 \<le> x * 100" using x1(1) n by (simp add: q_def)
    show ?thesis
    proof (cases "double (x * 100)")
      case None
      with double_rounds [OF x2] have "2 ^ 1000 < x * 100" by auto
      moreover have "(2 :: rat) ^ 1000 = 2 * 2 ^ 999" by (simp only: power_Suc [symmetric]) simp
      ultimately have "10 ^ 9 < (of_int n :: rat)" using huge x1(2) unfolding q_def by linarith
      with Some None big x2 show ?thesis by (simp add: q_def)
    next
      case (Some y)
      with double_rounds [OF x2] have y: "\<bar>y - x * 100\<bar> \<le> x * 100 / 2 ^ 53" by auto
      have close: "\<bar>y - of_int n\<bar> \<le> 3 * of_int n / 2 ^ 53"
        using x y x1(2) unfolding q_def abs_le_iff by auto
      have "sane_cents (round_half_even y) = sane_cents n"
      proof (cases "10 ^ 9 < (of_int n :: rat)")
        case True
        then have "10 ^ 8 + 1 < y" using close unfolding abs_le_iff by auto
        then have "of_int (10 ^ 8) < (of_int (round_half_even y) :: rat)"
          using round_half_even_close [of y] unfolding abs_le_iff by simp
        then have "MAX_PRICE_CENTS < round_half_even y"
          by (simp only: of_int_less_iff) (simp add: MAX_PRICE_CENTS_def)
        with big [OF True] show ?thesis by (simp add: sane_cents_def)
      next
        case False
        then have "\<bar>y - of_int n\<bar> < 1 / 2" using close unfolding abs_le_iff abs_less_iff by auto
        then show ?thesis by (simp add: round_half_even_near)
      qed
      with \<open>double q = Some x\<close> Some x2 show ?thesis by (simp add: q_def)
    qed
  qed
qed

text \<open>A displayed amount of \<open>n\<close> cents, read as a float of reais, comes out as exactly \<open>n\<close> cents
  when it is within the bounds, and as no price otherwise.\<close>

lemma to_cents_exact:
  assumes "0 \<le> n"
  shows "to_cents (JFloat (to_float (of_int n / 100))) = Inr (sane_cents n)"
proof (cases "n = 0")
  case True
  then show ?thesis by (simp add: to_float_def double_def sane_cents_def)
next
  case False
  then have "1 \<le> n" using assms by simp
  from rounded_price [OF this] show ?thesis
    by (auto simp: to_float_def float_mul_def sane_too_big split: option.splits)
qed

lemma to_cents_integer_overflow: "to_cents (JInt (2 ^ 1024)) = Inl (OverflowError ''int too large to convert to float'')"
  by (simp only: to_cents.simps int_to_float_overflow sum.case)

section \<open>Paths as sequences of steps\<close>

text \<open>What a path means: a sequence of keys and indices, written as tokens with a name and
  indices. \<open>json_at\<close> follows it in a document.\<close>

datatype path_step = Key string | Idx nat

fun json_at :: "json \<Rightarrow> path_step list \<Rightarrow> json option" where
  "json_at v [] = Some v"
| "json_at (JObj kvs) (Key k # ps) = (case map_of kvs k of None \<Rightarrow> None | Some w \<Rightarrow> json_at w ps)"
| "json_at (JList xs) (Idx n # ps) = (if n < length xs then json_at (xs ! n) ps else None)"
| "json_at _ _ = None"

definition token_text :: "string \<times> nat list \<Rightarrow> string" where
  "token_text t = fst t @ concat (map (\<lambda>n. ''['' @ string_of_nat n @ '']'') (snd t))"

definition token_steps :: "string \<times> nat list \<Rightarrow> path_step list" where
  "token_steps t = (if fst t = [] then [] else [Key (fst t)]) @ map Idx (snd t)"

text \<open>A name without separators, and indices that \<open>int()\<close> accepts.\<close>

definition token_ok :: "string \<times> nat list \<Rightarrow> bool" where
  "token_ok t \<longleftrightarrow> (fst t \<noteq> [] \<or> snd t \<noteq> []) \<and> CHR ''.'' \<notin> set (fst t) \<and> CHR ''['' \<notin> set (fst t)
     \<and> list_all (\<lambda>n. length (string_of_nat n) \<le> 4300) (snd t)"

lemma py_find_char: "c \<notin> set p \<Longrightarrow> py_find [c] (p @ c # s) = Some (length p)"
  by (induction p) (auto simp: starts_with_def)

lemma py_find_char_None: "c \<notin> set s \<Longrightarrow> py_find [c] s = None"
  by (induction s) (auto simp: starts_with_def)

lemma digit_not_in: "list_all is_ascii_digit s \<Longrightarrow> \<not> is_ascii_digit c \<Longrightarrow> c \<notin> set s"
  by (auto simp: list_all_iff)

lemma py_int_string_of_nat:
  assumes "length (string_of_nat n) \<le> 4300"
  shows "py_int (string_of_nat n) = Inr (int n)"
  using assms string_of_nat_digits [of n] by (simp add: py_int_digits)

lemma isdigit_string_of_nat: "py_isdigit (lstrip_chars ''-'' (string_of_nat n))"
proof -
  have "CHR ''-'' \<notin> set (string_of_nat n)"
    by (rule digit_not_in [OF string_of_nat_digits]) (simp add: is_ascii_digit_def code_def)
  then have "lstrip_chars ''-'' (string_of_nat n) = string_of_nat n"
    by (cases "string_of_nat n") (auto simp: lstrip_chars_def)
  then show ?thesis
    using string_of_nat_digits [of n] by (auto simp: py_isdigit_def char_isdigit_def list_all_iff)
qed

lemma parse_indices_text:
  "list_all (\<lambda>n. length (string_of_nat n) \<le> 4300) is \<Longrightarrow>
     parse_indices token (concat (map (\<lambda>n. ''['' @ string_of_nat n @ '']'') is)) = Inr (map int is)"
proof (induction "is")
  case Nil
  then show ?case by (simp add: parse_indices.simps)
next
  case (Cons n ns)
  let ?more = "concat (map (\<lambda>n. ''['' @ string_of_nat n @ '']'') ns)"
  have "CHR '']'' \<notin> set (string_of_nat n)"
    by (rule digit_not_in [OF string_of_nat_digits]) (simp add: is_ascii_digit_def code_def)
  then have f: "py_find '']'' (CHR ''['' # string_of_nat n @ CHR '']'' # ?more) = Some (Suc (length (string_of_nat n)))"
    using py_find_char [of "CHR '']''" "CHR ''['' # string_of_nat n" ?more] by simp
  show ?case
    using Cons py_int_string_of_nat [of n] isdigit_string_of_nat [of n] f
    by (subst parse_indices.simps) (simp add: starts_with_def slice_def Let_def)
qed

lemma parse_token_text: "token_ok t \<Longrightarrow> parse_token (token_text t) = Inr (fst t, map int (snd t))"
proof (cases "snd t")
  case Nil
  assume "token_ok t"
  with Nil show ?thesis by (simp add: token_ok_def token_text_def parse_token_def py_find_char_None)
next
  case (Cons n ns)
  assume ok: "token_ok t"
  let ?idx = "concat (map (\<lambda>n. ''['' @ string_of_nat n @ '']'') (snd t))"
  have "py_find ''['' (fst t @ ?idx) = Some (length (fst t))"
    using ok py_find_char [of "CHR ''[''" "fst t"] by (simp add: Cons token_ok_def)
  moreover have "parse_indices (token_text t) ?idx = Inr (map int (snd t))"
    by (rule parse_indices_text) (use ok in \<open>simp add: token_ok_def\<close>)
  moreover have "fst t @ ?idx \<noteq> []" by (simp add: Cons)
  ultimately show ?thesis by (simp add: parse_token_def token_text_def)
qed

text \<open>The outcome of a traversal that may miss.\<close>

definition path_outcome :: "json option \<Rightarrow> json result \<Rightarrow> bool" where
  "path_outcome x r \<longleftrightarrow> (case x of Some v \<Rightarrow> r = Inr v | None \<Rightarrow> \<exists>m. r = Inl (PathResolutionError m))"

lemma json_at_append: "json_at v (ps @ qs) = Option.bind (json_at v ps) (\<lambda>w. json_at w qs)"
  by (induction v ps rule: json_at.induct) (auto split: option.splits)

lemma path_outcome_simps [simp]:
  "path_outcome (Some v) r \<longleftrightarrow> r = Inr v"
  "path_outcome None r \<longleftrightarrow> (\<exists>m. r = Inl (PathResolutionError m))"
  by (simp_all add: path_outcome_def)

lemma path_outcome_bind:
  assumes "path_outcome x r" "\<And>v. path_outcome (f v) (g v)"
  shows "path_outcome (Option.bind x f) (case r of Inl e \<Rightarrow> Inl e | Inr v \<Rightarrow> g v)"
  using assms by (cases x) auto

lemma step_key_spec: "path_outcome (json_at v [Key k]) (step_key v k)"
  by (cases v) (auto simp: step_key_def split: option.splits)

lemma step_index_spec: "path_outcome (json_at v [Idx n]) (step_index v (int n))"
  by (cases v) (auto simp: step_index_def)

lemma step_indices_spec: "path_outcome (json_at v (map Idx is)) (step_indices v (map int is))"
proof (induction "is" arbitrary: v)
  case (Cons n ns)
  from path_outcome_bind [OF step_index_spec [of v n] Cons.IH] json_at_append [of v "[Idx n]" "map Idx ns"]
  show ?case by simp
qed simp

lemma step_token_spec:
  "token_ok t \<Longrightarrow> path_outcome (json_at v (token_steps t)) (step_token v (token_text t))"
  using path_outcome_bind [OF step_key_spec, of "\<lambda>w. json_at w (map Idx (snd t))" "\<lambda>w. step_indices w (map int (snd t))" v "fst t"]
    step_indices_spec [of _ "snd t"] json_at_append [of v "[Key (fst t)]" "map Idx (snd t)"]
  by (simp add: step_token_def parse_token_text token_steps_def)

lemma token_text_no_dot: "token_ok t \<Longrightarrow> CHR ''.'' \<notin> set (token_text t)"
proof -
  assume ok: "token_ok t"
  have "CHR ''.'' \<notin> set (string_of_nat n)" for n
    by (rule digit_not_in [OF string_of_nat_digits]) (simp add: is_ascii_digit_def code_def)
  with ok show ?thesis by (auto simp: token_text_def token_ok_def)
qed

lemma split_on_join:
  "xs \<noteq> [] \<Longrightarrow> (\<And>x. x \<in> set xs \<Longrightarrow> c \<notin> set x) \<Longrightarrow> split_on c (join [c] xs) = xs"
  by (induction "[c]" xs rule: join.induct) (auto simp: split_on_id split_on_append)

lemma step_tokens_spec:
  "list_all token_ok ts \<Longrightarrow>
     path_outcome (json_at v (concat (map token_steps ts))) (step_tokens v (map token_text ts))"
proof (induction ts arbitrary: v)
  case (Cons t ts)
  from Cons.prems have "token_ok t" "list_all token_ok ts" by simp_all
  from path_outcome_bind [OF step_token_spec [OF this(1)] Cons.IH [OF this(2)]]
  show ?case by (simp add: json_at_append)
qed simp


lemma sample_path: "join ''.'' (map token_text [(''offers'', [0]), (''price'', [])]) = ''offers[0].price''"
  by code_simp


text \<open>A doubled sign or a superscript passes the digit check and is refused by \<open>int()\<close>: the
  ValueError leaves the traverser.\<close>

lemma malformed_index_raises_value_error:
  "parse_token ''offers[--1]'' = Inl (ValueError ''invalid literal for int() with base 10'')
   \<and> parse_token (''offers['' @ [CHR 0xB2] @ '']'') = Inl (ValueError ''invalid literal for int() with base 10'')"
  by code_simp

section \<open>What the parsers on embedded JSON return\<close>

definition sane_slot :: "int option \<Rightarrow> bool" where
  "sane_slot x \<longleftrightarrow> (\<forall>c. x = Some c \<longrightarrow> 1 \<le> c \<and> c \<le> MAX_PRICE_CENTS)"

text \<open>An extract that a verdict may rest on: some price, every price within the bounds, in BRL.\<close>

definition sound_extract :: "page_extract \<Rightarrow> bool" where
  "sound_extract x \<longleftrightarrow> has_price x \<and> ex_currency x = BRL
     \<and> sane_slot (ex_price_pix_cents x) \<and> sane_slot (ex_price_card_cents x)
     \<and> sane_slot (ex_price_pix_member_cents x) \<and> sane_slot (ex_price_card_member_cents x)"

lemma sane_slot_simps [simp]:
  "sane_slot None"
  "sane_slot (Some c) \<longleftrightarrow> 1 \<le> c \<and> c \<le> MAX_PRICE_CENTS"
  by (simp_all add: sane_slot_def)

lemma to_cents_sane: "to_cents v = Inr x \<Longrightarrow> sane_slot x"
  using to_cents_range by (cases x) auto

lemma price_at_sane: "price_at st p = Inr x \<Longrightarrow> sane_slot x"
  by (auto simp: price_at_def to_cents_sane split: if_splits sum.splits)

lemma offer_price_sane: "offer_price st p = Inr x \<Longrightarrow> sane_slot x"
  by (auto simp: offer_price_def to_cents_sane split: if_splits sum.splits)

lemma regular_extract_sound:
  "sane_slot pix \<Longrightarrow> sane_slot cp \<Longrightarrow> \<not> (pix = None \<and> cp = None) \<Longrightarrow> sound_extract (regular_extract pix cp av)"
  by (auto simp: sound_extract_def regular_extract_def has_price_def)

lemma statejson_sound: "statejson_extract loads events spec page = Inr x \<Longrightarrow> sound_extract x"
  by (auto simp: statejson_extract_def split: sum.splits option.splits if_splits
      intro!: regular_extract_sound dest: price_at_sane)

lemma magalu_sound: "magalu_extract loads events page = Inr x \<Longrightarrow> sound_extract x"
  by (auto simp: magalu_extract_def split: sum.splits option.splits if_splits
      intro!: regular_extract_sound dest: offer_price_sane)

text \<open>The captured script: the text between the first start tag of the marked script and the end
  tag that follows.\<close>

definition next_data_start :: "html_event \<Rightarrow> bool" where
  "next_data_start ev \<longleftrightarrow>
     (\<exists>attrs. ev = StartTag ''script'' attrs \<and> attr_get attrs ''id'' = Some ''__NEXT_DATA__'')"

fun data_of :: "html_event \<Rightarrow> string" where
  "data_of (Data d) = d"
| "data_of _ = []"

lemma fold_before_start:
  "(\<And>ev. ev \<in> set es \<Longrightarrow> \<not> next_data_start ev) \<Longrightarrow> \<not> nd_capture x \<Longrightarrow> fold handle_event es x = x"
proof (induction es)
  case (Cons ev es)
  then have "handle_event ev x = x" by (cases ev) (auto simp: next_data_start_def)
  with Cons show ?case by simp
qed simp

lemma fold_capturing:
  "(\<And>ev. ev \<in> set es \<Longrightarrow> ev \<noteq> EndTag ''script'') \<Longrightarrow> nd_capture x \<Longrightarrow>
     nd_capture (fold handle_event es x) \<and> nd_data (fold handle_event es x) = nd_data x
     \<and> concat (nd_buf (fold handle_event es x)) = concat (nd_buf x) @ concat (map data_of es)"
proof (induction es arbitrary: x)
  case (Cons ev es)
  have "nd_capture (handle_event ev x) \<and> nd_data (handle_event ev x) = nd_data x
     \<and> concat (nd_buf (handle_event ev x)) = concat (nd_buf x) @ data_of ev"
    using Cons.prems by (cases ev) auto
  with Cons.IH [of "handle_event ev x"] Cons.prems show ?case by simp
qed simp

lemma nd_data_kept: "nd_data x = Some d \<Longrightarrow> nd_data (fold handle_event es x) = Some d"
proof (induction es arbitrary: x)
  case (Cons ev es)
  then have "nd_data (handle_event ev x) = Some d" by (cases ev) auto
  with Cons.IH show ?case by simp
qed simp

lemma extract_next_data_first:
  assumes "events page = Inr (before @ start # body @ EndTag ''script'' # after)"
    "\<And>ev. ev \<in> set before \<Longrightarrow> \<not> next_data_start ev" "next_data_start start"
    "\<And>ev. ev \<in> set body \<Longrightarrow> ev \<noteq> EndTag ''script''"
  shows "extract_next_data events page = Inr (Some (concat (map data_of body)))"
proof -
  have st: "handle_event start new_extractor = new_extractor\<lparr>nd_capture := True\<rparr>"
    using assms(3) by (auto simp: next_data_start_def)
  have "fold handle_event before new_extractor = new_extractor"
    by (rule fold_before_start) (auto simp: assms(2) new_extractor_def)
  moreover note fold_capturing [of body "new_extractor\<lparr>nd_capture := True\<rparr>", OF assms(4)]
  ultimately have "nd_data (fold handle_event (before @ start # body @ [EndTag ''script'']) new_extractor)
      = Some (concat (map data_of body))"
    by (simp add: st) (simp add: new_extractor_def)
  from nd_data_kept [OF this, of after] assms(1) show ?thesis by (simp add: extract_next_data_def)
qed

end
