(* ===== verification/Page_Parsers.thy ===== *)
theory Page_Parsers
  imports Embedded_State
begin

text \<open>
  Prices out of markup: the parsers of \<open>parsers/adapters/\<close> that search the page text with regular
  expressions (\<open>pichau.py\<close>, \<open>terabyte.py\<close>, \<open>amazon.py\<close>, \<open>mercadolivre.py\<close>), and the factory
  \<open>parsers/factory.py\<close> that selects a parser by its kind. Every pattern is written in the terms of
  the theory Regex next to the source's text of it.
\<close>

section \<open>Searching helpers\<close>

text \<open>\<open>s.find(p, start, end)\<close>.\<close>

definition find_in :: "string \<Rightarrow> string \<Rightarrow> nat \<Rightarrow> nat \<Rightarrow> nat option" where
  "find_in p s i j = map_option (\<lambda>k. k + i) (py_find p (slice s i j))"

text \<open>\<open>match.group(n)\<close> handed to \<open>float\<close> or \<open>replace\<close>: a group that took no part in the match is
  \<open>None\<close>, on which both raise.\<close>

definition group_text :: "string \<Rightarrow> nat \<Rightarrow> groups \<Rightarrow> string result" where
  "group_text s n g =
     (case group s n g of Some t \<Rightarrow> Inr t | None \<Rightarrow> Inl (OtherError ''TypeError'' ''a string is required, not None''))"

text \<open>\<open>to_cents(float(text))\<close>.\<close>

definition cents_of_text :: "string \<Rightarrow> int option result" where
  "cents_of_text t = (case py_float t of Inl e \<Rightarrow> Inl e | Inr f \<Rightarrow> to_cents (JFloat f))"

definition Quote :: char where
  "Quote = CHR 0x22"

definition quoted :: "string \<Rightarrow> string" where
  "quoted s = Quote # s @ [Quote]"

definition Decimal :: regex where
  "Decimal = Seq (Plus Digit) (Opt (Seq (Chr (CHR ''.'')) (Plus Digit)))"

definition in_text :: "string list \<Rightarrow> string \<Rightarrow> bool" where
  "in_text markers t = list_ex (\<lambda>m. contains m t) markers"

section \<open>The pichau parser\<close>

definition FLIGHT_ANCHOR :: string where
  "FLIGHT_ANCHOR = ''pichau_prices''"

definition FLIGHT_WINDOW :: nat where
  "FLIGHT_WINDOW = 600"

definition STOCK_WINDOW :: nat where
  "STOCK_WINDOW = 3500"

definition Escaped :: regex where
  "Escaped = Star (Cls (\<lambda>c. c = CHR 0x5C \<or> c = Quote))"

text \<open>\<open>key[\\"]*\s*:\s*(\d+(?:\.\d+)?)\<close>\<close>

definition flight_number_re :: "string \<Rightarrow> regex" where
  "flight_number_re key =
     SeqAll [Lit key, Escaped, Star Space, Chr (CHR '':''), Star Space, Grp 1 Decimal]"

text \<open>\<open>stock_status[\\"]*\s*:\s*[\\"]*([A-Z_]+)\<close>\<close>

definition STOCK_STATUS_RE :: regex where
  "STOCK_STATUS_RE =
     SeqAll [Lit ''stock_status'', Escaped, Star Space, Chr (CHR '':''), Star Space, Escaped,
             Grp 1 (Plus (Cls (\<lambda>c. is_ascii_upper c \<or> c = CHR ''_'')))]"

definition scoped_flight_price :: "string \<Rightarrow> regex \<Rightarrow> int option result" where
  "scoped_flight_price page price_re =
     (case py_find FLIGHT_ANCHOR page of
        None \<Rightarrow> Inr None
      | Some anchor \<Rightarrow>
          (case re_search price_re page anchor (anchor + FLIGHT_WINDOW) of
             None \<Rightarrow> Inr None
           | Some (i, j, g) \<Rightarrow>
               (case group_text page 1 g of Inl e \<Rightarrow> Inl e | Inr t \<Rightarrow> cents_of_text t)))"

text \<open>The captured status is upper-case already, so \<open>.upper()\<close> leaves it as it is.\<close>

definition pichau_availability :: "string \<Rightarrow> availability" where
  "pichau_availability page =
     (case py_find FLIGHT_ANCHOR page of
        None \<Rightarrow> UNKNOWN
      | Some anchor \<Rightarrow>
          (case re_search STOCK_STATUS_RE page anchor (anchor + STOCK_WINDOW) of
             None \<Rightarrow> UNKNOWN
           | Some (i, j, g) \<Rightarrow>
               (if group page 1 g = Some ''IN_STOCK'' then IN_STOCK
                else if group page 1 g = Some ''OUT_OF_STOCK'' \<or> group page 1 g = Some ''OUT_STOCK''
                then OUT_OF_STOCK else UNKNOWN)))"

definition pichau_extract :: "string \<Rightarrow> page_extract result" where
  "pichau_extract page =
     (case scoped_flight_price page (flight_number_re ''avista'') of
        Inl e \<Rightarrow> Inl e
      | Inr pix \<Rightarrow>
          (case scoped_flight_price page (flight_number_re ''final_price'') of
             Inl e \<Rightarrow> Inl e
           | Inr card_price \<Rightarrow>
               if pix = None \<and> card_price = None
               then Inl (ParseError ''no Pichau price located (pichau_prices flight)'')
               else Inr (regular_extract pix card_price (pichau_availability page))))"

section \<open>The terabyte parser\<close>

definition ID_VISTA :: string where
  "ID_VISTA = ''valVista''"

definition ID_PARC :: string where
  "ID_PARC = ''valParc''"

text \<open>\<open>id="..."[^>]*>([^<]*)\<close>\<close>

definition id_text_re :: "string \<Rightarrow> regex" where
  "id_text_re id_value =
     SeqAll [Lit (''id='' @ quoted id_value), Star (NotChr (CHR ''>'')), Chr (CHR ''>''), Grp 1 (Star (NotChr (CHR ''<'')))]"

text \<open>\<open>\d{1,3}(?:\.\d{3})*,\d{2}\<close>\<close>

definition Amount :: regex where
  "Amount = SeqAll [RepTo 1 2 Digit, Star (Seq (Chr (CHR ''.'')) (Rep 3 Digit)), Chr (CHR '',''), Rep 2 Digit]"

text \<open>\<open>R\$\s*(\d{1,3}(?:\.\d{3})*,\d{2})\<close>\<close>

definition PRICE_RE :: regex where
  "PRICE_RE = SeqAll [Lit ''R$'', Star Space, Grp 1 Amount]"

text \<open>\<open><!--.*?-->\<close> with DOTALL.\<close>

definition COMMENT_RE :: regex where
  "COMMENT_RE = SeqAll [Lit ''<!--'', Lazy Any, Lit ''-->'']"

definition TB_OOS_MARKERS :: "string list" where
  "TB_OOS_MARKERS =
     [''esgotado'', ''indisponivel'', ''indispon'' @ [CHR 0xED] @ ''vel'', ''produto indisponivel'',
      ''fora de estoque'', ''sem estoque'', ''avise-me'', ''out of stock'']"

definition TB_IN_STOCK_MARKER :: string where
  "TB_IN_STOCK_MARKER = ''no estoque''"

definition AVAIL_BEFORE :: nat where
  "AVAIL_BEFORE = 1200"

definition AVAIL_AFTER :: nat where
  "AVAIL_AFTER = 2500"

definition brl_to_reais :: "string \<Rightarrow> pyfloat result" where
  "brl_to_reais amount = py_float (replace_char (CHR '','') ''.'' (replace_char (CHR ''.'') [] amount))"

definition cents_of_brl :: "string \<Rightarrow> int option result" where
  "cents_of_brl t = (case brl_to_reais t of Inl e \<Rightarrow> Inl e | Inr f \<Rightarrow> to_cents (JFloat f))"

text \<open>The text held by one element with the id: no amount in it, or the amount.\<close>

definition element_price :: "string \<Rightarrow> groups \<Rightarrow> int option result" where
  "element_price page g =
     (case group_text page 1 g of
        Inl e \<Rightarrow> Inl e
      | Inr own \<Rightarrow>
          (case re_search PRICE_RE own 0 (length own) of
             None \<Rightarrow> Inr None
           | Some (i, j, h) \<Rightarrow> (case group_text own 1 h of Inl e \<Rightarrow> Inl e | Inr t \<Rightarrow> cents_of_brl t)))"

fun first_priced :: "string \<Rightarrow> (nat \<times> nat \<times> groups) list \<Rightarrow> int option result" where
  "first_priced page [] = Inr None"
| "first_priced page ((i, j, g) # ms) =
     (case element_price page g of
        Inl e \<Rightarrow> Inl e
      | Inr None \<Rightarrow> first_priced page ms
      | Inr (Some cents) \<Rightarrow> Inr (Some cents))"

definition first_valid_id_price :: "string \<Rightarrow> string \<Rightarrow> int option result" where
  "first_valid_id_price page id_value = first_priced page (re_finditer (id_text_re id_value) page 0)"

definition terabyte_region :: "string \<Rightarrow> string" where
  "terabyte_region page =
     (case (case py_find (''id='' @ quoted ID_VISTA) page of
              Some a \<Rightarrow> Some a
            | None \<Rightarrow> py_find (''id='' @ quoted ID_PARC) page) of
        None \<Rightarrow> page
      | Some anchor \<Rightarrow> slice page (anchor - AVAIL_BEFORE) (anchor + AVAIL_AFTER))"

definition terabyte_availability :: "string \<Rightarrow> availability" where
  "terabyte_availability page =
     (let shown = py_lower (re_sub COMMENT_RE '' '' (terabyte_region page))
      in if in_text TB_OOS_MARKERS shown then OUT_OF_STOCK
         else if contains TB_IN_STOCK_MARKER shown then IN_STOCK
         else UNKNOWN)"

definition terabyte_extract :: "string \<Rightarrow> page_extract result" where
  "terabyte_extract page =
     (case first_valid_id_price page ID_VISTA of
        Inl e \<Rightarrow> Inl e
      | Inr pix \<Rightarrow>
          (case first_valid_id_price page ID_PARC of
             Inl e \<Rightarrow> Inl e
           | Inr card_price \<Rightarrow>
               if pix = None \<and> card_price = None
               then Inl (ParseError ''no Terabyte price located (#valVista/#valParc)'')
               else Inr (regular_extract pix card_price (terabyte_availability page))))"

section \<open>The amazon parser\<close>

definition ROW_PIX_REGULAR :: string where
  "ROW_PIX_REGULAR = ''apex_desktop_newAccordionRow''"

definition ROW_PIX_MEMBER :: string where
  "ROW_PIX_MEMBER = ''apex_desktop_primeSavingsUpsellAccordionRow''"

definition ROW_CARD_REGULAR :: string where
  "ROW_CARD_REGULAR = ''reinvent_price_desktop_newAccordionRow''"

definition ROW_CARD_MEMBER :: string where
  "ROW_CARD_MEMBER = ''reinvent_price_desktop_primeSavingsUpsellAccordionRow''"

definition PIX_VALUE_CLASS :: string where
  "PIX_VALUE_CLASS = ''apex-pricetopay-value''"

definition CARD_SPAN_ID :: string where
  "CARD_SPAN_ID = ''best-offer-string-cc''"

definition ROW_TO_ANCHOR_WINDOW :: nat where
  "ROW_TO_ANCHOR_WINDOW = 8000"

definition ANCHOR_TO_PRICE_WINDOW :: nat where
  "ANCHOR_TO_PRICE_WINDOW = 2000"

definition PIX_VALUE_WINDOW :: nat where
  "PIX_VALUE_WINDOW = 500"

definition AZ_AVAILABILITY_WINDOW :: nat where
  "AZ_AVAILABILITY_WINDOW = 600"

text \<open>\<open>a-price-whole"[^>]*>\s*([\d.]+)(?:\s*<span[^>]*a-price-decimal[^>]*>[^<]*</span>)?\<close> and
  \<open>\s*</span>\s*<span[^>]*a-price-fraction[^>]*>\s*(\d{2})\<close>\<close>

definition PIX_SPLIT_RE :: regex where
  "PIX_SPLIT_RE =
     SeqAll
       [Lit (''a-price-whole'' @ [Quote]), Star (NotChr (CHR ''>'')), Chr (CHR ''>''), Star Space,
        Grp 1 (Plus (Cls (\<lambda>c. is_ascii_digit c \<or> c = CHR ''.''))),
        Opt (SeqAll [Star Space, Lit ''<span'', Star (NotChr (CHR ''>'')), Lit ''a-price-decimal'',
                     Star (NotChr (CHR ''>'')), Chr (CHR ''>''), Star (NotChr (CHR ''<'')), Lit ''</span>'']),
        Star Space, Lit ''</span>'', Star Space, Lit ''<span'', Star (NotChr (CHR ''>'')),
        Lit ''a-price-fraction'', Star (NotChr (CHR ''>'')), Chr (CHR ''>''), Star Space, Grp 2 (Rep 2 Digit)]"

text \<open>\<open><[^>]+>\<close>\<close>

definition TAG_RE :: regex where
  "TAG_RE = SeqAll [Chr (CHR ''<''), Plus (NotChr (CHR ''>'')), Chr (CHR ''>'')]"

definition AZ_OOS_MARKERS :: "string list" where
  "AZ_OOS_MARKERS =
     [''indisponivel'', ''indispon'' @ [CHR 0xED] @ ''vel'', ''fora de estoque'', ''sem estoque'',
      ''esgotad'', ''out of stock'', ''currently unavailable'',
      ''nao disponivel'', ''n'' @ [CHR 0xE3] @ ''o dispon'' @ [CHR 0xED] @ ''vel'']"

definition AZ_IN_STOCK_MARKERS :: "string list" where
  "AZ_IN_STOCK_MARKERS = [''em estoque'', ''in stock'']"

definition scoped_price :: "string \<Rightarrow> string \<Rightarrow> string \<Rightarrow> int option result" where
  "scoped_price page row_anchor sub_anchor =
     (case py_find row_anchor page of
        None \<Rightarrow> Inr None
      | Some row_pos \<Rightarrow>
          (case find_in sub_anchor page row_pos (row_pos + ROW_TO_ANCHOR_WINDOW) of
             None \<Rightarrow> Inr None
           | Some sub_pos \<Rightarrow>
               (case re_search PRICE_RE page sub_pos (sub_pos + ANCHOR_TO_PRICE_WINDOW) of
                  None \<Rightarrow> Inr None
                | Some (i, j, g) \<Rightarrow>
                    (case group_text page 1 g of Inl e \<Rightarrow> Inl e | Inr t \<Rightarrow> cents_of_brl t))))"

definition pix_at :: "string \<Rightarrow> nat \<Rightarrow> int option result" where
  "pix_at page sub_pos =
     (case re_search PIX_SPLIT_RE page sub_pos (sub_pos + PIX_VALUE_WINDOW) of
        Some (i, j, g) \<Rightarrow>
          (case group_text page 1 g of
             Inl e \<Rightarrow> Inl e
           | Inr whole \<Rightarrow>
               (case group_text page 2 g of
                  Inl e \<Rightarrow> Inl e
                | Inr fraction \<Rightarrow> cents_of_brl (whole @ '','' @ fraction)))
      | None \<Rightarrow>
          (case re_search PRICE_RE page sub_pos (sub_pos + PIX_VALUE_WINDOW) of
             None \<Rightarrow> Inr None
           | Some (i, j, g) \<Rightarrow>
               (case group_text page 1 g of Inl e \<Rightarrow> Inl e | Inr t \<Rightarrow> cents_of_brl t)))"

definition scoped_pix_price :: "string \<Rightarrow> string \<Rightarrow> int option result" where
  "scoped_pix_price page row_anchor =
     (case py_find row_anchor page of
        None \<Rightarrow> Inr None
      | Some row_pos \<Rightarrow>
          (case find_in PIX_VALUE_CLASS page row_pos (row_pos + ROW_TO_ANCHOR_WINDOW) of
             None \<Rightarrow> Inr None
           | Some sub_pos \<Rightarrow> pix_at page sub_pos))"

text \<open>An attribute \<open>id\<close> in double quotes, or else in single quotes.\<close>

definition find_id :: "string \<Rightarrow> string \<Rightarrow> nat option" where
  "find_id value page =
     (case py_find (''id='' @ quoted value) page of
        Some p \<Rightarrow> Some p
      | None \<Rightarrow> py_find (''id='' @ [CHR 0x27] @ value @ [CHR 0x27]) page)"

definition amazon_availability :: "string \<Rightarrow> availability" where
  "amazon_availability page =
     (case find_id ''availability'' page of
        None \<Rightarrow> UNKNOWN
      | Some pos \<Rightarrow>
          (let shown = py_lower (re_sub TAG_RE '' '' (slice page pos (pos + AZ_AVAILABILITY_WINDOW)))
           in if in_text AZ_OOS_MARKERS shown then OUT_OF_STOCK
              else if in_text AZ_IN_STOCK_MARKERS shown then IN_STOCK
              else UNKNOWN))"

definition amazon_prices :: "string \<Rightarrow> (int option \<times> int option \<times> int option \<times> int option) result" where
  "amazon_prices page =
     (case scoped_pix_price page ROW_PIX_REGULAR of
        Inl e \<Rightarrow> Inl e
      | Inr pix_regular \<Rightarrow>
          (case scoped_price page ROW_CARD_REGULAR CARD_SPAN_ID of
             Inl e \<Rightarrow> Inl e
           | Inr card_regular \<Rightarrow>
               (case scoped_pix_price page ROW_PIX_MEMBER of
                  Inl e \<Rightarrow> Inl e
                | Inr pix_member \<Rightarrow>
                    (case scoped_price page ROW_CARD_MEMBER CARD_SPAN_ID of
                       Inl e \<Rightarrow> Inl e
                     | Inr card_member \<Rightarrow> Inr (pix_regular, card_regular, pix_member, card_member)))))"

definition amazon_extract :: "string \<Rightarrow> page_extract result" where
  "amazon_extract page =
     (case amazon_prices page of
        Inl e \<Rightarrow> Inl e
      | Inr (pix_regular, card_regular, pix_member, card_member) \<Rightarrow>
          if pix_regular = None \<and> card_regular = None \<and> pix_member = None \<and> card_member = None
          then Inl (ParseError ''no Amazon price located (all four tiers absent)'')
          else Inr \<lparr> ex_price_pix_cents = pix_regular, ex_price_card_cents = card_regular, ex_currency = BRL,
                     ex_availability = amazon_availability page,
                     ex_price_pix_member_cents = pix_member, ex_price_card_member_cents = card_member \<rparr>)"

section \<open>The mercadolivre parser\<close>

text \<open>\<open><meta\b(?=[^>]*\bitemprop="price")(?=[^>]*\bcontent="([0-9]+(?:\.[0-9]+)?)")[^>]*>\<close>\<close>

definition attr_ahead :: "string \<Rightarrow> regex \<Rightarrow> regex" where
  "attr_ahead name value =
     Look (SeqAll [Star (NotChr (CHR ''>'')), WordB, Lit (name @ ''='' @ [Quote]), value, Chr Quote])"

definition PRICE_META_RE :: regex where
  "PRICE_META_RE =
     SeqAll [Lit ''<meta'', WordB, attr_ahead ''itemprop'' (Lit ''price''), attr_ahead ''content'' (Grp 1 Decimal),
             Star (NotChr (CHR ''>'')), Chr (CHR ''>'')]"

definition BLOCK_TO_META_WINDOW :: nat where
  "BLOCK_TO_META_WINDOW = 4000"

text \<open>\<open><script\b(?=[^>]*\btype="application/ld\+json")[^>]*>(.*?)</script>\<close> with DOTALL.\<close>

definition JSON_LD_BLOCK_RE :: regex where
  "JSON_LD_BLOCK_RE =
     SeqAll [Lit ''<script'', WordB, attr_ahead ''type'' (Lit ''application/ld+json''),
             Star (NotChr (CHR ''>'')), Chr (CHR ''>''), Grp 1 (Lazy Any), Lit ''</script>'']"

text \<open>\<open><link\b(?=[^>]*\brel="canonical")(?=[^>]*\bhref="([^"]*)")[^>]*>\<close>\<close>

definition CANONICAL_HREF_RE :: regex where
  "CANONICAL_HREF_RE =
     SeqAll [Lit ''<link'', WordB, attr_ahead ''rel'' (Lit ''canonical''), attr_ahead ''href'' (Grp 1 (Star (NotChr Quote))),
             Star (NotChr (CHR ''>'')), Chr (CHR ''>'')]"

text \<open>\<open>([^/]+)$\<close>\<close>

definition CANONICAL_ID_RE :: regex where
  "CANONICAL_ID_RE = Seq (Grp 1 (Plus (NotChr (CHR ''/'')))) AtEnd"

fun obj_get :: "json \<Rightarrow> string \<Rightarrow> json option" where
  "obj_get (JObj kvs) k = map_of kvs k"
| "obj_get _ k = None"

definition is_product :: "json \<Rightarrow> bool" where
  "is_product obj \<longleftrightarrow> obj_get obj ''@type'' = Some (JStr ''Product'')"

fun products_of_blocks :: "json_loads \<Rightarrow> string \<Rightarrow> (nat \<times> nat \<times> groups) list \<Rightarrow> json list result" where
  "products_of_blocks loads page [] = Inr []"
| "products_of_blocks loads page ((i, j, g) # ms) =
     (case group_text page 1 g of
        Inl e \<Rightarrow> Inl e
      | Inr raw \<Rightarrow>
          (case loads raw of
             Inl e \<Rightarrow>
               (if is_json_decode_error e \<or> is_recursion_error e \<or> is_value_error e \<or> is_overflow_error e
                then products_of_blocks loads page ms else Inl e)
           | Inr obj \<Rightarrow>
               (case products_of_blocks loads page ms of
                  Inl e \<Rightarrow> Inl e
                | Inr rest \<Rightarrow> Inr (if is_product obj then obj # rest else rest))))"

definition json_ld_products :: "json_loads \<Rightarrow> string \<Rightarrow> json list result" where
  "json_ld_products loads page = products_of_blocks loads page (re_finditer JSON_LD_BLOCK_RE page 0)"

definition canonical_product_id :: "string \<Rightarrow> string option" where
  "canonical_product_id page =
     (case re_search CANONICAL_HREF_RE page 0 (length page) of
        None \<Rightarrow> None
      | Some (i, j, g) \<Rightarrow>
          (case group page 1 g of
             None \<Rightarrow> None
           | Some href \<Rightarrow>
               (case re_search CANONICAL_ID_RE href 0 (length href) of
                  None \<Rightarrow> None
                | Some (i', j', g') \<Rightarrow> group href 1 g')))"

fun nonempty_text :: "json option \<Rightarrow> string option" where
  "nonempty_text (Some (JStr v)) = (if v = [] then None else Some v)"
| "nonempty_text _ = None"

definition product_sku :: "json \<Rightarrow> string option" where
  "product_sku item =
     (case nonempty_text (obj_get item ''sku'') of
        Some v \<Rightarrow> Some v
      | None \<Rightarrow> nonempty_text (obj_get item ''productID''))"

definition select_product :: "json list \<Rightarrow> string option \<Rightarrow> json option" where
  "select_product products canonical_id =
     (if length products = 1 then Some (hd products)
      else if products = [] \<or> canonical_id = None then None
      else (case filter (\<lambda>p. product_sku p = canonical_id) products of [m] \<Rightarrow> Some m | _ \<Rightarrow> None))"

fun is_dict :: "json \<Rightarrow> bool" where
  "is_dict (JObj _) = True"
| "is_dict _ = False"

definition offers_of :: "json \<Rightarrow> json option" where
  "offers_of item =
     (case obj_get item ''offers'' of
        Some (JObj kvs) \<Rightarrow> Some (JObj kvs)
      | Some (JList entries) \<Rightarrow>
          (case find (\<lambda>x. is_dict x \<and> obj_get x ''price'' \<noteq> None) entries of
             Some x \<Rightarrow> Some x
           | None \<Rightarrow> find is_dict entries)
      | _ \<Rightarrow> None)"

fun availability_from_schema_url :: "json option \<Rightarrow> availability" where
  "availability_from_schema_url (Some (JStr v)) =
     (let last_part = snd (snd (py_rpartition (CHR ''/'') v))
      in if last_part = availability_value IN_STOCK then IN_STOCK
         else if last_part = availability_value OUT_OF_STOCK then OUT_OF_STOCK
         else UNKNOWN)"
| "availability_from_schema_url _ = UNKNOWN"

text \<open>\<open>to_cents(offers.get("price")) if offers else None\<close>: an empty or absent offer has no price.\<close>

definition offer_cents :: "json option \<Rightarrow> int option result" where
  "offer_cents offers =
     (case offers of
        None \<Rightarrow> Inr None
      | Some x \<Rightarrow> (if x = JObj [] then Inr None
                 else (case obj_get x ''price'' of None \<Rightarrow> to_cents JNull | Some v \<Rightarrow> to_cents v)))"

text \<open>\<open>repr_json\<close> prints the value of \<open>offers.get("priceCurrency")\<close> in the error text.\<close>

definition product_extract :: "(json option \<Rightarrow> string) \<Rightarrow> json \<Rightarrow> page_extract result" where
  "product_extract repr_json item =
     (case offer_cents (offers_of item) of
        Inl e \<Rightarrow> Inl e
      | Inr None \<Rightarrow> Inl (ParseError ''MercadoLivre JSON-LD Product has no usable offers.price'')
      | Inr (Some price) \<Rightarrow>
          (let offer = the (offers_of item); currency = obj_get offer ''priceCurrency''
           in if currency \<noteq> Some (JStr BRL)
              then Inl (ParseError (''MercadoLivre JSON-LD Product offers.priceCurrency is not ''
                                    @ py_repr BRL @ '' (got '' @ repr_json currency @ '')''))
              else Inr (regular_extract (Some price) (Some price)
                         (availability_from_schema_url (obj_get offer ''availability'')))))"

definition extract_from_json_ld ::
  "json_loads \<Rightarrow> (json option \<Rightarrow> string) \<Rightarrow> string \<Rightarrow> page_extract option result" where
  "extract_from_json_ld loads repr_json page =
     (case json_ld_products loads page of
        Inl e \<Rightarrow> Inl e
      | Inr products \<Rightarrow>
          if products = [] then Inr None
          else (let canonical_id = canonical_product_id page
                in case select_product products canonical_id of
                     None \<Rightarrow>
                       Inl (ParseError (''multiple MercadoLivre JSON-LD Product nodes, none matching the ''
                                        @ ''page'' @ [CHR 0x27] @ ''s canonical product id''))
                   | Some item \<Rightarrow>
                       if product_sku item \<noteq> None \<and> canonical_id \<noteq> None \<and> product_sku item \<noteq> canonical_id
                       then Inl (ParseError (''MercadoLivre JSON-LD Product sku/productID does not match the ''
                                             @ ''page'' @ [CHR 0x27] @ ''s canonical product id''))
                       else (case product_extract repr_json item of Inl e \<Rightarrow> Inl e | Inr x \<Rightarrow> Inr (Some x))))"

definition STOCK_ANCHORS :: "string list" where
  "STOCK_ANCHORS = [''buybox_available_quantity'', ''ui-pdp-stock'']"

definition ML_AVAILABILITY_WINDOW :: nat where
  "ML_AVAILABILITY_WINDOW = 2000"

definition ML_OOS_MARKERS :: "string list" where
  "ML_OOS_MARKERS =
     [''sem estoque'', ''fora de estoque'', ''indisponivel'', ''indispon'' @ [CHR 0xED] @ ''vel'',
      ''esgotad'', ''produto pausado'', ''anuncio pausado'', ''an'' @ [CHR 0xFA] @ ''ncio pausado'',
      ''currently unavailable'', ''out of stock'']"

definition scoped_meta_price :: "string \<Rightarrow> int option result" where
  "scoped_meta_price page =
     (case find_id ''price'' page of
        None \<Rightarrow> Inr None
      | Some block_pos \<Rightarrow>
          (case re_search PRICE_META_RE page block_pos (block_pos + BLOCK_TO_META_WINDOW) of
             None \<Rightarrow> Inr None
           | Some (i, j, g) \<Rightarrow>
               (case group_text page 1 g of Inl e \<Rightarrow> Inl e | Inr t \<Rightarrow> cents_of_text t)))"

definition stock_anchor :: "string \<Rightarrow> nat option" where
  "stock_anchor page =
     fold (\<lambda>anchor best. case py_find anchor page of
                           None \<Rightarrow> best
                         | Some p \<Rightarrow> Some (case best of None \<Rightarrow> p | Some b \<Rightarrow> min b p)) STOCK_ANCHORS None"

definition ml_availability :: "string \<Rightarrow> availability" where
  "ml_availability page =
     (case stock_anchor page of
        None \<Rightarrow> UNKNOWN
      | Some pos \<Rightarrow>
          (let shown = py_lower (re_sub TAG_RE '' '' (slice page pos (pos + ML_AVAILABILITY_WINDOW)))
           in if in_text ML_OOS_MARKERS shown then OUT_OF_STOCK else IN_STOCK))"

definition mercadolivre_extract ::
  "json_loads \<Rightarrow> (json option \<Rightarrow> string) \<Rightarrow> string \<Rightarrow> page_extract result" where
  "mercadolivre_extract loads repr_json page =
     (case extract_from_json_ld loads repr_json page of
        Inl e \<Rightarrow> Inl e
      | Inr (Some x) \<Rightarrow> Inr x
      | Inr None \<Rightarrow>
          (case scoped_meta_price page of
             Inl e \<Rightarrow> Inl e
           | Inr None \<Rightarrow>
               Inl (ParseError (''no MercadoLivre price located ''
                                @ ''(JSON-LD offers.price / meta itemprop=price)''))
           | Inr (Some price) \<Rightarrow> Inr (regular_extract (Some price) (Some price) (ml_availability page))))"

section \<open>The factory\<close>

definition KIND_WHITELIST :: "string list" where
  "KIND_WHITELIST =
     [''jsonld'', ''statejson'', ''css'', ''regex'', ''amazon'', ''mercadolivre'', ''terabyte'', ''pichau'', ''magalu'']"

definition build_parser ::
  "json_loads \<Rightarrow> html_events \<Rightarrow> (json option \<Rightarrow> string) \<Rightarrow> parser_spec
    \<Rightarrow> (string \<Rightarrow> page_extract result) result" where
  "build_parser loads events repr_json spec =
     (let kind = ps_kind spec
      in if kind \<notin> set KIND_WHITELIST
         then Inl (UnknownParserKindError (''parser kind '' @ py_repr kind @ '' not in whitelist ''
                                           @ repr_list (sort KIND_WHITELIST)))
         else if kind = ''statejson'' then Inr (statejson_extract loads events spec)
         else if kind = ''amazon'' then Inr amazon_extract
         else if kind = ''mercadolivre'' then Inr (mercadolivre_extract loads repr_json)
         else if kind = ''terabyte'' then Inr terabyte_extract
         else if kind = ''pichau'' then Inr pichau_extract
         else if kind = ''magalu'' then Inr (magalu_extract loads events)
         else Inl (NotImplementedError (''parser kind '' @ py_repr kind @ '' is whitelisted but not wired at the MVP'')))"

section \<open>The amounts a pattern can capture\<close>

fun chars_in :: "(char \<Rightarrow> bool) \<Rightarrow> regex \<Rightarrow> bool" where
  "chars_in Q (Cls P) \<longleftrightarrow> (\<forall>c. P c \<longrightarrow> Q c)"
| "chars_in Q (Seq r1 r2) \<longleftrightarrow> chars_in Q r1 \<and> chars_in Q r2"
| "chars_in Q (Alt r1 r2) \<longleftrightarrow> chars_in Q r1 \<and> chars_in Q r2"
| "chars_in Q (Star r) \<longleftrightarrow> chars_in Q r"
| "chars_in Q (Lazy r) \<longleftrightarrow> chars_in Q r"
| "chars_in Q (Grp n r) \<longleftrightarrow> chars_in Q r"
| "chars_in Q _ \<longleftrightarrow> True"

lemma lang_chars: "lang r w \<Longrightarrow> chars_in Q r \<Longrightarrow> list_all Q w"
  by (induction rule: lang.induct) auto

lemma lang_Rep_Cls: "lang (Rep n (Cls P)) w \<Longrightarrow> length w = n \<and> list_all P w"
  by (induction n arbitrary: w) auto

definition amount_char :: "char \<Rightarrow> bool" where
  "amount_char c \<longleftrightarrow> is_ascii_digit c \<or> c = CHR ''.''"

lemma amount_char_facts:
  assumes "amount_char c"
  shows "\<not> char_isspace c" "c \<noteq> CHR ''-''" "c \<noteq> CHR ''+''" "c \<noteq> CHR ''_''" "c \<noteq> CHR ''e''" "c \<noteq> CHR ''i''"
    "c \<noteq> CHR ''n''" "c \<noteq> CHR '',''" "lower_char c = c"
  using assms
  by (auto simp: amount_char_def is_ascii_digit_def char_isspace_def code_def lower_char_def is_ascii_upper_def)

lemma drop_underscores_none: "CHR ''_'' \<notin> set s \<Longrightarrow> drop_underscores b s = Some s"
  by (induction s arbitrary: b) auto

lemma py_float_amount:
  assumes "list_all amount_char t" "t \<noteq> []"
  shows "py_float t = (case decimal_mantissa t of
                         Some q \<Rightarrow> Inr (to_float q)
                       | None \<Rightarrow> Inl (ValueError (''could not convert string to float: '' @ py_repr t)))"
proof -
  have ok: "\<And>c. c \<in> set t \<Longrightarrow> amount_char c" using assms(1) by (auto simp: list_all_iff)
  have strip: "py_strip t = t"
    unfolding py_strip_def by (subst dropWhile_none | simp add: ok amount_char_facts(1))+
  have lower: "py_lower t = t" unfolding py_lower_def by (rule map_idI) (simp add: ok amount_char_facts(9))
  obtain c cs where t: "t = c # cs" using assms(2) by (cases t) auto
  have sign: "\<not> starts_with ''-'' t" "\<not> starts_with ''+'' t"
    using ok [of c] by (auto simp: t starts_with_def amount_char_facts)
  have word: "t \<noteq> ''inf''" "t \<noteq> ''infinity''" "t \<noteq> ''nan''" using ok [of c] by (auto simp: t dest: amount_char_facts)
  have "CHR ''_'' \<notin> set t" "CHR ''e'' \<notin> set t" using ok amount_char_facts by blast+
  then show ?thesis
    by (simp add: py_float_def strip lower sign word drop_underscores_none decimal_value_def split_exponent_def
        py_partition_no Let_def split: option.splits)
qed

text \<open>\<open>whole,ff\<close> with thousands dots: the amount in cents is the number its digits write.\<close>

definition amount_cents :: "string \<Rightarrow> int" where
  "amount_cents t = int (digits_value (filter is_ascii_digit t))"

definition amount_text :: "string \<Rightarrow> bool" where
  "amount_text t \<longleftrightarrow> (\<exists>whole frac. t = whole @ CHR '','' # frac \<and> list_all amount_char whole
                       \<and> length frac = 2 \<and> list_all is_ascii_digit frac)"

lemma replace_char_drop: "replace_char c [] s = filter (\<lambda>x. x \<noteq> c) s"
  by (induction s) (auto simp: replace_char_def)

lemma replace_char_none: "c \<notin> set s \<Longrightarrow> replace_char c r s = s"
  by (induction s) (auto simp: replace_char_def)

lemma filter_digit_amount: "list_all amount_char w \<Longrightarrow> filter (\<lambda>x. x \<noteq> CHR ''.'') w = filter is_ascii_digit w"
  by (induction w) (auto simp: amount_char_def is_ascii_digit_def code_def)

lemma cents_of_brl_exact:
  assumes "amount_text t"
  shows "cents_of_brl t = Inr (sane_cents (amount_cents t))"
proof -
  obtain whole frac where t: "t = whole @ CHR '','' # frac" and w: "list_all amount_char whole"
    and f: "length frac = 2" "list_all is_ascii_digit frac"
    using assms by (auto simp: amount_text_def)
  let ?d = "filter is_ascii_digit whole"
  have dot: "CHR ''.'' \<notin> set frac" by (rule digit_not_in [OF f(2)]) (simp add: is_ascii_digit_def code_def)
  have comma: "CHR '','' \<notin> set frac" by (rule digit_not_in [OF f(2)]) (simp add: is_ascii_digit_def code_def)
  have d: "list_all is_ascii_digit ?d" by (simp add: list_all_iff)
  have comma': "CHR '','' \<notin> set ?d" by (rule digit_not_in [OF d]) (simp add: is_ascii_digit_def code_def)
  have 1: "replace_char (CHR ''.'') [] t = ?d @ CHR '','' # frac"
    using dot by (auto simp: t replace_char_drop filter_digit_amount [OF w] filter_id_conv)
  have 2: "replace_char (CHR '','') ''.'' (?d @ CHR '','' # frac) = ?d @ CHR ''.'' # frac"
    using replace_char_none [OF comma, of "''.''"] replace_char_none [OF comma', of "''.''"]
    by (simp add: replace_char_def)
  have dot': "CHR ''.'' \<notin> set ?d" by (rule digit_not_in [OF d]) (simp add: is_ascii_digit_def code_def)
  have mant: "decimal_mantissa (?d @ CHR ''.'' # frac) = Some (of_nat (digits_value (?d @ frac)) / 100)"
    using f d by (auto simp: decimal_mantissa_def py_partition_append [OF dot'])
  have amt: "list_all amount_char (?d @ CHR ''.'' # frac)"
    using d f(2) by (auto simp: list_all_iff amount_char_def)
  have digits: "filter is_ascii_digit t = ?d @ frac"
    using f(2) by (simp add: t is_ascii_digit_def code_def) (simp add: list_all_iff filter_id_conv is_ascii_digit_def code_def)
  have "brl_to_reais t = Inr (to_float (of_int (amount_cents t) / 100))"
    unfolding brl_to_reais_def 1 2 using py_float_amount [OF amt]
    by (simp add: mant amount_cents_def digits)
  then show ?thesis
    using to_cents_exact [of "amount_cents t"] by (simp add: cents_of_brl_def amount_cents_def)
qed

lemma lang_Amount: "lang Amount t \<Longrightarrow> amount_text t"
proof -
  assume "lang Amount t"
  then obtain a b f where t: "t = a @ b @ CHR '','' # f" and a: "lang (RepTo 1 2 Digit) a"
    and b: "lang (Star (Seq (Chr (CHR ''.'')) (Rep 3 Digit))) b" and f: "lang (Rep 2 Digit) f"
    by (auto simp: Amount_def Chr_def)
  have "list_all amount_char a"
    by (rule lang_chars [OF a]) (simp add: Digit_def amount_char_def numeral_2_eq_2)
  moreover have "list_all amount_char b"
    by (rule lang_chars [OF b]) (simp add: Digit_def Chr_def amount_char_def eval_nat_numeral)
  moreover have "length f = 2 \<and> list_all is_ascii_digit f"
    using f lang_Rep_Cls unfolding Digit_def by blast
  ultimately show ?thesis unfolding amount_text_def t
    by (intro exI [of _ "a @ b"] exI [of _ f]) simp
qed

lemma lang_Plus_Cls: "lang (Plus (Cls P)) w \<Longrightarrow> w \<noteq> [] \<and> list_all P w"
proof -
  assume w: "lang (Plus (Cls P)) w"
  have "list_all P w" by (rule lang_chars [OF w]) (simp add: Plus_def)
  with w show ?thesis by (auto simp: Plus_def)
qed

lemma lang_Decimal: "lang Decimal t \<Longrightarrow> \<exists>q. decimal_mantissa t = Some q \<and> list_all amount_char t \<and> t \<noteq> []"
proof -
  assume "lang Decimal t"
  then obtain a b where t: "t = a @ b" and a: "lang (Plus Digit) a"
    and b: "b = [] \<or> (\<exists>f. b = CHR ''.'' # f \<and> lang (Plus Digit) f)"
    by (auto simp: Decimal_def Opt_def Chr_def)
  have a': "a \<noteq> []" "list_all is_ascii_digit a" using lang_Plus_Cls a unfolding Digit_def by blast+
  have dot: "CHR ''.'' \<notin> set a" by (rule digit_not_in [OF a'(2)]) (simp add: is_ascii_digit_def code_def)
  from b show ?thesis
  proof
    assume "b = []"
    with t a' dot show ?thesis
      by (simp add: decimal_mantissa_def py_partition_no) (auto simp: list_all_iff amount_char_def)
  next
    assume "\<exists>f. b = CHR ''.'' # f \<and> lang (Plus Digit) f"
    then obtain f where f: "b = CHR ''.'' # f" "lang (Plus Digit) f" by blast
    have "list_all is_ascii_digit f" using lang_Plus_Cls f(2) unfolding Digit_def by blast
    with t f a' dot show ?thesis
      by (simp add: decimal_mantissa_def py_partition_append) (auto simp: list_all_iff amount_char_def)
  qed
qed

lemma cents_of_text_ok: "lang Decimal t \<Longrightarrow> \<exists>x. cents_of_text t = Inr x \<and> sane_slot x"
proof -
  assume "lang Decimal t"
  from lang_Decimal [OF this] obtain q where q: "py_float t = Inr (to_float q)"
    using py_float_amount by fastforce
  obtain x where x: "to_cents (JFloat (to_float q)) = Inr x"
    using to_cents_raises [of "JFloat (to_float q)"] by (cases "to_cents (JFloat (to_float q))") auto
  with to_cents_sane [OF x] q show ?thesis by (simp add: cents_of_text_def)
qed

lemma cents_of_brl_ok: "amount_text t \<Longrightarrow> \<exists>x. cents_of_brl t = Inr x \<and> sane_slot x"
  using cents_of_brl_exact by (auto simp: sane_cents_def)

section \<open>Searches that capture an amount\<close>

lemma grp_bodies_Lit [simp]: "grp_bodies n (Lit s) = {}"
  by (induction s) (simp_all add: Chr_def)

lemma grp_bodies_Rep: "grp_bodies n r = {} \<Longrightarrow> grp_bodies n (Rep k r) = {}"
  by (induction k) simp_all

lemma grp_bodies_RepTo: "grp_bodies n r = {} \<Longrightarrow> grp_bodies n (RepTo m k r) = {}"
  by (induction k) (simp_all add: grp_bodies_Rep)

lemma grp_bodies_atoms [simp]:
  "grp_bodies n (Chr c) = {}" "grp_bodies n (NotChr c) = {}" "grp_bodies n Any = {}" "grp_bodies n Digit = {}"
  "grp_bodies n Space = {}" "grp_bodies n Escaped = {}" "grp_bodies n Decimal = {}" "grp_bodies n Amount = {}"
  "grp_bodies n (Plus r) = grp_bodies n r" "grp_bodies n (Opt r) = grp_bodies n r"
  by (simp_all add: Chr_def NotChr_def Any_def Digit_def Space_def Escaped_def Decimal_def Amount_def Plus_def Opt_def
      grp_bodies_Rep grp_bodies_RepTo)

lemma re_search_pos: "re_search r s pos endpos = Some m \<Longrightarrow> pos \<le> min endpos (length s)"
  by (cases "Suc (min endpos (length s)) - pos") (auto simp: re_search_def Let_def)

text \<open>A search whose group 1 has one body captures a text in the language of that body.\<close>

lemma group_text_lang:
  assumes "re_search r s pos endpos = Some (i, j, g)" "sets_grp n r" "grp_bodies n r = {b}"
  obtains k l where "group_text s n g = Inr (slice s k l)" "lang b (slice s k l)"
    "pos \<le> k" "k \<le> l" "l \<le> min endpos (length s)"
proof -
  from search_group [OF assms(1) re_search_pos [OF assms(1)] assms(2)] obtain k l c
    where "group s n g = Some (slice s k l)" "pos \<le> k" "k \<le> l" "l \<le> min endpos (length s)"
      "c \<in> grp_bodies n r" "lang c (slice s k l)" .
  with assms(3) that show thesis by (simp add: group_text_def)
qed

lemma PRICE_RE_group: "sets_grp 1 PRICE_RE" "grp_bodies 1 PRICE_RE = {Amount}"
  by (simp_all add: PRICE_RE_def)

lemma flight_group: "sets_grp 1 (flight_number_re key)" "grp_bodies 1 (flight_number_re key) = {Decimal}"
  by (simp_all add: flight_number_re_def)

lemma PRICE_META_group: "sets_grp 1 PRICE_META_RE" "grp_bodies 1 PRICE_META_RE = {Decimal}"
  by (simp_all add: PRICE_META_RE_def attr_ahead_def)

lemma id_text_group: "sets_grp 1 (id_text_re v)" "grp_bodies 1 (id_text_re v) = {Star (NotChr (CHR ''<''))}"
  by (simp_all add: id_text_re_def)

lemma JSON_LD_group: "sets_grp 1 JSON_LD_BLOCK_RE" "grp_bodies 1 JSON_LD_BLOCK_RE = {Lazy Any}"
  by (simp_all add: JSON_LD_BLOCK_RE_def attr_ahead_def)

lemma PIX_SPLIT_group:
  "sets_grp 1 PIX_SPLIT_RE" "grp_bodies 1 PIX_SPLIT_RE = {Plus (Cls (\<lambda>c. is_ascii_digit c \<or> c = CHR ''.''))}"
  "sets_grp 2 PIX_SPLIT_RE" "grp_bodies 2 PIX_SPLIT_RE = {Rep 2 Digit}"
  by (simp_all add: PIX_SPLIT_RE_def grp_bodies_Rep)

text \<open>A lookup of a price never raises and returns a price within the bounds or none.\<close>

definition lookup_ok :: "int option result \<Rightarrow> bool" where
  "lookup_ok r \<longleftrightarrow> (\<exists>x. r = Inr x \<and> sane_slot x)"

lemma lookup_ok_None [simp]: "lookup_ok (Inr None)"
  by (simp add: lookup_ok_def)

lemma captured_amount_ok:
  assumes "re_search PRICE_RE s pos endpos = Some (i, j, g)"
  shows "lookup_ok (case group_text s 1 g of Inl e \<Rightarrow> Inl e | Inr t \<Rightarrow> cents_of_brl t)"
  using group_text_lang [OF assms PRICE_RE_group] cents_of_brl_ok lang_Amount
  unfolding lookup_ok_def by (metis sum.case(2))

lemma captured_decimal_ok:
  assumes "re_search r s pos endpos = Some (i, j, g)" "sets_grp 1 r" "grp_bodies 1 r = {Decimal}"
  shows "lookup_ok (case group_text s 1 g of Inl e \<Rightarrow> Inl e | Inr t \<Rightarrow> cents_of_text t)"
  using group_text_lang [OF assms] cents_of_text_ok unfolding lookup_ok_def by (metis sum.case(2))

lemma split_amount:
  assumes "re_search PIX_SPLIT_RE s pos endpos = Some (i, j, g)"
  obtains whole frac where "group_text s 1 g = Inr whole" "group_text s 2 g = Inr frac"
    "amount_text (whole @ '','' @ frac)"
proof -
  obtain whole where w: "group_text s 1 g = Inr whole" "lang (Plus (Cls (\<lambda>c. is_ascii_digit c \<or> c = CHR ''.''))) whole"
    by (rule group_text_lang [OF assms PIX_SPLIT_group(1,2)])
  obtain frac where f: "group_text s 2 g = Inr frac" "lang (Rep 2 Digit) frac"
    by (rule group_text_lang [OF assms PIX_SPLIT_group(3,4)])
  have "list_all amount_char whole"
    using lang_Plus_Cls [OF w(2)] by (simp add: list_all_iff amount_char_def)
  moreover have "length frac = 2 \<and> list_all is_ascii_digit frac"
    using f(2) lang_Rep_Cls unfolding Digit_def by blast
  ultimately have "amount_text (whole @ '','' @ frac)" by (auto simp: amount_text_def)
  with w(1) f(1) that show thesis by blast
qed

lemma scoped_flight_price_ok: "lookup_ok (scoped_flight_price page (flight_number_re key))"
  unfolding scoped_flight_price_def
  by (auto simp del: One_nat_def split: option.splits intro: captured_decimal_ok [OF _ flight_group])

lemma scoped_meta_price_ok: "lookup_ok (scoped_meta_price page)"
  unfolding scoped_meta_price_def
  by (auto simp del: One_nat_def split: option.splits intro: captured_decimal_ok [OF _ PRICE_META_group])

lemma scoped_price_ok: "lookup_ok (scoped_price page row sub)"
  unfolding scoped_price_def by (auto simp del: One_nat_def split: option.splits intro: captured_amount_ok)

lemma pix_at_ok: "lookup_ok (pix_at page pos)"
proof (cases "re_search PIX_SPLIT_RE page pos (pos + PIX_VALUE_WINDOW)")
  case None
  then show ?thesis unfolding pix_at_def by (auto simp del: One_nat_def split: option.splits intro: captured_amount_ok)
next
  case (Some m)
  obtain i j g where m: "m = (i, j, g)" by (cases m)
  from split_amount [OF Some [unfolded m]] obtain whole frac
    where "group_text page 1 g = Inr whole" "group_text page 2 g = Inr frac" "amount_text (whole @ '','' @ frac)" .
  then show ?thesis
    using cents_of_brl_ok [of "whole @ '','' @ frac"] Some m by (auto simp: pix_at_def lookup_ok_def)
qed

lemma scoped_pix_price_ok: "lookup_ok (scoped_pix_price page row)"
  unfolding scoped_pix_price_def by (auto split: option.splits intro: pix_at_ok)

lemma finditer_search: "m \<in> set (re_finditer r s pos) \<Longrightarrow> \<exists>p. re_search r s p (length s) = Some m"
proof (induction r s pos rule: re_finditer.induct)
  case (1 r s pos)
  show ?case
  proof (cases "re_search r s pos (length s)")
    case None
    with "1.prems" show ?thesis by (subst (asm) re_finditer.simps) simp
  next
    case (Some x)
    obtain i j g where x: "x = (i, j, g)" by (cases x)
    show ?thesis
    proof (cases "m = x")
      case False
      with "1.prems" Some x have
        "m \<in> set (re_finditer r s (if i < j then j else Suc i))"
        "pos < (if i < j then j else Suc i) \<and> (if i < j then j else Suc i) \<le> Suc (length s)"
        by (subst (asm) re_finditer.simps; auto simp: Let_def split: if_splits)+
      with "1.IH" [OF Some x [symmetric] refl refl] show ?thesis by simp
    qed (use Some in blast)
  qed
qed

lemma element_price_ok:
  assumes "(i, j, g) \<in> set (re_finditer (id_text_re v) page pos)"
  shows "lookup_ok (element_price page g)"
proof -
  from finditer_search [OF assms] obtain p where "re_search (id_text_re v) page p (length page) = Some (i, j, g)" ..
  from group_text_lang [OF this id_text_group] obtain own where "group_text page 1 g = Inr own" by blast
  then show ?thesis by (auto simp: element_price_def simp del: One_nat_def split: option.splits intro: captured_amount_ok)
qed

lemma first_priced_ok:
  "(\<And>i j g. (i, j, g) \<in> set ms \<Longrightarrow> lookup_ok (element_price page g)) \<Longrightarrow> lookup_ok (first_priced page ms)"
proof (induction ms)
  case (Cons m ms)
  obtain i j g where m: "m = (i, j, g)" by (cases m)
  have "lookup_ok (element_price page g)" using Cons.prems [of i j g] by (simp add: m)
  moreover have "lookup_ok (first_priced page ms)" by (rule Cons.IH) (use Cons.prems in auto)
  ultimately show ?case by (auto simp: m lookup_ok_def split: option.splits)
qed simp

lemma first_valid_id_price_ok: "lookup_ok (first_valid_id_price page v)"
  unfolding first_valid_id_price_def by (rule first_priced_ok) (rule element_price_ok)

section \<open>What a parser of the factory returns\<close>

text \<open>The outcome of a fail-closed parser that has nothing else to raise.\<close>

definition closed_outcome :: "page_extract result \<Rightarrow> bool" where
  "closed_outcome r \<longleftrightarrow> (\<exists>x. r = Inr x \<and> sound_extract x) \<or> (\<exists>m. r = Inl (ParseError m))"

lemma two_prices_closed:
  "sane_slot pix \<Longrightarrow> sane_slot cp \<Longrightarrow>
     closed_outcome (if pix = None \<and> cp = None then Inl (ParseError m) else Inr (regular_extract pix cp av))"
  using regular_extract_sound by (simp add: closed_outcome_def)

lemma pichau_closed: "closed_outcome (pichau_extract page)"
  using scoped_flight_price_ok [of page "''avista''"] scoped_flight_price_ok [of page "''final_price''"]
  unfolding pichau_extract_def lookup_ok_def by (elim exE conjE, simp only: sum.case) (rule two_prices_closed)

lemma terabyte_closed: "closed_outcome (terabyte_extract page)"
  using first_valid_id_price_ok [of page ID_VISTA] first_valid_id_price_ok [of page ID_PARC]
  unfolding terabyte_extract_def lookup_ok_def by (elim exE conjE, simp only: sum.case) (rule two_prices_closed)

lemma amazon_closed: "closed_outcome (amazon_extract page)"
  using scoped_pix_price_ok [of page ROW_PIX_REGULAR] scoped_price_ok [of page ROW_CARD_REGULAR CARD_SPAN_ID]
    scoped_pix_price_ok [of page ROW_PIX_MEMBER] scoped_price_ok [of page ROW_CARD_MEMBER CARD_SPAN_ID]
  unfolding amazon_extract_def amazon_prices_def lookup_ok_def closed_outcome_def
  by (elim exE conjE) (simp add: sound_extract_def has_price_def)

lemma closed_sound: "closed_outcome r \<Longrightarrow> r = Inr x \<Longrightarrow> sound_extract x"
  by (auto simp: closed_outcome_def)

lemma offer_cents_sane: "offer_cents x = Inr y \<Longrightarrow> sane_slot y"
  by (auto simp: offer_cents_def to_cents_sane split: option.splits if_splits)

lemma product_extract_sound: "product_extract rj item = Inr x \<Longrightarrow> sound_extract x"
  by (auto simp: product_extract_def Let_def split: sum.splits option.splits if_splits
      dest!: offer_cents_sane intro!: regular_extract_sound)

lemma json_ld_sound: "extract_from_json_ld loads rj page = Inr (Some x) \<Longrightarrow> sound_extract x"
  by (auto simp: extract_from_json_ld_def Let_def product_extract_sound split: sum.splits option.splits if_splits)

lemma mercadolivre_sound: "mercadolivre_extract loads rj page = Inr x \<Longrightarrow> sound_extract x"
  using scoped_meta_price_ok [of page]
  by (auto simp: mercadolivre_extract_def lookup_ok_def json_ld_sound split: sum.splits option.splits
      intro!: regular_extract_sound)

lemma built_parser_cases:
  assumes "build_parser loads events rj spec = Inr parse"
  obtains "parse = statejson_extract loads events spec" | "parse = magalu_extract loads events"
    | "parse = mercadolivre_extract loads rj" | "parse = amazon_extract" | "parse = terabyte_extract"
    | "parse = pichau_extract"
  using assms by (auto simp: build_parser_def Let_def split: if_splits)

text \<open>C26: a parser is built exactly for the six wired kinds; an unknown kind and a whitelisted but
  unwired one are refused before any page is read. Whatever the page, the JSON decoder and the HTML
  tokeniser do, a parser that returns an extract returns at least one price, every price between one
  cent and the upper bound, and the currency BRL; so an unreadable page can only raise.\<close>

theorem parsers_fail_closed:
  "(\<forall>parse page x. build_parser loads events rj spec = Inr parse \<longrightarrow> parse page = Inr x \<longrightarrow>
      has_price x \<and> ex_currency x = ''BRL''
      \<and> (\<forall>c. Some c \<in> {ex_price_pix_cents x, ex_price_card_cents x, ex_price_pix_member_cents x,
                       ex_price_card_member_cents x} \<longrightarrow> 1 \<le> c \<and> c \<le> 100000000))
   \<and> ((\<exists>parse. build_parser loads events rj spec = Inr parse) \<longleftrightarrow>
        ps_kind spec \<in> {''statejson'', ''amazon'', ''mercadolivre'', ''terabyte'', ''pichau'', ''magalu''})
   \<and> ((\<exists>m. build_parser loads events rj spec = Inl (NotImplementedError m)) \<longleftrightarrow>
        ps_kind spec \<in> {''jsonld'', ''css'', ''regex''})
   \<and> ((\<exists>m. build_parser loads events rj spec = Inl (UnknownParserKindError m)) \<longleftrightarrow>
        ps_kind spec \<notin> set KIND_WHITELIST)"
proof (intro conjI allI impI)
  fix parse page x
  assume b: "build_parser loads events rj spec = Inr parse" and p: "parse page = Inr x"
  have "sound_extract x"
    using b by (rule built_parser_cases)
      (use p statejson_sound magalu_sound mercadolivre_sound closed_sound amazon_closed terabyte_closed
        pichau_closed in blast)+
  then show "has_price x" "ex_currency x = ''BRL''"
    "\<And>c. Some c \<in> {ex_price_pix_cents x, ex_price_card_cents x, ex_price_pix_member_cents x,
                    ex_price_card_member_cents x} \<Longrightarrow> 1 \<le> c"
    "\<And>c. Some c \<in> {ex_price_pix_cents x, ex_price_card_cents x, ex_price_pix_member_cents x,
                    ex_price_card_member_cents x} \<Longrightarrow> c \<le> 100000000"
    by (auto simp: sound_extract_def BRL_def sane_slot_def MAX_PRICE_CENTS_def)
qed (auto simp: build_parser_def KIND_WHITELIST_def Let_def split: if_splits)

text \<open>On any page whatsoever the amazon, terabyte and pichau parsers return an extract or raise
  ParseError, nothing else: no captured text is ever refused by \<open>float()\<close> or the arithmetic.\<close>

theorem text_parsers_only_parse_error:
  "((\<exists>x. amazon_extract page = Inr x) \<or> (\<exists>m. amazon_extract page = Inl (ParseError m)))
   \<and> ((\<exists>x. terabyte_extract page = Inr x) \<or> (\<exists>m. terabyte_extract page = Inl (ParseError m)))
   \<and> ((\<exists>x. pichau_extract page = Inr x) \<or> (\<exists>m. pichau_extract page = Inl (ParseError m)))"
  using amazon_closed [of page] terabyte_closed [of page] pichau_closed [of page]
  unfolding closed_outcome_def by blast

section \<open>The price read is the price shown\<close>

lemma py_find_Some_starts: "py_find p s = Some i \<Longrightarrow> starts_with p (drop i s)"
  by (induction s arbitrary: i) (auto simp: starts_with_def split: if_splits)

lemma starts_with_take: "starts_with p (take n s) \<Longrightarrow> starts_with p s"
  by (metis append_assoc append_take_drop_id starts_with_iff)

lemma find_in_Some:
  assumes "find_in p s i j = Some k"
  shows "i \<le> k" "starts_with p (drop k s)"
proof -
  from assms obtain m where m: "py_find p (slice s i j) = Some m" "k = m + i" by (auto simp: find_in_def)
  then show "i \<le> k" by simp
  from py_find_Some_starts [OF m(1)] show "starts_with p (drop k s)"
    by (auto simp: slice_def m(2) drop_take intro: starts_with_take)
qed

lemma find_in_near: "find_in p s i j = Some k \<Longrightarrow> k \<le> j \<or> k = i"
  using py_find_Some_bound by (fastforce simp: find_in_def slice_def)

definition shown_amount :: "string \<Rightarrow> nat \<Rightarrow> nat \<Rightarrow> int \<Rightarrow> bool" where
  "shown_amount page lo hi c \<longleftrightarrow>
     (\<exists>k l. lo \<le> k \<and> k \<le> l \<and> l \<le> hi \<and> amount_text (slice page k l) \<and> c = amount_cents (slice page k l))"

definition shown_split_amount :: "string \<Rightarrow> nat \<Rightarrow> nat \<Rightarrow> int \<Rightarrow> bool" where
  "shown_split_amount page lo hi c \<longleftrightarrow>
     (\<exists>k l m n. lo \<le> k \<and> k \<le> l \<and> l \<le> hi \<and> lo \<le> m \<and> m \<le> n \<and> n \<le> hi
        \<and> amount_text (slice page k l @ '','' @ slice page m n)
        \<and> c = amount_cents (slice page k l @ '','' @ slice page m n))"


lemma captured_amount_shown:
  assumes "re_search PRICE_RE s pos endpos = Some (i, j, g)"
    "(case group_text s 1 g of Inl e \<Rightarrow> Inl e | Inr t \<Rightarrow> cents_of_brl t) = Inr (Some c)"
  shows "shown_amount s pos endpos c"
proof -
  from group_text_lang [OF assms(1) PRICE_RE_group] obtain k l
    where kl: "group_text s 1 g = Inr (slice s k l)" "lang Amount (slice s k l)"
      "pos \<le> k" "k \<le> l" "l \<le> min endpos (length s)" .
  from lang_Amount [OF kl(2)] have amt: "amount_text (slice s k l)" .
  with assms(2) kl(1) have "c = amount_cents (slice s k l)"
    by (simp add: cents_of_brl_exact sane_cents_Some del: One_nat_def)
  with kl amt show ?thesis unfolding shown_amount_def by fastforce
qed

lemma split_amount_shown:
  assumes "re_search PIX_SPLIT_RE s pos endpos = Some (i, j, g)"
    "(case group_text s 1 g of Inl e \<Rightarrow> Inl e | Inr whole \<Rightarrow>
       (case group_text s 2 g of Inl e \<Rightarrow> Inl e | Inr f \<Rightarrow> cents_of_brl (whole @ '','' @ f))) = Inr (Some c)"
  shows "shown_split_amount s pos endpos c"
proof -
  from group_text_lang [OF assms(1) PIX_SPLIT_group(1,2)] obtain k l
    where kl: "group_text s 1 g = Inr (slice s k l)" "pos \<le> k" "k \<le> l" "l \<le> min endpos (length s)" .
  from group_text_lang [OF assms(1) PIX_SPLIT_group(3,4)] obtain m n
    where mn: "group_text s 2 g = Inr (slice s m n)" "pos \<le> m" "m \<le> n" "n \<le> min endpos (length s)" .
  from split_amount [OF assms(1)] kl(1) mn(1) have amt: "amount_text (slice s k l @ '','' @ slice s m n)"
    by (metis sum.inject(2))
  with assms(2) kl(1) mn(1) have "c = amount_cents (slice s k l @ '','' @ slice s m n)"
    by (simp add: cents_of_brl_exact sane_cents_Some del: One_nat_def)
  with kl mn amt show ?thesis unfolding shown_split_amount_def by fastforce
qed

lemma pix_at_shown:
  "pix_at page p = Inr (Some c) \<Longrightarrow>
     shown_split_amount page p (p + PIX_VALUE_WINDOW) c \<or> shown_amount page p (p + PIX_VALUE_WINDOW) c"
  unfolding pix_at_def
  by (auto simp del: One_nat_def split: option.splits intro: split_amount_shown captured_amount_shown)

text \<open>An amazon price is the amount shown on the page, in cents, to the last digit, read inside
  its scope: the tier's row anchor occurs, the tier's own sub-anchor occurs after it within 8000
  characters, and the digits read are those of one amount text (or of one pair of whole and
  fraction spans) that lies within 2000 characters (500 for the split price) of that sub-anchor.\<close>

theorem amazon_price_is_shown:
  "(scoped_price page row sub = Inr (Some c) \<longrightarrow>
      (\<exists>r p. py_find row page = Some r \<and> r \<le> p \<and> p \<le> r + 8000 \<and> starts_with sub (drop p page)
         \<and> shown_amount page p (p + 2000) c))
   \<and> (scoped_pix_price page row = Inr (Some c) \<longrightarrow>
      (\<exists>r p. py_find row page = Some r \<and> r \<le> p \<and> p \<le> r + 8000
         \<and> starts_with ''apex-pricetopay-value'' (drop p page)
         \<and> (shown_split_amount page p (p + 500) c \<or> shown_amount page p (p + 500) c)))"
proof (intro conjI impI)
  assume "scoped_price page row sub = Inr (Some c)"
  then obtain r p i j g where r: "py_find row page = Some r"
    and p: "find_in sub page r (r + ROW_TO_ANCHOR_WINDOW) = Some p"
    and m: "re_search PRICE_RE page p (p + ANCHOR_TO_PRICE_WINDOW) = Some (i, j, g)"
      "(case group_text page 1 g of Inl e \<Rightarrow> Inl e | Inr t \<Rightarrow> cents_of_brl t) = Inr (Some c)"
    by (auto simp: scoped_price_def simp del: One_nat_def split: option.splits)
  from find_in_Some [OF p] find_in_near [OF p] captured_amount_shown [OF m] r
  show "\<exists>r p. py_find row page = Some r \<and> r \<le> p \<and> p \<le> r + 8000 \<and> starts_with sub (drop p page)
         \<and> shown_amount page p (p + 2000) c"
    by (auto simp: ROW_TO_ANCHOR_WINDOW_def ANCHOR_TO_PRICE_WINDOW_def)
next
  assume "scoped_pix_price page row = Inr (Some c)"
  then obtain r p where r: "py_find row page = Some r"
    and p: "find_in PIX_VALUE_CLASS page r (r + ROW_TO_ANCHOR_WINDOW) = Some p" and c: "pix_at page p = Inr (Some c)"
    by (auto simp: scoped_pix_price_def split: option.splits)
  from find_in_Some [OF p] find_in_near [OF p] pix_at_shown [OF c] r
  show "\<exists>r p. py_find row page = Some r \<and> r \<le> p \<and> p \<le> r + 8000
         \<and> starts_with ''apex-pricetopay-value'' (drop p page)
         \<and> (shown_split_amount page p (p + 500) c \<or> shown_amount page p (p + 500) c)"
    by (auto simp: ROW_TO_ANCHOR_WINDOW_def PIX_VALUE_WINDOW_def PIX_VALUE_CLASS_def)
qed

section \<open>The product node of the page is authoritative\<close>

lemma select_product_Some:
  assumes "select_product ps cid = Some item"
  shows "item \<in> set ps" "length ps = 1 \<or> (cid \<noteq> None \<and> filter (\<lambda>p. product_sku p = cid) ps = [item])"
  using assms
  by (auto simp: select_product_def length_Suc_conv split: if_splits list.splits)
     (metis filter_is_subset list.set_intros(1) subsetD)

lemma products_are_products: "products_of_blocks loads page ms = Inr ps \<Longrightarrow> item \<in> set ps \<Longrightarrow> is_product item"
  by (induction ms arbitrary: ps) (auto split: sum.splits if_splits)

text \<open>Once the page carries a JSON-LD product, the mercadolivre parser answers from a product
  node or not at all: the node is the only one, or the only one whose identifier is the page's
  canonical one; an identifier that disagrees with the canonical one is refused; the price is that
  of its offer and the offer is in BRL.\<close>

theorem json_ld_product_authoritative:
  assumes "json_ld_products loads page = Inr ps" "ps \<noteq> []" "mercadolivre_extract loads rj page = Inr x"
  shows "\<exists>item offer price. item \<in> set ps \<and> is_product item
    \<and> (length ps = 1 \<or> (canonical_product_id page \<noteq> None
         \<and> filter (\<lambda>p. product_sku p = canonical_product_id page) ps = [item]))
    \<and> (product_sku item = None \<or> canonical_product_id page = None \<or> product_sku item = canonical_product_id page)
    \<and> offers_of item = Some offer \<and> offer_cents (Some offer) = Inr (Some price)
    \<and> obj_get offer ''priceCurrency'' = Some (JStr ''BRL'')
    \<and> x = regular_extract (Some price) (Some price) (availability_from_schema_url (obj_get offer ''availability''))"
proof -
  let ?cid = "canonical_product_id page"
  from assms obtain item where sel: "select_product ps ?cid = Some item"
    and sku: "product_sku item = None \<or> ?cid = None \<or> product_sku item = ?cid"
    and pe: "product_extract rj item = Inr x"
    by (auto simp: mercadolivre_extract_def extract_from_json_ld_def Let_def split: sum.splits option.splits if_splits)
  from assms(1) select_product_Some(1) [OF sel] have "is_product item"
    using products_are_products by (auto simp: json_ld_products_def)
  moreover from pe obtain price where price: "offer_cents (offers_of item) = Inr (Some price)"
    by (auto simp: product_extract_def split: sum.splits option.splits)
  moreover from price obtain offer where "offers_of item = Some offer"
    by (auto simp: offer_cents_def split: option.splits)
  ultimately show ?thesis
    using select_product_Some [OF sel] sku pe
    by (auto simp: product_extract_def Let_def BRL_def split: if_splits)
qed

section \<open>Concrete pages\<close>

lemma cents_of_text_exact:
  assumes "list_all amount_char t" "t \<noteq> []" "decimal_mantissa t = Some (of_int n / 100)" "0 \<le> n"
  shows "cents_of_text t = Inr (sane_cents n)"
  using py_float_amount [OF assms(1,2)] to_cents_exact [OF assms(4)] by (simp add: cents_of_text_def assms(3))

definition sample_flight :: string where
  "sample_flight = ''pichau_prices'' @ [Quote] @ '':{'' @ quoted ''avista'' @ '':149.99,'' @ quoted ''final_price''
     @ '':176.46}'' @ quoted ''stock_status'' @ '':'' @ quoted ''IN_STOCK''"

lemma sample_flight_anchor: "py_find FLIGHT_ANCHOR sample_flight = Some 0"
  by code_simp

lemma sample_avista: "re_search (flight_number_re ''avista'') sample_flight 0 600 = Some (17, 31, [(1, 25, 31)])"
  by code_simp

lemma sample_avista_text: "slice sample_flight 25 31 = ''149.99''"
  by code_simp

lemma sample_avista_price: "scoped_flight_price sample_flight (flight_number_re ''avista'') = Inr (Some 14999)"
proof -
  have "decimal_mantissa ''149.99'' = Some (of_int 14999 / 100)" "list_all amount_char ''149.99''" by code_simp+
  then have "cents_of_text ''149.99'' = Inr (Some 14999)"
    using cents_of_text_exact [of "''149.99''" 14999] by (simp add: sane_cents_def MAX_PRICE_CENTS_def)
  then show ?thesis
    by (simp add: scoped_flight_price_def sample_flight_anchor sample_avista FLIGHT_WINDOW_def group_text_def
        group_def sample_avista_text)
qed

definition pichau_spec :: parser_spec where
  "pichau_spec = \<lparr> ps_kind = ''pichau'', ps_pix = None, ps_card = None, ps_availability = None \<rparr>"

theorem parsers_fail_closed_witness:
  "\<exists>x. pichau_extract sample_flight = Inr x \<and> ex_price_pix_cents x = Some 14999 \<and> has_price x
     \<and> build_parser (\<lambda>_. Inr JNull) (\<lambda>_. Inr []) (\<lambda>_. []) pichau_spec = Inr pichau_extract"
proof -
  have b: "build_parser (\<lambda>_. Inr JNull) (\<lambda>_. Inr []) (\<lambda>_. []) pichau_spec = Inr pichau_extract"
    by (simp add: build_parser_def pichau_spec_def KIND_WHITELIST_def)
  obtain x where x: "pichau_extract sample_flight = Inr x" "ex_price_pix_cents x = Some 14999"
    using scoped_flight_price_ok [of sample_flight "''final_price''"]
    by (auto simp: pichau_extract_def sample_avista_price lookup_ok_def regular_extract_def)
  with b parsers_fail_closed [of "\<lambda>_. Inr JNull" "\<lambda>_. Inr []" "\<lambda>_. []" pichau_spec] show ?thesis by simp
qed

definition sample_offer :: string where
  "sample_offer = ''<div id=reinvent_price_desktop_newAccordionRow> best-offer-string-cc >ou R$ 7.559,00 em 12x de R$ 629,99''"

lemma sample_offer_anchor: "py_find ROW_CARD_REGULAR sample_offer = Some 8"
  by code_simp

lemma sample_offer_sub: "find_in CARD_SPAN_ID sample_offer 8 8008 = Some 48"
  by code_simp

lemma sample_offer_price: "re_search PRICE_RE sample_offer 48 2048 = Some (73, 84, [(1, 76, 84)])"
  by code_simp

lemma sample_offer_text: "slice sample_offer 76 84 = ''7.559,00''"
  by code_simp

lemma sample_amount: "amount_text ''7.559,00''"
  unfolding amount_text_def
  by (intro exI [of _ "''7.559''"] exI [of _ "''00''"]) (simp add: amount_char_def is_ascii_digit_def code_def)

theorem amazon_price_is_shown_witness:
  "scoped_price sample_offer ROW_CARD_REGULAR CARD_SPAN_ID = Inr (Some 755900)
   \<and> (\<exists>p. 8 \<le> p \<and> p \<le> 8008 \<and> starts_with CARD_SPAN_ID (drop p sample_offer) \<and> shown_amount sample_offer p (p + 2000) 755900)"
proof -
  have "amount_cents ''7.559,00'' = 755900" by code_simp
  then have "cents_of_brl ''7.559,00'' = Inr (Some 755900)"
    using cents_of_brl_exact [OF sample_amount] by (simp add: sane_cents_def MAX_PRICE_CENTS_def)
  then have "scoped_price sample_offer ROW_CARD_REGULAR CARD_SPAN_ID = Inr (Some 755900)"
    by (simp add: scoped_price_def sample_offer_anchor sample_offer_sub sample_offer_price ROW_TO_ANCHOR_WINDOW_def
        ANCHOR_TO_PRICE_WINDOW_def group_text_def group_def sample_offer_text)
  with amazon_price_is_shown [of sample_offer ROW_CARD_REGULAR CARD_SPAN_ID 755900] sample_offer_anchor
  show ?thesis by auto
qed

definition sample_listing :: string where
  "sample_listing = ''<script type='' @ quoted ''application/ld+json'' @ ''>{}</script>''"

definition sample_product :: json where
  "sample_product =
     JObj [(''@type'', JStr ''Product''), (''sku'', JStr ''MLB1''),
           (''offers'', JObj [(''price'', JInt 9433), (''priceCurrency'', JStr ''BRL''),
                              (''availability'', JStr ''https://schema.org/InStock'')])]"

lemma sample_products: "json_ld_products (\<lambda>_. Inr sample_product) sample_listing = Inr [sample_product]"
  by code_simp

lemma sample_canonical: "canonical_product_id sample_listing = None"
  by code_simp

lemma sample_price: "to_cents (JInt 9433) = Inr (Some 943300)"
  by code_simp

lemma sample_listing_extract:
  "mercadolivre_extract (\<lambda>_. Inr sample_product) (\<lambda>_. []) sample_listing
     = Inr (regular_extract (Some 943300) (Some 943300) IN_STOCK)"
proof -
  have "availability_from_schema_url (Some (JStr ''https://schema.org/InStock'')) = IN_STOCK" by code_simp
  then have "product_extract (\<lambda>_. []) sample_product = Inr (regular_extract (Some 943300) (Some 943300) IN_STOCK)"
    using sample_price
    by (simp add: product_extract_def offer_cents_def offers_of_def sample_product_def BRL_def del: to_cents.simps
        availability_from_schema_url.simps)
  then show ?thesis
    by (simp add: mercadolivre_extract_def extract_from_json_ld_def sample_products sample_canonical
        select_product_def)
qed

theorem json_ld_product_authoritative_witness:
  "mercadolivre_extract (\<lambda>_. Inr sample_product) (\<lambda>_. []) sample_listing
     = Inr (regular_extract (Some 943300) (Some 943300) IN_STOCK)
   \<and> (\<exists>offer price. offers_of sample_product = Some offer \<and> offer_cents (Some offer) = Inr (Some price)
        \<and> obj_get offer ''priceCurrency'' = Some (JStr ''BRL''))"
  using json_ld_product_authoritative [OF sample_products _ sample_listing_extract] sample_listing_extract by auto

end
