(* ===== verification/Digest.thy ===== *)
theory Digest
  imports Evaluator Page_Parsers
begin

text \<open>
  The digest of one run as text and as view: \<open>digest/render.py\<close>, \<open>digest/view.py\<close>,
  \<open>digest/templates.py\<close> and the logging sender of \<open>digest/sender.py\<close>.

  Time zones and ISO timestamps come from the \<open>calendar\<close> of the theory Evaluator; \<open>strftime\<close> prints
  an instant in a zone (\<open>None\<close> is \<open>timezone.utc\<close>). The template engine is a parameter.
\<close>

section \<open>Amounts\<close>

text \<open>\<open>f"{reais:,}".replace(",", ".")\<close> of a number that is not negative.\<close>

fun grouped :: "nat \<Rightarrow> string" where
  "grouped n = (if n < 1000 then string_of_nat n else grouped (n div 1000) @ ''.'' @ pad 3 (n mod 1000))"

declare grouped.simps [simp del]

definition grouped_int :: "int \<Rightarrow> string" where
  "grouped_int i = (if i < 0 then CHR ''-'' # grouped (nat (- i)) else grouped (nat i))"

definition format_cents :: "int option \<Rightarrow> string" where
  "format_cents cents =
     (case cents of
        None \<Rightarrow> ''-''
      | Some c \<Rightarrow> ''R$ '' @ grouped_int (c div 100) @ '','' @ pad 2 (nat (c mod 100)))"

section \<open>One line\<close>

definition MAX_ERROR_LEN :: nat where
  "MAX_ERROR_LEN = 160"

definition UNKNOWN_SOURCE_LABEL :: string where
  "UNKNOWN_SOURCE_LABEL = ''(removed source)''"

definition CR :: char where
  "CR = CHR 0x0D"

definition LF :: char where
  "LF = CHR 0x0A"

text \<open>\<open>s.replace("\r", " ").replace("\n", " ").strip()\<close>\<close>

definition flat_text :: "string \<Rightarrow> string" where
  "flat_text s = py_strip (replace_char LF '' '' (replace_char CR '' '' s))"

definition sanitize_error :: "string \<Rightarrow> string" where
  "sanitize_error error =
     (let flat = flat_text error
      in if MAX_ERROR_LEN < length flat then take (MAX_ERROR_LEN - 3) flat @ ''...'' else flat)"

type_synonym strftime = "string option \<Rightarrow> nat \<Rightarrow> string"

fun zone_missing :: "exn \<Rightarrow> bool" where
  "zone_missing (OtherError n _) = (n = ''ZoneInfoNotFoundError'')"
| "zone_missing e = is_value_error e"

definition day_length :: int where
  "day_length = 86400000000"

definition label_at :: "calendar \<Rightarrow> strftime \<Rightarrow> string option \<Rightarrow> string \<Rightarrow> string \<Rightarrow> string result" where
  "label_at cal fmt zone record_ts generated_at =
     (case parse_ts cal record_ts of
        Inl e \<Rightarrow> Inl e
      | Inr scraped \<Rightarrow>
          (case parse_ts cal generated_at of
             Inl e \<Rightarrow> Inl e
           | Inr generated \<Rightarrow>
               (let age_days = (int generated - int scraped) div day_length; shown = ''scraped '' @ fmt zone scraped
                in if age_days < 0 then Inr (shown @ '' (clock skew)'')
                   else if 1 \<le> age_days then Inr (shown @ '' ('' @ string_of_int age_days @ ''d ago)'')
                   else Inr shown)))"

definition scraped_at_label ::
  "calendar \<Rightarrow> strftime \<Rightarrow> string \<Rightarrow> string \<Rightarrow> string \<Rightarrow> string result" where
  "scraped_at_label cal fmt record_ts generated_at tz_name =
     (case cal_zone cal tz_name of
        Inr zone \<Rightarrow> label_at cal fmt (Some zone) record_ts generated_at
      | Inl e \<Rightarrow> if zone_missing e then label_at cal fmt None record_ts generated_at else Inl e)"

definition price_field :: "scrape_record \<Rightarrow> string option \<Rightarrow> string" where
  "price_field r label =
     (let regular = (if rec_price_pix_cents r = None \<and> rec_price_card_cents r = None then ''no price''
                     else ''pix='' @ format_cents (rec_price_pix_cents r)
                          @ '' card='' @ format_cents (rec_price_card_cents r))
      in if rec_price_pix_member_cents r = None \<and> rec_price_card_member_cents r = None then regular
         else regular @ ''  '' @ (if truthy label then the label else ''member'') @ '': pix=''
              @ format_cents (rec_price_pix_member_cents r)
              @ '' card='' @ format_cents (rec_price_card_member_cents r))"

section \<open>The text digest\<close>

text \<open>\<open>f"{s:>13}"\<close>\<close>

definition rjust :: "nat \<Rightarrow> string \<Rightarrow> string" where
  "rjust w s = replicate (w - length s) (CHR '' '') @ s"

definition count_status :: "scrape_record list \<Rightarrow> scrape_status \<Rightarrow> nat" where
  "count_status rs s = length (filter (\<lambda>r. rec_status r = s) rs)"

definition digest_line ::
  "calendar \<Rightarrow> strftime \<Rightarrow> string \<Rightarrow> (string \<times> string) list \<Rightarrow> (string \<times> string) list \<Rightarrow> scrape_record
    \<Rightarrow> string result" where
  "digest_line cal fmt generated_at tlabels names r =
     (case scraped_at_label cal fmt (rec_ts r) generated_at ''UTC'' of
        Inl e \<Rightarrow> Inl e
      | Inr scraped_at \<Rightarrow>
          Inr (''['' @ rjust 13 (status_value (rec_status r)) @ ''] ''
               @ dict_get names (rec_source_id r) UNKNOWN_SOURCE_LABEL @ ''  ''
               @ price_field r (map_of tlabels (rec_source_id r))
               @ ''  availability='' @ availability_value (rec_availability r) @ ''  '' @ scraped_at
               @ (if truthy (rec_error r) then ''  ('' @ sanitize_error (the (rec_error r)) @ '')'' else [])))"

fun digest_lines ::
  "calendar \<Rightarrow> strftime \<Rightarrow> string \<Rightarrow> (string \<times> string) list \<Rightarrow> (string \<times> string) list \<Rightarrow> scrape_record list
    \<Rightarrow> string list result" where
  "digest_lines cal fmt generated_at tlabels names [] = Inr []"
| "digest_lines cal fmt generated_at tlabels names (r # rs) =
     (case digest_line cal fmt generated_at tlabels names r of
        Inl e \<Rightarrow> Inl e
      | Inr l \<Rightarrow> (case digest_lines cal fmt generated_at tlabels names rs of
                   Inl e \<Rightarrow> Inl e
                 | Inr ls \<Rightarrow> Inr (l # ls)))"

definition summary_line :: "scrape_record list \<Rightarrow> string" where
  "summary_line rs =
     ''summary: '' @ join ''  '' (map (\<lambda>s. status_value s @ ''='' @ string_of_nat (count_status rs s))
                                  [OK, INDETERMINATE, UNAVAILABLE])"

definition digest_header :: "string \<Rightarrow> scrape_record list \<Rightarrow> string list" where
  "digest_header generated_at rs =
     [''Kerdoos daily digest'', ''generated_at: '' @ generated_at, ''sources: '' @ string_of_nat (length rs),
      replicate 60 (CHR ''-'')]"

definition render_digest ::
  "calendar \<Rightarrow> strftime \<Rightarrow> scrape_record list \<Rightarrow> string \<Rightarrow> (string \<times> string) list \<Rightarrow> (string \<times> string) list
    \<Rightarrow> string result" where
  "render_digest cal fmt rs generated_at tlabels names =
     (case digest_lines cal fmt generated_at tlabels names rs of
        Inl e \<Rightarrow> Inl e
      | Inr ls \<Rightarrow>
          Inr (join [LF] (digest_header generated_at rs @ ls @ [replicate 60 (CHR ''-''), summary_line rs])))"

section \<open>The view for the HTML template\<close>

record digest_line_view =
  lv_source_label :: string
  lv_status_label :: string
  lv_price_line :: string
  lv_availability_label :: string
  lv_scraped_at :: string
  lv_error :: "string option"
  lv_href :: "string option"

record digest_view =
  dv_job_name :: string
  dv_generated_at :: string
  dv_lines :: "digest_line_view list"

fun is_ssrf_error :: "exn \<Rightarrow> bool" where
  "is_ssrf_error (SSRFError _) = True"
| "is_ssrf_error _ = False"

definition safe_href :: "string option \<Rightarrow> domain_policy \<Rightarrow> string option result" where
  "safe_href url policy =
     (if \<not> truthy url then Inr None
      else (case check_scheme_and_domain (the url) policy of
              Inl e \<Rightarrow> (if is_ssrf_error e then Inr None else Inl e)
            | Inr _ \<Rightarrow> Inr url))"

definition line_view ::
  "calendar \<Rightarrow> strftime \<Rightarrow> digest_job \<Rightarrow> string \<Rightarrow> (string \<times> string) list \<Rightarrow> (string \<times> string) list \<Rightarrow> domain_policy
    \<Rightarrow> (string \<times> string) list \<Rightarrow> scrape_record \<Rightarrow> digest_line_view result" where
  "line_view cal fmt job generated_at tier2_labels source_urls policy names r =
     (case scraped_at_label cal fmt (rec_ts r) generated_at (job_timezone job) of
        Inl e \<Rightarrow> Inl e
      | Inr scraped_at \<Rightarrow>
          (case safe_href (map_of source_urls (rec_source_id r)) policy of
             Inl e \<Rightarrow> Inl e
           | Inr href \<Rightarrow>
               Inr \<lparr> lv_source_label = dict_get names (rec_source_id r) UNKNOWN_SOURCE_LABEL,
                     lv_status_label = status_value (rec_status r),
                     lv_price_line = price_field r (map_of tier2_labels (rec_source_id r)),
                     lv_availability_label = availability_value (rec_availability r),
                     lv_scraped_at = scraped_at,
                     lv_error = (if truthy (rec_error r) then Some (sanitize_error (the (rec_error r))) else None),
                     lv_href = href \<rparr>))"

fun line_views ::
  "calendar \<Rightarrow> strftime \<Rightarrow> digest_job \<Rightarrow> string \<Rightarrow> (string \<times> string) list \<Rightarrow> (string \<times> string) list \<Rightarrow> domain_policy
    \<Rightarrow> (string \<times> string) list \<Rightarrow> scrape_record list \<Rightarrow> digest_line_view list result" where
  "line_views cal fmt job generated_at tier2_labels source_urls policy names [] = Inr []"
| "line_views cal fmt job generated_at tier2_labels source_urls policy names (r # rs) =
     (case line_view cal fmt job generated_at tier2_labels source_urls policy names r of
        Inl e \<Rightarrow> Inl e
      | Inr l \<Rightarrow> (case line_views cal fmt job generated_at tier2_labels source_urls policy names rs of
                   Inl e \<Rightarrow> Inl e
                 | Inr ls \<Rightarrow> Inr (l # ls)))"

definition build_digest_view ::
  "calendar \<Rightarrow> strftime \<Rightarrow> digest_job \<Rightarrow> scrape_record list \<Rightarrow> string \<Rightarrow> (string \<times> string) list
    \<Rightarrow> (string \<times> string) list \<Rightarrow> domain_policy \<Rightarrow> (string \<times> string) list \<Rightarrow> digest_view result" where
  "build_digest_view cal fmt job rs generated_at tier2_labels source_urls policy names =
     (case line_views cal fmt job generated_at tier2_labels source_urls policy names rs of
        Inl e \<Rightarrow> Inl e
      | Inr ls \<Rightarrow> Inr \<lparr> dv_job_name = job_name job, dv_generated_at = generated_at, dv_lines = ls \<rparr>)"

section \<open>Templates and the logging sender\<close>

definition TEMPLATE_FILES :: "(string \<times> string) list" where
  "TEMPLATE_FILES = [(''default'', ''default.html'')]"

type_synonym jinja = "string \<Rightarrow> digest_view \<Rightarrow> string"

definition render_digest_html :: "jinja \<Rightarrow> string \<Rightarrow> digest_view \<Rightarrow> string result" where
  "render_digest_html jinja template_id view =
     (case map_of TEMPLATE_FILES template_id of
        None \<Rightarrow> Inl (ValueError (''unknown template_id '' @ py_repr template_id))
      | Some filename \<Rightarrow> Inr (jinja filename view))"

text \<open>The logging sender returns True; the body it logs is returned with it.\<close>

definition log_send ::
  "calendar \<Rightarrow> strftime \<Rightarrow> config_db \<Rightarrow> digest_job \<Rightarrow> scrape_record list \<Rightarrow> string \<Rightarrow> (string \<times> string) list
    \<Rightarrow> (bool \<times> string) result" where
  "log_send cal fmt db job rs generated_at tier2_labels =
     (case render_digest cal fmt rs generated_at tier2_labels (source_labels (load db (job_owner_id job))) of
        Inl e \<Rightarrow> Inl e
      | Inr body \<Rightarrow> Inr (True, body))"

section \<open>Printed amounts are read back\<close>

lemma digits_value_app: "digits_value (a @ b) = digits_value a * 10 ^ length b + digits_value b"
proof (induction b rule: rev_induct)
  case (snoc c cs)
  have "digits_value (a @ cs @ [c]) = 10 * digits_value (a @ cs) + (code c - 48)"
    using digits_value_append [of "a @ cs" c] by simp
  with snoc show ?case by (simp add: digits_value_append algebra_simps)
qed (simp add: digits_value_def)

lemma dec_digit_code: "is_ascii_digit (dec_digit n) \<and> code (dec_digit n) = 48 + n mod 10"
  by (simp add: dec_digit_def is_ascii_digit_def code_def)

lemma pad_digits: "list_all is_ascii_digit (pad w n)"
  by (induction w arbitrary: n) (simp_all add: dec_digit_code)

lemma digits_value_pad: "digits_value (pad w n) = n mod 10 ^ w"
proof (induction w arbitrary: n)
  case (Suc w)
  have "digits_value (pad (Suc w) n) = 10 * (n div 10 mod 10 ^ w) + n mod 10"
    using Suc by (simp add: digits_value_append dec_digit_code)
  also have "\<dots> = n mod (10 * 10 ^ w)" by (simp add: mod_mult2_eq)
  finally show ?case by simp
qed (simp add: digits_value_def)

lemma grouped_chars: "list_all amount_char (grouped n)"
proof (induction n rule: grouped.induct)
  case (1 n)
  have "list_all amount_char (string_of_nat n)" "list_all amount_char (pad 3 (n mod 1000))"
    using string_of_nat_digits [of n] pad_digits [of 3 "n mod 1000"] by (auto simp: list_all_iff amount_char_def)
  moreover have "amount_char (CHR ''.'')" by (simp add: amount_char_def)
  ultimately show ?case using 1 by (subst grouped.simps) simp
qed

lemma filter_all_digits: "list_all is_ascii_digit s \<Longrightarrow> filter is_ascii_digit s = s"
  by (simp add: list_all_iff filter_id_conv)

lemma grouped_value: "digits_value (filter is_ascii_digit (grouped n)) = n"
proof (induction n rule: grouped.induct)
  case (1 n)
  show ?case
  proof (cases "n < 1000")
    case True
    then show ?thesis by (subst grouped.simps) (simp add: filter_all_digits string_of_nat_digits)
  next
    case False
    have "\<not> is_ascii_digit (CHR ''.'')" by (simp add: is_ascii_digit_def code_def)
    with False 1 show ?thesis
      by (subst grouped.simps) (simp add: filter_all_digits pad_digits digits_value_app digits_value_pad)
  qed
qed

lemma lang_Rep_intro: "length w = n \<Longrightarrow> list_all P w \<Longrightarrow> lang (Rep n (Cls P)) w"
proof (induction n arbitrary: w)
  case (Suc n)
  then obtain c cs where w: "w = c # cs" by (cases w) auto
  with Suc have "lang (Cls P) [c]" "lang (Rep n (Cls P)) cs" by simp_all
  then show ?case using lang_Seq [of "Cls P" "[c]" "Rep n (Cls P)" cs] by (simp add: w)
qed simp

lemma lang_Star_snoc: "lang (Star r) w \<Longrightarrow> lang r v \<Longrightarrow> lang (Star r) (w @ v)"
proof (induction "Star r" w rule: lang.induct)
  case lang_Star0
  then show ?case using lang_Star [of r v "[]"] by (simp add: lang.lang_Star0)
next
  case (lang_Star u w)
  then show ?case using lang.lang_Star [of r u "w @ v"] by simp
qed

lemma string_of_nat_short: "n < 1000 \<Longrightarrow> length (string_of_nat n) \<in> {1, 2, 3}"
  by (simp add: string_of_nat.simps [of n] string_of_nat.simps [of "n div 10"] string_of_nat.simps [of "n div 10 div 10"])

lemma grouped_lang:
  "\<exists>a b. grouped n = a @ b \<and> lang (RepTo 1 2 Digit) a \<and> lang (Star (Seq (Chr (CHR ''.'')) (Rep 3 Digit))) b"
proof (induction n rule: grouped.induct)
  case (1 n)
  show ?case
  proof (cases "n < 1000")
    case True
    have "lang (Rep (length (string_of_nat n)) Digit) (string_of_nat n)"
      unfolding Digit_def by (rule lang_Rep_intro) (simp_all add: string_of_nat_digits)
    then have "lang (RepTo 1 2 Digit) (string_of_nat n)"
      using string_of_nat_short [OF True] by (auto simp: numeral_2_eq_2 numeral_3_eq_3)
    then show ?thesis using True by (subst grouped.simps) (auto intro: lang_Star0)
  next
    case False
    from "1.IH" [OF False] obtain a b where ab: "grouped (n div 1000) = a @ b" "lang (RepTo 1 2 Digit) a"
      "lang (Star (Seq (Chr (CHR ''.'')) (Rep 3 Digit))) b" by blast
    have "lang (Rep 3 Digit) (pad 3 (n mod 1000))"
      unfolding Digit_def by (rule lang_Rep_intro) (simp_all add: pad_digits)
    then have "lang (Seq (Chr (CHR ''.'')) (Rep 3 Digit)) (''.'' @ pad 3 (n mod 1000))"
      by (intro lang_Seq) (simp_all add: Chr_def)
    from lang_Star_snoc [OF ab(3) this] have "lang (Star (Seq (Chr (CHR ''.'')) (Rep 3 Digit))) (b @ ''.'' @ pad 3 (n mod 1000))" .
    moreover have "grouped n = a @ b @ ''.'' @ pad 3 (n mod 1000)" using False ab(1) by (subst grouped.simps) simp
    ultimately show ?thesis using ab(2) by blast
  qed
qed

text \<open>C28: a price printed in a digest has the shape the page parsers look for, and reading it gives
  the same number of cents back.\<close>

theorem printed_price_read_back:
  assumes "1 \<le> c" "c \<le> MAX_PRICE_CENTS"
  shows "\<exists>t. format_cents (Some c) = ''R$ '' @ t \<and> lang Amount t \<and> cents_of_brl t = Inr (Some c)"
proof -
  let ?w = "grouped (nat (c div 100))" and ?f = "pad 2 (nat (c mod 100))"
  let ?t = "?w @ CHR '','' # ?f"
  have f: "format_cents (Some c) = ''R$ '' @ ?t" using assms(1) by (simp add: format_cents_def grouped_int_def)
  have len: "length ?f = 2" "list_all is_ascii_digit ?f" by (simp_all add: pad_digits)
  have amt: "amount_text ?t" using grouped_chars len unfolding amount_text_def by blast
  have "\<not> is_ascii_digit (CHR '','')" by (simp add: is_ascii_digit_def code_def)
  then have "amount_cents ?t = int (nat (c div 100) * 100 + nat (c mod 100) mod 100)"
    by (simp add: amount_cents_def filter_all_digits pad_digits digits_value_app grouped_value digits_value_pad)
  also have "\<dots> = c"
  proof -
    have "nat (c mod 100) mod 100 = nat (c mod 100)" by (rule mod_less) (simp add: nat_less_iff)
    moreover have "0 \<le> c div 100" "0 \<le> c mod 100" using assms(1) by (simp_all add: pos_imp_zdiv_nonneg_iff)
    ultimately show ?thesis by simp
  qed
  finally have c: "cents_of_brl ?t = Inr (Some c)"
    using cents_of_brl_exact [OF amt] assms by (simp add: sane_cents_def)
  obtain a b where ab: "?w = a @ b" "lang (RepTo 1 2 Digit) a" "lang (Star (Seq (Chr (CHR ''.'')) (Rep 3 Digit))) b"
    using grouped_lang by blast
  have "lang (Rep 2 Digit) ?f" unfolding Digit_def by (rule lang_Rep_intro) (simp_all add: pad_digits)
  then have "lang (SeqAll [Chr (CHR '',''), Rep 2 Digit]) (CHR '','' # ?f)"
    using lang_Seq [of "Chr (CHR '','')" "'',''" "SeqAll [Rep 2 Digit]" ?f] by (simp add: Chr_def)
  then have "lang Amount ?t"
    unfolding Amount_def SeqAll.simps ab(1) append_assoc using ab(2,3) by (auto intro: lang_Seq simp del: lang_simps)
  with f c show ?thesis by blast
qed

theorem printed_price_read_back_witness:
  "format_cents (Some 755800) = ''R$ 7.558,00'' \<and> cents_of_brl ''7.558,00'' = Inr (Some 755800)"
proof -
  have "format_cents (Some 755800) = ''R$ 7.558,00''" by code_simp
  with printed_price_read_back [of 755800] show ?thesis by (simp add: MAX_PRICE_CENTS_def)
qed

section \<open>One line per record\<close>

definition one_line :: "string \<Rightarrow> bool" where
  "one_line s \<longleftrightarrow> LF \<notin> set s"

lemma one_line_simps [simp]:
  "one_line []"
  "one_line (c # s) \<longleftrightarrow> c \<noteq> LF \<and> one_line s"
  "one_line (s @ t) \<longleftrightarrow> one_line s \<and> one_line t"
  by (auto simp: one_line_def)

lemma one_line_digits: "list_all is_ascii_digit s \<Longrightarrow> one_line s"
  unfolding one_line_def LF_def by (rule digit_not_in) (simp_all add: is_ascii_digit_def code_def)

lemma one_line_number [simp]: "one_line (string_of_nat n)" "one_line (string_of_int i)" "one_line (pad w n)"
  by (simp_all add: one_line_digits string_of_nat_digits pad_digits string_of_int_def LF_def)

lemma one_line_format [simp]: "one_line (format_cents x)"
proof -
  have "one_line (grouped n)" for n
    using grouped_chars [of n]
    by (auto simp: one_line_def LF_def list_all_iff amount_char_def is_ascii_digit_def code_def)
  then show ?thesis by (simp add: format_cents_def grouped_int_def LF_def split: option.splits)
qed

lemma one_line_sub: "one_line s \<Longrightarrow> set t \<subseteq> set s \<Longrightarrow> one_line t"
  by (auto simp: one_line_def)

lemma set_replace_char: "set (replace_char c r s) \<subseteq> (set s - {c}) \<union> set r"
  by (auto simp: replace_char_def split: if_splits)

lemma set_strip: "set (py_strip s) \<subseteq> set s"
  by (auto simp: py_strip_def dest!: set_dropWhileD)

lemma flat_text_clean: "CR \<notin> set (flat_text s) \<and> LF \<notin> set (flat_text s)"
proof -
  let ?a = "replace_char CR '' '' s"
  have "set (flat_text s) \<subseteq> (set ?a - {LF}) \<union> {CHR '' ''}"
    unfolding flat_text_def using set_strip set_replace_char [of LF "'' ''" ?a] by fastforce
  moreover have "CR \<notin> set ?a" using set_replace_char [of CR "'' ''" s] by (auto simp: CR_def)
  ultimately show ?thesis by (auto simp: CR_def LF_def)
qed

lemma sanitize_error_clean:
  "CR \<notin> set (sanitize_error e)" "LF \<notin> set (sanitize_error e)" "length (sanitize_error e) \<le> 160"
  using flat_text_clean [of e]
  by (auto simp: sanitize_error_def MAX_ERROR_LEN_def Let_def CR_def LF_def dest: in_set_takeD)

lemma one_line_sanitized [simp]: "one_line (sanitize_error e)"
  by (simp add: one_line_def sanitize_error_clean)

lemma one_line_price_field: "(\<And>l. label = Some l \<Longrightarrow> one_line l) \<Longrightarrow> one_line (price_field r label)"
  by (cases label) (auto simp: price_field_def Let_def LF_def)

lemma one_line_label_at: "label_at cal fmt z a b = Inr l \<Longrightarrow> (\<And>z n. one_line (fmt z n)) \<Longrightarrow> one_line l"
  by (auto simp: label_at_def Let_def LF_def split: sum.splits if_splits)

lemma one_line_scraped: "scraped_at_label cal fmt a b z = Inr l \<Longrightarrow> (\<And>z n. one_line (fmt z n)) \<Longrightarrow> one_line l"
  by (auto simp: scraped_at_label_def split: sum.splits if_splits dest: one_line_label_at)

lemma one_line_values [simp]: "one_line (status_value s)" "one_line (availability_value a)"
  by (cases s; simp add: LF_def) (cases a; simp add: LF_def)

lemma one_line_dict_get:
  "(\<And>k v. (k, v) \<in> set d \<Longrightarrow> one_line v) \<Longrightarrow> one_line dflt \<Longrightarrow> one_line (dict_get d k dflt)"
  by (auto simp: dict_get_def split: option.splits dest: map_of_SomeD)

lemma digest_line_one_line:
  assumes "digest_line cal fmt g tls names r = Inr l" "\<And>z n. one_line (fmt z n)"
    "\<And>k v. (k, v) \<in> set tls \<Longrightarrow> one_line v" "\<And>k v. (k, v) \<in> set names \<Longrightarrow> one_line v"
  shows "one_line l"
proof -
  from assms(1) obtain s where s: "scraped_at_label cal fmt (rec_ts r) g ''UTC'' = Inr s"
    by (auto simp: digest_line_def split: sum.splits)
  have name: "one_line (dict_get names (rec_source_id r) UNKNOWN_SOURCE_LABEL)"
    by (rule one_line_dict_get) (auto simp: assms(4) UNKNOWN_SOURCE_LABEL_def LF_def)
  have price: "one_line (price_field r (map_of tls (rec_source_id r)))"
    by (rule one_line_price_field) (auto dest: map_of_SomeD assms(3))
  have status: "one_line (rjust 13 (status_value (rec_status r)))"
    using one_line_values(1) [of "rec_status r"] by (simp add: rjust_def one_line_def LF_def)
  from assms(1) show ?thesis
    unfolding digest_line_def s sum.case sum.inject
    by (rule subst) (simp add: name price status one_line_scraped [OF s assms(2)] LF_def)
qed

lemma digest_lines_one_line:
  assumes "\<And>z n. one_line (fmt z n)" "\<And>k v. (k, v) \<in> set tls \<Longrightarrow> one_line v" "\<And>k v. (k, v) \<in> set names \<Longrightarrow> one_line v"
  shows "digest_lines cal fmt g tls names rs = Inr ls \<Longrightarrow> length ls = length rs \<and> list_all one_line ls"
  by (induction rs arbitrary: ls)
     (auto split: sum.splits dest: digest_line_one_line [OF _ assms])

text \<open>Whatever texts the pages and the exceptions put into the records, the digest has its four
  header lines, exactly one line per record in order, and its two closing lines: an error text
  cannot add a line. (The names of products and labels, the generation time and the printed
  instants are assumed to be free of line feeds.)\<close>

theorem digest_one_line_per_record:
  assumes "render_digest cal fmt rs generated_at tls names = Inr body"
    and "one_line generated_at" "\<And>z n. one_line (fmt z n)"
    and "list_all one_line (map snd tls)" "list_all one_line (map snd names)"
  shows "\<exists>ls. digest_lines cal fmt generated_at tls names rs = Inr ls \<and> length ls = length rs
    \<and> split_on LF body = digest_header generated_at rs @ ls @ [replicate 60 (CHR ''-''), summary_line rs]"
proof -
  from assms(1) obtain ls where ls: "digest_lines cal fmt generated_at tls names rs = Inr ls"
    and body: "body = join [LF] (digest_header generated_at rs @ ls @ [replicate 60 (CHR ''-''), summary_line rs])"
    by (auto simp: render_digest_def split: sum.splits)
  have "(k, v) \<in> set tls \<Longrightarrow> one_line v" "(k, v) \<in> set names \<Longrightarrow> one_line v" for k v
    using assms(4,5) by (auto simp: list_all_iff)
  from digest_lines_one_line [OF assms(3) this ls] have len: "length ls = length rs" "list_all one_line ls" by auto
  have sum: "one_line (summary_line rs)" by (simp add: summary_line_def LF_def)
  have "split_on LF body = digest_header generated_at rs @ ls @ [replicate 60 (CHR ''-''), summary_line rs]"
    unfolding body
  proof (rule split_on_join)
    fix x assume "x \<in> set (digest_header generated_at rs @ ls @ [replicate 60 (CHR ''-''), summary_line rs])"
    with len(2) sum assms(2) have "one_line x"
      by (auto simp: digest_header_def list_all_iff LF_def) (auto simp: one_line_def LF_def)
    then show "LF \<notin> set x" by (simp add: one_line_def)
  qed simp
  with ls len show ?thesis by blast
qed

section \<open>Links of the view\<close>

lemma safe_href_ok: "safe_href url policy = Inr (Some u) \<Longrightarrow> url = Some u \<and> (\<exists>p. check_scheme_and_domain u policy = Inr p)"
  by (cases url) (auto simp: safe_href_def split: if_splits sum.splits)

lemma line_view_ok:
  "line_view cal fmt job g tls urls policy names r = Inr l \<Longrightarrow> lv_href l = Some u \<Longrightarrow>
     map_of urls (rec_source_id r) = Some u \<and> (\<exists>p. check_scheme_and_domain u policy = Inr p)"
  by (auto simp: line_view_def split: sum.splits dest!: safe_href_ok)

lemma line_views_ok:
  "line_views cal fmt job g tls urls policy names rs = Inr ls \<Longrightarrow>
     list_all2 (\<lambda>r l. line_view cal fmt job g tls urls policy names r = Inr l) rs ls"
  by (induction rs arbitrary: ls) (auto split: sum.splits)

text \<open>The view has one line per record, in order; its link, when there is one, is the stored URL
  of that record's source and passed the scheme and domain check; its error text has no line break
  and at most 160 characters.\<close>

theorem digest_view_links_checked:
  assumes "build_digest_view cal fmt job rs g tls urls policy names = Inr v"
  shows "list_all2 (\<lambda>r l.
      (\<forall>u. lv_href l = Some u \<longrightarrow> map_of urls (rec_source_id r) = Some u \<and> (\<exists>p. check_scheme_and_domain u policy = Inr p))
      \<and> lv_price_line l = price_field r (map_of tls (rec_source_id r))
      \<and> (\<forall>e. lv_error l = Some e \<longrightarrow> CR \<notin> set e \<and> LF \<notin> set e \<and> length e \<le> 160)) rs (dv_lines v)"
proof -
  from assms have "list_all2 (\<lambda>r l. line_view cal fmt job g tls urls policy names r = Inr l) rs (dv_lines v)"
    by (auto simp: build_digest_view_def split: sum.splits intro: line_views_ok)
  then show ?thesis
  proof (rule list_all2_mono)
    fix r l assume l: "line_view cal fmt job g tls urls policy names r = Inr l"
    from line_view_ok [OF l] l show "(\<forall>u. lv_href l = Some u \<longrightarrow> map_of urls (rec_source_id r) = Some u
        \<and> (\<exists>p. check_scheme_and_domain u policy = Inr p))
      \<and> lv_price_line l = price_field r (map_of tls (rec_source_id r))
      \<and> (\<forall>e. lv_error l = Some e \<longrightarrow> CR \<notin> set e \<and> LF \<notin> set e \<and> length e \<le> 160)"
      by (auto simp: line_view_def sanitize_error_clean split: sum.splits if_splits)
  qed
qed

section \<open>Concrete digests\<close>

text \<open>A stored link that \<open>urlsplit\<close> refuses raises instead of degrading to plain text.\<close>

lemma malformed_link_aborts_the_view:
  "safe_href (Some ''http://[x/'') policy = Inl (ValueError ''Invalid IPv6 URL'')"
proof -
  have "list_all rfc3986_safe ''http://[x/''" "urlsplit ''http://[x/'' = Inl (ValueError ''Invalid IPv6 URL'')"
    by code_simp+
  then show ?thesis by (simp add: safe_href_def check_scheme_and_domain_def)
qed

definition fixed_calendar :: calendar where
  "fixed_calendar =
     \<lparr> cal_zone = (\<lambda>z. Inr z), cal_local = (\<lambda>z n. \<lparr> ld_wall = int n, ld_zone = None, ld_fold = False \<rparr>),
       cal_utc = (\<lambda>d. 0), cal_prev = (\<lambda>c d. Inr d), cal_next = (\<lambda>c n. Inr n), cal_fromiso = (\<lambda>s. Inr (Aware 0)) \<rparr>"

definition noon :: strftime where
  "noon z n = ''2026-01-01 12:00 UTC''"

definition hostile_record :: scrape_record where
  "hostile_record = indeterminate ''s1'' ''t'' None (''boom'' @ [LF] @ ''[           ok] forged'')"

definition sample_names :: "(string \<times> string) list" where
  "sample_names = [(''s1'', ''Mouse -- kabum'')]"

theorem digest_one_line_per_record_witness:
  "\<exists>body. render_digest fixed_calendar noon [hostile_record] ''now'' [] sample_names = Inr body
     \<and> length (split_on LF body) = 7"
proof -
  obtain body where body: "render_digest fixed_calendar noon [hostile_record] ''now'' [] sample_names = Inr body"
    by (simp add: render_digest_def digest_line_def scraped_at_label_def label_at_def parse_ts_def fixed_calendar_def
        day_length_def)
  have "one_line ''now''" "\<And>z n. one_line (noon z n)" "list_all one_line (map snd [])"
    "list_all one_line (map snd sample_names)"
    by (simp_all add: noon_def sample_names_def LF_def)
  from digest_one_line_per_record [OF body this] body show ?thesis by (auto simp: digest_header_def)
qed

text \<open>The name of a product is printed as it is: a line feed in it adds a line to the text body.\<close>

lemma product_name_adds_a_line:
  "(case render_digest fixed_calendar noon [hostile_record] ''now'' [] [(''s1'', ''Mouse'' @ [LF] @ ''forged'')] of
      Inr body \<Rightarrow> length (split_on LF body) | Inl e \<Rightarrow> 0) = 8"
  by code_simp

definition sample_job :: digest_job where
  "sample_job =
     \<lparr> job_id = ''j1'', job_owner_id = ''o1'', job_name = ''daily'', job_frequency_kind = ''daily'',
       job_schedule_cron = ''0 8 * * *'', job_timezone = ''UTC'', job_template_id = ''default'',
       job_options = \<lparr> show_pix = True, show_card = True, variation_threshold_pct = None \<rparr>, job_enabled = True,
       job_created_at = None, job_source_ids = [''s1''] \<rparr>"

theorem digest_view_links_checked_witness:
  "\<exists>v. build_digest_view fixed_calendar noon sample_job [hostile_record] ''now'' []
         [(''s1'', ''https://www.kabum.com.br/p'')] (\<lambda>h. h = ''www.kabum.com.br'') sample_names = Inr v
     \<and> map lv_href (dv_lines v) = [Some ''https://www.kabum.com.br/p'']
     \<and> (\<exists>p. check_scheme_and_domain ''https://www.kabum.com.br/p'' (\<lambda>h. h = ''www.kabum.com.br'') = Inr p)"
proof -
  let ?pol = "\<lambda>h. h = ''www.kabum.com.br''" and ?urls = "[(''s1'', ''https://www.kabum.com.br/p'')]"
  have "check_scheme_and_domain ''https://www.kabum.com.br/p'' ?pol = Inr (''https'', ''www.kabum.com.br'')"
    by code_simp
  then have h: "safe_href (Some ''https://www.kabum.com.br/p'') ?pol = Inr (Some ''https://www.kabum.com.br/p'')"
    by (simp add: safe_href_def)
  have "rec_source_id hostile_record = ''s1''" by (simp add: hostile_record_def)
  with h obtain v where v: "build_digest_view fixed_calendar noon sample_job [hostile_record] ''now'' [] ?urls ?pol sample_names
      = Inr v" "map lv_href (dv_lines v) = [Some ''https://www.kabum.com.br/p'']"
    by (simp add: build_digest_view_def line_view_def scraped_at_label_def label_at_def parse_ts_def fixed_calendar_def
        day_length_def)
  from digest_view_links_checked [OF v(1)] v show ?thesis by (auto simp: list_all2_Cons1)
qed

end
