(* ===== verification/Auth.thy ===== *)
theory Auth
  imports App_Service Datetimes
begin

text \<open>
  Identity: \<open>auth/ports.py\<close>, the store of \<open>registry/auth_store.py\<close>, the service of
  \<open>core/app/auth.py\<close>, and the web transport of \<open>interfaces/web/security.py\<close>,
  \<open>interfaces/web/csrf.py\<close> and \<open>interfaces/web/deps.py\<close>.

  The store works on four tables of \<open>config.db\<close>; \<open>a_owners\<close> is the owners table of
  \<open>Config_Store\<close>. Every operation opens its own connection and is one transaction, except
  \<open>reserve_login_attempt\<close>, which answers a blocked identifier from a read of its own before the
  transaction that counts. SHA-256, HMAC-SHA256, Argon2 verification and the random secrets are
  parameters. \<open>authenticate\<close> also returns the list of Argon2 calls it made, which the program
  does not keep: the cost of a login attempt is the length of that list.
\<close>

section \<open>Values and tables\<close>

record owner_credentials =
  oc_owner_id :: string
  oc_role :: string
  oc_password_hash :: "string option"

record token_info =
  ti_token_id :: string
  ti_created_at :: string
  ti_expires_at :: string

record session_row =
  se_hash :: string
  se_owner :: string
  se_created_at :: string
  se_expires_at :: string

record token_row =
  tk_hash :: string
  tk_id :: string
  tk_owner :: string
  tk_created_at :: string
  tk_expires_at :: string
  tk_state :: string

record attempt_row =
  at_key :: string
  at_count :: int
  at_window :: rat

record auth_db =
  a_owners :: "owner_row list"
  a_sessions :: "session_row list"
  a_tokens :: "token_row list"
  a_attempts :: "attempt_row list"

record login_limits =
  lim_window :: rat
  lim_max_attempts :: int
  lim_row_cap :: int

section \<open>The store\<close>

definition ensure_email_uniqueness :: "owner_row list \<Rightarrow> unit result" where
  "ensure_email_uniqueness owners =
     (let dups = duplicates [e. r \<leftarrow> owners, Some e \<leftarrow> [ow_email r]]
      in raise_if (dups \<noteq> []) (EmailAlreadyTakenError
           (''cannot enforce owner email uniqueness -- duplicate owner emails: ['' @ join '', '' (map py_repr dups)
            @ '']. Resolve the duplicate rows before opening this config.db.'')))"

definition active_owner :: "owner_row \<Rightarrow> bool" where
  "active_owner r \<longleftrightarrow> ow_state r = ''active''"

definition credentials :: "owner_row \<Rightarrow> owner_credentials" where
  "credentials r = \<lparr> oc_owner_id = ow_id r, oc_role = ow_role r, oc_password_hash = ow_password_hash r \<rparr>"

definition lookup_active_credentials :: "auth_db \<Rightarrow> string \<Rightarrow> owner_credentials option" where
  "lookup_active_credentials db identifier =
     (case List.find (\<lambda>r. ow_name r = identifier \<and> active_owner r) (a_owners db) of
        Some r \<Rightarrow> Some (credentials r)
      | None \<Rightarrow> map_option credentials
          (List.find (\<lambda>r. ow_email r = Some identifier \<and> active_owner r) (a_owners db)))"

text \<open>The first of the rows with the least \<open>window_start\<close>.\<close>

definition oldest_key :: "attempt_row list \<Rightarrow> string option" where
  "oldest_key rows = (case sort_key at_window rows of [] \<Rightarrow> None | r # _ \<Rightarrow> Some (at_key r))"

definition blocked_by_read :: "login_limits \<Rightarrow> auth_db \<Rightarrow> string \<Rightarrow> rat \<Rightarrow> rat option" where
  "blocked_by_read lm db key now =
     (case List.find (\<lambda>r. at_key r = key \<and> at_window r > now - lim_window lm) (a_attempts db) of
        None \<Rightarrow> None
      | Some r \<Rightarrow> if at_count r \<ge> lim_max_attempts lm then Some (lim_window lm - (now - at_window r)) else None)"

definition evict_for :: "login_limits \<Rightarrow> string \<Rightarrow> attempt_row list \<Rightarrow> attempt_row list" where
  "evict_for lm key rows =
     (if key \<in> set (map at_key rows) then rows
      else if int (length rows) \<ge> lim_row_cap lm
      then (case oldest_key rows of None \<Rightarrow> rows | Some k \<Rightarrow> filter (\<lambda>r. at_key r \<noteq> k) rows)
      else rows)"

definition count_attempt :: "string \<Rightarrow> rat \<Rightarrow> attempt_row list \<Rightarrow> attempt_row list" where
  "count_attempt key now rows =
     (if key \<in> set (map at_key rows)
      then map (\<lambda>r. if at_key r = key then r\<lparr> at_count := at_count r + 1 \<rparr> else r) rows
      else rows @ [\<lparr> at_key = key, at_count = 1, at_window = now \<rparr>])"

text \<open>The transaction that counts: purge, evict, increment, read back.\<close>

definition reserve_write :: "login_limits \<Rightarrow> auth_db \<Rightarrow> string \<Rightarrow> rat \<Rightarrow> rat option \<times> auth_db" where
  "reserve_write lm db key now =
     (let live = filter (\<lambda>r. \<not> at_window r \<le> now - lim_window lm) (a_attempts db);
          rows = count_attempt key now (evict_for lm key live);
          db' = db\<lparr> a_attempts := rows \<rparr>
      in case List.find (\<lambda>r. at_key r = key) rows of
           None \<Rightarrow> (None, db')
         | Some r \<Rightarrow>
             (if at_count r > lim_max_attempts lm then Some (lim_window lm - (now - at_window r)) else None, db'))"

definition reserve_login_attempt :: "login_limits \<Rightarrow> auth_db \<Rightarrow> string \<Rightarrow> rat \<Rightarrow> rat option \<times> auth_db" where
  "reserve_login_attempt lm db key now =
     (if lim_max_attempts lm \<le> 0 then (None, db)
      else case blocked_by_read lm db key now of
        Some wait \<Rightarrow> (Some wait, db)
      | None \<Rightarrow> reserve_write lm db key now)"

definition record_login_success :: "login_limits \<Rightarrow> auth_db \<Rightarrow> string \<Rightarrow> auth_db" where
  "record_login_success lm db key =
     (if lim_max_attempts lm \<le> 0 then db
      else db\<lparr> a_attempts := filter (\<lambda>r. at_key r \<noteq> key) (a_attempts db) \<rparr>)"

definition st_create_session :: "auth_db \<Rightarrow> string \<Rightarrow> string \<Rightarrow> string \<Rightarrow> string \<Rightarrow> auth_db result" where
  "st_create_session db h owner created expires =
     (if h \<in> set (map se_hash (a_sessions db))
      then Inl (IntegrityError ''UNIQUE constraint failed: sessions.session_hash'')
      else Inr (db\<lparr> a_sessions := a_sessions db @
             [\<lparr> se_hash = h, se_owner = owner, se_created_at = created, se_expires_at = expires \<rparr>] \<rparr>))"

definition resolve_session :: "auth_db \<Rightarrow> string \<Rightarrow> string \<Rightarrow> (string \<times> string) option" where
  "resolve_session db h now =
     (case [(ow_id o1, ow_role o1). s \<leftarrow> a_sessions db, o1 \<leftarrow> a_owners db,
              ow_id o1 = se_owner s \<and> se_hash s = h \<and> active_owner o1 \<and> now < se_expires_at s] of
        [] \<Rightarrow> None | x # _ \<Rightarrow> Some x)"

definition delete_session :: "auth_db \<Rightarrow> string \<Rightarrow> auth_db" where
  "delete_session db h = db\<lparr> a_sessions := filter (\<lambda>s. se_hash s \<noteq> h) (a_sessions db) \<rparr>"

definition delete_owner_sessions :: "auth_db \<Rightarrow> string \<Rightarrow> auth_db" where
  "delete_owner_sessions db owner = db\<lparr> a_sessions := filter (\<lambda>s. se_owner s \<noteq> owner) (a_sessions db) \<rparr>"

definition st_create_token :: "auth_db \<Rightarrow> string \<Rightarrow> string \<Rightarrow> string \<Rightarrow> string \<Rightarrow> string \<Rightarrow> auth_db result" where
  "st_create_token db h tid owner created expires =
     (if h \<in> set (map tk_hash (a_tokens db))
      then Inl (IntegrityError ''UNIQUE constraint failed: tokens.token_hash'')
      else Inr (db\<lparr> a_tokens := a_tokens db @
             [\<lparr> tk_hash = h, tk_id = tid, tk_owner = owner, tk_created_at = created, tk_expires_at = expires,
                tk_state = ''active'' \<rparr>] \<rparr>))"

definition resolve_token :: "auth_db \<Rightarrow> string \<Rightarrow> string \<Rightarrow> (string \<times> string) option" where
  "resolve_token db h now =
     (case [(ow_id o1, ow_role o1). t \<leftarrow> a_tokens db, o1 \<leftarrow> a_owners db,
              ow_id o1 = tk_owner t \<and> tk_hash t = h \<and> tk_state t = ''active'' \<and> active_owner o1
              \<and> now < tk_expires_at t] of
        [] \<Rightarrow> None | x # _ \<Rightarrow> Some x)"

definition st_revoke_token :: "auth_db \<Rightarrow> string \<Rightarrow> string \<Rightarrow> auth_db" where
  "st_revoke_token db owner tid =
     db\<lparr> a_tokens := map (\<lambda>t. if tk_owner t = owner \<and> tk_id t = tid then t\<lparr> tk_state := ''disabled'' \<rparr> else t)
          (a_tokens db) \<rparr>"

definition revoke_owner_tokens :: "auth_db \<Rightarrow> string \<Rightarrow> auth_db" where
  "revoke_owner_tokens db owner =
     db\<lparr> a_tokens := map (\<lambda>t. if tk_owner t = owner then t\<lparr> tk_state := ''disabled'' \<rparr> else t) (a_tokens db) \<rparr>"

definition st_get_email :: "auth_db \<Rightarrow> string \<Rightarrow> string option" where
  "st_get_email db owner =
     (case List.find (\<lambda>r. ow_id r = owner) (a_owners db) of None \<Rightarrow> None | Some r \<Rightarrow> ow_email r)"

definition st_set_email :: "auth_db \<Rightarrow> string \<Rightarrow> string option \<Rightarrow> auth_db result" where
  "st_set_email db owner email =
     (if owner \<in> set (map ow_id (a_owners db)) \<and> email \<noteq> None
         \<and> list_ex (\<lambda>r. ow_id r \<noteq> owner \<and> ow_email r = email) (a_owners db)
      then Inl (EmailAlreadyTakenError (''email already in use: '' @ py_repr (the email)))
      else Inr (db\<lparr> a_owners := map (\<lambda>r. if ow_id r = owner then r\<lparr> ow_email := email \<rparr> else r) (a_owners db) \<rparr>))"

definition st_list_tokens :: "auth_db \<Rightarrow> string \<Rightarrow> string \<Rightarrow> token_info list" where
  "st_list_tokens db owner now =
     map (\<lambda>t. \<lparr> ti_token_id = tk_id t, ti_created_at = tk_created_at t, ti_expires_at = tk_expires_at t \<rparr>)
       (rev (sort_key tk_created_at
          (rev (filter (\<lambda>t. tk_owner t = owner \<and> tk_state t = ''active'' \<and> now < tk_expires_at t) (a_tokens db)))))"

section \<open>The service\<close>

definition day_us :: nat where
  "day_us = 86400 * 1000000"

definition DEFAULT_SESSION_TTL :: nat where
  "DEFAULT_SESSION_TTL = 14 * day_us"

definition DEFAULT_TOKEN_TTL :: nat where
  "DEFAULT_TOKEN_TTL = 90 * day_us"

text \<open>\<open>_EMAIL_RE.fullmatch\<close>: the two parts cannot contain the at sign, so it occurs once.\<close>

definition email_local_char :: "char \<Rightarrow> bool" where
  "email_local_char c \<longleftrightarrow> \<not> char_isspace c \<and> c \<notin> set [CHR 0x40, CHR 0x2C, CHR 0x3B, CHR 0x3C, CHR 0x3E, CHR 0x22, CHR 0x28, CHR 0x29]"

definition dns_char :: "char \<Rightarrow> bool" where
  "dns_char c \<longleftrightarrow> is_ascii_alnum c \<or> c = CHR ''-''"

definition final_label :: "string \<Rightarrow> bool" where
  "final_label l \<longleftrightarrow> (l \<noteq> [] \<and> is_ascii_alpha (hd l) \<and> list_all dns_char (tl l))
     \<or> (starts_with ''xn--'' l \<and> length l > 4 \<and> list_all dns_char (drop 4 l))"

definition valid_email :: "string \<Rightarrow> bool" where
  "valid_email e =
     (let (local_part, found, domain) = py_partition (CHR 0x40) e; ls = split_on (CHR ''.'') domain
      in found \<and> local_part \<noteq> [] \<and> list_all email_local_char local_part
         \<and> length ls \<ge> 2 \<and> list_all (\<lambda>l. l \<noteq> [] \<and> list_all dns_char l) (butlast ls) \<and> final_label (last ls))"

datatype hasher_call = Verify string | Dummy

definition authenticate ::
  "(string \<Rightarrow> string \<Rightarrow> bool) \<Rightarrow> auth_db \<Rightarrow> string \<Rightarrow> string \<Rightarrow> principal option \<times> hasher_call list" where
  "authenticate verify db identifier password =
     (case lookup_active_credentials db identifier of
        None \<Rightarrow> (None, [Dummy])
      | Some creds \<Rightarrow>
          (case oc_password_hash creds of
             None \<Rightarrow> (None, [Dummy])
           | Some h \<Rightarrow>
               (if \<not> verify h password then None
                else Some \<lparr> p_owner_id = oc_owner_id creds, p_role = oc_role creds \<rparr>, [Verify h])))"

text \<open>\<open>datetime.timestamp()\<close> of an instant: seconds since 1970.\<close>

definition timestamp :: "nat \<Rightarrow> rat" where
  "timestamp t = of_int (int t - 62135596800000000) / 1000000"

definition check_and_authenticate ::
  "(string \<Rightarrow> string \<Rightarrow> bool) \<Rightarrow> login_limits \<Rightarrow> nat \<Rightarrow> auth_db \<Rightarrow> string \<Rightarrow> string
    \<Rightarrow> (principal option \<times> rat option) \<times> hasher_call list \<times> auth_db" where
  "check_and_authenticate verify lm t db identifier password =
     (let key = py_lower (py_strip identifier);
          (retry_after, db1) = reserve_login_attempt lm db key (timestamp t)
      in case retry_after of
           Some wait \<Rightarrow> ((None, Some wait), [], db1)
         | None \<Rightarrow>
             (let (who, calls) = authenticate verify db1 identifier password
              in ((who, None), calls,
                  if who \<noteq> None then record_login_success lm db1 key else db1)))"

definition create_session ::
  "(string \<Rightarrow> string) \<Rightarrow> nat \<Rightarrow> nat \<Rightarrow> string \<Rightarrow> auth_db \<Rightarrow> principal \<Rightarrow> (string \<times> auth_db) result" where
  "create_session sha ttl t secret db pr =
     bindE (st_create_session db (sha secret) (p_owner_id pr) (isoformat t) (isoformat (t + ttl)))
       (\<lambda>db'. Inr (secret, db'))"

definition principal_of :: "(string \<times> string) option \<Rightarrow> principal option" where
  "principal_of identity = map_option (\<lambda>(owner, role). \<lparr> p_owner_id = owner, p_role = role \<rparr>) identity"

definition verify_session :: "(string \<Rightarrow> string) \<Rightarrow> nat \<Rightarrow> auth_db \<Rightarrow> string \<Rightarrow> principal option" where
  "verify_session sha t db session_id = principal_of (resolve_session db (sha session_id) (isoformat t))"

definition revoke_session :: "(string \<Rightarrow> string) \<Rightarrow> auth_db \<Rightarrow> principal \<Rightarrow> string \<Rightarrow> auth_db" where
  "revoke_session sha db pr session_id = delete_session db (sha session_id)"

record issued_token =
  it_token_id :: string
  it_token :: string

definition create_token ::
  "(string \<Rightarrow> string) \<Rightarrow> nat \<Rightarrow> nat \<Rightarrow> string \<Rightarrow> string \<Rightarrow> auth_db \<Rightarrow> principal \<Rightarrow> (issued_token \<times> auth_db) result" where
  "create_token sha ttl t secret tid db pr =
     bindE (st_create_token db (sha secret) tid (p_owner_id pr) (isoformat t) (isoformat (t + ttl)))
       (\<lambda>db'. Inr (\<lparr> it_token_id = tid, it_token = secret \<rparr>, db'))"

definition verify_bearer :: "(string \<Rightarrow> string) \<Rightarrow> nat \<Rightarrow> auth_db \<Rightarrow> string \<Rightarrow> principal option" where
  "verify_bearer sha t db token = principal_of (resolve_token db (sha token) (isoformat t))"

definition revoke_token :: "auth_db \<Rightarrow> principal \<Rightarrow> string \<Rightarrow> auth_db" where
  "revoke_token db pr tid = st_revoke_token db (p_owner_id pr) tid"

definition revoke_all :: "auth_db \<Rightarrow> principal \<Rightarrow> string \<Rightarrow> auth_db result" where
  "revoke_all db pr target =
     (if target \<noteq> p_owner_id pr \<and> p_role pr \<noteq> ''admin''
      then Inl (PermissionError (''principal '' @ py_repr (p_owner_id pr) @ '' (role='' @ py_repr (p_role pr)
             @ '') may not revoke access for owner '' @ py_repr target))
      else Inr (revoke_owner_tokens (delete_owner_sessions db target) target))"

definition get_email :: "auth_db \<Rightarrow> principal \<Rightarrow> string option" where
  "get_email db pr = st_get_email db (p_owner_id pr)"

definition set_email :: "auth_db \<Rightarrow> principal \<Rightarrow> string option \<Rightarrow> auth_db result" where
  "set_email db pr email =
     (case email of
        Some e \<Rightarrow> if \<not> valid_email e then Inl (ValueError (''invalid email format: '' @ py_repr e))
                  else st_set_email db (p_owner_id pr) email
      | None \<Rightarrow> st_set_email db (p_owner_id pr) email)"

definition list_tokens :: "nat \<Rightarrow> auth_db \<Rightarrow> principal \<Rightarrow> token_info list" where
  "list_tokens t db pr = st_list_tokens db (p_owner_id pr) (isoformat t)"

section \<open>The web transport\<close>

datatype http_exception = HTTPException nat string

type_synonym 'a http = "http_exception + 'a"

text \<open>\<open>hmac.new(key, msg, sha256).hexdigest()\<close> is the parameter \<open>mac\<close>.\<close>

type_synonym mac = "string \<Rightarrow> string \<Rightarrow> string"

definition COOKIE_NAME :: string where
  "COOKIE_NAME = ''kerdoos_session''"

definition new_session_cookie :: "string \<Rightarrow> unit result" where
  "new_session_cookie secret = raise_if (secret = []) (ValueError ''session cookie secret must not be empty'')"

definition sign :: "mac \<Rightarrow> string \<Rightarrow> string \<Rightarrow> string" where
  "sign mac secret session_id = mac secret session_id"

definition issue_cookie :: "mac \<Rightarrow> string \<Rightarrow> string \<Rightarrow> string" where
  "issue_cookie mac secret session_id = session_id @ ''.'' @ sign mac secret session_id"

definition read_cookie :: "mac \<Rightarrow> string \<Rightarrow> string option \<Rightarrow> string option" where
  "read_cookie mac secret cookie_value =
     (case cookie_value of
        None \<Rightarrow> None
      | Some v \<Rightarrow>
          if v = [] \<or> CHR ''.'' \<notin> set v then None
          else let (session_id, _, signature) = py_rpartition (CHR ''.'') v
               in if session_id = [] \<or> signature = [] then None
                  else if sign mac secret session_id \<noteq> signature then None
                  else Some session_id)"

definition CSRF_HEADER :: string where
  "CSRF_HEADER = ''X-CSRF-Token''"

definition CSRF_FIELD :: string where
  "CSRF_FIELD = ''csrf_token''"

definition SAFE_METHODS :: "string list" where
  "SAFE_METHODS = [''GET'', ''HEAD'', ''OPTIONS'', ''TRACE'']"

definition issue_csrf :: "mac \<Rightarrow> string \<Rightarrow> string \<Rightarrow> string" where
  "issue_csrf mac secret session_id = mac secret (''csrf:'' @ session_id)"

text \<open>What the guards read of a request: the method, the session cookie, the two places of the token
  (a form field may also be an upload, which is not a string), the Authorization header.\<close>

datatype form_value = FormText string | FormUpload

record http_request =
  rq_method :: string
  rq_cookie :: "string option"
  rq_csrf_header :: "string option"
  rq_csrf_field :: "form_value option"
  rq_authorization :: "string option"

definition csrf_token_for :: "mac \<Rightarrow> string \<Rightarrow> http_request \<Rightarrow> string" where
  "csrf_token_for mac secret rq =
     (case read_cookie mac secret (rq_cookie rq) of None \<Rightarrow> [] | Some sid \<Rightarrow> issue_csrf mac secret sid)"

definition submitted_token :: "http_request \<Rightarrow> string option" where
  "submitted_token rq =
     (if truthy (rq_csrf_header rq) then rq_csrf_header rq
      else case rq_csrf_field rq of Some (FormText s) \<Rightarrow> Some s | _ \<Rightarrow> None)"

definition verify_csrf :: "mac \<Rightarrow> string \<Rightarrow> http_request \<Rightarrow> unit http" where
  "verify_csrf mac secret rq =
     (if rq_method rq \<in> set SAFE_METHODS then Inr ()
      else case read_cookie mac secret (rq_cookie rq) of
        None \<Rightarrow> Inl (HTTPException 403 ''missing session'')
      | Some sid \<Rightarrow>
          if \<not> truthy (submitted_token rq) \<or> submitted_token rq \<noteq> Some (issue_csrf mac secret sid)
          then Inl (HTTPException 403 ''invalid csrf token'') else Inr ())"

definition web_verify_session ::
  "(string \<Rightarrow> string) \<Rightarrow> mac \<Rightarrow> string \<Rightarrow> nat \<Rightarrow> auth_db \<Rightarrow> http_request \<Rightarrow> principal http" where
  "web_verify_session sha mac secret t db rq =
     (case (case read_cookie mac secret (rq_cookie rq) of
              None \<Rightarrow> None | Some sid \<Rightarrow> verify_session sha t db sid) of
        None \<Rightarrow> Inl (HTTPException 401 ''invalid or expired session'')
      | Some pr \<Rightarrow> Inr pr)"

definition web_verify_bearer :: "(string \<Rightarrow> string) \<Rightarrow> nat \<Rightarrow> auth_db \<Rightarrow> http_request \<Rightarrow> principal http" where
  "web_verify_bearer sha t db rq =
     (let header = (case rq_authorization rq of None \<Rightarrow> [] | Some h \<Rightarrow> h);
          (scheme, _, token) = py_partition (CHR '' '') header
      in case (if py_lower scheme = ''bearer'' \<and> token \<noteq> [] then verify_bearer sha t db token else None) of
           None \<Rightarrow> Inl (HTTPException 401 ''invalid or expired token'')
         | Some pr \<Rightarrow> Inr pr)"

definition require_admin :: "principal http \<Rightarrow> principal http" where
  "require_admin r =
     (case r of Inl e \<Rightarrow> Inl e
      | Inr pr \<Rightarrow> if p_role pr \<noteq> ''admin'' then Inl (HTTPException 403 ''admin role required'') else Inr pr)"

section \<open>Sessions and tokens\<close>

definition auth_inv :: "auth_db \<Rightarrow> bool" where
  "auth_inv db \<longleftrightarrow>
     distinct (map ow_id (a_owners db)) \<and> distinct (map se_hash (a_sessions db))
     \<and> distinct (map tk_hash (a_tokens db)) \<and> distinct (map at_key (a_attempts db))"

definition owner_identity :: "auth_db \<Rightarrow> string \<Rightarrow> (string \<times> string) option" where
  "owner_identity db owner =
     map_option (\<lambda>r. (ow_id r, ow_role r)) (List.find (\<lambda>r. ow_id r = owner \<and> active_owner r) (a_owners db))"

text \<open>The join of one row with the owners: at most one owner matches.\<close>

lemma join_owners:
  "distinct (map ow_id owners) \<Longrightarrow>
     [(ow_id o1, ow_role o1). o1 \<leftarrow> owners, ow_id o1 = owner \<and> active_owner o1] =
       (case List.find (\<lambda>r. ow_id r = owner \<and> active_owner r) owners of
          None \<Rightarrow> [] | Some r \<Rightarrow> [(ow_id r, ow_role r)])"
proof (induction owners)
  case (Cons o1 owners)
  show ?case
  proof (cases "ow_id o1 = owner")
    case True
    then have other: "ow_id o2 \<noteq> owner" if "o2 \<in> set owners" for o2
      using Cons.prems that by (auto simp: rev_image_eqI)
    have "[(ow_id o2, ow_role o2). o2 \<leftarrow> owners, ow_id o2 = owner \<and> active_owner o2] = []"
      using other by (auto simp: concat_eq_Nil_conv)
    moreover have "List.find (\<lambda>r. ow_id r = owner \<and> active_owner r) owners = None"
      using other by (auto simp: find_None_iff)
    ultimately show ?thesis using True Cons by simp
  next
    case False
    then show ?thesis using Cons by simp
  qed
qed simp

lemma join_unique:
  assumes "distinct (map key rows)" "r \<in> set rows" "key r = h" "\<And>x. key x \<noteq> h \<Longrightarrow> f x = []"
  shows "concat (map f rows) = f r"
  using assms(1,2)
proof (induction rows)
  case (Cons x rows)
  show ?case
  proof (cases "x = r")
    case True
    then have "f y = []" if "y \<in> set rows" for y
      using Cons.prems assms(3) that by (intro assms(4)) (auto simp: rev_image_eqI)
    then show ?thesis using True by simp
  next
    case False
    then have "key x \<noteq> h" using Cons.prems assms(3) by (auto simp: rev_image_eqI)
    then show ?thesis using Cons False assms(4) by simp
  qed
qed simp

lemma resolve_session_row:
  assumes inv: "auth_inv db" and row: "s \<in> set (a_sessions db)"
  shows "resolve_session db (se_hash s) now =
    (if now < se_expires_at s then owner_identity db (se_owner s) else None)"
proof -
  define f where "f s' = [(ow_id o1, ow_role o1). o1 \<leftarrow> a_owners db,
      ow_id o1 = se_owner s' \<and> se_hash s' = se_hash s \<and> active_owner o1 \<and> now < se_expires_at s']" for s' :: session_row
  have "concat (map f (a_sessions db)) = f s"
    using inv row by (intro join_unique [of se_hash]) (auto simp: auth_inv_def f_def)
  moreover have "f s = (if now < se_expires_at s then
      [(ow_id o1, ow_role o1). o1 \<leftarrow> a_owners db, ow_id o1 = se_owner s \<and> active_owner o1] else [])"
    by (simp add: f_def)
  ultimately show ?thesis
    using join_owners [of "a_owners db" "se_owner s"] inv
    by (simp add: resolve_session_def f_def [symmetric] owner_identity_def auth_inv_def split: option.split)
qed

lemma resolve_token_row:
  assumes inv: "auth_inv db" and row: "t \<in> set (a_tokens db)"
  shows "resolve_token db (tk_hash t) now =
    (if tk_state t = ''active'' \<and> now < tk_expires_at t then owner_identity db (tk_owner t) else None)"
proof -
  define f where "f t' = [(ow_id o1, ow_role o1). o1 \<leftarrow> a_owners db,
      ow_id o1 = tk_owner t' \<and> tk_hash t' = tk_hash t \<and> tk_state t' = ''active'' \<and> active_owner o1
      \<and> now < tk_expires_at t']" for t' :: token_row
  have "concat (map f (a_tokens db)) = f t"
    using inv row by (intro join_unique [of tk_hash]) (auto simp: auth_inv_def f_def)
  moreover have "f t = (if tk_state t = ''active'' \<and> now < tk_expires_at t then
      [(ow_id o1, ow_role o1). o1 \<leftarrow> a_owners db, ow_id o1 = tk_owner t \<and> active_owner o1] else [])"
    by (auto simp: f_def)
  ultimately show ?thesis
    using join_owners [of "a_owners db" "tk_owner t"] inv
    by (simp add: resolve_token_def f_def [symmetric] owner_identity_def auth_inv_def split: option.split)
qed

lemma resolve_session_missing: "h \<notin> se_hash ` set (a_sessions db) \<Longrightarrow> resolve_session db h now = None"
proof -
  assume "h \<notin> se_hash ` set (a_sessions db)"
  then have none: "[(ow_id o1, ow_role o1). s \<leftarrow> a_sessions db, o1 \<leftarrow> a_owners db,
      ow_id o1 = se_owner s \<and> se_hash s = h \<and> active_owner o1 \<and> now < se_expires_at s] = []"
    by (auto simp: concat_eq_Nil_conv)
  show ?thesis unfolding resolve_session_def none by simp
qed

lemma resolve_token_missing: "h \<notin> tk_hash ` set (a_tokens db) \<Longrightarrow> resolve_token db h now = None"
proof -
  assume "h \<notin> tk_hash ` set (a_tokens db)"
  then have none: "[(ow_id o1, ow_role o1). t \<leftarrow> a_tokens db, o1 \<leftarrow> a_owners db,
      ow_id o1 = tk_owner t \<and> tk_hash t = h \<and> tk_state t = ''active'' \<and> active_owner o1
      \<and> now < tk_expires_at t] = []"
    by (auto simp: concat_eq_Nil_conv)
  show ?thesis unfolding resolve_token_def none by simp
qed

lemma auth_inv_ops:
  assumes "auth_inv db"
  shows "st_create_session db h ow c e = Inr db' \<Longrightarrow> auth_inv db'"
    and "st_create_token db h tid ow c e = Inr db' \<Longrightarrow> auth_inv db'"
    and "auth_inv (delete_session db h)" and "auth_inv (delete_owner_sessions db ow)"
    and "auth_inv (st_revoke_token db ow tid)" and "auth_inv (revoke_owner_tokens db ow)"
    and "auth_inv (record_login_success lm db key)"
  using assms
  by (auto simp: auth_inv_def st_create_session_def st_create_token_def delete_session_def delete_owner_sessions_def
      st_revoke_token_def revoke_owner_tokens_def record_login_success_def comp_def if_distrib [of tk_hash] distinct_map_filter
      split: if_splits cong: if_cong)

section \<open>The rate limit\<close>

lemma find_key: "distinct (map at_key rows) \<Longrightarrow> r \<in> set rows \<Longrightarrow> List.find (\<lambda>x. at_key x = at_key r) rows = Some r"
  by (induction rows) (auto simp: rev_image_eqI)

lemma find_key_None: "key \<notin> set (map at_key rows) \<Longrightarrow> List.find (\<lambda>x. at_key x = key) rows = None"
  by (auto simp: find_None_iff)

definition attempts_of :: "attempt_row list \<Rightarrow> string \<Rightarrow> int" where
  "attempts_of rows key = (case List.find (\<lambda>r. at_key r = key) rows of None \<Rightarrow> 0 | Some r \<Rightarrow> at_count r)"

definition bump :: "string \<Rightarrow> attempt_row \<Rightarrow> attempt_row" where
  "bump key r = (if at_key r = key then r\<lparr> at_count := at_count r + 1 \<rparr> else r)"

lemma bump_key [simp]: "at_key (bump key r) = at_key r"
  by (simp add: bump_def)

lemma bump_keys [simp]: "map at_key (map (bump key) rows) = map at_key rows" "at_key \<circ> bump key = at_key"
  by (simp_all add: comp_def)

lemma find_bump:
  "List.find (\<lambda>r. at_key r = k) (map (bump key) rows) = map_option (bump key) (List.find (\<lambda>r. at_key r = k) rows)"
  by (induction rows) auto

lemma count_attempt_bump:
  "count_attempt key now rows =
     (if key \<in> set (map at_key rows) then map (bump key) rows
      else rows @ [\<lparr> at_key = key, at_count = 1, at_window = now \<rparr>])"
  by (simp add: count_attempt_def bump_def [abs_def])

lemma count_attempt_key_list:
  "map at_key (count_attempt key now rows) =
     (if key \<in> set (map at_key rows) then map at_key rows else map at_key rows @ [key])"
  by (simp add: count_attempt_bump)

lemma count_attempt_keys: "set (map at_key (count_attempt key now rows)) = insert key (set (map at_key rows))"
  unfolding count_attempt_key_list by auto

lemma count_attempt_distinct: "distinct (map at_key rows) \<Longrightarrow> distinct (map at_key (count_attempt key now rows))"
  unfolding count_attempt_key_list by auto

lemma find_key_some: "List.find (\<lambda>r. at_key r = k) rows = Some r \<Longrightarrow> at_key r = k"
  by (auto simp: find_Some_iff)

lemma attempts_of_count:
  "attempts_of (count_attempt key now rows) k = attempts_of rows k + (if k = key then 1 else 0)"
proof (cases "key \<in> set (map at_key rows)")
  case True
  then have "k = key \<Longrightarrow> List.find (\<lambda>r. at_key r = k) rows \<noteq> None" by (auto simp: find_None_iff)
  with True show ?thesis
    by (auto simp: attempts_of_def count_attempt_bump find_bump bump_def dest: find_key_some split: option.split)
next
  case False
  have app: "List.find P (xs @ [x]) = (case List.find P xs of None \<Rightarrow> if P x then Some x else None | Some y \<Rightarrow> Some y)"
    for P and xs :: "attempt_row list" and x by (induction xs) auto
  from False find_key_None [of key rows] show ?thesis
    by (auto simp: attempts_of_def count_attempt_bump app split: option.split)
qed

text \<open>A table without expired rows and with room left.\<close>

definition live_rows :: "login_limits \<Rightarrow> rat \<Rightarrow> attempt_row list \<Rightarrow> bool" where
  "live_rows lm t0 rows \<longleftrightarrow> distinct (map at_key rows) \<and> (\<forall>r \<in> set rows. t0 \<le> at_window r)"

lemma reserve_write_live:
  fixes key :: string
  assumes live: "live_rows lm t0 (a_attempts db)" and time: "t0 \<le> now" "now < t0 + lim_window lm"
    and room: "int (length (a_attempts db)) < lim_row_cap lm"
  defines "db' \<equiv> snd (reserve_write lm db key now)"
  shows "live_rows lm t0 (a_attempts db')" "length (a_attempts db') \<le> Suc (length (a_attempts db))"
    "attempts_of (a_attempts db') k = attempts_of (a_attempts db) k + (if k = key then 1 else 0)"
    "fst (reserve_write lm db key now) = None \<longleftrightarrow> attempts_of (a_attempts db) key < lim_max_attempts lm"
proof -
  have "filter (\<lambda>r. \<not> at_window r \<le> now - lim_window lm) (a_attempts db) = a_attempts db"
    using live time by (fastforce simp: live_rows_def filter_id_conv)
  then have rows: "a_attempts db' = count_attempt key now (a_attempts db)"
    using room by (simp add: db'_def reserve_write_def Let_def evict_for_def split: option.split)
  have d: "distinct (map at_key (a_attempts db))" using live by (simp add: live_rows_def)
  show "live_rows lm t0 (a_attempts db')"
    using live time count_attempt_distinct [OF d, of key now]
    by (auto simp: rows live_rows_def count_attempt_bump bump_def)
  show "length (a_attempts db') \<le> Suc (length (a_attempts db))" by (simp add: rows count_attempt_def)
  show att: "attempts_of (a_attempts db') k = attempts_of (a_attempts db) k + (if k = key then 1 else 0)" for k
    using attempts_of_count by (simp add: rows)
  have dk: "distinct (map at_key (a_attempts db'))" "key \<in> set (map at_key (a_attempts db'))"
    using count_attempt_distinct [OF d, of key now] count_attempt_keys [of key now "a_attempts db"]
    by (simp_all add: rows)
  then obtain r where r: "List.find (\<lambda>r. at_key r = key) (a_attempts db') = Some r"
    using find_key by fastforce
  have "fst (reserve_write lm db key now) = None \<longleftrightarrow> \<not> at_count r > lim_max_attempts lm"
    using r unfolding db'_def by (auto simp: reserve_write_def Let_def split: option.splits)
  moreover have "at_count r = attempts_of (a_attempts db) key + 1"
    using att [of key] r by (simp add: attempts_of_def)
  ultimately show "fst (reserve_write lm db key now) = None \<longleftrightarrow> attempts_of (a_attempts db) key < lim_max_attempts lm"
    by auto
qed

text \<open>The full operation answers as the counting transaction does, and never counts less than a refused
  attempt needs.\<close>

lemma reserve_live:
  fixes key :: string
  assumes live: "live_rows lm t0 (a_attempts db)" and time: "t0 \<le> now" "now < t0 + lim_window lm"
    and room: "int (length (a_attempts db)) < lim_row_cap lm" and pos: "0 < lim_max_attempts lm"
  defines "db' \<equiv> snd (reserve_login_attempt lm db key now)"
  shows "live_rows lm t0 (a_attempts db')" "length (a_attempts db') \<le> Suc (length (a_attempts db))"
    "fst (reserve_login_attempt lm db key now) = None \<longleftrightarrow> attempts_of (a_attempts db) key < lim_max_attempts lm"
    "attempts_of (a_attempts db') k = attempts_of (a_attempts db) k
       \<or> k = key \<and> attempts_of (a_attempts db') k = attempts_of (a_attempts db) k + 1"
    "fst (reserve_login_attempt lm db key now) = None \<Longrightarrow>
       attempts_of (a_attempts db') key = attempts_of (a_attempts db) key + 1"
proof -
  note w = reserve_write_live [OF live time room]
  have "List.find (\<lambda>r. at_key r = key \<and> at_window r > now - lim_window lm) (a_attempts db)
      = List.find (\<lambda>r. at_key r = key) (a_attempts db)"
    using live time by (intro find_cong refl) (fastforce simp: live_rows_def)
  then have read: "blocked_by_read lm db key now = None \<longleftrightarrow> attempts_of (a_attempts db) key < lim_max_attempts lm"
    using pos by (auto simp: blocked_by_read_def attempts_of_def split: option.split)
  show "live_rows lm t0 (a_attempts db')" "length (a_attempts db') \<le> Suc (length (a_attempts db))"
    "fst (reserve_login_attempt lm db key now) = None \<longleftrightarrow> attempts_of (a_attempts db) key < lim_max_attempts lm"
    "attempts_of (a_attempts db') k = attempts_of (a_attempts db) k
       \<or> k = key \<and> attempts_of (a_attempts db') k = attempts_of (a_attempts db) k + 1"
    "fst (reserve_login_attempt lm db key now) = None \<Longrightarrow>
       attempts_of (a_attempts db') key = attempts_of (a_attempts db) key + 1"
    using w read live pos
    by (auto simp: db'_def reserve_login_attempt_def split: option.split)
qed

text \<open>A burst of requests. A request that raced has done its read before the others counted, and only
  runs the counting transaction.\<close>

fun burst :: "login_limits \<Rightarrow> (string \<times> rat \<times> bool) list \<Rightarrow> auth_db \<Rightarrow> (string \<times> bool) list" where
  "burst lm [] db = []"
| "burst lm ((key, now, raced) # requests) db =
     (let (r, db1) = (if raced then reserve_write lm db key now else reserve_login_attempt lm db key now)
      in (key, r = None) # burst lm requests db1)"

lemma burst_allowed:
  assumes "live_rows lm t0 (a_attempts db)" "0 < lim_max_attempts lm"
    and "\<And>k now raced. (k, now, raced) \<in> set requests \<Longrightarrow> t0 \<le> now \<and> now < t0 + lim_window lm"
    and "int (length (a_attempts db)) + int (length requests) \<le> lim_row_cap lm"
  shows "length (filter (\<lambda>x. x = (key, True)) (burst lm requests db)) =
    min (nat (lim_max_attempts lm - attempts_of (a_attempts db) key)) (length (filter (\<lambda>x. fst x = key) requests))"
  using assms
proof (induction requests arbitrary: db)
  case (Cons req requests)
  obtain k now raced where req: "req = (k, now, raced)" by (cases req)
  have time: "t0 \<le> now" "now < t0 + lim_window lm" using Cons.prems(3) req by auto
  have room: "int (length (a_attempts db)) < lim_row_cap lm" using Cons.prems(4) by simp
  obtain r db1 where step: "(if raced then reserve_write lm db k now else reserve_login_attempt lm db k now) = (r, db1)"
    by (metis surj_pair)
  note w = reserve_write_live [OF Cons.prems(1) time room, of k] reserve_live [OF Cons.prems(1) time room Cons.prems(2), of k]
  have facts: "live_rows lm t0 (a_attempts db1)" "length (a_attempts db1) \<le> Suc (length (a_attempts db))"
    "r = None \<longleftrightarrow> attempts_of (a_attempts db) k < lim_max_attempts lm"
    "k \<noteq> key \<Longrightarrow> attempts_of (a_attempts db1) key = attempts_of (a_attempts db) key"
    "r = None \<Longrightarrow> attempts_of (a_attempts db1) k = attempts_of (a_attempts db) k + 1"
    using w step by (auto split: if_splits)
  have facts6: "attempts_of (a_attempts db) k \<le> attempts_of (a_attempts db1) k"
    using w(3) [of k] w(8) [of k] step by (auto split: if_splits)
  have IH: "length (filter (\<lambda>x. x = (key, True)) (burst lm requests db1)) =
    min (nat (lim_max_attempts lm - attempts_of (a_attempts db1) key)) (length (filter (\<lambda>x. fst x = key) requests))"
    using Cons.IH [of db1] Cons.prems facts(1,2) by (auto simp: algebra_simps)
  show ?case
  proof (cases "k = key")
    case True
    then show ?thesis using facts(3,5) facts6 IH step by (cases "r = None") (auto simp: req)
  next
    case False
    then show ?thesis using facts(4) IH step by (auto simp: req)
  qed
qed simp

section \<open>Cookies and addresses\<close>

lemma read_cookie_iff:
  assumes "CHR ''.'' \<notin> set (mac secret sid)" "mac secret sid \<noteq> []"
  shows "read_cookie mac secret (Some (issue_cookie mac secret sid)) = (if sid = [] then None else Some sid)"
  using assms py_rpartition_append [of "CHR ''.''" "mac secret sid" sid]
  by (simp add: read_cookie_def issue_cookie_def sign_def)

lemma rpartition_split:
  "c \<in> set s \<Longrightarrow> py_rpartition c s = (a, b, d) \<Longrightarrow> s = a @ c # d \<and> c \<notin> set d"
proof -
  assume c: "c \<in> set s" and p: "py_rpartition c s = (a, b, d)"
  then obtain u v where s: "s = u @ c # v" "c \<notin> set v" by (metis split_list_last)
  with p py_rpartition_append [OF s(2), of u] show ?thesis by simp
qed

lemma partition_split:
  "py_partition c s = (a, True, d) \<Longrightarrow> s = a @ c # d \<and> c \<notin> set a"
proof -
  assume p: "py_partition c s = (a, True, d)"
  then have "c \<in> set s" by (auto simp: py_partition_def split: if_splits)
  then obtain u v where s: "s = u @ c # v" "c \<notin> set u" by (metis split_list_first)
  with p py_partition_append [OF s(2), of v] show ?thesis by simp
qed

lemma read_cookie_Some:
  assumes "read_cookie mac secret v = Some sid"
  shows "v = Some (issue_cookie mac secret sid) \<and> sid \<noteq> []"
  using assms
  by (auto simp: read_cookie_def issue_cookie_def Let_def dest!: rpartition_split
      split: option.splits if_splits prod.splits)

lemma final_label_chars: "final_label l \<Longrightarrow> l \<noteq> [] \<and> is_ascii_alpha (hd l) \<and> list_all dns_char l"
  by (cases l) (auto simp: final_label_def starts_with_iff dns_char_def is_ascii_alnum_def is_ascii_alpha_def
      is_ascii_lower_def code_def)

lemma email_parts:
  assumes "valid_email e"
  obtains u d where "e = u @ CHR 0x40 # d" "u \<noteq> []" "list_all email_local_char u" "CHR 0x40 \<notin> set d"
    "list_all (\<lambda>c. dns_char c \<or> c = CHR ''.'') d" "is_ascii_alpha (hd (last (split_on (CHR ''.'') d)))"
    "length (split_on (CHR ''.'') d) \<ge> 2" "last (split_on (CHR ''.'') d) \<noteq> []"
proof -
  obtain u d where p: "py_partition (CHR 0x40) e = (u, True, d)" and u: "u \<noteq> []" "list_all email_local_char u"
    and ls: "length (split_on (CHR ''.'') d) \<ge> 2"
      "list_all (\<lambda>l. l \<noteq> [] \<and> list_all dns_char l) (butlast (split_on (CHR ''.'') d))"
      "final_label (last (split_on (CHR ''.'') d))"
    using assms by (auto simp: valid_email_def Let_def split: prod.splits)
  have e: "e = u @ CHR 0x40 # d"
    using partition_split [OF p] by simp
  have fl: "last (split_on (CHR ''.'') d) \<noteq> [] \<and> is_ascii_alpha (hd (last (split_on (CHR ''.'') d)))
      \<and> list_all dns_char (last (split_on (CHR ''.'') d))"
    using final_label_chars [OF ls(3)] .
  have "list_all dns_char l" if "l \<in> set (split_on (CHR ''.'') d)" for l
  proof -
    have "x \<in> set xs \<Longrightarrow> x \<in> set (butlast xs) \<or> x = last xs" for x :: string and xs
      by (induction xs) auto
    then have "l \<in> set (butlast (split_on (CHR ''.'') d)) \<or> l = last (split_on (CHR ''.'') d)"
      using that by blast
    then show ?thesis using ls(2) fl by (auto simp: list_all_iff)
  qed
  then have d: "list_all (\<lambda>c. dns_char c \<or> c = CHR ''.'') d"
    using split_on_chars [where s = d and c = "CHR ''.''"] by (auto simp: list_all_iff)
  moreover have "\<not> dns_char (CHR 0x40)"
    by (simp add: dns_char_def is_ascii_alnum_def is_ascii_alpha_def is_ascii_lower_def is_ascii_upper_def is_ascii_digit_def code_def)
  ultimately have "CHR 0x40 \<notin> set d" by (auto simp: list_all_iff)
  then show thesis using that e u d fl ls(1) by blast
qed

section \<open>Properties\<close>

text \<open>Login. An attempt that is not rate-limited costs exactly one Argon2 verification whatever the
  identifier is, known or not; one that is rate-limited costs none and yields nobody, even with the
  right password. A principal comes out exactly when the identifier names an active owner, by name
  before email, whose stored hash verifies; its role is the stored one.\<close>

theorem login_outcomes:
  "case check_and_authenticate verify lm t db identifier password of
     ((who, retry_after), calls, db') \<Rightarrow>
       (retry_after = fst (reserve_login_attempt lm db (py_lower (py_strip identifier)) (timestamp t)))
       \<and> length calls = (if retry_after = None then 1 else 0)
       \<and> (who = Some pr \<longleftrightarrow>
            retry_after = None \<and>
            (\<exists>creds h. lookup_active_credentials db identifier = Some creds \<and> oc_password_hash creds = Some h
               \<and> verify h password \<and> pr = \<lparr> p_owner_id = oc_owner_id creds, p_role = oc_role creds \<rparr>))"
proof -
  have owners: "a_owners (snd (reserve_login_attempt lm db key now)) = a_owners db" for key now
    by (auto simp: reserve_login_attempt_def reserve_write_def Let_def split: option.split)
  have "lookup_active_credentials (snd (reserve_login_attempt lm db key now)) identifier
      = lookup_active_credentials db identifier" for key now
    unfolding lookup_active_credentials_def owners ..
  moreover obtain retry db1 where r: "reserve_login_attempt lm db (py_lower (py_strip identifier)) (timestamp t) = (retry, db1)"
    by (metis surj_pair)
  ultimately have look: "lookup_active_credentials db1 identifier = lookup_active_credentials db identifier"
    by (metis snd_conv)
  show ?thesis
    by (cases retry) (auto simp: check_and_authenticate_def r authenticate_def look split: option.split)
qed




definition sample_auth :: auth_db where
  "sample_auth = \<lparr> a_owners = [\<lparr> ow_id = ''o1'', ow_name = ''ana'', ow_email = None, ow_role = ''admin'',
       ow_state = ''active'', ow_password_hash = Some ''h'', ow_created_at = None \<rparr>],
     a_sessions = [], a_tokens = [], a_attempts = [] \<rparr>"


text \<open>C24: Cutting an account. Whoever may call it (the owner itself or an admin), afterwards no session
  and no token of the target resolves at any time, while the sessions and tokens of every other owner
  resolve as before; anyone else gets a permission error and nothing changes.\<close>

theorem revoke_all_cuts:
  assumes inv: "auth_inv db"
  shows "case revoke_all db pr target of
      Inl e \<Rightarrow> target \<noteq> p_owner_id pr \<and> p_role pr \<noteq> ''admin'' \<and> (\<exists>m. e = PermissionError m)
    | Inr db' \<Rightarrow> (target = p_owner_id pr \<or> p_role pr = ''admin'') \<and> auth_inv db'
        \<and> (\<forall>s \<in> set (a_sessions db). resolve_session db' (se_hash s) now =
             (if se_owner s = target then None else resolve_session db (se_hash s) now))
        \<and> (\<forall>t \<in> set (a_tokens db). resolve_token db' (tk_hash t) now =
             (if tk_owner t = target then None else resolve_token db (tk_hash t) now))"
proof (cases "target \<noteq> p_owner_id pr \<and> p_role pr \<noteq> ''admin''")
  case True
  then show ?thesis by (simp add: revoke_all_def)
next
  case False
  define db' where "db' = revoke_owner_tokens (delete_owner_sessions db target) target"
  have r: "revoke_all db pr target = Inr db'" using False by (auto simp: revoke_all_def db'_def)
  have inv': "auth_inv db'" unfolding db'_def by (rule auth_inv_ops(6) [OF auth_inv_ops(4) [OF inv]])
  have own: "owner_identity db' o1 = owner_identity db o1" for o1
    by (simp add: owner_identity_def db'_def revoke_owner_tokens_def delete_owner_sessions_def)
  have ses: "a_sessions db' = filter (\<lambda>s. se_owner s \<noteq> target) (a_sessions db)"
    by (simp add: db'_def revoke_owner_tokens_def delete_owner_sessions_def)
  have inj: "inj_on se_hash (set (a_sessions db))" using inv by (simp add: auth_inv_def distinct_map)
  have "resolve_session db' (se_hash s) now = (if se_owner s = target then None else resolve_session db (se_hash s) now)"
    if s: "s \<in> set (a_sessions db)" for s
  proof (cases "se_owner s = target")
    case True
    then have "se_hash s \<notin> se_hash ` set (a_sessions db')"
      using inj s by (auto simp: ses) (metis inj_onD)
    then show ?thesis using True by (simp add: resolve_session_missing)
  next
    case False
    then have "s \<in> set (a_sessions db')" using s by (simp add: ses)
    then show ?thesis using resolve_session_row [OF inv'] resolve_session_row [OF inv s] False own by simp
  qed
  moreover have "resolve_token db' (tk_hash t) now = (if tk_owner t = target then None else resolve_token db (tk_hash t) now)"
    if t: "t \<in> set (a_tokens db)" for t
  proof -
    define t' where "t' = (if tk_owner t = target then t\<lparr> tk_state := ''disabled'' \<rparr> else t)"
    have "t' \<in> set (a_tokens db')" and h: "tk_hash t' = tk_hash t" "tk_owner t' = tk_owner t"
      "tk_expires_at t' = tk_expires_at t"
      using t by (auto simp: t'_def db'_def revoke_owner_tokens_def delete_owner_sessions_def)
    then show ?thesis
      using resolve_token_row [OF inv', of t' now] resolve_token_row [OF inv t, of now] own by (simp add: t'_def)
  qed
  ultimately show ?thesis using r False inv' by auto
qed

theorem revoke_all_cuts_witness:
  "auth_inv sample_auth \<and> (\<exists>m. revoke_all sample_auth \<lparr> p_owner_id = ''o2'', p_role = ''user'' \<rparr> ''o1'' = Inl (PermissionError m))"
proof -
  have inv: "auth_inv sample_auth" by (simp add: auth_inv_def sample_auth_def)
  have "isl (revoke_all sample_auth \<lparr> p_owner_id = ''o2'', p_role = ''user'' \<rparr> ''o1'')" by (simp add: revoke_all_def)
  with inv revoke_all_cuts [OF inv, where pr = "\<lparr> p_owner_id = ''o2'', p_role = ''user'' \<rparr>" and target = "''o1''"]
  show ?thesis by (auto simp: isl_def)
qed

text \<open>C25: The session cookie. A cookie value is accepted exactly when it is the signed value of a
  nonempty session id, and the accepted id is that one, provided the signature is a hexadecimal
  digest; so a changed id or signature is rejected unless it is again a valid signature.\<close>

theorem read_cookie_exact:
  assumes "\<And>sid. mac secret sid \<noteq> [] \<and> CHR ''.'' \<notin> set (mac secret sid)"
  shows "read_cookie mac secret v = Some sid \<longleftrightarrow> sid \<noteq> [] \<and> v = Some (issue_cookie mac secret sid)"
  using assms read_cookie_Some [of mac secret v sid] read_cookie_iff [of mac secret sid] by auto

theorem read_cookie_exact_witness:
  "read_cookie (\<lambda>k m. ''ab'') ''k'' (Some ''sid.ab'') = Some ''sid''"
  using read_cookie_exact [of "\<lambda>k m. ''ab''" "''k''" "Some ''sid.ab''" "''sid''"]
  by (simp add: issue_cookie_def sign_def)

text \<open>The write surface. A request with an unsafe method passes both guards of a protected router
  only if its cookie is the signed cookie of a session that resolves to the returned principal, and
  it carries, in the header or else in the form, the token derived from that very session. For
  session ids without a colon, as the server mints them, that token is computed on a message that is
  no session id, so a cookie signature never doubles as a token.\<close>

theorem unsafe_request_guarded:
  assumes "rq_method rq \<notin> set SAFE_METHODS" and "verify_csrf mac secret rq = Inr ()"
    and "web_verify_session sha mac secret t db rq = Inr pr"
  shows "\<exists>sid. sid \<noteq> [] \<and> rq_cookie rq = Some (issue_cookie mac secret sid)
    \<and> resolve_session db (sha sid) (isoformat t) = Some (p_owner_id pr, p_role pr)
    \<and> submitted_token rq = Some (mac secret (''csrf:'' @ sid))
    \<and> (\<forall>sid'. CHR '':'' \<notin> set sid' \<longrightarrow> sid' \<noteq> ''csrf:'' @ sid)"
proof -
  obtain sid where sid: "read_cookie mac secret (rq_cookie rq) = Some sid"
    and tok: "submitted_token rq = Some (issue_csrf mac secret sid)"
    using assms(1,2) by (auto simp: verify_csrf_def split: option.splits if_splits)
  have "verify_session sha t db sid = Some pr"
    using assms(3) sid by (auto simp: web_verify_session_def split: option.splits)
  then have "resolve_session db (sha sid) (isoformat t) = Some (p_owner_id pr, p_role pr)"
    by (auto simp: verify_session_def principal_of_def)
  then show ?thesis using read_cookie_Some [OF sid] tok by (auto simp: issue_csrf_def)
qed

theorem unsafe_request_guarded_witness:
  "\<exists>sid. rq_cookie \<lparr> rq_method = ''POST'', rq_cookie = Some ''s.ab'', rq_csrf_header = Some ''cd'', rq_csrf_field = None,
       rq_authorization = None \<rparr> = Some (issue_cookie (\<lambda>k m. if m = ''s'' then ''ab'' else ''cd'') ''k'' sid)"
proof -
  let ?mac = "\<lambda>k m. if m = ''s'' then ''ab'' else ''cd''"
  let ?rq = "\<lparr> rq_method = ''POST'', rq_cookie = Some ''s.ab'', rq_csrf_header = Some ''cd'', rq_csrf_field = None,
       rq_authorization = None \<rparr>"
  let ?db = "sample_auth\<lparr> a_sessions := [\<lparr> se_hash = ''s'', se_owner = ''o1'', se_created_at = [], se_expires_at = ''1'' \<rparr>] \<rparr>"
  have read: "read_cookie ?mac ''k'' (Some ''s.ab'') = Some ''s''" by code_simp
  have a: "rq_method ?rq \<notin> set SAFE_METHODS" by (simp add: SAFE_METHODS_def)
  have b: "verify_csrf ?mac ''k'' ?rq = Inr ()" by code_simp
  have c: "web_verify_session (\<lambda>s. s) ?mac ''k'' 0 ?db ?rq = Inr \<lparr> p_owner_id = ''o1'', p_role = ''admin'' \<rparr>"
    by code_simp
  show ?thesis using unsafe_request_guarded [OF a b c] by blast
qed

lemma dotted_name_no_ip:
  assumes "list_all (\<lambda>c. dns_char c \<or> c = CHR ''.'') d" and "last (split_on (CHR ''.'') d) \<noteq> []"
    and "is_ascii_alpha (hd (last (split_on (CHR ''.'') d)))"
  shows "ip_address d = None"
proof -
  let ?ls = "split_on (CHR ''.'') d"
  have "parse_octet (last ?ls) = None"
    using assms(2,3) by (cases "last ?ls") (auto simp: parse_octet_def is_ascii_alpha_def is_ascii_lower_def
        is_ascii_upper_def is_ascii_digit_def)
  then have "last (map parse_octet ?ls) = None" by (simp add: last_map)
  then have v4: "parse_ipv4 d = None"
    by (auto simp: parse_ipv4_def split: list.splits option.splits)
  have no: "\<not> dns_char (CHR ''%'')" "\<not> dns_char (CHR '':'')"
    by (simp_all add: dns_char_def is_ascii_alnum_def is_ascii_alpha_def is_ascii_lower_def is_ascii_upper_def
        is_ascii_digit_def code_def)
  have "CHR ''%'' \<notin> set d" "CHR '':'' \<notin> set d" using assms(1) no by (auto simp: list_all_iff)
  then have "parse_ipv6 d = None"
    by (simp add: parse_ipv6_def py_partition_no ipv6_parts_def split_on_id)
  with v4 show ?thesis by (simp add: ip_address_def)
qed

lemma dns_char_plain:
  "dns_char c \<or> c = CHR ''.'' \<or> c = CHR 0x40 \<Longrightarrow> \<not> char_isspace c \<and> c \<notin> {CHR 0x2C, CHR 0x3B, CHR 0x3C, CHR 0x3E, CHR 0x22, CHR 0x28, CHR 0x29}"
  by (auto simp: dns_char_def is_ascii_alnum_def is_ascii_alpha_def is_ascii_lower_def is_ascii_upper_def
      is_ascii_digit_def char_isspace_def code_def)

text \<open>Addresses that the profile accepts. They have exactly one at sign and no separator that a mail
  header would read as a second recipient, and the part after the at sign is a dotted name whose last
  label starts with a letter: never an address literal, so a relay cannot be pointed at a host by
  its address.\<close>

theorem valid_email_domain:
  assumes "valid_email e"
  shows "\<exists>u d. e = u @ CHR 0x40 # d \<and> CHR 0x40 \<notin> set u \<and> CHR 0x40 \<notin> set d
    \<and> (\<forall>c \<in> set e. \<not> char_isspace c \<and> c \<notin> {CHR 0x2C, CHR 0x3B, CHR 0x3C, CHR 0x3E, CHR 0x22, CHR 0x28, CHR 0x29})
    \<and> ip_address d = None"
proof -
  obtain u d where e: "e = u @ CHR 0x40 # d" "list_all email_local_char u" "CHR 0x40 \<notin> set d"
    "list_all (\<lambda>c. dns_char c \<or> c = CHR ''.'') d" "is_ascii_alpha (hd (last (split_on (CHR ''.'') d)))"
    "last (split_on (CHR ''.'') d) \<noteq> []"
    using assms by (rule email_parts)
  have "\<not> char_isspace c \<and> c \<notin> {CHR 0x2C, CHR 0x3B, CHR 0x3C, CHR 0x3E, CHR 0x22, CHR 0x28, CHR 0x29}" if "c \<in> set e" for c
  proof (cases "c \<in> set u")
    case True
    then have "email_local_char c" using e(2) by (simp add: list_all_iff)
    then show ?thesis by (auto simp: email_local_char_def)
  next
    case False
    then have "dns_char c \<or> c = CHR ''.'' \<or> c = CHR 0x40" using that e(1,4) by (auto simp: list_all_iff)
    then show ?thesis by (rule dns_char_plain)
  qed
  moreover have "CHR 0x40 \<notin> set u" using e(2) by (auto simp: list_all_iff email_local_char_def)
  ultimately show ?thesis using e(1,3) dotted_name_no_ip [OF e(4,6,5)] by blast
qed

theorem valid_email_domain_witness:
  "valid_email (''a'' @ CHR 0x40 # ''mail.example.com'') \<and> \<not> valid_email (''a'' @ CHR 0x40 # ''10.0.0.1'')
   \<and> (\<exists>u d. ''a'' @ CHR 0x40 # ''mail.example.com'' = u @ CHR 0x40 # d \<and> ip_address d = None)"
proof -
  have ok: "valid_email (''a'' @ CHR 0x40 # ''mail.example.com'')" by code_simp
  moreover have "\<not> valid_email (''a'' @ CHR 0x40 # ''10.0.0.1'')" by code_simp
  ultimately show ?thesis using valid_email_domain [OF ok] by blast
qed

end
