(* ===== verification/Smtp.thy ===== *)
theory Smtp
  imports Digest Auth
begin

text \<open>
  Sending one digest by mail: \<open>digest/smtp_sender.py\<close> and the choice of the sender and its time
  budget in \<open>digest/factory.py\<close>.

  The operations of \<open>smtplib\<close> are functions of the world that return or raise; so is the closing of
  the connection at the end of the \<open>with\<close> block, which may raise by itself and then replaces the
  outcome. The exceptions keep the classes that the retry decision looks at. \<open>time.monotonic\<close> reads
  the world, \<open>time.sleep\<close> changes it; floats of seconds are rationals.
\<close>

section \<open>Failures\<close>

datatype smtp_failure =
    SSLError string
  | SMTPConnectError int string
  | SMTPServerDisconnected string
  | SMTPRecipientsRefused "int list" \<comment> \<open>the reply code per recipient\<close>
  | SMTPResponseException int string \<comment> \<open>with its other subclasses\<close>
  | SMTPException string
  | SocketError string \<comment> \<open>an \<open>OSError\<close> outside \<open>smtplib\<close> and \<open>ssl\<close>\<close>
  | UnsafeRecipientError string
  | OtherFailure exn

fun is_retryable_connect_failure :: "smtp_failure \<Rightarrow> bool" where
  "is_retryable_connect_failure (SMTPConnectError _ _) = True"
| "is_retryable_connect_failure (SMTPServerDisconnected _) = True"
| "is_retryable_connect_failure (SocketError _) = True"
| "is_retryable_connect_failure (OtherFailure e) = is_os_error e"
| "is_retryable_connect_failure _ = False"

definition temporary :: "int \<Rightarrow> bool" where
  "temporary code_number \<longleftrightarrow> 400 \<le> code_number \<and> code_number < 500"

fun is_retryable_send_failure :: "smtp_failure \<Rightarrow> bool" where
  "is_retryable_send_failure (SMTPRecipientsRefused codes) = list_all temporary codes"
| "is_retryable_send_failure (SMTPResponseException c _) = temporary c"
| "is_retryable_send_failure (SMTPConnectError c _) = temporary c"
| "is_retryable_send_failure _ = False"

section \<open>One transaction\<close>

record smtp_settings =
  smtp_host :: string
  smtp_port :: int
  smtp_from_addr :: string
  smtp_username :: "string option"
  smtp_password :: "string option"
  smtp_use_tls :: bool
  smtp_timeout_seconds :: rat
  smtp_retry_attempts :: nat
  smtp_retry_backoff_seconds :: rat
  smtp_send_deadline_seconds :: rat

record email_message =
  msg_subject :: string
  msg_from :: string
  msg_to :: string
  msg_text :: string
  msg_html :: string

type_synonym 'a smtp_call = "smtp_failure + 'a"

record 'w mailer =
  ml_connect :: "string \<Rightarrow> int \<Rightarrow> rat \<Rightarrow> 'w \<Rightarrow> unit smtp_call \<times> 'w"
  ml_starttls :: "'w \<Rightarrow> unit smtp_call \<times> 'w"
  ml_login :: "string \<Rightarrow> string \<Rightarrow> 'w \<Rightarrow> unit smtp_call \<times> 'w"
  ml_send_message :: "email_message \<Rightarrow> 'w \<Rightarrow> string list smtp_call \<times> 'w" \<comment> \<open>the refused recipients\<close>
  ml_close :: "'w \<Rightarrow> smtp_failure option \<times> 'w"

text \<open>How a transaction ends: sent, a failure wrapped as safe to retry, or any other failure.\<close>

datatype attempt = Sent | Retryable smtp_failure | Failed smtp_failure

definition start_session :: "'w mailer \<Rightarrow> smtp_settings \<Rightarrow> 'w \<Rightarrow> unit smtp_call \<times> 'w" where
  "start_session ml smtp w =
     (case (if smtp_use_tls smtp then ml_starttls ml w else (Inr (), w)) of
        (Inl f, w1) \<Rightarrow> (Inl f, w1)
      | (Inr _, w1) \<Rightarrow>
          if truthy (smtp_username smtp) \<and> truthy (smtp_password smtp)
          then ml_login ml (the (smtp_username smtp)) (the (smtp_password smtp)) w1 else (Inr (), w1))"

definition transmit :: "'w mailer \<Rightarrow> email_message \<Rightarrow> 'w \<Rightarrow> attempt \<times> 'w" where
  "transmit ml message w =
     (case ml_send_message ml message w of
        (Inl f, w1) \<Rightarrow> (if is_retryable_send_failure f then Retryable f else Failed f, w1)
      | (Inr refused, w1) \<Rightarrow>
          (if refused \<noteq> []
           then Failed (UnsafeRecipientError ''SmtpDigestSender: send_message() refused some but not all recipients'')
           else Sent, w1))"

definition send_smtp_once :: "'w mailer \<Rightarrow> smtp_settings \<Rightarrow> email_message \<Rightarrow> 'w \<Rightarrow> attempt \<times> 'w" where
  "send_smtp_once ml smtp message w =
     (case ml_connect ml (smtp_host smtp) (smtp_port smtp) (smtp_timeout_seconds smtp) w of
        (Inl f, w1) \<Rightarrow> (if is_retryable_connect_failure f then Retryable f else Failed f, w1)
      | (Inr _, w1) \<Rightarrow>
          (case (case start_session ml smtp w1 of
                   (Inl f, w2) \<Rightarrow> (if is_retryable_connect_failure f then Retryable f else Failed f, w2)
                 | (Inr _, w2) \<Rightarrow> transmit ml message w2) of
             (outcome, w3) \<Rightarrow>
               (case ml_close ml w3 of
                  (None, w4) \<Rightarrow> (outcome, w4)
                | (Some f, w4) \<Rightarrow> (Failed f, w4))))"

section \<open>The retry loop\<close>

definition MAX_OPS_PER_ATTEMPT :: rat where
  "MAX_OPS_PER_ATTEMPT = 8"

text \<open>\<open>attempts_left\<close> is its value after the decrement at the head of the loop.\<close>

fun send_loop ::
  "('w \<Rightarrow> attempt \<times> 'w) \<Rightarrow> ('w \<Rightarrow> rat) \<Rightarrow> (rat \<Rightarrow> 'w \<Rightarrow> 'w) \<Rightarrow> smtp_settings \<Rightarrow> rat \<Rightarrow> nat \<Rightarrow> 'w
    \<Rightarrow> (smtp_failure + bool) \<times> 'w" where
  "send_loop transact clock sleep smtp deadline 0 w =
     (case transact w of
        (Sent, w1) \<Rightarrow> (Inr True, w1)
      | (Failed f, w1) \<Rightarrow> (Inl f, w1)
      | (Retryable f, w1) \<Rightarrow> (Inl f, w1))"
| "send_loop transact clock sleep smtp deadline (Suc attempts_left) w =
     (case transact w of
        (Sent, w1) \<Rightarrow> (Inr True, w1)
      | (Failed f, w1) \<Rightarrow> (Inl f, w1)
      | (Retryable f, w1) \<Rightarrow>
          (let remaining = deadline - clock w1; budget = smtp_timeout_seconds smtp * MAX_OPS_PER_ATTEMPT
           in if remaining < budget then (Inl f, w1)
              else (let backoff = min (smtp_retry_backoff_seconds smtp) (remaining - budget);
                        w2 = (if 0 < backoff then sleep backoff w1 else w1)
                    in if deadline - clock w2 < budget then (Inl f, w2)
                       else send_loop transact clock sleep smtp deadline attempts_left w2)))"

section \<open>The sender\<close>

text \<open>Text that reaches a header (\<open>_clean_header\<close>), and the text body (\<open>_clean_header_block\<close>).\<close>

definition clean_header :: "string \<Rightarrow> string" where
  "clean_header value = flat_text value"

definition clean_header_block :: "string \<Rightarrow> string" where
  "clean_header_block body = replace_char CR [] body"

text \<open>\<open>^(?:[A-Za-z0-9-]+\.)+(?:[A-Za-z][A-Za-z0-9-]*|xn--[A-Za-z0-9-]+)$\<close> as a full match.\<close>

definition valid_domain :: "string \<Rightarrow> bool" where
  "valid_domain d =
     (let ls = split_on (CHR ''.'') d
      in length ls \<ge> 2 \<and> list_all (\<lambda>l. l \<noteq> [] \<and> list_all dns_char l) (butlast ls) \<and> final_label (last ls))"

text \<open>\<open>to_addr.rsplit("@", 1)[-1]\<close>\<close>

definition recipient_domain :: "string \<Rightarrow> string" where
  "recipient_domain to_addr = snd (snd (py_rpartition (CHR 0x40) to_addr))"

definition compose_message ::
  "calendar \<Rightarrow> strftime \<Rightarrow> jinja \<Rightarrow> config_db \<Rightarrow> domain_policy \<Rightarrow> smtp_settings \<Rightarrow> string \<Rightarrow> digest_job
    \<Rightarrow> scrape_record list \<Rightarrow> string \<Rightarrow> (string \<times> string) list \<Rightarrow> email_message result" where
  "compose_message cal fmt jinja db policy smtp to_addr job rs generated_at tier2_labels =
     (let reg = load db (job_owner_id job)
      in case iter_sources reg of
           (_, Some e) \<Rightarrow> Inl e
         | (triples, None) \<Rightarrow>
             (let source_urls = rev (map (\<lambda>(_, s, _). (src_id s, src_url s)) triples);
                  names = source_labels reg
              in case build_digest_view cal fmt job rs generated_at tier2_labels source_urls policy names of
                   Inl e \<Rightarrow> Inl e
                 | Inr view \<Rightarrow>
                     (case render_digest_html jinja (job_template_id job) view of
                        Inl e \<Rightarrow> Inl e
                      | Inr html_body \<Rightarrow>
                          (case render_digest cal fmt rs generated_at tier2_labels names of
                             Inl e \<Rightarrow> Inl e
                           | Inr text_body \<Rightarrow>
                               Inr \<lparr> msg_subject = clean_header (''Kerdoos digest: '' @ job_name job),
                                     msg_from = clean_header (smtp_from_addr smtp), msg_to = clean_header to_addr,
                                     msg_text = clean_header_block text_body, msg_html = html_body \<rparr>))))"

definition send_digest ::
  "'w mailer \<Rightarrow> ('w \<Rightarrow> rat) \<Rightarrow> (rat \<Rightarrow> 'w \<Rightarrow> 'w) \<Rightarrow> calendar \<Rightarrow> strftime \<Rightarrow> jinja \<Rightarrow> config_db \<Rightarrow> domain_policy
    \<Rightarrow> (string \<Rightarrow> string option) \<Rightarrow> smtp_settings \<Rightarrow> digest_job \<Rightarrow> scrape_record list \<Rightarrow> string
    \<Rightarrow> (string \<times> string) list \<Rightarrow> 'w \<Rightarrow> (smtp_failure + bool) \<times> 'w" where
  "send_digest ml clock sleep cal fmt jinja db policy email_lookup smtp job rs generated_at tier2_labels w =
     (let to_addr = email_lookup (job_owner_id job)
      in if \<not> truthy to_addr then (Inr False, w)
         else if CHR '','' \<in> set (the to_addr)
         then (Inl (UnsafeRecipientError (''SmtpDigestSender expects exactly one recipient, got '' @ py_repr (the to_addr))), w)
         else if \<not> valid_domain (recipient_domain (the to_addr))
         then (Inl (UnsafeRecipientError (''SmtpDigestSender refuses a non-domain-label recipient host in ''
                      @ py_repr (the to_addr) @ '' (e.g. an IP-address literal) -- this relay ''
                      @ ''would otherwise connect to an arbitrary host'')), w)
         else (case compose_message cal fmt jinja db policy smtp (the to_addr) job rs generated_at tier2_labels of
                 Inl e \<Rightarrow> (Inl (OtherFailure e), w)
               | Inr message \<Rightarrow>
                   send_loop (send_smtp_once ml smtp message) clock sleep smtp
                     (clock w + smtp_send_deadline_seconds smtp) (smtp_retry_attempts smtp) w))"

section \<open>Choosing the sender\<close>

record mail_config =
  mc_smtp_host :: "string option"
  mc_smtp_port :: int
  mc_smtp_from :: "string option"
  mc_smtp_username :: "string option"
  mc_smtp_password :: "string option"
  mc_smtp_use_tls :: bool
  mc_smtp_timeout_seconds :: pyfloat
  mc_smtp_retry_attempts :: nat
  mc_smtp_retry_backoff_seconds :: rat
  mc_digest_reaper_timeout_seconds :: int

fun safe_smtp_timeout :: "pyfloat \<Rightarrow> int \<Rightarrow> rat" where
  "safe_smtp_timeout (Fin t) reaper =
     (if 0 < t \<and> t < of_int reaper then t else max (1 / 10) (of_int reaper / 2))"
| "safe_smtp_timeout _ reaper = max (1 / 10) (of_int reaper / 2)"

definition retry_budget_too_thin :: "rat \<Rightarrow> int \<Rightarrow> bool" where
  "retry_budget_too_thin smtp_timeout reaper \<longleftrightarrow> of_int reaper - smtp_timeout < 9 * smtp_timeout"

datatype sender_choice = LogSender | SmtpSender smtp_settings bool \<comment> \<open>the warning of a thin retry budget\<close>

definition build_sender :: "mail_config \<Rightarrow> sender_choice" where
  "build_sender cfg =
     (if \<not> truthy (mc_smtp_host cfg) then LogSender
      else if \<not> truthy (mc_smtp_from cfg) then LogSender
      else (let timeout = safe_smtp_timeout (mc_smtp_timeout_seconds cfg) (mc_digest_reaper_timeout_seconds cfg)
            in SmtpSender
                 \<lparr> smtp_host = the (mc_smtp_host cfg), smtp_port = mc_smtp_port cfg,
                   smtp_from_addr = the (mc_smtp_from cfg), smtp_username = mc_smtp_username cfg,
                   smtp_password = mc_smtp_password cfg, smtp_use_tls = mc_smtp_use_tls cfg,
                   smtp_timeout_seconds = timeout, smtp_retry_attempts = mc_smtp_retry_attempts cfg,
                   smtp_retry_backoff_seconds = mc_smtp_retry_backoff_seconds cfg,
                   smtp_send_deadline_seconds =
                     max (1 / 10) (of_int (mc_digest_reaper_timeout_seconds cfg) - timeout) \<rparr>
                 (0 < mc_smtp_retry_attempts cfg
                  \<and> retry_budget_too_thin timeout (mc_digest_reaper_timeout_seconds cfg))))"

section \<open>The retry discipline\<close>

text \<open>The same loop with a record of the attempts: when each started and how it ended.\<close>

definition recorded :: "('w \<Rightarrow> attempt \<times> 'w) \<Rightarrow> ('w \<Rightarrow> rat) \<Rightarrow> 'w \<times> (rat \<times> attempt) list
    \<Rightarrow> attempt \<times> 'w \<times> (rat \<times> attempt) list" where
  "recorded transact clock w = (let (a, w1) = transact (fst w) in (a, w1, snd w @ [(clock (fst w), a)]))"

abbreviation recorded_loop ::
  "('w \<Rightarrow> attempt \<times> 'w) \<Rightarrow> ('w \<Rightarrow> rat) \<Rightarrow> (rat \<Rightarrow> 'w \<Rightarrow> 'w) \<Rightarrow> smtp_settings \<Rightarrow> rat \<Rightarrow> nat
    \<Rightarrow> 'w \<times> (rat \<times> attempt) list \<Rightarrow> (smtp_failure + bool) \<times> 'w \<times> (rat \<times> attempt) list" where
  "recorded_loop transact clock sleep \<equiv>
     send_loop (recorded transact clock) (\<lambda>w. clock (fst w)) (\<lambda>d w. (sleep d (fst w), snd w))"

lemma recorded_app: "transact w = (a, w1) \<Longrightarrow> recorded transact clock (w, l) = (a, w1, l @ [(clock w, a)])"
  by (simp add: recorded_def)

text \<open>The record does not influence the loop.\<close>

lemma recorded_loop_same:
  "recorded_loop transact clock sleep smtp deadline n (w, l) = (r, w', l') \<Longrightarrow>
     send_loop transact clock sleep smtp deadline n w = (r, w')"
proof (induction n arbitrary: w l)
  case 0
  obtain a w1 where a: "transact w = (a, w1)" by (cases "transact w")
  with 0 show ?case by (cases a) (auto simp: recorded_app [of transact, OF a])
next
  case (Suc n)
  obtain a w1 where a: "transact w = (a, w1)" by (cases "transact w")
  from Suc.prems show ?case
    by (cases a) (auto simp: recorded_app [of transact, OF a] a Let_def split: if_splits intro: Suc.IH)
qed

fun result_of :: "attempt \<Rightarrow> smtp_failure + bool" where
  "result_of Sent = Inr True"
| "result_of (Retryable f) = Inl f"
| "result_of (Failed f) = Inl f"

definition retryable :: "attempt \<Rightarrow> bool" where
  "retryable a \<longleftrightarrow> (\<exists>f. a = Retryable f)"

text \<open>A run of attempts that started at these times and ended like that.\<close>

definition disciplined :: "smtp_settings \<Rightarrow> rat \<Rightarrow> nat \<Rightarrow> (smtp_failure + bool) \<Rightarrow> (rat \<times> attempt) list \<Rightarrow> bool" where
  "disciplined smtp deadline n r l \<longleftrightarrow>
     l \<noteq> [] \<and> length l \<le> Suc n \<and> list_all (\<lambda>x. retryable (snd x)) (butlast l) \<and> r = result_of (snd (last l))
     \<and> list_all (\<lambda>x. fst x + smtp_timeout_seconds smtp * 8 \<le> deadline) (tl l)"

lemma disciplined_one: "disciplined smtp deadline n (result_of a) [(t, a)]"
  by (simp add: disciplined_def)

lemma disciplined_Cons:
  "disciplined smtp deadline n r l \<Longrightarrow> fst (hd l) + smtp_timeout_seconds smtp * 8 \<le> deadline \<Longrightarrow>
     disciplined smtp deadline (Suc n) r ((t, Retryable f) # l)"
  by (cases l) (auto simp: disciplined_def retryable_def)

lemma recorded_loop_disciplined:
  "recorded_loop transact clock sleep smtp deadline n (w, l) = (r, w', l') \<Longrightarrow>
     \<exists>new. l' = l @ new \<and> disciplined smtp deadline n r new \<and> fst (hd new) = clock w"
proof (induction n arbitrary: w l)
  case 0
  obtain a w1 where a: "transact w = (a, w1)" by (cases "transact w")
  from 0 have "l' = l @ [(clock w, a)] \<and> r = result_of a"
    by (cases a) (auto simp: recorded_app [of transact, OF a])
  then show ?case using disciplined_one [of smtp deadline 0 a "clock w"] by auto
next
  case (Suc n)
  obtain a w1 where a: "transact w = (a, w1)" by (cases "transact w")
  let ?budget = "smtp_timeout_seconds smtp * MAX_OPS_PER_ATTEMPT"
  let ?pause = "min (smtp_retry_backoff_seconds smtp) (deadline - clock w1 - ?budget)"
  let ?w2 = "if 0 < ?pause then sleep ?pause w1 else w1"
  let ?e = "(clock w, a)"
  show ?case
  proof (cases "\<exists>f. a = Retryable f \<and> \<not> deadline - clock w1 < ?budget \<and> \<not> deadline - clock ?w2 < ?budget")
    case True
    then obtain f where f: "a = Retryable f" "\<not> deadline - clock w1 < ?budget" "\<not> deadline - clock ?w2 < ?budget"
      by blast
    then have "recorded_loop transact clock sleep smtp deadline n (?w2, l @ [?e]) = (r, w', l')"
      using Suc.prems by (auto simp: recorded_app [of transact, OF a] Let_def split: if_splits)
    from Suc.IH [OF this] obtain new where new: "l' = (l @ [?e]) @ new" "disciplined smtp deadline n r new"
      "fst (hd new) = clock ?w2" by blast
    have "disciplined smtp deadline (Suc n) r (?e # new)"
      unfolding f(1) by (rule disciplined_Cons [OF new(2)]) (use f(3) new(3) in \<open>simp add: MAX_OPS_PER_ATTEMPT_def\<close>)
    with new(1) show ?thesis by auto
  next
    case False
    then have "l' = l @ [?e] \<and> r = result_of a"
      using Suc.prems by (cases a) (auto simp: recorded_app [of transact, OF a] Let_def split: if_splits)
    then show ?thesis using disciplined_one [of smtp deadline "Suc n" a "clock w"] by auto
  qed
qed

text \<open>A failure is wrapped as safe to retry only when nothing was handed over: the connection, the
  TLS handshake or the login failed, or the server itself answered with a temporary code.\<close>

definition not_delivered :: "'w mailer \<Rightarrow> smtp_settings \<Rightarrow> email_message \<Rightarrow> 'w \<Rightarrow> smtp_failure \<Rightarrow> bool" where
  "not_delivered ml smtp message w f \<longleftrightarrow>
     (case ml_connect ml (smtp_host smtp) (smtp_port smtp) (smtp_timeout_seconds smtp) w of
        (Inl g, _) \<Rightarrow> g = f
      | (Inr _, w1) \<Rightarrow>
          (case start_session ml smtp w1 of
             (Inl g, _) \<Rightarrow> g = f
           | (Inr _, w2) \<Rightarrow> fst (ml_send_message ml message w2) = Inl f \<and> is_retryable_send_failure f))"

lemma send_smtp_once_retryable:
  "send_smtp_once ml smtp message w = (Retryable f, w') \<Longrightarrow> not_delivered ml smtp message w f"
  by (auto simp: send_smtp_once_def not_delivered_def transmit_def split: prod.splits sum.splits option.splits if_splits)


text \<open>A relay that answers the first submission with a temporary code and accepts the second; the
  world counts the submissions.\<close>

definition greylisting :: "nat mailer" where
  "greylisting =
     \<lparr> ml_connect = (\<lambda>h p t w. (Inr (), w)), ml_starttls = (\<lambda>w. (Inr (), w)), ml_login = (\<lambda>u p w. (Inr (), w)),
       ml_send_message = (\<lambda>m w. (if w = 0 then Inl (SMTPResponseException 450 ''later'') else Inr [], Suc w)),
       ml_close = (\<lambda>w. (None, w)) \<rparr>"

definition sample_smtp :: smtp_settings where
  "sample_smtp =
     \<lparr> smtp_host = ''relay'', smtp_port = 587, smtp_from_addr = ''k'' @ CHR 0x40 # ''example.org'', smtp_username = None,
       smtp_password = None, smtp_use_tls = True, smtp_timeout_seconds = 1, smtp_retry_attempts = 2,
       smtp_retry_backoff_seconds = 2, smtp_send_deadline_seconds = 100 \<rparr>"

definition sample_mail :: email_message where
  "sample_mail = \<lparr> msg_subject = ''s'', msg_from = ''f'', msg_to = ''t'', msg_text = [], msg_html = [] \<rparr>"

lemma sample_run:
  "recorded_loop (send_smtp_once greylisting sample_smtp sample_mail) (\<lambda>w. 10 * of_nat w) (\<lambda>d w. w) sample_smtp 100
     (smtp_retry_attempts sample_smtp) (0, [])
   = (Inr True, 2, [(0, Retryable (SMTPResponseException 450 ''later'')), (10, Sent)])"
  by (simp add: sample_smtp_def greylisting_def send_smtp_once_def start_session_def transmit_def recorded_def
      temporary_def MAX_OPS_PER_ATTEMPT_def numeral_2_eq_2)


section \<open>What is mailed, and to whom\<close>

lemma in_butlast_or_last: "x \<in> set xs \<Longrightarrow> x \<in> set (butlast xs) \<or> x = last xs"
  by (induction xs) auto

lemma valid_domain_parts:
  assumes "valid_domain d"
  shows "list_all (\<lambda>c. dns_char c \<or> c = CHR ''.'') d" "ip_address d = None"
proof -
  let ?ls = "split_on (CHR ''.'') d"
  from assms have ls: "list_all (\<lambda>l. l \<noteq> [] \<and> list_all dns_char l) (butlast ?ls)" "final_label (last ?ls)"
    by (auto simp: valid_domain_def Let_def)
  from final_label_chars [OF ls(2)] have fin: "last ?ls \<noteq> []" "is_ascii_alpha (hd (last ?ls))" "list_all dns_char (last ?ls)"
    by auto
  have "list_all dns_char l" if "l \<in> set ?ls" for l
    using in_butlast_or_last [OF that] ls(1) fin(3) by (auto simp: list_all_iff)
  then show chars: "list_all (\<lambda>c. dns_char c \<or> c = CHR ''.'') d"
    using split_on_chars [where s = d and c = "CHR ''.''"] by (auto simp: list_all_iff)
  show "ip_address d = None" by (rule dotted_name_no_ip [OF chars fin(1,2)])
qed

lemma clean_header_ok: "CR \<notin> set (clean_header v) \<and> LF \<notin> set (clean_header v)"
  unfolding clean_header_def by (rule flat_text_clean)

lemma clean_header_block_ok: "CR \<notin> set (clean_header_block v)"
  using set_replace_char [of CR "[]" v] by (auto simp: clean_header_block_def)

definition safe_headers :: "email_message \<Rightarrow> bool" where
  "safe_headers m \<longleftrightarrow>
     list_all (\<lambda>h. CR \<notin> set h \<and> LF \<notin> set h) [msg_subject m, msg_from m, msg_to m] \<and> CR \<notin> set (msg_text m)"

lemma compose_message_safe:
  "compose_message cal fmt jinja db policy smtp to_addr job rs generated_at tier2_labels = Inr m \<Longrightarrow>
     safe_headers m \<and> msg_to m = clean_header to_addr"
  by (auto simp: compose_message_def safe_headers_def clean_header_ok clean_header_block_ok Let_def
      split: prod.splits option.splits sum.splits)

text \<open>C30: A digest goes to the owner of its job and to nobody else. Without an address nothing is sent
  and the answer is \<open>False\<close>, so that a later window tries again. With one, either the call fails
  before the mail server is contacted, or the loop is entered with a message whose recipient is that
  address: one recipient, at a domain name that is no IP address, and no header has a line break.\<close>

theorem digest_mail_safe:
  assumes "send_digest ml clock sleep cal fmt jinja db policy email_lookup smtp job rs generated_at tier2_labels w = (r, w')"
  shows "if \<not> truthy (email_lookup (job_owner_id job)) then r = Inr False \<and> w' = w
         else (\<exists>f. r = Inl f \<and> w' = w)
           \<or> (\<exists>m a. email_lookup (job_owner_id job) = Some a \<and> msg_to m = clean_header a \<and> CHR '','' \<notin> set a
               \<and> ip_address (recipient_domain a) = None \<and> valid_domain (recipient_domain a) \<and> safe_headers m
               \<and> send_loop (send_smtp_once ml smtp m) clock sleep smtp (clock w + smtp_send_deadline_seconds smtp)
                    (smtp_retry_attempts smtp) w = (r, w'))"
proof (cases "truthy (email_lookup (job_owner_id job))")
  case False
  with assms show ?thesis by (auto simp: send_digest_def)
next
  case True
  then obtain a where a: "email_lookup (job_owner_id job) = Some a" by (cases "email_lookup (job_owner_id job)") auto
  show ?thesis
  proof (cases "CHR '','' \<notin> set a \<and> valid_domain (recipient_domain a)
      \<and> (\<exists>m. compose_message cal fmt jinja db policy smtp a job rs generated_at tier2_labels = Inr m)")
    case go: True
    then obtain m where m: "compose_message cal fmt jinja db policy smtp a job rs generated_at tier2_labels = Inr m" by blast
    have "send_loop (send_smtp_once ml smtp m) clock sleep smtp (clock w + smtp_send_deadline_seconds smtp)
        (smtp_retry_attempts smtp) w = (r, w')"
      using assms True go m a by (simp add: send_digest_def)
    with True go a compose_message_safe [OF m] valid_domain_parts(2) [of "recipient_domain a"] show ?thesis by auto
  next
    case False
    with assms True a show ?thesis by (auto simp: send_digest_def Let_def split: if_splits sum.splits)
  qed
qed

lemma sample_compose:
  "\<exists>m. compose_message fixed_calendar noon (\<lambda>_ _. ''html'') empty_config (\<lambda>h. False) sample_smtp
     ''ana@example.org'' sample_job [] ''now'' [] = Inr m"
proof -
  have "\<not> isl (compose_message fixed_calendar noon (\<lambda>_ _. ''html'') empty_config (\<lambda>h. False) sample_smtp
     ''ana@example.org'' sample_job [] ''now'' [])" by code_simp
  then show ?thesis by (metis sum.collapse(2))
qed

lemma safe_smtp_timeout_bounds:
  assumes "1 \<le> reaper"
  shows "0 < safe_smtp_timeout t reaper \<and> safe_smtp_timeout t reaper < of_int reaper"
proof -
  have "(1 :: rat) \<le> of_int reaper" using assms by simp
  then show ?thesis by (cases t) (auto simp: max_def)
qed

definition ana_mail :: "string \<Rightarrow> string option" where
  "ana_mail owner = (if owner = ''o1'' then Some ''ana@example.org'' else None)"

lemma ana_mail_ok: "CHR '','' \<notin> set ''ana@example.org''" "valid_domain (recipient_domain ''ana@example.org'')"
  by code_simp+

theorem digest_mail_safe_witness:
  "send_digest greylisting (\<lambda>w. 10 * of_nat w) (\<lambda>d w. w) fixed_calendar noon (\<lambda>_ _. ''html'') empty_config
     (\<lambda>h. False) ana_mail sample_smtp sample_job [] ''now'' [] 0 = (Inr True, 2)
   \<and> ip_address (recipient_domain ''ana@example.org'') = None"
proof -
  let ?send = "send_digest greylisting (\<lambda>w. 10 * of_nat w) (\<lambda>d w. w) fixed_calendar noon (\<lambda>_ _. ''html'') empty_config
     (\<lambda>h. False) ana_mail sample_smtp sample_job [] ''now'' [] 0"
  let ?msg = "compose_message fixed_calendar noon (\<lambda>_ _. ''html'') empty_config (\<lambda>h. False) sample_smtp
     ''ana@example.org'' sample_job [] ''now'' []"
  obtain m where m: "?msg = Inr m" using sample_compose by blast
  have a: "ana_mail (job_owner_id sample_job) = Some ''ana@example.org''" by (simp add: ana_mail_def sample_job_def)
  have loop: "send_loop (send_smtp_once greylisting sample_smtp m) (\<lambda>w. 10 * of_nat w) (\<lambda>d w. w) sample_smtp 100
     (smtp_retry_attempts sample_smtp) 0 = (Inr True, 2)"
    by (simp add: sample_smtp_def greylisting_def send_smtp_once_def start_session_def transmit_def
        temporary_def MAX_OPS_PER_ATTEMPT_def numeral_2_eq_2)
  have r: "?send = (Inr True, 2)"
    using loop m a ana_mail_ok by (simp add: send_digest_def sample_smtp_def)
  from digest_mail_safe [OF r] a r show ?thesis by auto
qed

text \<open>The time budget of a mail. For every positive reaper window the socket timeout that is used
  lies strictly inside it, whatever the setting says; the deadline of the whole send is positive and,
  with one socket timeout added, stays inside the window (up to the floor of a tenth of a second). When
  no warning of a thin budget is given, an attempt that fails within one socket timeout leaves
  the margin that a retry needs.\<close>

theorem sender_time_budget:
  assumes "build_sender cfg = SmtpSender smtp thin" and "1 \<le> mc_digest_reaper_timeout_seconds cfg"
  shows "0 < smtp_timeout_seconds smtp \<and> smtp_timeout_seconds smtp < of_int (mc_digest_reaper_timeout_seconds cfg)
     \<and> 0 < smtp_send_deadline_seconds smtp
     \<and> smtp_send_deadline_seconds smtp + smtp_timeout_seconds smtp
         \<le> max (of_int (mc_digest_reaper_timeout_seconds cfg)) (smtp_timeout_seconds smtp + 1 / 10)
     \<and> (0 < smtp_retry_attempts smtp \<and> \<not> thin \<longrightarrow>
          smtp_timeout_seconds smtp * MAX_OPS_PER_ATTEMPT \<le> smtp_send_deadline_seconds smtp - smtp_timeout_seconds smtp)"
proof -
  let ?r = "mc_digest_reaper_timeout_seconds cfg"
  let ?t = "safe_smtp_timeout (mc_smtp_timeout_seconds cfg) ?r"
  have t: "0 < ?t \<and> ?t < of_int ?r" by (rule safe_smtp_timeout_bounds [OF assms(2)])
  have e: "smtp_timeout_seconds smtp = ?t" "smtp_send_deadline_seconds smtp = max (1 / 10) (of_int ?r - ?t)"
    "thin = (0 < smtp_retry_attempts smtp \<and> retry_budget_too_thin ?t ?r)"
    using assms(1) by (auto simp: build_sender_def Let_def split: if_splits)
  have "0 < smtp_retry_attempts smtp \<and> \<not> thin \<longrightarrow> ?t * MAX_OPS_PER_ATTEMPT \<le> max (1 / 10) (of_int ?r - ?t) - ?t"
    unfolding e(3) retry_budget_too_thin_def MAX_OPS_PER_ATTEMPT_def by (auto simp: max_def)
  with t show ?thesis unfolding e(1,2) by (simp add: max_def)
qed

definition sample_mail_config :: mail_config where
  "sample_mail_config =
     \<lparr> mc_smtp_host = Some ''mail.example.org'', mc_smtp_port = 587, mc_smtp_from = Some ''k@example.org'',
       mc_smtp_username = None, mc_smtp_password = None, mc_smtp_use_tls = True, mc_smtp_timeout_seconds = NaN,
       mc_smtp_retry_attempts = 2, mc_smtp_retry_backoff_seconds = 2, mc_digest_reaper_timeout_seconds = 300 \<rparr>"

theorem sender_time_budget_witness:
  "\<exists>smtp thin. build_sender sample_mail_config = SmtpSender smtp thin \<and> thin
     \<and> 0 < smtp_timeout_seconds smtp \<and> smtp_timeout_seconds smtp < 300"
proof -
  obtain smtp thin where b: "build_sender sample_mail_config = SmtpSender smtp thin" "thin"
    by (simp add: build_sender_def sample_mail_config_def Let_def retry_budget_too_thin_def)
  from sender_time_budget [OF b(1)] b show ?thesis by (auto simp: sample_mail_config_def)
qed

end
