(* ===== verification/Browser_Guards.thy ===== *)
theory Browser_Guards
  imports Egress_Proxy Scraping "HOL-Library.List_Lexorder" "HOL-Library.Char_ord"
begin

text \<open>
  What the browser tiers check around a page: which hosts a page may reach, the arguments of the
  launch, the size of the document and where it finally comes from (\<open>adapters/browser.py\<close>,
  \<open>adapters/camoufox.py\<close>), the wait for an interstitial to go away (\<open>_settled_content\<close>), and the
  resolver rules and the URL of the \<open>uc\<close> tier (\<open>adapters/uc.py\<close>).

  The browser itself is a parameter: what \<open>goto\<close>, the bounded read and \<open>page.url\<close> answer or raise.
  \<open>time.monotonic\<close> reads the world.
\<close>

section \<open>Hosts\<close>

definition LINE_FEED :: char where
  "LINE_FEED = CHR 0x0A"

definition name_char :: "char \<Rightarrow> bool" where
  "name_char c \<longleftrightarrow> is_ascii_lower c \<or> is_ascii_digit c \<or> c = CHR ''_''"

text \<open>\<open>^[a-z0-9_](?:[a-z0-9_-]{0,61}[a-z0-9_])?$\<close> under \<open>match\<close>: the dollar also matches before a
  final line feed.\<close>

definition label_core :: "string \<Rightarrow> bool" where
  "label_core l \<longleftrightarrow> l \<noteq> [] \<and> length l \<le> 63 \<and> name_char (hd l) \<and> name_char (last l)
     \<and> list_all (\<lambda>c. name_char c \<or> c = CHR ''-'') l"

definition hostname_label :: "string \<Rightarrow> bool" where
  "hostname_label l \<longleftrightarrow> label_core l \<or> (l \<noteq> [] \<and> last l = LINE_FEED \<and> label_core (butlast l))"

definition is_hostname_shaped :: "string \<Rightarrow> bool" where
  "is_hostname_shaped host =
     (if host = [] \<or> length host > 253 then False else list_all hostname_label (split_on (CHR ''.'') host))"

definition normalize_domains :: "string list \<Rightarrow> string list" where
  "normalize_domains domains =
     map (\<lambda>d. rstrip_chars ''.'' (py_lower d)) (filter (\<lambda>d. d \<noteq> []) domains)"

definition subresource_allowed :: "string list \<Rightarrow> string \<Rightarrow> bool" where
  "subresource_allowed subs host = list_ex (\<lambda>d. host = d \<or> ends_with (CHR ''.'' # d) host) subs"

definition host_allowed :: "domain_policy \<Rightarrow> string list \<Rightarrow> string \<Rightarrow> bool" where
  "host_allowed policy subs host0 =
     (let host = rstrip_chars ''.'' (py_lower host0)
      in is_hostname_shaped host \<and> (policy host \<or> subresource_allowed subs host))"

section \<open>Launch arguments\<close>

definition LAUNCH_ID_ARG_PREFIX :: string where
  "LAUNCH_ID_ARG_PREFIX = ''--autolycos-launch-id=''"

definition WEBRTC_IP_HANDLING_POLICY :: string where
  "WEBRTC_IP_HANDLING_POLICY = ''--force-webrtc-ip-handling-policy=disable_non_proxied_udp''"

definition WEBRTC_IP_HANDLING_POLICY_NAMES :: "string list" where
  "WEBRTC_IP_HANDLING_POLICY_NAMES =
     [''--webrtc-ip-handling-policy'', ''--force-webrtc-ip-handling-policy'']"

definition BLOCK_POPUPS_ARG :: string where
  "BLOCK_POPUPS_ARG = ''--block-new-web-contents''"

definition is_webrtc_ip_handling_policy :: "string \<Rightarrow> bool" where
  "is_webrtc_ip_handling_policy arg =
     (let normalized = py_lower arg
      in list_ex (\<lambda>name. normalized = name \<or> starts_with (name @ ''='') normalized)
           WEBRTC_IP_HANDLING_POLICY_NAMES)"

definition browser_launch_args :: "string list \<Rightarrow> string list" where
  "browser_launch_args args =
     filter (\<lambda>arg. \<not> is_webrtc_ip_handling_policy arg) (strip_dangerous_browser_args args)
       @ [WEBRTC_IP_HANDLING_POLICY, BLOCK_POPUPS_ARG]"

definition uc_chromium_args :: "string list \<Rightarrow> string list" where
  "uc_chromium_args args =
     filter (\<lambda>arg. \<not> is_webrtc_ip_handling_policy arg) args @ [WEBRTC_IP_HANDLING_POLICY]"

section \<open>The document that was read\<close>

definition MAX_RENDERED_HTML_BYTES :: nat where
  "MAX_RENDERED_HTML_BYTES = 5 * 1024 * 1024"

text \<open>The length of \<open>html.encode("utf-8", errors="ignore")\<close>.\<close>

definition utf8_length :: "string \<Rightarrow> nat" where
  "utf8_length s = sum_list (map (\<lambda>c. if code c < 128 then 1 else 2) s)"

text \<open>What the bounded read gives back: a text, or the number that stands for a page over the cap.\<close>

datatype read_value = ReadText string | ReadNumber int

definition over_cap :: exn where
  "over_cap = FetchError (''rendered page exceeds '' @ string_of_nat MAX_RENDERED_HTML_BYTES @ '' characters cap'')"

definition over_bytes :: exn where
  "over_bytes = FetchError (''rendered page exceeds '' @ string_of_nat MAX_RENDERED_HTML_BYTES @ '' bytes cap'')"

definition document_of :: "read_value \<Rightarrow> (string \<times> string) result" where
  "document_of v =
     (case v of
        ReadNumber _ \<Rightarrow> Inl over_cap
      | ReadText t \<Rightarrow> (let (uri, _, doc) = py_partition LINE_FEED t in Inr (uri, doc)))"

text \<open>\<open>BrowserFetcher._read_document\<close>: any failure of the read is a FetchError.\<close>

definition browser_read_document :: "read_value result \<Rightarrow> (string \<times> string) result" where
  "browser_read_document answer =
     (case answer of
        Inl _ \<Rightarrow> Inl (FetchError ''rendered document read exceeded its budget'')
      | Inr v \<Rightarrow>
          bindE (document_of v) (\<lambda>(uri, doc).
            if utf8_length doc > MAX_RENDERED_HTML_BYTES then Inl over_bytes else Inr (uri, doc)))"

section \<open>Where the document comes from\<close>

text \<open>\<open>urllib.parse.urldefrag(url).url\<close>: without a \<open>#\<close> the text itself, otherwise the parts put
  together again. An empty parameter part (a final semicolon of the last path segment) and an empty
  query are lost on the way.\<close>

definition USES_NETLOC :: "string list" where
  "USES_NETLOC =
     ['''', ''ftp'', ''http'', ''gopher'', ''nntp'', ''telnet'', ''imap'', ''wais'', ''file'', ''mms'', ''https'',
      ''shttp'', ''snews'', ''prospero'', ''rtsp'', ''rtsps'', ''rtspu'', ''rsync'', ''svn'', ''svn+ssh'', ''sftp'',
      ''nfs'', ''git'', ''git+ssh'', ''ws'', ''wss'']"

definition USES_PARAMS :: "string list" where
  "USES_PARAMS =
     ['''', ''ftp'', ''hdl'', ''prospero'', ''http'', ''imap'', ''https'', ''shttp'', ''rtsp'', ''rtsps'', ''rtspu'',
      ''sip'', ''sips'', ''mms'', ''sftp'', ''tel'']"

definition url_tail :: "string \<Rightarrow> string" where
  "url_tail url0 =
     (let url = filter (\<lambda>c. c \<notin> {CHR 0x09, CHR 0x0A, CHR 0x0D}) (dropWhile (\<lambda>c. code c \<le> 32) url0);
          rest = snd (split_scheme url)
      in if starts_with ''//'' rest
         then dropWhile (\<lambda>c. c \<notin> {CHR ''/'', CHR ''?'', CHR ''#''}) (drop 2 rest) else rest)"

definition path_and_query :: "string \<Rightarrow> string \<times> string" where
  "path_and_query tail =
     (let before = fst (py_partition (CHR ''#'') tail); (path, _, query) = py_partition (CHR ''?'') before
      in (path, query))"

definition without_empty_params :: "string \<Rightarrow> string \<Rightarrow> string" where
  "without_empty_params scheme path =
     (let (_, sep, params) = py_partition (CHR '';'') (last (split_on (CHR ''/'') path))
      in if scheme \<in> set USES_PARAMS \<and> sep \<and> params = [] then butlast path else path)"

definition unsplit :: "string \<Rightarrow> string \<Rightarrow> string \<Rightarrow> string \<Rightarrow> string" where
  "unsplit scheme netloc path query =
     (let url = (if netloc \<noteq> []
                 then ''//'' @ netloc @ (if path \<noteq> [] \<and> hd path \<noteq> CHR ''/'' then ''/'' @ path else path)
                 else if starts_with ''//'' path then ''//'' @ path
                 else if scheme \<noteq> [] \<and> scheme \<in> set USES_NETLOC \<and> (path = [] \<or> hd path = CHR ''/'') then ''//'' @ path
                 else path)
      in (if scheme \<noteq> [] then scheme @ '':'' else []) @ url @ (if query \<noteq> [] then ''?'' @ query else []))"

definition urldefrag :: "string \<Rightarrow> string result" where
  "urldefrag url =
     (if CHR ''#'' \<notin> set url then Inr url
      else bindE (urlsplit url) (\<lambda>parts.
             let (path, query) = path_and_query (url_tail url)
             in Inr (unsplit (url_scheme parts) (url_netloc parts)
                  (without_empty_params (url_scheme parts) path) query)))"

text \<open>\<open>_effective_port\<close>: the port of a URL, the default of its scheme when absent, \<open>None\<close> when invalid.\<close>

definition scheme_port :: "string \<Rightarrow> nat option" where
  "scheme_port scheme = (if scheme = ''http'' then Some 80 else if scheme = ''https'' then Some 443 else None)"

definition effective_port :: "split_url \<Rightarrow> nat option" where
  "effective_port parts =
     (case url_port parts of
        Inl _ \<Rightarrow> None
      | Inr (Some p) \<Rightarrow> Some p
      | Inr None \<Rightarrow> scheme_port (url_scheme parts))"

definition bare_host :: "split_url \<Rightarrow> string" where
  "bare_host parts = rstrip_chars ''.'' (case url_hostname parts of None \<Rightarrow> [] | Some h \<Rightarrow> h)"

text \<open>\<open>username\<close> or \<open>password\<close> is set exactly when the authority has an \<open>@\<close>.\<close>

definition has_userinfo :: "split_url \<Rightarrow> bool" where
  "has_userinfo parts \<longleftrightarrow> CHR 0x40 \<in> set (url_netloc parts)"

definition port_text :: "nat option \<Rightarrow> string" where
  "port_text p = (case p of None \<Rightarrow> ''None'' | Some n \<Rightarrow> string_of_nat n)"

definition check_one_document :: "split_url \<Rightarrow> string \<Rightarrow> unit result" where
  "check_one_document requested url =
     bindE (urlsplit url) (\<lambda>final.
       if has_userinfo final then Inl (FetchError ''final document contains userinfo'')
       else if scheme_port (url_scheme final) = None \<or> bare_host final \<noteq> bare_host requested
       then Inl (FetchError (''final document is '' @ url_scheme final @ ''://'' @ bare_host final
                  @ '', not the requested host '' @ bare_host requested))
       else if url_scheme requested = ''https'' \<and> url_scheme final \<noteq> ''https''
       then Inl (FetchError (''final document fell back to '' @ url_scheme final @ '' from a requested https URL''))
       else if effective_port final \<noteq> effective_port requested \<and> effective_port final \<noteq> scheme_port (url_scheme final)
       then Inl (FetchError (''final document is on port '' @ port_text (effective_port final)
                  @ '', not the requested port '' @ port_text (effective_port requested)))
       else Inr ())"

definition check_final_document :: "string \<Rightarrow> string \<Rightarrow> string option \<Rightarrow> unit result" where
  "check_final_document final_url requested_url document_uri =
     bindE (urlsplit requested_url) (\<lambda>requested.
       bindE (check_one_document requested final_url) (\<lambda>_.
         case document_uri of
           None \<Rightarrow> Inr ()
         | Some uri \<Rightarrow>
             bindE (check_one_document requested uri) (\<lambda>_.
               bindE (urldefrag final_url) (\<lambda>a.
                 bindE (urldefrag uri) (\<lambda>b.
                   raise_if (a \<noteq> b) (FetchError ''final document URI does not match page URL''))))))"

section \<open>The result of a rendered page\<close>

text \<open>What a page did: what \<open>goto\<close> answers or raises (the status of the first
  response, \<open>None\<close> when there was none), the bounded
  read, the top-level navigation responses in order of arrival, and \<open>page.url\<close>.\<close>

record rendered =
  rd_goto :: "int option result"
  rd_read :: "read_value result"
  rd_responses :: "(string \<times> int) list"
  rd_url :: string

definition status_of_document :: "(string \<times> int) list \<Rightarrow> string \<Rightarrow> int \<Rightarrow> int" where
  "status_of_document responses document_url first =
     (case map_of (rev responses) document_url of Some s \<Rightarrow> s | None \<Rightarrow> first)"

definition browser_result :: "string \<Rightarrow> rendered \<Rightarrow> fetch_result result" where
  "browser_result url page =
     (case rd_goto page of
        Inl e \<Rightarrow> Inl e
      | Inr None \<Rightarrow> Inl (FetchError ''no response from navigation'')
      | Inr (Some first) \<Rightarrow>
          bindE (browser_read_document (rd_read page)) (\<lambda>(uri, doc).
            bindE (urldefrag uri) (\<lambda>document_url.
              let st = status_of_document (rd_responses page) document_url first
              in bindE (check_final_document (rd_url page) url (Some uri)) (\<lambda>_.
                   Inr \<lparr> html = doc, status_code = st, fr_method = ''browser'',
                         challenged = looks_challenged st doc \<rparr>))))"

section \<open>Waiting for an interstitial to go away\<close>

text \<open>One poll of \<open>CamoufoxFetcher._settled_content\<close>: the read gives a document, a page over the cap
  raises FetchError, any other failure keeps the document of the poll before.\<close>

datatype poll = PollDocument string string | PollTooLarge exn | PollFailed

record 'w settle_env =
  se_read :: "'w \<Rightarrow> read_value result \<times> 'w"
  se_clock :: "'w \<Rightarrow> rat"
  se_wait :: "'w \<Rightarrow> 'w" \<comment> \<open>\<open>page.wait_for_timeout(_SETTLE_POLL_MS)\<close>\<close>
  se_is_timeout :: "exn \<Rightarrow> bool" \<comment> \<open>\<open>_is_playwright_timeout\<close>\<close>

definition SETTLE_POLL_MS :: rat where
  "SETTLE_POLL_MS = 250"

definition poll_of :: "read_value result \<Rightarrow> poll" where
  "poll_of answer =
     (case bindE answer document_of of
        Inr (uri, doc) \<Rightarrow> PollDocument uri doc
      | Inl e \<Rightarrow> (case e of FetchError _ \<Rightarrow> PollTooLarge e | _ \<Rightarrow> PollFailed))"

partial_function (option) settle_loop ::
  "'w settle_env \<Rightarrow> string \<Rightarrow> rat \<Rightarrow> string \<times> string \<Rightarrow> 'w \<Rightarrow> ((string \<times> string) result \<times> 'w) option" where
  "settle_loop env first_uri deadline document w =
     (if \<not> looks_challenged 200 (snd document) then Some (Inr document, w)
      else case urldefrag (fst document) of
             Inl e \<Rightarrow> Some (Inl e, w)
           | Inr uri \<Rightarrow>
               if uri \<noteq> first_uri \<or> deadline - se_clock env w < SETTLE_POLL_MS / 1000 then Some (Inr document, w)
               else (case se_read env (se_wait env w) of
                       (answer, w') \<Rightarrow>
                         (case poll_of answer of
                            PollDocument u d \<Rightarrow> settle_loop env first_uri deadline (u, d) w'
                          | PollTooLarge e \<Rightarrow> Some (Inl e, w')
                          | PollFailed \<Rightarrow> settle_loop env first_uri deadline document w')))"

definition settled_content ::
  "'w settle_env \<Rightarrow> int \<Rightarrow> rat \<Rightarrow> 'w \<Rightarrow> ((string \<times> string) result \<times> 'w) option" where
  "settled_content env st deadline w =
     (case se_read env w of
        (answer, w') \<Rightarrow>
          (case bindE answer document_of of
             Inl e \<Rightarrow>
               Some (Inl (if se_is_timeout env e
                          then FetchError ''rendered page could not be read within the navigation budget'' else e), w')
           | Inr document \<Rightarrow>
               (case urldefrag (fst document) of
                  Inl e \<Rightarrow> Some (Inl e, w')
                | Inr first_uri \<Rightarrow>
                    if st = 200 then settle_loop env first_uri deadline document w' else Some (Inr document, w'))))"

text \<open>\<open>CamoufoxFetcher._render\<close> after \<open>goto\<close>: settle, take the status of the document that was read,
  check its origin and its size.\<close>

definition camoufox_result ::
  "'w settle_env \<Rightarrow> ('w \<Rightarrow> (string \<times> int) list \<times> string) \<Rightarrow> string \<Rightarrow> int option result \<Rightarrow> rat \<Rightarrow> 'w
    \<Rightarrow> fetch_result result option" where
  "camoufox_result env page url goto deadline w =
     (case goto of
        Inl e \<Rightarrow> Some (Inl e)
      | Inr None \<Rightarrow> Some (Inl (FetchError ''no response from navigation''))
      | Inr (Some first) \<Rightarrow>
          (case settled_content env first deadline w of
             None \<Rightarrow> None
           | Some (Inl e, _) \<Rightarrow> Some (Inl e)
           | Some (Inr (uri, doc), w') \<Rightarrow>
               (case page w' of
                  (responses, page_url) \<Rightarrow>
                    Some (bindE (urldefrag uri) (\<lambda>document_url.
                      let s = status_of_document responses document_url first
                      in bindE (check_final_document page_url url (Some uri)) (\<lambda>_.
                           if utf8_length doc > MAX_RENDERED_HTML_BYTES then Inl over_bytes
                           else Inr \<lparr> html = doc, status_code = s, fr_method = ''camoufox'',
                                      challenged = looks_challenged s doc \<rparr>))))))"

section \<open>The uc tier\<close>

text \<open>\<open>_normalize_domains\<close> of \<open>uc.py\<close>: a sorted list without duplicates.\<close>

definition uc_normalize_domains :: "string list \<Rightarrow> string list" where
  "uc_normalize_domains domains = sort (remdups (normalize_domains domains))"

definition host_resolver_rules :: "validated_target \<Rightarrow> string list \<Rightarrow> string" where
  "host_resolver_rules target subs =
     (let addr = (if CHR '':'' \<in> set (vt_ip target) then ''['' @ vt_ip target @ '']'' else vt_ip target)
      in join '', ''
           ([''MAP '' @ vt_host target @ '' '' @ addr, ''MAP * ~NOTFOUND'']
            @ map (\<lambda>d. ''EXCLUDE '' @ d) (uc_normalize_domains subs)))"

text \<open>\<open>urllib.parse.quote(url, safe=_JS_SAFE_URL_CHARS)\<close>: every character outside the unreserved and
  the safe ones becomes the escapes of its UTF-8 bytes.\<close>

definition JS_SAFE_URL_CHARS :: string where
  "JS_SAFE_URL_CHARS = '':/?#[]@!$&()*+,;=%''"

definition quote_safe :: "string \<Rightarrow> char \<Rightarrow> bool" where
  "quote_safe safe c \<longleftrightarrow> is_ascii_alnum c \<or> c \<in> set ''_.-~'' \<or> c \<in> set safe"

definition hex_upper :: "nat \<Rightarrow> char" where
  "hex_upper d = char_of (if d < 10 then 48 + d else 55 + d)"

definition percent :: "nat \<Rightarrow> string" where
  "percent b = [CHR ''%'', hex_upper (b div 16), hex_upper (b mod 16)]"

definition quote_char :: "string \<Rightarrow> char \<Rightarrow> string" where
  "quote_char safe c =
     (if quote_safe safe c then [c]
      else if code c < 128 then percent (code c)
      else percent (192 + code c div 64) @ percent (128 + code c mod 64))"

definition py_quote :: "string \<Rightarrow> string \<Rightarrow> string" where
  "py_quote safe s = concat (map (quote_char safe) s)"

definition STATUS_FALLBACK :: int where
  "STATUS_FALLBACK = 200"

text \<open>\<open>_read_status\<close>: no getter, a getter that raises, or its answer.\<close>

definition read_status :: "int option result option \<Rightarrow> int" where
  "read_status getter =
     (case getter of
        None \<Rightarrow> STATUS_FALLBACK
      | Some (Inl _) \<Rightarrow> STATUS_FALLBACK
      | Some (Inr None) \<Rightarrow> STATUS_FALLBACK
      | Some (Inr (Some s)) \<Rightarrow> if s = 0 then STATUS_FALLBACK else s)"

definition current_url :: "string result \<Rightarrow> string option" where
  "current_url answer = (case answer of Inl _ \<Rightarrow> None | Inr u \<Rightarrow> Some u)"

definition uc_result :: "string \<Rightarrow> int option result option \<Rightarrow> string result \<Rightarrow> fetch_result result" where
  "uc_result source getter url_answer =
     (if utf8_length source > MAX_RENDERED_HTML_BYTES then Inl over_bytes
      else (let st = read_status getter
            in Inr \<lparr> html = source, status_code = st, fr_method = ''uc'',
                     challenged = looks_challenged st source
                       \<or> looks_like_chrome_error_page (current_url url_answer) source \<rparr>))"

definition CHROMIUM_PREFIX :: string where
  "CHROMIUM_PREFIX = ''chromium-''"

text \<open>The revision of a directory name: \<open>^chromium-(\d+)$\<close> as a full match.\<close>

definition chromium_revision :: "string \<Rightarrow> nat option" where
  "chromium_revision name =
     (let ds = drop (length CHROMIUM_PREFIX) name
      in if starts_with CHROMIUM_PREFIX name \<and> ds \<noteq> [] \<and> list_all is_ascii_digit ds
         then Some (digits_value ds) else None)"

definition chromium_path :: "string \<Rightarrow> string \<Rightarrow> string" where
  "chromium_path base name = base @ ''/'' @ name @ ''/chrome-linux64/chrome''"

fun best_chromium :: "string \<Rightarrow> (string \<Rightarrow> bool) \<Rightarrow> string list \<Rightarrow> (nat \<times> string) option \<Rightarrow> (nat \<times> string) option" where
  "best_chromium base isfile [] best = best"
| "best_chromium base isfile (name # names) best =
     (case chromium_revision name of
        None \<Rightarrow> best_chromium base isfile names best
      | Some revision \<Rightarrow>
          (let candidate = chromium_path base name
           in if \<not> isfile candidate then best_chromium base isfile names best
              else best_chromium base isfile names
                     (case best of
                        None \<Rightarrow> Some (revision, candidate)
                      | Some b \<Rightarrow> if fst b < revision then Some (revision, candidate) else best)))"

definition find_patchright_chromium :: "string \<Rightarrow> string list result \<Rightarrow> (string \<Rightarrow> bool) \<Rightarrow> string option" where
  "find_patchright_chromium base listing isfile =
     (case listing of
        Inl _ \<Rightarrow> None
      | Inr entries \<Rightarrow> map_option snd (best_chromium base isfile entries None))"

section \<open>Which hosts a page can reach\<close>

definition host_char :: "char \<Rightarrow> bool" where
  "host_char c \<longleftrightarrow> name_char c \<or> c = CHR ''-'' \<or> c = LINE_FEED"

lemma label_core_chars: "label_core l \<Longrightarrow> list_all host_char l"
  by (auto simp: label_core_def host_char_def list_all_iff)

lemma hostname_label_chars:
  assumes "hostname_label l"
  shows "list_all host_char l \<and> l \<noteq> [] \<and> length l \<le> 64"
proof (cases "label_core l")
  case True
  then show ?thesis using label_core_chars [OF True] by (auto simp: label_core_def)
next
  case False
  with assms have l: "l \<noteq> []" "last l = LINE_FEED" "label_core (butlast l)" by (auto simp: hostname_label_def)
  then show ?thesis
    using label_core_chars [OF l(3)] by (cases l rule: rev_cases) (auto simp: host_char_def label_core_def)
qed

lemma is_hostname_shaped_chars:
  assumes "is_hostname_shaped h"
  shows "list_all (\<lambda>c. host_char c \<or> c = CHR ''.'') h"
proof -
  have "list_all hostname_label (split_on (CHR ''.'') h)" using assms by (auto simp: is_hostname_shaped_def split: if_splits)
  then show ?thesis
    using split_on_chars [where s = h and c = "CHR ''.''"] hostname_label_chars by (fastforce simp: list_all_iff)
qed

text \<open>Every host a page of the browser tiers may connect to. Lower-cased and without trailing dots
  it consists of at most 253 characters in labels of letters, digits, underscores and dashes (and, since
  the dollar of the pattern matches before one, a line feed that ends a label), so that no
  path, query, user or port text can hide in it; and it passes the navigation policy, or its labels
  end with the labels of a declared sub-resource domain.\<close>

theorem host_allowed_sound:
  assumes "host_allowed policy subs host0"
  defines "h \<equiv> rstrip_chars ''.'' (py_lower host0)"
  shows "h \<noteq> [] \<and> length h \<le> 253 \<and> list_all (\<lambda>c. host_char c \<or> c = CHR ''.'') h
     \<and> list_all (\<lambda>l. l \<noteq> [] \<and> length l \<le> 64) (labels h)
     \<and> (policy h \<or> (\<exists>d \<in> set subs. \<exists>ls. labels h = ls @ labels d))"
proof -
  have shape: "is_hostname_shaped h" and reach: "policy h \<or> subresource_allowed subs h"
    using assms by (auto simp: host_allowed_def Let_def)
  have ls: "list_all hostname_label (labels h)"
    using shape by (auto simp: is_hostname_shaped_def labels_def split: if_splits)
  have "list_all (\<lambda>l. l \<noteq> [] \<and> length l \<le> 64) (labels h)"
    using ls hostname_label_chars by (auto simp: list_all_iff)
  moreover have "h \<noteq> []" "length h \<le> 253" using shape by (auto simp: is_hostname_shaped_def split: if_splits)
  moreover have "policy h \<or> (\<exists>d \<in> set subs. \<exists>ls. labels h = ls @ labels d)"
    using reach by (auto simp: subresource_allowed_def list_ex_iff labels_suffix_iff)
  ultimately show ?thesis using is_hostname_shaped_chars [OF shape] by blast
qed

theorem host_allowed_sound_witness:
  "host_allowed (domain_allowed [''kabum.com.br'']) [''mlstatic.com''] ''HTTP2.mlstatic.com.''
   \<and> (\<exists>ls. labels ''http2.mlstatic.com'' = ls @ labels ''mlstatic.com'')"
proof -
  have h: "host_allowed (domain_allowed [''kabum.com.br'']) [''mlstatic.com''] ''HTTP2.mlstatic.com.''"
    and e: "rstrip_chars ''.'' (py_lower ''HTTP2.mlstatic.com.'') = ''http2.mlstatic.com''"
    and n: "\<not> domain_allowed [''kabum.com.br''] ''http2.mlstatic.com''" by code_simp+
  from host_allowed_sound [OF h] h n show ?thesis by (simp add: e)
qed

text \<open>The separators of a URL are refused, a line feed at the end of a label is not.\<close>

lemma host_allowed_examples:
  "\<not> host_allowed (domain_allowed [''kabum.com.br'']) [] ''evil.com/.kabum.com.br''"
  "\<not> host_allowed (domain_allowed [''kabum.com.br'']) [] ''evil.com#.kabum.com.br''"
  "\<not> host_allowed (domain_allowed [''kabum.com.br'']) [] (''evil.com'' @ [CHR 0x09] @ ''.kabum.com.br'')"
  by code_simp+

lemma line_feed_in_a_label_is_allowed:
  "host_allowed (domain_allowed [''kabum.com.br'']) [] (''evil.com'' @ [LINE_FEED] @ ''.kabum.com.br'')"
  by code_simp

section \<open>Launch arguments\<close>

lemma fixed_args:
  "is_webrtc_ip_handling_policy WEBRTC_IP_HANDLING_POLICY"
  "\<not> is_webrtc_ip_handling_policy BLOCK_POPUPS_ARG"
  "list_all (\<lambda>a. \<not> list_ex (\<lambda>bad. starts_with bad a) DANGEROUS_BROWSER_ARGS) [WEBRTC_IP_HANDLING_POLICY, BLOCK_POPUPS_ARG]"
  by code_simp+

text \<open>What Chromium is started with, whatever arguments are asked for: none that redirects the
  proxy, the resolver or the certificate checks, exactly one WebRTC policy, the one that keeps
  traffic in the proxy, and every harmless argument that was asked for, in order.\<close>

theorem browser_launch_args_safe:
  "list_all (\<lambda>a. \<not> list_ex (\<lambda>bad. starts_with bad a) DANGEROUS_BROWSER_ARGS) (browser_launch_args args)
   \<and> filter is_webrtc_ip_handling_policy (browser_launch_args args) = [WEBRTC_IP_HANDLING_POLICY]
   \<and> filter is_webrtc_ip_handling_policy (uc_chromium_args args) = [WEBRTC_IP_HANDLING_POLICY]
   \<and> browser_launch_args args
       = filter (\<lambda>a. \<not> list_ex (\<lambda>bad. starts_with bad a) DANGEROUS_BROWSER_ARGS \<and> \<not> is_webrtc_ip_handling_policy a) args
         @ [WEBRTC_IP_HANDLING_POLICY, BLOCK_POPUPS_ARG]"
  using fixed_args
  by (auto simp: browser_launch_args_def uc_chromium_args_def strip_dangerous_browser_args_def list_all_iff list_ex_iff
      filter_empty_conv)

lemma launch_marker_survives:
  "browser_launch_args [LAUNCH_ID_ARG_PREFIX @ ''0a1b''] =
     [LAUNCH_ID_ARG_PREFIX @ ''0a1b'', WEBRTC_IP_HANDLING_POLICY, BLOCK_POPUPS_ARG]"
  by code_simp

section \<open>The origin of the document\<close>

definition same_site :: "split_url \<Rightarrow> split_url \<Rightarrow> bool" where
  "same_site requested final \<longleftrightarrow>
     \<not> has_userinfo final \<and> url_scheme final \<in> {''http'', ''https''} \<and> bare_host final = bare_host requested
     \<and> (url_scheme requested = ''https'' \<longrightarrow> url_scheme final = ''https'')
     \<and> effective_port final \<in> {effective_port requested, scheme_port (url_scheme final)}"

lemma scheme_port_None: "scheme_port s \<noteq> None \<longleftrightarrow> s \<in> {''http'', ''https''}"
  by (auto simp: scheme_port_def)

lemma check_one_document_iff:
  "check_one_document requested url = Inr () \<longleftrightarrow> (\<exists>final. urlsplit url = Inr final \<and> same_site requested final)"
  using scheme_port_None
  by (auto simp: check_one_document_def same_site_def bindE_Inr_iff split: if_splits)

lemma check_final_document_iff:
  "check_final_document page_url url (Some uri) = Inr () \<longleftrightarrow>
     (\<exists>requested final doc u. urlsplit url = Inr requested \<and> urlsplit page_url = Inr final \<and> urlsplit uri = Inr doc
        \<and> same_site requested final \<and> same_site requested doc \<and> urldefrag page_url = Inr u \<and> urldefrag uri = Inr u)"
  by (auto simp: check_final_document_def bindE_Inr_iff check_one_document_iff raise_if_def)

lemma browser_read_document_size:
  "browser_read_document answer = Inr (uri, doc) \<Longrightarrow> utf8_length doc \<le> MAX_RENDERED_HTML_BYTES"
  by (auto simp: browser_read_document_def bindE_Inr_iff split: sum.splits if_splits)

definition answers_for :: "string \<Rightarrow> fetch_result \<Rightarrow> bool" where
  "answers_for url r \<longleftrightarrow>
     utf8_length (html r) \<le> MAX_RENDERED_HTML_BYTES \<and> challenged r = looks_challenged (status_code r) (html r)
     \<and> (\<exists>page_url uri requested final doc u. urlsplit url = Inr requested \<and> urlsplit page_url = Inr final
          \<and> urlsplit uri = Inr doc \<and> same_site requested final \<and> same_site requested doc
          \<and> urldefrag page_url = Inr u \<and> urldefrag uri = Inr u)"

lemma answers_forI:
  "check_final_document page_url url (Some uri) = Inr () \<Longrightarrow> utf8_length doc \<le> MAX_RENDERED_HTML_BYTES \<Longrightarrow>
     answers_for url \<lparr> html = doc, status_code = s, fr_method = m, challenged = looks_challenged s doc \<rparr>"
  unfolding answers_for_def check_final_document_iff by (fastforce intro!: exI)

lemma browser_result_answers:
  assumes "browser_result url page = Inr r"
  shows "answers_for url r"
proof -
  obtain first uri doc document_url where *: "browser_read_document (rd_read page) = Inr (uri, doc)"
    "check_final_document (rd_url page) url (Some uri) = Inr ()"
    "r = (let st = status_of_document (rd_responses page) document_url first
          in \<lparr> html = doc, status_code = st, fr_method = ''browser'', challenged = looks_challenged st doc \<rparr>)"
    using assms
    by (auto simp: browser_result_def bindE_Inr_iff Let_def split: sum.splits option.splits)
  show ?thesis unfolding *(3) Let_def by (rule answers_forI [OF *(2) browser_read_document_size [OF *(1)]])
qed

lemma camoufox_result_answers:
  assumes "camoufox_result env page url goto deadline w = Some (Inr r)"
  shows "answers_for url r"
proof -
  obtain first uri doc page_url s where "check_final_document page_url url (Some uri) = Inr ()"
    "\<not> utf8_length doc > MAX_RENDERED_HTML_BYTES"
    "r = \<lparr> html = doc, status_code = s, fr_method = ''camoufox'', challenged = looks_challenged s doc \<rparr>"
    using assms
    by (auto simp: camoufox_result_def bindE_Inr_iff Let_def split: sum.splits option.splits prod.splits if_splits)
  then show ?thesis using answers_forI by auto
qed


definition sample_page :: rendered where
  "sample_page =
     \<lparr> rd_goto = Inr (Some 200),
       rd_read = Inr (ReadText (''https://www.kabum.com.br/p#top'' @ [LINE_FEED] @ ''<html>'')),
       rd_responses = [(''http://www.kabum.com.br/p'', 301), (''https://www.kabum.com.br/p'', 200)],
       rd_url = ''https://www.kabum.com.br/p'' \<rparr>"


text \<open>A page that ends on another allowed host, on another port or back on http is an error.\<close>

lemma other_origins_refused:
  "check_final_document ''https://ads.kabum.com.br/'' ''https://www.kabum.com.br/'' None \<noteq> Inr ()"
  "check_final_document ''https://www.kabum.com.br:8443/'' ''https://www.kabum.com.br/'' None \<noteq> Inr ()"
  "check_final_document ''http://www.kabum.com.br/'' ''https://www.kabum.com.br/'' None \<noteq> Inr ()"
  "check_final_document ''https://www.kabum.com.br/'' ''https://www.kabum.com.br/'' (Some ''about:neterror?e=x'') \<noteq> Inr ()"
  by code_simp+

section \<open>The wait ends\<close>

definition settled :: "'w settle_env \<Rightarrow> string \<Rightarrow> rat \<Rightarrow> (string \<times> string) result \<Rightarrow> 'w \<Rightarrow> bool" where
  "settled env first_uri deadline r w \<longleftrightarrow>
     (case r of
        Inl _ \<Rightarrow> True
      | Inr document \<Rightarrow>
          \<not> looks_challenged 200 (snd document) \<or> urldefrag (fst document) \<noteq> Inr first_uri
          \<or> deadline - se_clock env w < 1 / 4)"

lemma settle_loop_total:
  fixes env :: "'w settle_env"
  assumes wait: "\<And>w. se_clock env w + 1 / 4 \<le> se_clock env (se_wait env w)"
    and read: "\<And>w. se_clock env w \<le> se_clock env (snd (se_read env w))"
  shows "deadline - se_clock env w < of_nat n / 4 \<Longrightarrow>
     \<exists>r w'. settle_loop env first_uri deadline document w = Some (r, w') \<and> settled env first_uri deadline r w'"
proof (induction n arbitrary: document w)
  case 0
  then show ?case
    by (subst settle_loop.simps) (auto simp: settled_def SETTLE_POLL_MS_def split: sum.splits)
next
  case (Suc n)
  obtain answer w' where rd: "se_read env (se_wait env w) = (answer, w')" by fastforce
  have "se_clock env (se_wait env w) \<le> se_clock env w'" using read [of "se_wait env w"] rd by simp
  then have "deadline - se_clock env w' < of_nat n / 4" using wait [of w] Suc.prems by (simp add: field_simps)
  then have IH: "\<exists>r u. settle_loop env first_uri deadline d w' = Some (r, u) \<and> settled env first_uri deadline r u" for d
    by (rule Suc.IH)
  show ?case
  proof (cases "\<not> looks_challenged 200 (snd document) \<or> urldefrag (fst document) \<noteq> Inr first_uri
      \<or> deadline - se_clock env w < 1 / 4")
    case True
    then show ?thesis
      by (subst settle_loop.simps) (auto simp: settled_def SETTLE_POLL_MS_def split: sum.splits)
  next
    case False
    then have "settle_loop env first_uri deadline document w =
        (case poll_of answer of
           PollDocument u d \<Rightarrow> settle_loop env first_uri deadline (u, d) w'
         | PollTooLarge e \<Rightarrow> Some (Inl e, w')
         | PollFailed \<Rightarrow> settle_loop env first_uri deadline document w')"
      by (subst settle_loop.simps) (simp add: rd SETTLE_POLL_MS_def)
    with IH show ?thesis by (auto simp: settled_def split: poll.split)
  qed
qed


definition stuck_page :: "nat settle_env" where
  "stuck_page =
     \<lparr> se_read = (\<lambda>w. (Inr (ReadText (''https://x.br/'' @ [LINE_FEED] @ ''sec-cpt'')), w)), se_clock = (\<lambda>w. of_nat w / 4),
       se_wait = Suc, se_is_timeout = (\<lambda>_. False) \<rparr>"


section \<open>The uc tier\<close>

definition breaks_literal :: "char \<Rightarrow> bool" where
  "breaks_literal c \<longleftrightarrow> c = CHR 0x22 \<or> c = CHR 0x27 \<or> c = CHR 0x5C \<or> c = CHR ''<'' \<or> c = CHR ''>'' \<or> code c < 33"

lemma quote_safe_literal: "quote_safe JS_SAFE_URL_CHARS c \<Longrightarrow> \<not> breaks_literal c"
  by (auto simp: quote_safe_def JS_SAFE_URL_CHARS_def breaks_literal_def is_ascii_alnum_def is_ascii_alpha_def
      is_ascii_lower_def is_ascii_upper_def is_ascii_digit_def code_def)

lemma rfc3986_quote_safe: "rfc3986_safe c \<Longrightarrow> c \<noteq> CHR 0x27 \<Longrightarrow> quote_safe JS_SAFE_URL_CHARS c"
  by (auto simp: rfc3986_safe_def quote_safe_def JS_SAFE_URL_CHARS_def)

lemma apostrophe_quoted: "quote_char JS_SAFE_URL_CHARS (CHR 0x27) = ''%27''" "list_all (\<lambda>c. \<not> breaks_literal c) ''%27''"
  by code_simp+

text \<open>The URL handed to the script of the \<open>uc\<close> tier. For a URL that passed the guard the
  quoting changes nothing but the apostrophe, which becomes \<open>%27\<close>; no quote, backslash, angle
  bracket or line break is left that could end the string literal it is put in.\<close>

theorem uc_url_literal_safe:
  assumes "check_scheme_and_domain url policy = Inr p"
  shows "py_quote JS_SAFE_URL_CHARS url = concat (map (\<lambda>c. if c = CHR 0x27 then ''%27'' else [c]) url)
     \<and> list_all (\<lambda>c. \<not> breaks_literal c) (py_quote JS_SAFE_URL_CHARS url)"
proof -
  have safe: "\<forall>c \<in> set url. rfc3986_safe c"
    using assms by (auto simp: check_scheme_and_domain_def list_all_iff split: if_splits)
  have q: "quote_char JS_SAFE_URL_CHARS c = (if c = CHR 0x27 then ''%27'' else [c])" if "c \<in> set url" for c
  proof (cases "c = CHR 0x27")
    case True
    then show ?thesis using apostrophe_quoted(1) by simp
  next
    case False
    with that safe have "quote_safe JS_SAFE_URL_CHARS c" using rfc3986_quote_safe by blast
    with False show ?thesis by (simp add: quote_char_def)
  qed
  have m: "map (quote_char JS_SAFE_URL_CHARS) url = map (\<lambda>c. if c = CHR 0x27 then ''%27'' else [c]) url"
    by (rule map_cong [OF refl q])
  have e: "py_quote JS_SAFE_URL_CHARS url = concat (map (\<lambda>c. if c = CHR 0x27 then ''%27'' else [c]) url)"
    unfolding py_quote_def m ..
  have "\<not> breaks_literal x" if "c \<in> set url" "x \<in> set (if c = CHR 0x27 then ''%27'' else [c])" for c x
  proof (cases "c = CHR 0x27")
    case True
    with that(2) have "x \<in> set ''%27''" by simp
    with apostrophe_quoted(2) show ?thesis unfolding list_all_iff by blast
  next
    case False
    with that safe show ?thesis using rfc3986_quote_safe quote_safe_literal by auto
  qed
  then have "\<forall>x \<in> set (concat (map (\<lambda>c. if c = CHR 0x27 then ''%27'' else [c]) url)). \<not> breaks_literal x"
    unfolding set_concat set_map by blast
  then show ?thesis unfolding e list_all_iff by blast
qed

theorem uc_url_literal_safe_witness:
  "py_quote JS_SAFE_URL_CHARS (''https://www.kabum.com.br/p?q=a'' @ [CHR 0x27] @ ''b'') = ''https://www.kabum.com.br/p?q=a%27b''"
proof -
  have "check_scheme_and_domain (''https://www.kabum.com.br/p?q=a'' @ [CHR 0x27] @ ''b'') DEFAULT_DOMAIN_POLICY
      = Inr (''https'', ''www.kabum.com.br'')" by code_simp
  from uc_url_literal_safe [OF this] show ?thesis by simp
qed

text \<open>The rule list of the \<open>uc\<close> tier starts with the pin and the refusal of everything else. A
  sub-resource domain that is the navigation host itself is excluded from the rules all the same.\<close>

lemma host_resolver_rules_order:
  "\<exists>excluded. host_resolver_rules target subs =
      join '', '' ((''MAP '' @ vt_host target @ '' ''
        @ (if CHR '':'' \<in> set (vt_ip target) then ''['' @ vt_ip target @ '']'' else vt_ip target))
        # ''MAP * ~NOTFOUND'' # map (\<lambda>d. ''EXCLUDE '' @ d) excluded)
     \<and> sorted excluded \<and> distinct excluded \<and> set excluded = set (normalize_domains subs)"
  by (rule exI [of _ "uc_normalize_domains subs"]) (simp add: host_resolver_rules_def uc_normalize_domains_def)

lemma navigation_host_excluded:
  "host_resolver_rules \<lparr> vt_url = ''https://www.kabum.com.br/'', vt_scheme = ''https'', vt_host = ''www.kabum.com.br'',
      vt_port = 443, vt_ip = ''8.8.8.8'' \<rparr> [''www.kabum.com.br'']
   = ''MAP www.kabum.com.br 8.8.8.8, MAP * ~NOTFOUND, EXCLUDE www.kabum.com.br''"
  by code_simp

text \<open>The Chromium that is launched has the highest revision among the installed ones.\<close>

lemma best_chromium_max:
  "best_chromium base isfile names best = Some (r, c) \<Longrightarrow>
     (best = Some (r, c) \<or> (\<exists>n \<in> set names. chromium_revision n = Some r \<and> c = chromium_path base n \<and> isfile c))
     \<and> (\<forall>n \<in> set names. \<forall>k. chromium_revision n = Some k \<and> isfile (chromium_path base n) \<longrightarrow> k \<le> r)
     \<and> (\<forall>b. best = Some b \<longrightarrow> fst b \<le> r)"
proof (induction names arbitrary: best)
  case Nil
  then show ?case by auto
next
  case (Cons n ns)
  show ?case
  proof (cases "\<exists>k. chromium_revision n = Some k \<and> isfile (chromium_path base n)")
    case True
    then obtain k where k: "chromium_revision n = Some k" "isfile (chromium_path base n)" by blast
    let ?new = "case best of None \<Rightarrow> Some (k, chromium_path base n)
        | Some b \<Rightarrow> if fst b < k then Some (k, chromium_path base n) else best"
    from k Cons.prems have "best_chromium base isfile ns ?new = Some (r, c)" by (simp add: Let_def)
    from Cons.IH [OF this] k show ?thesis by (cases best) (auto split: if_splits)
  next
    case False
    then have "best_chromium base isfile ns best = Some (r, c)"
      using Cons.prems by (auto simp: Let_def split: option.splits if_splits)
    from Cons.IH [OF this] False show ?thesis by auto
  qed
qed

end
