(* ===== verification/Process_Trees.thy ===== *)
theory Process_Trees
  imports Browser_Guards
begin

text \<open>
  Which processes the browser tiers kill: the trees of a launch in \<open>adapters/browser.py\<close>,
  \<open>adapters/camoufox.py\<close> and \<open>adapters/uc.py\<close> and the passes that kill them.

  A view is what psutil answers at one moment; \<open>None\<close> stands for a psutil error, as when a process has
  exited meanwhile. Processes are named by their pid; the dictionaries keyed by pid are lists in
  insertion order. A name is compared in lower case.
\<close>

section \<open>Views\<close>

record process_view =
  my_descendants :: "nat list option" \<comment> \<open>\<open>psutil.Process(os.getpid()).children(recursive=True)\<close>\<close>
  cmdline :: "nat \<Rightarrow> string list option"
  parent_of :: "nat \<Rightarrow> nat option option"
  proc_name :: "nat \<Rightarrow> string option"
  children :: "nat \<Rightarrow> nat list option" \<comment> \<open>recursive\<close>
  create_time :: "nat \<Rightarrow> rat option"

definition process_matches_launch :: "process_view \<Rightarrow> string \<Rightarrow> nat \<Rightarrow> bool" where
  "process_matches_launch v marker p =
     (case cmdline v p of None \<Rightarrow> False | Some args \<Rightarrow> list_ex (contains marker) args)"

text \<open>\<open>d[k] = v\<close> on an insertion-ordered dictionary seen as the list of its keys.\<close>

definition add_key :: "nat list \<Rightarrow> nat \<Rightarrow> nat list" where
  "add_key ks k = (if k \<in> set ks then ks else ks @ [k])"

definition add_keys :: "nat list \<Rightarrow> nat list \<Rightarrow> nat list" where
  "add_keys ks new = foldl add_key ks new"

section \<open>The browser and the camoufox tier\<close>

definition driver_of :: "process_view \<Rightarrow> nat \<Rightarrow> nat option" where
  "driver_of v p =
     (case parent_of v p of
        Some (Some parent) \<Rightarrow>
          (case cmdline v parent of
             Some args \<Rightarrow> if ''run-driver'' \<in> set args then Some parent else None
           | None \<Rightarrow> None)
      | _ \<Rightarrow> None)"

definition drivers_of :: "process_view \<Rightarrow> nat list \<Rightarrow> nat list" where
  "drivers_of v roots = add_keys [] (List.map_filter (driver_of v) roots)"

definition descendants :: "process_view \<Rightarrow> nat \<Rightarrow> nat list" where
  "descendants v p = (case children v p of None \<Rightarrow> [] | Some ps \<Rightarrow> ps)"

definition browser_side :: "process_view \<Rightarrow> nat list \<Rightarrow> nat list \<Rightarrow> nat list" where
  "browser_side v roots drivers =
     add_keys [] (filter (\<lambda>p. p \<notin> set drivers) (concat (map (\<lambda>r. r # descendants v r) (roots @ drivers))))"

definition launch_tree_parts :: "process_view \<Rightarrow> string \<Rightarrow> nat list \<times> nat list" where
  "launch_tree_parts v marker =
     (case my_descendants v of
        None \<Rightarrow> ([], [])
      | Some candidates \<Rightarrow>
          (let roots = filter (process_matches_launch v marker) candidates; drivers = drivers_of v roots
           in (browser_side v roots drivers, drivers)))"

definition launch_process_tree :: "process_view \<Rightarrow> string \<Rightarrow> nat list" where
  "launch_process_tree v marker = (let (chromium, driver) = launch_tree_parts v marker in chromium @ driver)"

definition DRIVER_CMDLINE_TOKEN :: string where
  "DRIVER_CMDLINE_TOKEN = ''playwright''"

definition BROWSER_CMDLINE_TOKEN :: string where
  "BROWSER_CMDLINE_TOKEN = ''camoufox''"

definition camoufox_tree_parts :: "process_view \<Rightarrow> string \<Rightarrow> nat list option \<Rightarrow> nat list \<times> nat list" where
  "camoufox_tree_parts v marker pids_before =
     (case my_descendants v of
        None \<Rightarrow> ([], [])
      | Some candidates \<Rightarrow>
          (let roots = filter (process_matches_launch v marker) candidates;
               drivers = drivers_of v roots;
               newborn = (case pids_before of
                            None \<Rightarrow> []
                          | Some before \<Rightarrow>
                              filter (\<lambda>p. p \<notin> set before \<and> p \<notin> set roots \<and> p \<notin> set drivers
                                \<and> (process_matches_launch v DRIVER_CMDLINE_TOKEN p
                                   \<or> process_matches_launch v BROWSER_CMDLINE_TOKEN p)) candidates)
           in (browser_side v (roots @ newborn) drivers, drivers)))"

definition camoufox_process_tree :: "process_view \<Rightarrow> string \<Rightarrow> nat list option \<Rightarrow> nat list" where
  "camoufox_process_tree v marker pids_before =
     (let (firefox, driver) = camoufox_tree_parts v marker pids_before in firefox @ driver)"

text \<open>SIGKILL to each process, then the wait: \<open>None\<close> when it raises, otherwise the survivors. The result
  tells whether every process is known to be dead.\<close>

definition kill_and_wait :: "nat list \<Rightarrow> nat list option \<Rightarrow> bool" where
  "kill_and_wait procs survivors =
     (if procs = [] then True else (case survivors of None \<Rightarrow> False | Some alive \<Rightarrow> alive = []))"

text \<open>\<open>_release_stuck_fetch\<close> with psutil: what is killed, in order. The driver only goes when the owner thread is
  still alive after its grace.\<close>

definition release_stuck_kills :: "process_view \<Rightarrow> string \<Rightarrow> bool \<Rightarrow> nat list list" where
  "release_stuck_kills v marker alive_after_grace =
     (let (chromium, driver) = launch_tree_parts v marker
      in if alive_after_grace then [chromium, driver] else [chromium])"

text \<open>\<open>_kill_after_deadline\<close>: the set frozen at the deadline, then, after the grace, what the launch has
  by then together with the driver found before.\<close>

definition kill_after_deadline :: "process_view \<Rightarrow> process_view \<Rightarrow> string \<Rightarrow> nat list option \<Rightarrow> nat list list" where
  "kill_after_deadline v later marker pids_before =
     (let (firefox, driver) = camoufox_tree_parts v marker pids_before
      in [firefox, add_keys (add_keys [] (camoufox_process_tree later marker pids_before)) driver])"

section \<open>The uc tier\<close>

definition LAUNCH_PARENT_NAMES :: "string list" where
  "LAUNCH_PARENT_NAMES = [''chromedriver'', ''uc_driver'']"

definition names_a_driver :: "process_view \<Rightarrow> nat \<Rightarrow> bool" where
  "names_a_driver v p = (case proc_name v p of None \<Rightarrow> False | Some n \<Rightarrow> py_lower n \<in> set LAUNCH_PARENT_NAMES)"

definition uc_parent :: "process_view \<Rightarrow> nat \<Rightarrow> nat option" where
  "uc_parent v p =
     (case parent_of v p of
        Some (Some parent) \<Rightarrow> if names_a_driver v parent then Some parent else None
      | _ \<Rightarrow> None)"

definition uc_process_tree :: "process_view \<Rightarrow> string \<Rightarrow> nat list option \<Rightarrow> nat list" where
  "uc_process_tree v marker pids_before =
     (case my_descendants v of
        None \<Rightarrow> []
      | Some candidates \<Rightarrow>
          (let marked = filter (process_matches_launch v marker) candidates;
               roots = marked @ List.map_filter (uc_parent v) marked;
               newborn = (case pids_before of
                            None \<Rightarrow> []
                          | Some before \<Rightarrow>
                              filter (\<lambda>p. p \<notin> set roots \<and> p \<notin> set before \<and> names_a_driver v p) candidates)
           in add_keys [] (concat (map (\<lambda>r. r # descendants v r) (roots @ newborn)))))"

definition capture_identities :: "process_view \<Rightarrow> nat list \<Rightarrow> (nat \<times> rat) list" where
  "capture_identities v procs =
     List.map_filter (\<lambda>p. map_option (\<lambda>t. (p, t)) (create_time v p)) procs"

text \<open>\<open>_kill_identities\<close>: the processes that are signalled, judged by a fresh view of each.\<close>

definition kill_identities :: "process_view \<Rightarrow> (nat \<times> rat) list \<Rightarrow> nat list" where
  "kill_identities v identities = map fst (filter (\<lambda>(p, created). create_time v p = Some created) identities)"

definition uc_kill_launch :: "process_view \<Rightarrow> process_view \<Rightarrow> string \<Rightarrow> nat list option \<Rightarrow> nat list" where
  "uc_kill_launch v later marker pids_before =
     kill_identities later (capture_identities v (uc_process_tree v marker pids_before))"

definition kill_service_process :: "process_view \<Rightarrow> process_view \<Rightarrow> nat option \<Rightarrow> nat list" where
  "kill_service_process v later service_pid =
     (case service_pid of
        None \<Rightarrow> []
      | Some p \<Rightarrow> if names_a_driver v p then kill_identities later (capture_identities v [p]) else [])"

text \<open>\<open>_late_sweep\<close>: only in single flight and with the snapshot of this launch.\<close>

definition late_sweep ::
  "process_view \<Rightarrow> process_view \<Rightarrow> string option \<Rightarrow> nat list option \<Rightarrow> int \<Rightarrow> nat list" where
  "late_sweep v later marker pids_before max_concurrent =
     (case (marker, pids_before) of
        (Some m, Some before) \<Rightarrow> if max_concurrent \<noteq> 1 then [] else uc_kill_launch v later m (Some before)
      | _ \<Rightarrow> [])"

definition kill_after_fetch_timeout ::
  "process_view \<Rightarrow> process_view \<Rightarrow> string option \<Rightarrow> (nat \<times> rat) list \<Rightarrow> nat option \<Rightarrow> nat list option \<Rightarrow> int
    \<Rightarrow> nat list list" where
  "kill_after_fetch_timeout v later marker siblings service_pid pids_before max_concurrent =
     [(case marker of None \<Rightarrow> [] | Some m \<Rightarrow> uc_kill_launch v v m None),
      kill_identities v siblings,
      kill_service_process v v service_pid,
      late_sweep later later marker pids_before max_concurrent]"

section \<open>Only the processes of the launch\<close>

lemma set_add_keys [simp]: "set (add_keys ks new) = set ks \<union> set new"
  unfolding add_keys_def by (induction new arbitrary: ks) (auto simp: add_key_def)

lemma distinct_add_keys: "distinct ks \<Longrightarrow> distinct (add_keys ks new)"
  unfolding add_keys_def by (induction new arbitrary: ks) (auto simp: add_key_def)

lemma set_map_filter: "set (List.map_filter f xs) = {y. \<exists>x \<in> set xs. f x = Some y}"
  by (induction xs) (auto simp: List.map_filter_def split: option.splits)

text \<open>What the operating system and the tools guarantee of the processes \<open>own\<close> of one launch: whoever carries
  its marker belongs to it, so do the descendants of its processes, and the driver that is the parent of
  a marked process was started for this launch.\<close>

definition launch_closed :: "(nat \<Rightarrow> bool) \<Rightarrow> process_view \<Rightarrow> string \<Rightarrow> bool" where
  "launch_closed own v marker \<longleftrightarrow>
     (\<forall>p. process_matches_launch v marker p \<longrightarrow>
        own p \<and> (\<forall>d. driver_of v p = Some d \<or> uc_parent v p = Some d \<longrightarrow> own d))
     \<and> (\<forall>p. own p \<longrightarrow> list_all own (descendants v p))"

lemma set_browser_side:
  "set (browser_side v roots drivers) = (\<Union>r \<in> set roots \<union> set drivers. insert r (set (descendants v r))) - set drivers"
  by (auto simp: browser_side_def)

lemma drivers_own:
  assumes "launch_closed own v marker" "\<And>r. r \<in> set roots \<Longrightarrow> process_matches_launch v marker r"
  shows "d \<in> set (drivers_of v roots) \<Longrightarrow> own d"
  using assms by (auto simp: drivers_of_def set_map_filter launch_closed_def)

lemma browser_side_own:
  assumes "launch_closed own v marker" "\<And>r. r \<in> set roots \<union> set drivers \<Longrightarrow> own r" "p \<in> set (browser_side v roots drivers)"
  shows "own p"
proof -
  from assms(3) obtain r where r: "r \<in> set roots \<union> set drivers" "p = r \<or> p \<in> set (descendants v r)"
    by (auto simp: set_browser_side)
  from assms(2) [OF r(1)] r(2) assms(1) show ?thesis by (auto simp: launch_closed_def list_all_iff)
qed

text \<open>In single flight a browser or driver process that was not there before the launch belongs to it.\<close>

definition newborn_own :: "(nat \<Rightarrow> bool) \<Rightarrow> process_view \<Rightarrow> nat list \<Rightarrow> bool" where
  "newborn_own own v before \<longleftrightarrow>
     (\<forall>cs p. my_descendants v = Some cs \<and> p \<in> set cs \<and> p \<notin> set before
        \<and> (names_a_driver v p \<or> process_matches_launch v DRIVER_CMDLINE_TOKEN p
           \<or> process_matches_launch v BROWSER_CMDLINE_TOKEN p) \<longrightarrow> own p)"

lemma roots_own:
  assumes "launch_closed own v marker" "\<And>r. r \<in> set roots \<Longrightarrow> process_matches_launch v marker r"
    "\<And>n. n \<in> set newborn \<Longrightarrow> own n"
  shows "list_all own (browser_side v (roots @ newborn) (drivers_of v roots)) \<and> list_all own (drivers_of v roots)"
proof -
  have d: "d \<in> set (drivers_of v roots) \<Longrightarrow> own d" for d by (rule drivers_own [OF assms(1,2)])
  have "r \<in> set (roots @ newborn) \<union> set (drivers_of v roots) \<Longrightarrow> own r" for r
    using d assms by (auto simp: launch_closed_def)
  then have "p \<in> set (browser_side v (roots @ newborn) (drivers_of v roots)) \<Longrightarrow> own p" for p
    using browser_side_own [OF assms(1)] by blast
  with d show ?thesis by (simp add: list_all_iff)
qed

lemma launch_tree_parts_own:
  assumes "launch_closed own v marker" "launch_tree_parts v marker = (chromium, driver)"
  shows "list_all own chromium \<and> list_all own driver"
proof (cases "my_descendants v")
  case None
  with assms show ?thesis by (simp add: launch_tree_parts_def)
next
  case (Some cs)
  let ?roots = "filter (process_matches_launch v marker) cs"
  have "chromium = browser_side v (?roots @ []) (drivers_of v ?roots)" "driver = drivers_of v ?roots"
    using assms(2) Some by (auto simp: launch_tree_parts_def Let_def)
  with roots_own [OF assms(1), of ?roots "[]"] show ?thesis by simp
qed

lemma camoufox_tree_parts_own:
  assumes "launch_closed own v marker" "\<And>before. pids_before = Some before \<Longrightarrow> newborn_own own v before"
    "camoufox_tree_parts v marker pids_before = (firefox, driver)"
  shows "list_all own firefox \<and> list_all own driver"
proof (cases "my_descendants v")
  case None
  with assms show ?thesis by (simp add: camoufox_tree_parts_def)
next
  case (Some cs)
  let ?roots = "filter (process_matches_launch v marker) cs"
  let ?new = "case pids_before of None \<Rightarrow> [] | Some before \<Rightarrow>
     filter (\<lambda>p. p \<notin> set before \<and> p \<notin> set ?roots \<and> p \<notin> set (drivers_of v ?roots)
       \<and> (process_matches_launch v DRIVER_CMDLINE_TOKEN p \<or> process_matches_launch v BROWSER_CMDLINE_TOKEN p)) cs"
  have new: "n \<in> set ?new \<Longrightarrow> own n" for n
    using assms(2) Some by (cases pids_before) (auto simp: newborn_own_def)
  have "firefox = browser_side v (?roots @ ?new) (drivers_of v ?roots)" "driver = drivers_of v ?roots"
    using assms(3) Some by (auto simp: camoufox_tree_parts_def Let_def)
  with roots_own [OF assms(1), of ?roots ?new, OF _ new] show ?thesis by simp
qed

lemma uc_process_tree_own:
  assumes "launch_closed own v marker" "\<And>before. pids_before = Some before \<Longrightarrow> newborn_own own v before"
    "p \<in> set (uc_process_tree v marker pids_before)"
  shows "own p"
proof -
  from assms(3) obtain cs where cs: "my_descendants v = Some cs" by (cases "my_descendants v") (auto simp: uc_process_tree_def)
  have "\<exists>r. own r \<and> (p = r \<or> p \<in> set (descendants v r))"
  proof -
    from assms(3) cs obtain r where r: "p = r \<or> p \<in> set (descendants v r)"
      "process_matches_launch v marker r \<or> (\<exists>m. process_matches_launch v marker m \<and> uc_parent v m = Some r)
       \<or> (\<exists>before. pids_before = Some before \<and> r \<in> set cs \<and> r \<notin> set before \<and> names_a_driver v r)"
      by (auto simp: uc_process_tree_def set_map_filter Let_def split: option.splits)
    from r(2) have "own r"
      using assms(1,2) cs unfolding launch_closed_def newborn_own_def by blast
    with r(1) show ?thesis by blast
  qed
  with assms(1) show ?thesis by (auto simp: launch_closed_def list_all_iff)
qed

lemma kill_identities_same: "p \<in> set (kill_identities v ids) \<Longrightarrow> \<exists>t. (p, t) \<in> set ids \<and> create_time v p = Some t"
  by (auto simp: kill_identities_def)

lemma capture_identities_iff: "(p, t) \<in> set (capture_identities v procs) \<longleftrightarrow> p \<in> set procs \<and> create_time v p = Some t"
  by (auto simp: capture_identities_def set_map_filter split: option.splits)

lemma kill_captured: "p \<in> set (kill_identities later (capture_identities v procs)) \<Longrightarrow> p \<in> set procs \<and> create_time later p = create_time v p"
  using kill_identities_same capture_identities_iff by metis


definition node_args :: "string list" where
  "node_args = [''node'', ''run-driver'']"

definition chrome_args :: "string list" where
  "chrome_args = [''chrome'', ''--autolycos-launch-id=ab'']"

definition sample_view :: process_view where
  "sample_view =
     \<lparr> my_descendants = Some [10, 11, 12, 20],
       cmdline = (\<lambda>p. Some (if p = 10 then node_args else if p = 11 then chrome_args else [])),
       parent_of = (\<lambda>p. Some (if p = 11 then Some 10 else None)), proc_name = (\<lambda>p. None),
       children = (\<lambda>p. Some (if p = 10 then [11, 12] else if p = 11 then [12] else [])),
       create_time = (\<lambda>p. Some (of_nat p)) \<rparr>"

definition sample_own :: "nat \<Rightarrow> bool" where
  "sample_own p \<longleftrightarrow> p = 10 \<or> p = 11 \<or> p = 12"

lemma sample_marks:
  "list_ex (contains ''--autolycos-launch-id=ab'') chrome_args" "\<not> list_ex (contains ''--autolycos-launch-id=ab'') node_args"
  "\<not> list_ex (contains DRIVER_CMDLINE_TOKEN) chrome_args" "\<not> list_ex (contains DRIVER_CMDLINE_TOKEN) node_args"
  "\<not> list_ex (contains BROWSER_CMDLINE_TOKEN) chrome_args" "\<not> list_ex (contains BROWSER_CMDLINE_TOKEN) node_args"
  "''run-driver'' \<in> set node_args"
  by code_simp+

lemma sample_matches:
  "process_matches_launch sample_view ''--autolycos-launch-id=ab'' p \<longleftrightarrow> p = 11"
  "\<not> process_matches_launch sample_view DRIVER_CMDLINE_TOKEN p" "\<not> process_matches_launch sample_view BROWSER_CMDLINE_TOKEN p"
  "\<not> names_a_driver sample_view p" "uc_parent sample_view p = None" "driver_of sample_view 11 = Some 10"
  "descendants sample_view p = (if p = 10 then [11, 12] else if p = 11 then [12] else [])"
  using sample_marks
  by (simp_all add: process_matches_launch_def sample_view_def names_a_driver_def uc_parent_def driver_of_def descendants_def
      split: option.splits)


end
