(* ===== verification/Camoufox_Install.thy ===== *)
theory Camoufox_Install
  imports Browser_Guards
begin

text \<open>
  What the camoufox tier checks before it launches (\<open>adapters/camoufox.py\<close>): the preferences that are
  always set, the order of the browser builds, and whether the install can be started without a
  download. The file system, the installed packages and the constraints shipped with the
  camoufox package are parameters.
\<close>

section \<open>Preferences\<close>

datatype pref_value = PBool bool | PInt int | PStr string

definition FROZEN_FIREFOX_PREFS :: "(string \<times> pref_value) list" where
  "FROZEN_FIREFOX_PREFS =
     [(''network.proxy.allow_hijacking_localhost'', PBool True), (''network.proxy.no_proxies_on'', PStr []),
      (''network.proxy.failover_direct'', PBool False), (''network.proxy.allow_bypass'', PBool False),
      (''network.trr.mode'', PInt 5), (''network.dns.disablePrefetch'', PBool True),
      (''network.dns.disablePrefetchFromHTTPS'', PBool True), (''network.prefetch-next'', PBool False),
      (''network.predictor.enabled'', PBool False), (''network.predictor.enable-prefetch'', PBool False),
      (''network.http.speculative-parallel-limit'', PInt 0),
      (''browser.urlbar.speculativeConnect.enabled'', PBool False),
      (''browser.places.speculativeConnect.enabled'', PBool False),
      (''media.peerconnection.enabled'', PBool False), (''network.http.http3.enable'', PBool False),
      (''dom.serviceWorkers.enabled'', PBool False), (''dom.push.enabled'', PBool False),
      (''dom.push.connection.enabled'', PBool False),
      (''network.captive-portal-service.enabled'', PBool False),
      (''network.connectivity-service.enabled'', PBool False), (''captivedetect.canonicalURL'', PStr []),
      (''browser.safebrowsing.malware.enabled'', PBool False),
      (''browser.safebrowsing.phishing.enabled'', PBool False),
      (''browser.safebrowsing.blockedURIs.enabled'', PBool False),
      (''browser.safebrowsing.downloads.enabled'', PBool False),
      (''browser.safebrowsing.downloads.remote.enabled'', PBool False),
      (''browser.safebrowsing.provider.google.updateURL'', PStr []),
      (''browser.safebrowsing.provider.google.gethashURL'', PStr []),
      (''browser.safebrowsing.provider.google4.updateURL'', PStr []),
      (''browser.safebrowsing.provider.google4.gethashURL'', PStr []),
      (''browser.safebrowsing.provider.mozilla.updateURL'', PStr []),
      (''browser.safebrowsing.provider.mozilla.gethashURL'', PStr []), (''app.update.auto'', PBool False),
      (''app.update.checkInstallTime'', PBool False), (''extensions.update.enabled'', PBool False),
      (''extensions.update.autoUpdateDefault'', PBool False),
      (''extensions.getAddons.cache.enabled'', PBool False),
      (''extensions.systemAddon.update.enabled'', PBool False),
      (''extensions.blocklist.enabled'', PBool False), (''media.gmp-manager.url'', PStr []),
      (''media.gmp-gmpopenh264.enabled'', PBool False), (''media.gmp-widevinecdm.enabled'', PBool False),
      (''browser.region.update.enabled'', PBool False), (''browser.region.network.url'', PStr []),
      (''toolkit.telemetry.enabled'', PBool False), (''toolkit.telemetry.unified'', PBool False),
      (''toolkit.telemetry.archive.enabled'', PBool False), (''toolkit.telemetry.server'', PStr []),
      (''toolkit.telemetry.newProfilePing.enabled'', PBool False),
      (''toolkit.telemetry.shutdownPingSender.enabled'', PBool False),
      (''toolkit.telemetry.firstShutdownPing.enabled'', PBool False),
      (''toolkit.telemetry.updatePing.enabled'', PBool False),
      (''toolkit.telemetry.bhrPing.enabled'', PBool False),
      (''datareporting.healthreport.uploadEnabled'', PBool False),
      (''datareporting.policy.dataSubmissionEnabled'', PBool False), (''app.normandy.enabled'', PBool False),
      (''app.normandy.api_url'', PStr []), (''app.shield.optoutstudies.enabled'', PBool False),
      (''breakpad.reportURL'', PStr []), (''browser.tabs.crashReporting.sendReport'', PBool False),
      (''browser.newtabpage.activity-stream.feeds.telemetry'', PBool False),
      (''browser.newtabpage.activity-stream.telemetry'', PBool False), (''geo.enabled'', PBool False),
      (''geo.provider.network.url'', PStr []), (''services.settings.server'', PStr []),
      (''network.webtransport.enabled'', PBool False), (''devtools.debugger.remote-enabled'', PBool False),
      (''browser.safebrowsing.passwords.enabled'', PBool False), (''app.update.enabled'', PBool False),
      (''app.update.service.enabled'', PBool False), (''media.gmp-manager.updateEnabled'', PBool False),
      (''dom.push.serverURL'', PStr []), (''security.OCSP.enabled'', PInt 0),
      (''security.ssl.enable_ocsp_stapling'', PBool True)]"

text \<open>A dictionary is its lookup function.\<close>

definition merged_firefox_prefs :: "(string \<Rightarrow> pref_value option) \<Rightarrow> string \<Rightarrow> pref_value option" where
  "merged_firefox_prefs caller_prefs key =
     (case map_of FROZEN_FIREFOX_PREFS key of
        Some v \<Rightarrow> Some v
      | None \<Rightarrow> if starts_with ''security.sandbox.'' key then None else caller_prefs key)"

section \<open>Builds and versions\<close>

text \<open>\<open>x.isdigit()\<close> accepts superscripts that \<open>int(x)\<close> then refuses; an empty part has no first character.\<close>

definition build_part :: "string \<Rightarrow> int result" where
  "build_part x =
     (if py_isdigit x then py_int x
      else if x = [] then Inl (OtherError ''IndexError'' ''string index out of range'')
      else Inr (int (code (hd x)) - 1024))"

fun map_result :: "('a \<Rightarrow> 'b result) \<Rightarrow> 'a list \<Rightarrow> 'b list result" where
  "map_result f [] = Inr []"
| "map_result f (x # xs) = bindE (f x) (\<lambda>y. bindE (map_result f xs) (\<lambda>ys. Inr (y # ys)))"

definition build_key :: "string \<Rightarrow> int list result" where
  "build_key build =
     bindE (map_result build_part (split_on (CHR ''.'') build)) (\<lambda>parts.
       Inr (parts @ replicate (5 - (length (split_on (CHR ''.'') build) - 1)) 0))"

definition semver_part :: "string \<Rightarrow> int result" where
  "semver_part p = (if py_isdigit p then py_int p else Inr 0)"

definition semver :: "string \<Rightarrow> int list result" where
  "semver version =
     bindE (map_result semver_part (split_on (CHR ''.'') version)) (\<lambda>parts.
       Inr (parts @ replicate (3 - length parts) 0))"

text \<open>\<open>_package_browser_floor\<close> over the constraints of the package: its minimum and the builds required from a
  playwright version on.\<close>

fun raise_floor :: "int list \<Rightarrow> (int list \<times> string) list \<Rightarrow> string \<Rightarrow> string result" where
  "raise_floor playwright [] lowest = Inr lowest"
| "raise_floor playwright ((required, build) # rest) lowest =
     (if playwright \<ge> required
      then bindE (build_key lowest) (\<lambda>kf. bindE (build_key build) (\<lambda>kb.
             raise_floor playwright rest (if kf < kb then build else lowest)))
      else raise_floor playwright rest lowest)"

definition package_browser_floor :: "string \<Rightarrow> string \<Rightarrow> (int list \<times> string) list \<Rightarrow> string result" where
  "package_browser_floor playwright_version min_version floors =
     bindE (semver playwright_version) (\<lambda>playwright. raise_floor playwright floors min_version)"

section \<open>Readiness\<close>

record camoufox_install =
  ci_module :: "string \<Rightarrow> bool"
  ci_executable :: "string \<Rightarrow> bool"
  ci_version :: "string \<Rightarrow> (string \<times> string) result" \<comment> \<open>version and build beside the binary\<close>
  ci_floor :: "string result"

definition not_ready :: "string \<Rightarrow> exn" where
  "not_ready m = OtherError ''_NotReady'' m"

definition unreadable :: "exn \<Rightarrow> bool" where
  "unreadable e \<longleftrightarrow> is_os_error e \<or> is_value_error e \<or> exn_name e \<in> {''KeyError'', ''TypeError''}"

definition REQUIRED_MODULES :: "string list" where
  "REQUIRED_MODULES = [''camoufox'', ''playwright'', ''psutil'']"

definition check_floor :: "camoufox_install \<Rightarrow> string \<Rightarrow> unit result" where
  "check_floor ci build =
     (case bindE (ci_floor ci) (\<lambda>lowest. bindE (build_key build) (\<lambda>kb. bindE (build_key lowest) (\<lambda>kf. Inr (kb < kf, lowest)))) of
        Inl e \<Rightarrow> Inl (not_ready (''cannot determine the browser build floor: '' @ exn_str e))
      | Inr (below, lowest) \<Rightarrow>
          raise_if below (not_ready (''installed Camoufox build '' @ py_repr build @ '' is below the floor '' @ py_repr lowest
            @ '' required by the installed playwright'')))"

definition ready_firefox_major :: "camoufox_install \<Rightarrow> string \<Rightarrow> string \<Rightarrow> int result" where
  "ready_firefox_major ci executable_path expected_version =
     (case find (\<lambda>m. \<not> ci_module ci m) REQUIRED_MODULES of
        Some m \<Rightarrow> Inl (not_ready (''python module '' @ py_repr m @ '' is not installed''))
      | None \<Rightarrow>
          if \<not> ci_executable ci executable_path
          then Inl (not_ready (''no executable Camoufox binary at '' @ py_repr executable_path))
          else (case ci_version ci executable_path of
                  Inl e \<Rightarrow>
                    if unreadable e
                    then Inl (not_ready (''unreadable version.json beside '' @ py_repr executable_path @ '': '' @ exn_str e))
                    else Inl e
                | Inr (version, build) \<Rightarrow>
                    (let installed = version @ ''-'' @ build; major = hd (split_on (CHR ''.'') version)
                     in if installed \<noteq> expected_version
                        then Inl (not_ready (''installed Camoufox build '' @ py_repr installed @ '' differs from the expected ''
                               @ py_repr expected_version))
                        else if \<not> py_isdigit major
                        then Inl (not_ready (''unparseable Firefox version '' @ py_repr version))
                        else bindE (check_floor ci build) (\<lambda>_. py_int major))))"

text \<open>\<open>camoufox_ready\<close> with the problems reported so far: the answer, and the warning that is logged.\<close>

definition camoufox_ready ::
  "camoufox_install \<Rightarrow> string \<Rightarrow> string \<Rightarrow> string list \<Rightarrow> (bool result \<times> string option) \<times> string list" where
  "camoufox_ready ci executable_path expected_version reported =
     (case ready_firefox_major ci executable_path expected_version of
        Inr _ \<Rightarrow> ((Inr True, None), reported)
      | Inl e \<Rightarrow>
          if exn_name e \<noteq> ''_NotReady'' then ((Inl e, None), reported)
          else if exn_str e \<in> set reported then ((Inr False, None), reported)
          else ((Inr False, Some (exn_str e)), exn_str e # reported))"

definition EXCLUDED_DEFAULT_ADDONS :: "string list" where
  "EXCLUDED_DEFAULT_ADDONS = [''UBO'']"

text \<open>The checks of \<open>CamoufoxFetcher.fetch\<close> between the ceiling and the launch: the Firefox version to pass and the
  addons to exclude.\<close>

definition camoufox_preflight ::
  "camoufox_install \<Rightarrow> string list \<Rightarrow> string \<Rightarrow> string \<Rightarrow> (int \<times> string list) result" where
  "camoufox_preflight ci upstream_addons executable_path expected_version =
     (case ready_firefox_major ci executable_path expected_version of
        Inl e \<Rightarrow>
          if exn_name e = ''_NotReady'' then Inl (FetchError (''camoufox tier unavailable: '' @ exn_str e)) else Inl e
      | Inr major \<Rightarrow>
          if filter (\<lambda>a. a \<notin> set EXCLUDED_DEFAULT_ADDONS) upstream_addons \<noteq> []
          then Inl (FetchError ''camoufox declares default addons that this adapter does not exclude by name'')
          else Inr (major, filter (\<lambda>a. a \<in> set upstream_addons) EXCLUDED_DEFAULT_ADDONS))"

section \<open>What a launch relies on\<close>

text \<open>The preferences Firefox is started with, whatever a caller asks for: every frozen preference has its
  frozen value, the content sandbox is never touched, and every other preference of the caller is kept.\<close>

theorem frozen_prefs_win:
  "(case map_of FROZEN_FIREFOX_PREFS key of
      Some v \<Rightarrow> merged_firefox_prefs caller key = Some v
    | None \<Rightarrow> merged_firefox_prefs caller key = (if starts_with ''security.sandbox.'' key then None else caller key))
   \<and> distinct (map fst FROZEN_FIREFOX_PREFS)
   \<and> map_of FROZEN_FIREFOX_PREFS ''network.proxy.allow_hijacking_localhost'' = Some (PBool True)
   \<and> map_of FROZEN_FIREFOX_PREFS ''network.proxy.failover_direct'' = Some (PBool False)
   \<and> map_of FROZEN_FIREFOX_PREFS ''media.peerconnection.enabled'' = Some (PBool False)
   \<and> list_all (\<lambda>k. \<not> starts_with ''security.sandbox.'' k) (map fst FROZEN_FIREFOX_PREFS)"
proof -
  have "distinct (map fst FROZEN_FIREFOX_PREFS)" by code_simp
  moreover have "map_of FROZEN_FIREFOX_PREFS ''network.proxy.allow_hijacking_localhost'' = Some (PBool True)"
    "map_of FROZEN_FIREFOX_PREFS ''network.proxy.failover_direct'' = Some (PBool False)"
    "map_of FROZEN_FIREFOX_PREFS ''media.peerconnection.enabled'' = Some (PBool False)"
    "list_all (\<lambda>k. \<not> starts_with ''security.sandbox.'' k) (map fst FROZEN_FIREFOX_PREFS)" by code_simp+
  ultimately show ?thesis by (simp add: merged_firefox_prefs_def split: option.split)
qed

lemma find_None_iff_all: "find (\<lambda>m. \<not> P m) xs = None \<longleftrightarrow> list_all P xs"
  by (auto simp: find_None_iff list_all_iff)

lemma check_floor_ok:
  "check_floor ci build = Inr () \<longleftrightarrow>
     (\<exists>lowest kb kf. ci_floor ci = Inr lowest \<and> build_key build = Inr kb \<and> build_key lowest = Inr kf \<and> \<not> kb < kf)"
  by (auto simp: check_floor_def bindE_Inr_iff raise_if_def split: sum.splits if_splits)

text \<open>The camoufox tier launches only an install that needs no download: the three packages are there, the binary
  is executable, its version file names exactly the expected build, that build is not below what the
  installed packages require, and the version that is passed on is its major number.\<close>

theorem camoufox_ready_iff:
  "ready_firefox_major ci path expected = Inr major \<longleftrightarrow>
     ci_module ci ''camoufox'' \<and> ci_module ci ''playwright'' \<and> ci_module ci ''psutil'' \<and> ci_executable ci path
     \<and> (\<exists>version build lowest kb kf. ci_version ci path = Inr (version, build) \<and> expected = version @ ''-'' @ build
          \<and> ci_floor ci = Inr lowest \<and> build_key build = Inr kb \<and> build_key lowest = Inr kf \<and> kf \<le> kb
          \<and> py_isdigit (hd (split_on (CHR ''.'') version)) \<and> py_int (hd (split_on (CHR ''.'') version)) = Inr major)"
proof -
  have mods: "find (\<lambda>m. \<not> ci_module ci m) REQUIRED_MODULES = None \<longleftrightarrow>
      ci_module ci ''camoufox'' \<and> ci_module ci ''playwright'' \<and> ci_module ci ''psutil''"
    by (simp add: find_None_iff_all REQUIRED_MODULES_def)
  show ?thesis
  proof (cases "find (\<lambda>m. \<not> ci_module ci m) REQUIRED_MODULES")
    case None
    with mods show ?thesis
      by (auto simp: ready_firefox_major_def Let_def bindE_Inr_iff check_floor_ok not_less
          split: sum.splits if_splits prod.splits)
  next
    case (Some m)
    with mods show ?thesis by (auto simp: ready_firefox_major_def)
  qed
qed

text \<open>A problem is logged once: what is reported grows by the problem that is logged, which was not in it.\<close>

lemma camoufox_ready_logs_once:
  "camoufox_ready ci path expected reported = ((answer, logged), reported') \<Longrightarrow>
     (case logged of None \<Rightarrow> reported' = reported | Some m \<Rightarrow> m \<notin> set reported \<and> reported' = m # reported)
     \<and> (answer = Inr True \<longleftrightarrow> (\<exists>major. ready_firefox_major ci path expected = Inr major))"
  by (auto simp: camoufox_ready_def split: sum.splits if_splits)

text \<open>The order of the builds: a later number wins, a word comes before every number.\<close>

lemma build_key_examples:
  "build_key ''beta.30'' = Inr [-926, 30, 0, 0, 0, 0]"
  "(case (build_key ''beta.24'', build_key ''beta.30'') of (Inr a, Inr b) \<Rightarrow> a < b | _ \<Rightarrow> False)"
  "build_key ''beta..1'' = Inl (OtherError ''IndexError'' ''string index out of range'')"
  by code_simp+

end
