(* ===== verification/Browser_Gate.thy ===== *)
theory Browser_Gate
  imports Python_Prelude
begin

text \<open>
  The gate that bounds how many browsers run at once (\<open>autolycos/browser_gate.py\<close>): a bounded
  semaphore per process and, with a lock directory, one lock file per slot that the processes
  share.

  First the search for a lock file as a function of the world: \<open>os.open\<close> and \<open>flock\<close> succeed, find the
  slot taken, or raise; \<open>time.monotonic\<close> reads the world and \<open>time.sleep\<close> changes it. Then the gate
  as a machine whose steps are the operations of any number of threads of any number of processes, in
  any order.
\<close>

section \<open>Searching a slot\<close>

datatype flock_answer = Locked nat \<comment> \<open>the descriptor\<close> | Busy \<comment> \<open>EAGAIN or EWOULDBLOCK\<close> | FlockFails exn

type_synonym 'w locker = "nat \<Rightarrow> 'w \<Rightarrow> flock_answer \<times> 'w"

definition POLL_INTERVAL_SECONDS :: rat where
  "POLL_INTERVAL_SECONDS = 5 / 100"

definition gate_ok :: "int \<Rightarrow> int result" where
  "gate_ok max_concurrent =
     (if max_concurrent < 1 then Inl (ValueError (''max_concurrent must be >= 1, got '' @ string_of_int max_concurrent))
      else Inr max_concurrent)"

text \<open>One pass over the lock files: the first free one, or none.\<close>

fun try_slots :: "'w locker \<Rightarrow> nat list \<Rightarrow> 'w \<Rightarrow> nat option result \<times> 'w" where
  "try_slots locker [] w = (Inr None, w)"
| "try_slots locker (i # is) w =
     (case locker i w of
        (Locked fd, w1) \<Rightarrow> (Inr (Some fd), w1)
      | (Busy, w1) \<Rightarrow> try_slots locker is w1
      | (FlockFails e, w1) \<Rightarrow> (Inl e, w1))"

text \<open>The numbers in the messages are left out.\<close>

definition no_slot :: exn where
  "no_slot = FetchError ''browser gate: no lock slot freed in time''"

partial_function (option) slot_loop ::
  "'w locker \<Rightarrow> ('w \<Rightarrow> rat) \<Rightarrow> ('w \<Rightarrow> 'w) \<Rightarrow> nat list \<Rightarrow> rat option \<Rightarrow> 'w \<Rightarrow> (nat result \<times> 'w) option" where
  "slot_loop locker clock sleep paths deadline w =
     (case try_slots locker paths w of
        (Inl e, w1) \<Rightarrow> Some (Inl e, w1)
      | (Inr (Some fd), w1) \<Rightarrow> Some (Inr fd, w1)
      | (Inr None, w1) \<Rightarrow>
          (case deadline of
             Some d \<Rightarrow> if clock w1 \<ge> d then Some (Inl no_slot, w1)
                       else slot_loop locker clock sleep paths deadline (sleep w1)
           | None \<Rightarrow> slot_loop locker clock sleep paths deadline (sleep w1)))"

definition acquire_slot ::
  "'w locker \<Rightarrow> ('w \<Rightarrow> rat) \<Rightarrow> ('w \<Rightarrow> 'w) \<Rightarrow> nat \<Rightarrow> rat option \<Rightarrow> 'w \<Rightarrow> (nat result \<times> 'w) option" where
  "acquire_slot locker clock sleep max_concurrent timeout w =
     slot_loop locker clock sleep [0..<max_concurrent] (map_option (\<lambda>t. clock w + t) timeout) w"

text \<open>\<open>acquire\<close> with the permit of the semaphore: \<open>permit\<close> says whether the semaphore gave one within
  the timeout. The result is the descriptor to keep, or the error; the flag tells whether the permit is
  kept.\<close>

definition gate_acquire ::
  "'w locker \<Rightarrow> ('w \<Rightarrow> rat) \<Rightarrow> ('w \<Rightarrow> 'w) \<Rightarrow> nat \<Rightarrow> bool \<Rightarrow> rat option \<Rightarrow> bool \<Rightarrow> 'w
    \<Rightarrow> ((nat option result \<times> bool) \<times> 'w) option" where
  "gate_acquire locker clock sleep max_concurrent has_slots timeout permit w =
     (if \<not> permit then Some ((Inl (FetchError ''browser gate: no slot freed in time''), False), w)
      else if \<not> has_slots then Some ((Inr None, True), w)
      else (case acquire_slot locker clock sleep max_concurrent timeout w of
              None \<Rightarrow> None
            | Some (Inl e, w1) \<Rightarrow> Some ((Inl e, False), w1)
            | Some (Inr fd, w1) \<Rightarrow> Some ((Inr (Some fd), True), w1)))"

section \<open>The gate of all processes\<close>

datatype thread = Thread (process: nat) (number: nat)

datatype phase =
    Outside
  | Permitted \<comment> \<open>has the permit, looks for a slot\<close>
  | Inside "nat option" \<comment> \<open>holds the gate, with the lock file it has\<close>
  | Unlocked \<comment> \<open>in \<open>_release\<close>, between the lock file and the semaphore\<close>

record gate_state =
  permits :: "nat \<Rightarrow> nat"
  slot_lock :: "nat \<Rightarrow> thread option"
  phase_of :: "thread \<Rightarrow> phase"

definition gate_init :: "nat \<Rightarrow> gate_state" where
  "gate_init n = \<lparr> permits = (\<lambda>_. n), slot_lock = (\<lambda>_. None), phase_of = (\<lambda>_. Outside) \<rparr>"

definition take_permit :: "thread \<Rightarrow> gate_state \<Rightarrow> gate_state" where
  "take_permit t s = s\<lparr> permits := (permits s)(process t := permits s (process t) - 1), phase_of := (phase_of s)(t := Permitted) \<rparr>"

definition enter_with_slot :: "thread \<Rightarrow> nat \<Rightarrow> gate_state \<Rightarrow> gate_state" where
  "enter_with_slot t i s =
     s\<lparr> slot_lock := (slot_lock s)(i := Some t), phase_of := (phase_of s)(t := Inside (Some i)) \<rparr>"

definition enter_without_slot :: "thread \<Rightarrow> gate_state \<Rightarrow> gate_state" where
  "enter_without_slot t s = s\<lparr> phase_of := (phase_of s)(t := Inside None) \<rparr>"

definition return_permit :: "thread \<Rightarrow> gate_state \<Rightarrow> gate_state" where
  "return_permit t s = s\<lparr> permits := (permits s)(process t := permits s (process t) + 1), phase_of := (phase_of s)(t := Outside) \<rparr>"

definition unlock_slot :: "thread \<Rightarrow> nat option \<Rightarrow> gate_state \<Rightarrow> gate_state" where
  "unlock_slot t fd s =
     s\<lparr> slot_lock := (case fd of None \<Rightarrow> slot_lock s | Some i \<Rightarrow> (slot_lock s)(i := None)),
        phase_of := (phase_of s)(t := Unlocked) \<rparr>"

text \<open>\<open>locking\<close>: a lock directory was given and the platform has \<open>flock\<close>. A failed search for a slot, for
  whatever reason, gives the permit back.\<close>

inductive gate_step :: "bool \<Rightarrow> nat \<Rightarrow> gate_state \<Rightarrow> gate_state \<Rightarrow> bool" for locking n where
  permit: "phase_of s t = Outside \<Longrightarrow> 0 < permits s (process t) \<Longrightarrow> gate_step locking n s (take_permit t s)"
| slot: "phase_of s t = Permitted \<Longrightarrow> locking \<Longrightarrow> i < n \<Longrightarrow> slot_lock s i = None \<Longrightarrow>
     gate_step locking n s (enter_with_slot t i s)"
| no_slots: "phase_of s t = Permitted \<Longrightarrow> \<not> locking \<Longrightarrow> gate_step locking n s (enter_without_slot t s)"
| slot_failed: "phase_of s t = Permitted \<Longrightarrow> locking \<Longrightarrow> gate_step locking n s (return_permit t s)"
| unlock: "phase_of s t = Inside fd \<Longrightarrow> gate_step locking n s (unlock_slot t fd s)"
| release: "phase_of s t = Unlocked \<Longrightarrow> gate_step locking n s (return_permit t s)"

definition gate_reachable :: "bool \<Rightarrow> nat \<Rightarrow> gate_state \<Rightarrow> bool" where
  "gate_reachable locking n s \<longleftrightarrow> (gate_step locking n)\<^sup>*\<^sup>* (gate_init n) s"

definition inside :: "gate_state \<Rightarrow> thread set" where
  "inside s = {t. \<exists>fd. phase_of s t = Inside fd}"

definition with_permit :: "gate_state \<Rightarrow> nat \<Rightarrow> thread set" where
  "with_permit s p = {t. process t = p \<and> phase_of s t \<noteq> Outside}"

section \<open>The invariant\<close>

definition permits_ok :: "nat \<Rightarrow> gate_state \<Rightarrow> bool" where
  "permits_ok n s \<longleftrightarrow> (\<forall>p. finite (with_permit s p) \<and> permits s p + card (with_permit s p) = n)"

definition locks_ok :: "bool \<Rightarrow> nat \<Rightarrow> gate_state \<Rightarrow> bool" where
  "locks_ok locking n s \<longleftrightarrow>
     (\<forall>i t. slot_lock s i = Some t \<longleftrightarrow> phase_of s t = Inside (Some i))
     \<and> (\<forall>i t. slot_lock s i = Some t \<longrightarrow> i < n) \<and> (\<forall>t. locking \<longrightarrow> phase_of s t \<noteq> Inside None)"

lemma in_with_permit: "t \<in> with_permit s p \<longleftrightarrow> process t = p \<and> phase_of s t \<noteq> Outside"
  by (simp add: with_permit_def)

lemma permits_ok_keep:
  assumes "permits_ok n s" "phase_of s t \<noteq> Outside" "ph \<noteq> Outside"
    "permits s' = permits s" "phase_of s' = (phase_of s)(t := ph)"
  shows "permits_ok n s'"
proof -
  have "with_permit s' p = with_permit s p" for p using assms by (auto simp: with_permit_def)
  with assms show ?thesis by (simp add: permits_ok_def)
qed

lemma permits_ok_take:
  assumes "permits_ok n s" "phase_of s t = Outside" "0 < permits s (process t)"
  shows "permits_ok n (take_permit t s)"
proof -
  have w: "with_permit (take_permit t s) p = (if p = process t then insert t (with_permit s p) else with_permit s p)" for p
    by (auto simp: with_permit_def take_permit_def)
  have "t \<notin> with_permit s (process t)" using assms(2) by (simp add: in_with_permit)
  then show ?thesis
    using assms(1,3) unfolding permits_ok_def w by (auto simp: take_permit_def dest: spec [of _ "process t"])
qed

lemma permits_ok_return:
  assumes "permits_ok n s" "phase_of s t \<noteq> Outside"
  shows "permits_ok n (return_permit t s)"
proof -
  have w: "with_permit (return_permit t s) p = (if p = process t then with_permit s p - {t} else with_permit s p)" for p
    by (auto simp: with_permit_def return_permit_def)
  have t: "t \<in> with_permit s (process t)" "finite (with_permit s (process t))"
    using assms by (simp_all add: in_with_permit permits_ok_def)
  from card_Suc_Diff1 [OF t(2,1)] assms(1) show ?thesis
    unfolding permits_ok_def w by (auto simp: return_permit_def dest: spec [of _ "process t"])
qed

lemmas gate_ops = take_permit_def enter_with_slot_def enter_without_slot_def return_permit_def unlock_slot_def

lemma permits_ok_step: "gate_step locking n s s' \<Longrightarrow> permits_ok n s \<Longrightarrow> permits_ok n s'"
proof (induction rule: gate_step.induct)
  case (permit s t)
  show ?case by (rule permits_ok_take) (use permit in simp_all)
next
  case (slot s t i)
  show ?case by (rule permits_ok_keep [of n s t "Inside (Some i)"]) (use slot in \<open>simp_all add: gate_ops\<close>)
next
  case (no_slots s t)
  show ?case by (rule permits_ok_keep [of n s t "Inside None"]) (use no_slots in \<open>simp_all add: gate_ops\<close>)
next
  case (slot_failed s t)
  show ?case by (rule permits_ok_return) (use slot_failed in simp_all)
next
  case (unlock s t fd)
  show ?case by (rule permits_ok_keep [of n s t Unlocked]) (use unlock in \<open>simp_all add: gate_ops\<close>)
next
  case (release s t)
  show ?case by (rule permits_ok_return) (use release in simp_all)
qed

lemma locks_ok_step: "gate_step locking n s s' \<Longrightarrow> locks_ok locking n s \<Longrightarrow> locks_ok locking n s'"
proof (induction rule: gate_step.induct)
  case (slot s t i)
  then have "phase_of s u \<noteq> Inside (Some i)" for u unfolding locks_ok_def by (metis option.distinct(1))
  with slot show ?case by (auto simp: locks_ok_def gate_ops)
next
  case (unlock s t fd)
  then have "slot_lock s i = Some u \<Longrightarrow> fd = Some i \<Longrightarrow> u = t" for i u
    unfolding locks_ok_def by (metis option.inject)
  with unlock show ?case by (auto simp: locks_ok_def gate_ops split: option.splits)
qed (auto simp: locks_ok_def gate_ops)

lemma gate_reachable_ok: "gate_reachable locking n s \<Longrightarrow> permits_ok n s \<and> locks_ok locking n s"
  unfolding gate_reachable_def
proof (induction rule: rtranclp_induct)
  case base
  show ?case by (simp add: permits_ok_def locks_ok_def gate_init_def with_permit_def)
next
  case (step s s')
  then show ?case using permits_ok_step locks_ok_step by blast
qed

lemma inside_per_process:
  assumes "permits_ok n s"
  shows "finite {t \<in> inside s. process t = p} \<and> card {t \<in> inside s. process t = p} \<le> n - permits s p"
proof -
  have sub: "{t \<in> inside s. process t = p} \<subseteq> with_permit s p" by (auto simp: inside_def with_permit_def)
  have w: "finite (with_permit s p)" "permits s p + card (with_permit s p) = n" using assms by (auto simp: permits_ok_def)
  from card_mono [OF w(1) sub] w finite_subset [OF sub] show ?thesis by simp
qed

lemma inside_with_slots:
  assumes "locks_ok True n s"
  shows "finite (inside s) \<and> card (inside s) \<le> n"
proof -
  have "inside s \<subseteq> (\<lambda>i. the (slot_lock s i)) ` {..<n}"
  proof
    fix t assume "t \<in> inside s"
    then obtain fd where fd: "phase_of s t = Inside fd" by (auto simp: inside_def)
    with assms obtain i where i: "fd = Some i" by (cases fd) (auto simp: locks_ok_def)
    with fd assms have "slot_lock s i = Some t" "i < n" by (auto simp: locks_ok_def)
    then show "t \<in> (\<lambda>i. the (slot_lock s i)) ` {..<n}" by (auto intro!: image_eqI [of _ _ i])
  qed
  then show ?thesis using surj_card_le finite_subset by (metis card_lessThan finite_imageI finite_lessThan)
qed


definition two_inside :: gate_state where
  "two_inside =
     enter_with_slot (Thread 2 1) 1 (take_permit (Thread 2 1) (enter_with_slot (Thread 1 1) 0 (take_permit (Thread 1 1) (gate_init 2))))"


section \<open>The search for a slot\<close>

lemma try_slots_clock:
  assumes "\<And>i w. clock w \<le> clock (snd (locker i w))"
  shows "clock w \<le> (clock (snd (try_slots locker paths w)) :: rat)"
proof (induction paths arbitrary: w)
  case (Cons i ps)
  obtain a w1 where a: "locker i w = (a, w1)" by fastforce
  have "clock w \<le> clock w1" using assms [of w i] a by simp
  also have "clock w1 \<le> clock (snd (try_slots locker ps w1))" by (rule Cons.IH)
  finally show ?case using a \<open>clock w \<le> clock w1\<close> by (cases a) auto
qed simp

text \<open>What a finished search means: a descriptor was locked, an operation failed, or the deadline passed.\<close>

definition search_result :: "('w \<Rightarrow> rat) \<Rightarrow> 'w locker \<Rightarrow> nat list \<Rightarrow> rat \<Rightarrow> nat result \<Rightarrow> 'w \<Rightarrow> bool" where
  "search_result clock locker paths deadline r w \<longleftrightarrow>
     (case r of
        Inr fd \<Rightarrow> \<exists>i \<in> set paths. \<exists>u u'. locker i u = (Locked fd, u')
      | Inl e \<Rightarrow> (\<exists>i \<in> set paths. \<exists>u u'. locker i u = (FlockFails e, u')) \<or> (e = no_slot \<and> deadline \<le> clock w))"

lemma try_slots_result:
  "try_slots locker paths w = (r, w') \<Longrightarrow>
     (case r of
        Inl e \<Rightarrow> \<exists>i \<in> set paths. \<exists>u u'. locker i u = (FlockFails e, u')
      | Inr (Some fd) \<Rightarrow> \<exists>i \<in> set paths. \<exists>u u'. locker i u = (Locked fd, u')
      | Inr None \<Rightarrow> True)"
proof (induction paths arbitrary: w)
  case (Cons i ps)
  obtain a w1 where a: "locker i w = (a, w1)" by fastforce
  show ?case
  proof (cases a)
    case Busy
    with a Cons.prems have "try_slots locker ps w1 = (r, w')" by simp
    from Cons.IH [OF this] show ?thesis by (auto split: sum.splits option.splits)
  qed (use a Cons.prems in \<open>auto split: sum.splits option.splits\<close>)
qed auto

lemma slot_loop_step:
  assumes r: "try_slots locker paths w = (r, w1)"
    and go: "r = Inr None \<Longrightarrow> \<not> deadline \<le> clock w1 \<Longrightarrow>
      \<exists>r w'. slot_loop locker clock sleep paths (Some deadline) (sleep w1) = Some (r, w')
        \<and> search_result clock locker paths deadline r w'"
  shows "\<exists>r w'. slot_loop locker clock sleep paths (Some deadline) w = Some (r, w') \<and> search_result clock locker paths deadline r w'"
proof -
  note unfold = slot_loop.simps [of locker clock sleep paths "Some deadline" w]
  consider e where "r = Inl e" | fd where "r = Inr (Some fd)" | "r = Inr None" by (cases r) auto
  then show ?thesis
  proof cases
    case 1
    with try_slots_result [OF r] show ?thesis by (simp add: unfold r search_result_def)
  next
    case 2
    with try_slots_result [OF r] have "search_result clock locker paths deadline (Inr fd) w1" by (simp add: search_result_def)
    with 2 show ?thesis by (simp add: unfold r)
  next
    case 3
    show ?thesis
    proof (cases "deadline \<le> clock w1")
      case True
      then have "search_result clock locker paths deadline (Inl no_slot) w1" by (simp add: search_result_def)
      with 3 True show ?thesis by (simp add: unfold r)
    next
      case False
      with go [OF 3 False] 3 show ?thesis by (simp add: unfold r)
    qed
  qed
qed

lemma slot_loop_total:
  fixes clock :: "'w \<Rightarrow> rat"
  assumes wait: "\<And>w. clock w + POLL_INTERVAL_SECONDS \<le> clock (sleep w)"
    and mono: "\<And>i w. clock w \<le> clock (snd (locker i w))"
  shows "deadline - clock w < of_nat n * POLL_INTERVAL_SECONDS \<Longrightarrow>
     \<exists>r w'. slot_loop locker clock sleep paths (Some deadline) w = Some (r, w') \<and> search_result clock locker paths deadline r w'"
proof (induction n arbitrary: w)
  case 0
  obtain r w1 where r: "try_slots locker paths w = (r, w1)" by fastforce
  have "clock w \<le> clock w1" using try_slots_clock [of clock locker w paths, OF mono] r by simp
  with 0 have "deadline \<le> clock w1" by simp
  then show ?case using slot_loop_step [OF r] by blast
next
  case (Suc n)
  obtain r w1 where r: "try_slots locker paths w = (r, w1)" by fastforce
  have "clock w \<le> clock w1" using try_slots_clock [of clock locker w paths, OF mono] r by simp
  then have "deadline - clock (sleep w1) < of_nat n * POLL_INTERVAL_SECONDS"
    using wait [of w1] Suc.prems by (simp add: algebra_simps)
  then show ?case using slot_loop_step [OF r] Suc.IH by blast
qed


definition always_busy :: "nat locker" where
  "always_busy i w = (Busy, w)"


end
