(* ===== verification/Fetch_Watchdog.thy ===== *)
theory Fetch_Watchdog
  imports Scraping
begin

text \<open>
  The race between a fetch and its deadline in the browser tiers. One thread owns a browser from launch
  to close, the calling thread waits for it until the deadline; a claim under a lock decides which of
  the two settles the fetch (\<open>BrowserFetcher.fetch\<close>, \<open>CamoufoxFetcher.fetch\<close>). A module-level
  counter holds the threads that were given up and still run, and refuses new fetches at a ceiling.

  Each operation below is one block under a lock, or one read of a flag; the step relation lets the
  threads of any number of fetches take them in any order. What a thread computes and when it is given
  up is left open.
\<close>

section \<open>State\<close>

datatype tier = Browser | Camoufox

type_synonym fetch_outcome = "fetch_result result"

datatype main_pc =
    Admitted \<comment> \<open>passed the ceiling, the owner thread is not started yet\<close>
  | Waiting
  | Releasing \<comment> \<open>claimed the fetch, kills its processes\<close>
  | Counting \<comment> \<open>gives the owner thread up\<close>
  | Returned fetch_outcome
  | NoOutcome \<comment> \<open>\<open>holder["result"]\<close> raised KeyError\<close>

datatype run_pc =
    NotStarted
  | Running
  | Computed fetch_outcome \<comment> \<open>left the browser, nothing settled yet\<close>
  | Settling fetch_outcome \<comment> \<open>camoufox: already given back, before the claim\<close>
  | Stored \<comment> \<open>won the claim\<close>
  | Lost \<comment> \<open>lost the claim, cleans up\<close>
  | Exited

record fetch_state =
  f_tier :: tier
  f_main :: main_pc
  f_run :: run_pc
  f_claimed :: bool
  f_holder :: "fetch_outcome option"
  f_finished :: bool
  f_counted :: bool \<comment> \<open>\<open>liveness["counted"]\<close>, \<open>state["abandoned"]\<close>\<close>

record watch_state =
  fetches :: "nat \<Rightarrow> fetch_state option"
  abandoned :: "tier \<Rightarrow> int" \<comment> \<open>the \<open>_abandoned_fetch_thread_count\<close> of each module\<close>

definition new_fetch :: "tier \<Rightarrow> fetch_state" where
  "new_fetch tr =
     \<lparr> f_tier = tr, f_main = Admitted, f_run = NotStarted, f_claimed = False, f_holder = None,
       f_finished = False, f_counted = False \<rparr>"

definition watch_init :: watch_state where
  "watch_init = \<lparr> fetches = (\<lambda>_. None), abandoned = (\<lambda>_. 0) \<rparr>"

definition put :: "nat \<Rightarrow> fetch_state \<Rightarrow> watch_state \<Rightarrow> watch_state" where
  "put i f s = s\<lparr> fetches := (fetches s)(i \<mapsto> f) \<rparr>"

section \<open>Operations\<close>

text \<open>The ceiling is read once, before the gate; a refused fetch raises at once.\<close>

definition refused :: "int \<Rightarrow> tier \<Rightarrow> watch_state \<Rightarrow> bool" where
  "refused limit tr s \<longleftrightarrow> abandoned s tr \<ge> limit"

definition refusal :: "tier \<Rightarrow> exn" where
  "refusal tr =
     FetchError (case tr of Browser \<Rightarrow> ''browser tier refused'' | Camoufox \<Rightarrow> ''camoufox tier refused'')"

definition claim :: "fetch_state \<Rightarrow> bool \<times> fetch_state" where
  "claim f = (if f_claimed f then (False, f) else (True, f\<lparr> f_claimed := True \<rparr>))"

definition count_abandoned :: "nat \<Rightarrow> fetch_state \<Rightarrow> watch_state \<Rightarrow> watch_state" where
  "count_abandoned i f s =
     (if f_finished f then put i f s
      else put i (f\<lparr> f_counted := True \<rparr>) (s\<lparr> abandoned := (abandoned s)(f_tier f := abandoned s (f_tier f) + 1) \<rparr>))"

definition give_back :: "nat \<Rightarrow> fetch_state \<Rightarrow> watch_state \<Rightarrow> watch_state" where
  "give_back i f s =
     put i (f\<lparr> f_finished := True \<rparr>)
       (if f_counted f then s\<lparr> abandoned := (abandoned s)(f_tier f := abandoned s (f_tier f) - 1) \<rparr> else s)"

text \<open>The owner thread settles its outcome: the winner of the claim stores it, the loser cleans up.\<close>

definition settle :: "fetch_outcome \<Rightarrow> fetch_state \<Rightarrow> fetch_state" where
  "settle out f =
     (case claim f of
        (True, f') \<Rightarrow> f'\<lparr> f_holder := Some out, f_run := Stored \<rparr>
      | (False, f') \<Rightarrow> f'\<lparr> f_run := Lost \<rparr>)"

text \<open>\<open>_release_stuck_fetch\<close>: whether the owner thread is to be counted. Without psutil the kill is unconfirmed
  unless it reports success; otherwise it is counted when it is still alive after its grace.\<close>

definition counts_as_abandoned :: "bool \<Rightarrow> bool \<Rightarrow> bool \<Rightarrow> bool" where
  "counts_as_abandoned psutil kill_ok alive \<longleftrightarrow> (if \<not> psutil then \<not> kill_ok else alive)"

text \<open>After the join: the stored outcome, or the KeyError of an empty holder.\<close>

definition relay :: "fetch_state \<Rightarrow> main_pc" where
  "relay f = (case f_holder f of Some out \<Rightarrow> Returned out | None \<Rightarrow> NoOutcome)"

section \<open>Steps\<close>

inductive watch_step :: "int \<Rightarrow> watch_state \<Rightarrow> watch_state \<Rightarrow> bool" for limit where
  admit: "fetches s i = None \<Longrightarrow> \<not> refused limit tr s \<Longrightarrow> watch_step limit s (put i (new_fetch tr) s)"
| refuse: "fetches s i = None \<Longrightarrow> refused limit tr s \<Longrightarrow>
     watch_step limit s (put i ((new_fetch tr)\<lparr> f_main := Returned (Inl (refusal tr)) \<rparr>) s)"
| start: "fetches s i = Some f \<Longrightarrow> f_main f = Admitted \<Longrightarrow>
     watch_step limit s (put i (f\<lparr> f_main := Waiting, f_run := Running \<rparr>) s)"
| gate_timeout: "fetches s i = Some f \<Longrightarrow> f_main f = Admitted \<Longrightarrow>
     watch_step limit s (put i (f\<lparr> f_main := Returned (Inl e) \<rparr>) s)"
| compute: "fetches s i = Some f \<Longrightarrow> f_run f = Running \<Longrightarrow>
     watch_step limit s (put i (f\<lparr> f_run := Computed out \<rparr>) s)"
| browser_settle: "fetches s i = Some f \<Longrightarrow> f_tier f = Browser \<Longrightarrow> f_run f = Computed out \<Longrightarrow>
     watch_step limit s (put i (settle out f) s)"
| browser_exit: "fetches s i = Some f \<Longrightarrow> f_tier f = Browser \<Longrightarrow> f_run f \<in> {Stored, Lost} \<Longrightarrow>
     watch_step limit s (give_back i (f\<lparr> f_run := Exited \<rparr>) s)"
| camoufox_give_back: "fetches s i = Some f \<Longrightarrow> f_tier f = Camoufox \<Longrightarrow> f_run f = Computed out \<Longrightarrow>
     watch_step limit s (give_back i (f\<lparr> f_run := Settling out \<rparr>) s)"
| camoufox_settle: "fetches s i = Some f \<Longrightarrow> f_tier f = Camoufox \<Longrightarrow> f_run f = Settling out \<Longrightarrow>
     watch_step limit s (put i (settle out f) s)"
| camoufox_exit: "fetches s i = Some f \<Longrightarrow> f_tier f = Camoufox \<Longrightarrow> f_run f \<in> {Stored, Lost} \<Longrightarrow>
     watch_step limit s (put i (f\<lparr> f_run := Exited \<rparr>) s)"
| deadline: "fetches s i = Some f \<Longrightarrow> f_main f = Waiting \<Longrightarrow> claim f = (True, f') \<Longrightarrow>
     watch_step limit s (put i (f'\<lparr> f_main := Releasing \<rparr>) s)"
| browser_killed: "fetches s i = Some f \<Longrightarrow> f_tier f = Browser \<Longrightarrow> f_main f = Releasing \<Longrightarrow>
     watch_step limit s
       (put i (f\<lparr> f_main := (if counts_as_abandoned psutil kill_ok (f_run f \<noteq> Exited) then Counting else Returned (Inl e)) \<rparr>) s)"
| browser_count: "fetches s i = Some f \<Longrightarrow> f_main f = Counting \<Longrightarrow>
     watch_step limit s (count_abandoned i (f\<lparr> f_main := Returned (Inl e) \<rparr>) s)"
| camoufox_count: "fetches s i = Some f \<Longrightarrow> f_tier f = Camoufox \<Longrightarrow> f_main f = Releasing \<Longrightarrow>
     watch_step limit s (count_abandoned i (f\<lparr> f_main := Returned (Inl e) \<rparr>) s)"
| join: "fetches s i = Some f \<Longrightarrow> f_main f = Waiting \<Longrightarrow> f_run f = Exited \<Longrightarrow>
     watch_step limit s (put i (f\<lparr> f_main := relay f \<rparr>) s)"

definition watch_reachable :: "int \<Rightarrow> watch_state \<Rightarrow> bool" where
  "watch_reachable limit s \<longleftrightarrow> (watch_step limit)\<^sup>*\<^sup>* watch_init s"

section \<open>The invariant\<close>

text \<open>Whether the owner thread has not settled its outcome, whether it has been given back, and
  whether the caller has left the wait.\<close>

fun unsettled :: "run_pc \<Rightarrow> bool" where
  "unsettled NotStarted = True"
| "unsettled Running = True"
| "unsettled (Computed _) = True"
| "unsettled (Settling _) = True"
| "unsettled _ = False"

fun given_back :: "tier \<Rightarrow> run_pc \<Rightarrow> bool" where
  "given_back _ Exited = True"
| "given_back Camoufox Stored = True"
| "given_back Camoufox Lost = True"
| "given_back _ (Settling _) = True"
| "given_back _ _ = False"

text \<open>What the flags of a fetch say at each point of the caller.\<close>

fun flags_ok :: "main_pc \<Rightarrow> run_pc \<Rightarrow> bool \<Rightarrow> fetch_outcome option \<Rightarrow> bool \<Rightarrow> bool" where
  "flags_ok Admitted r claimed holder counted \<longleftrightarrow> r = NotStarted \<and> \<not> claimed \<and> holder = None \<and> \<not> counted"
| "flags_ok Waiting r claimed holder counted \<longleftrightarrow>
     \<not> counted \<and> (if unsettled r then r \<noteq> NotStarted \<and> \<not> claimed \<and> holder = None
                  else r \<noteq> Lost \<and> claimed \<and> holder \<noteq> None)"
| "flags_ok Releasing r claimed holder counted \<longleftrightarrow>
     claimed \<and> holder = None \<and> \<not> counted \<and> r \<noteq> NotStarted \<and> r \<noteq> Stored"
| "flags_ok Counting r claimed holder counted \<longleftrightarrow>
     claimed \<and> holder = None \<and> \<not> counted \<and> r \<noteq> NotStarted \<and> r \<noteq> Stored"
| "flags_ok (Returned out) r claimed holder counted \<longleftrightarrow>
     (if r = NotStarted then \<not> claimed \<and> holder = None \<and> \<not> counted
      else claimed \<and> (if unsettled r \<or> counted then holder = None else holder = None \<or> holder = Some out)
         \<and> (r = Stored \<longrightarrow> holder \<noteq> None))"
| "flags_ok NoOutcome r claimed holder counted \<longleftrightarrow> False"

definition fetch_ok :: "fetch_state \<Rightarrow> bool" where
  "fetch_ok f \<longleftrightarrow>
     f_finished f = given_back (f_tier f) (f_run f)
     \<and> flags_ok (f_main f) (f_run f) (f_claimed f) (f_holder f) (f_counted f)"

definition live_abandoned :: "watch_state \<Rightarrow> tier \<Rightarrow> nat set" where
  "live_abandoned s tr = {i. \<exists>f. fetches s i = Some f \<and> f_tier f = tr \<and> f_counted f \<and> \<not> f_finished f}"

definition watch_ok :: "watch_state \<Rightarrow> bool" where
  "watch_ok s \<longleftrightarrow>
     finite (dom (fetches s)) \<and> (\<forall>i f. fetches s i = Some f \<longrightarrow> fetch_ok f)
     \<and> (\<forall>tr. abandoned s tr = int (card (live_abandoned s tr)))"

lemmas watch_defs = put_def count_abandoned_def give_back_def settle_def claim_def relay_def new_fetch_def

lemma watch_ok_init: "watch_ok watch_init"
  by (simp add: watch_ok_def watch_init_def live_abandoned_def)

text \<open>Replacing a fetch by one with the same liveness keeps the invariant.\<close>

definition is_live_abandoned :: "fetch_state option \<Rightarrow> tier \<Rightarrow> bool" where
  "is_live_abandoned x tr \<longleftrightarrow> (\<exists>f. x = Some f \<and> f_tier f = tr \<and> f_counted f \<and> \<not> f_finished f)"

lemma live_abandoned_put:
  "live_abandoned (put i f s) tr =
     (if is_live_abandoned (Some f) tr then insert i (live_abandoned s tr) else live_abandoned s tr - {i})"
  by (auto simp: live_abandoned_def is_live_abandoned_def put_def)

lemma live_abandoned_more [simp]: "live_abandoned (s\<lparr> abandoned := a \<rparr>) tr = live_abandoned s tr"
  by (simp add: live_abandoned_def)

lemma in_live_abandoned: "i \<in> live_abandoned s tr \<longleftrightarrow> is_live_abandoned (fetches s i) tr"
  by (simp add: live_abandoned_def is_live_abandoned_def)

lemma finite_live_abandoned: "watch_ok s \<Longrightarrow> finite (live_abandoned s tr)"
  by (rule finite_subset [of _ "dom (fetches s)"]) (auto simp: live_abandoned_def watch_ok_def)

lemma watch_ok_put:
  assumes "watch_ok s" "fetch_ok f" and same: "\<And>tr. is_live_abandoned (Some f) tr = is_live_abandoned (fetches s i) tr"
  shows "watch_ok (put i f s)"
proof -
  have "live_abandoned (put i f s) tr = live_abandoned s tr" for tr
    using same [of tr] unfolding live_abandoned_put by (auto simp: in_live_abandoned)
  with assms(1,2) show ?thesis by (auto simp: watch_ok_def put_def split: if_splits)
qed

lemma watch_ok_count:
  assumes ok: "watch_ok s" and f: "fetch_ok f" "fetch_ok (f\<lparr> f_counted := True \<rparr>)" "\<not> f_counted f"
    and old: "\<And>tr. \<not> is_live_abandoned (fetches s i) tr"
  shows "watch_ok (count_abandoned i f s)"
proof (cases "f_finished f")
  case True
  then have "is_live_abandoned (Some f) tr = is_live_abandoned (fetches s i) tr" for tr
    using old by (simp add: is_live_abandoned_def)
  with watch_ok_put [OF ok f(1)] True show ?thesis by (simp add: count_abandoned_def)
next
  case False
  let ?g = "f\<lparr> f_counted := True \<rparr>" and ?t = "f_tier f"
  let ?s = "s\<lparr> abandoned := (abandoned s)(?t := abandoned s ?t + 1) \<rparr>"
  have l: "live_abandoned (put i ?g ?s) tr = (if tr = ?t then insert i (live_abandoned s tr) else live_abandoned s tr)" for tr
    using old [of tr] False unfolding live_abandoned_put by (auto simp: is_live_abandoned_def in_live_abandoned)
  have "i \<notin> live_abandoned s tr" for tr using old by (simp add: in_live_abandoned)
  then have "card (insert i (live_abandoned s tr)) = Suc (card (live_abandoned s tr))" for tr
    using finite_live_abandoned [OF ok] by simp
  then have "abandoned ?s tr = int (card (live_abandoned (put i ?g ?s) tr))" for tr
    using ok unfolding l by (auto simp: watch_ok_def)
  with ok f(2) False show ?thesis unfolding watch_ok_def count_abandoned_def by (auto simp: put_def split: if_splits)
qed

lemma watch_ok_give_back:
  assumes ok: "watch_ok s" and f: "fetch_ok (f\<lparr> f_finished := True \<rparr>)"
    and same: "\<And>tr. is_live_abandoned (fetches s i) tr \<longleftrightarrow> tr = f_tier f \<and> f_counted f"
  shows "watch_ok (give_back i f s)"
proof (cases "f_counted f")
  case False
  then have "is_live_abandoned (Some (f\<lparr> f_finished := True \<rparr>)) tr = is_live_abandoned (fetches s i) tr" for tr
    using same [of tr] by (simp add: is_live_abandoned_def)
  with watch_ok_put [OF ok f] False show ?thesis by (simp add: give_back_def)
next
  case True
  let ?g = "f\<lparr> f_finished := True \<rparr>" and ?t = "f_tier f"
  let ?s = "s\<lparr> abandoned := (abandoned s)(?t := abandoned s ?t - 1) \<rparr>"
  have l: "live_abandoned (put i ?g ?s) tr = live_abandoned s tr - {i}" for tr
    unfolding live_abandoned_put by (simp add: is_live_abandoned_def)
  have "i \<in> live_abandoned s ?t" using same True by (simp add: in_live_abandoned)
  from card_Suc_Diff1 [OF finite_live_abandoned [OF ok] this]
  have one: "int (card (live_abandoned s ?t - {i})) = int (card (live_abandoned s ?t)) - 1" by simp
  have other: "live_abandoned s tr - {i} = live_abandoned s tr" if "tr \<noteq> ?t" for tr
    using same [of tr] that by (auto simp: in_live_abandoned)
  have "abandoned ?s tr = int (card (live_abandoned (put i ?g ?s) tr))" for tr
    using ok one other [of tr] unfolding l by (auto simp: watch_ok_def)
  with ok f True show ?thesis unfolding watch_ok_def give_back_def by (auto simp: put_def split: if_splits)
qed

lemma watch_ok_fetch: "watch_ok s \<Longrightarrow> fetches s i = Some f \<Longrightarrow> fetch_ok f"
  by (simp add: watch_ok_def)

lemma live_iff [simp]:
  "is_live_abandoned (Some f) tr \<longleftrightarrow> tr = f_tier f \<and> f_counted f \<and> \<not> f_finished f"
  "\<not> is_live_abandoned None tr"
  by (auto simp: is_live_abandoned_def)

lemma fetch_ok_new:
  "fetch_ok (new_fetch tr)" "fetch_ok ((new_fetch tr)\<lparr> f_main := Returned out \<rparr>)"
  by (simp_all add: fetch_ok_def new_fetch_def)

lemma fetch_ok_main:
  "fetch_ok f \<Longrightarrow> f_main f = Admitted \<Longrightarrow> fetch_ok (f\<lparr> f_main := Waiting, f_run := Running \<rparr>)"
  "fetch_ok f \<Longrightarrow> f_main f = Admitted \<Longrightarrow> fetch_ok (f\<lparr> f_main := Returned out \<rparr>)"
  "fetch_ok f \<Longrightarrow> f_main f = Waiting \<Longrightarrow> claim f = (True, f') \<Longrightarrow> fetch_ok (f'\<lparr> f_main := Releasing \<rparr>)"
  "fetch_ok f \<Longrightarrow> f_main f = Waiting \<Longrightarrow> f_run f = Exited \<Longrightarrow> fetch_ok (f\<lparr> f_main := relay f \<rparr>)"
  by (auto simp: fetch_ok_def claim_def relay_def split: if_splits option.splits)

lemma fetch_ok_released:
  assumes "fetch_ok f" "f_main f = Releasing \<or> f_main f = Counting"
  shows "fetch_ok (f\<lparr> f_main := Returned (Inl e) \<rparr>)" "fetch_ok (f\<lparr> f_main := Counting \<rparr>)"
    "fetch_ok (f\<lparr> f_main := Returned (Inl e), f_counted := True \<rparr>)" "\<not> f_counted f"
  using assms by (auto simp: fetch_ok_def)

lemma fetch_ok_run:
  "fetch_ok f \<Longrightarrow> f_run f = Running \<Longrightarrow> fetch_ok (f\<lparr> f_run := Computed out \<rparr>)"
  "fetch_ok f \<Longrightarrow> f_run f = Computed out \<Longrightarrow> f_tier f = Browser \<Longrightarrow> fetch_ok (settle out f)"
  "fetch_ok f \<Longrightarrow> f_run f = Settling out \<Longrightarrow> f_tier f = Camoufox \<Longrightarrow> fetch_ok (settle out f)"
  "fetch_ok f \<Longrightarrow> f_run f = Computed out \<Longrightarrow> fetch_ok (f\<lparr> f_run := Settling out, f_finished := True \<rparr>)"
  "fetch_ok f \<Longrightarrow> f_run f = Stored \<or> f_run f = Lost \<Longrightarrow> fetch_ok (f\<lparr> f_run := Exited, f_finished := True \<rparr>)"
  by (cases "f_main f"; auto simp: fetch_ok_def settle_def claim_def split: if_splits)+

lemma settle_same [simp]:
  "f_tier (settle out f) = f_tier f" "f_counted (settle out f) = f_counted f" "f_finished (settle out f) = f_finished f"
  by (auto simp: settle_def claim_def)

lemma not_given_back: "fetch_ok f \<Longrightarrow> \<not> given_back (f_tier f) (f_run f) \<Longrightarrow> \<not> f_finished f"
  by (simp add: fetch_ok_def)

lemma watch_ok_step: "watch_step limit s s' \<Longrightarrow> watch_ok s \<Longrightarrow> watch_ok s'"
proof (induction rule: watch_step.induct)
  case (admit s i tr)
  show ?case by (rule watch_ok_put [OF admit(3) fetch_ok_new(1)]) (simp add: admit new_fetch_def)
next
  case (refuse s i tr)
  show ?case by (rule watch_ok_put [OF refuse(3) fetch_ok_new(2)]) (simp add: refuse new_fetch_def)
next
  case (start s i f)
  note f = watch_ok_fetch [OF start(3,1)]
  show ?case by (rule watch_ok_put [OF start(3) fetch_ok_main(1) [OF f start(2)]]) (simp add: start(1))
next
  case (gate_timeout s i f e)
  note f = watch_ok_fetch [OF gate_timeout(3,1)]
  show ?case by (rule watch_ok_put [OF gate_timeout(3) fetch_ok_main(2) [OF f gate_timeout(2)]]) (simp add: gate_timeout(1))
next
  case (compute s i f out)
  note f = watch_ok_fetch [OF compute(3,1)]
  show ?case by (rule watch_ok_put [OF compute(3) fetch_ok_run(1) [OF f compute(2)]]) (simp add: compute(1))
next
  case (browser_settle s i f out)
  note f = watch_ok_fetch [OF browser_settle(4,1)]
  show ?case
    by (rule watch_ok_put [OF browser_settle(4) fetch_ok_run(2) [OF f browser_settle(3,2)]]) (simp add: browser_settle(1))
next
  case (browser_exit s i f)
  note f = watch_ok_fetch [OF browser_exit(4,1)]
  have run: "f_run f = Stored \<or> f_run f = Lost" using browser_exit(3) by blast
  have "\<not> f_finished f" using not_given_back [OF f] run browser_exit(2) by auto
  then show ?case
    by (intro watch_ok_give_back [OF browser_exit(4)]) (use fetch_ok_run(5) [OF f run] browser_exit(1) in auto)
next
  case (camoufox_give_back s i f out)
  note f = watch_ok_fetch [OF camoufox_give_back(4,1)]
  have "\<not> f_finished f" using not_given_back [OF f] camoufox_give_back(3) by simp
  then show ?case
    by (intro watch_ok_give_back [OF camoufox_give_back(4)])
      (use fetch_ok_run(4) [OF f camoufox_give_back(3)] camoufox_give_back(1) in auto)
next
  case (camoufox_settle s i f out)
  note f = watch_ok_fetch [OF camoufox_settle(4,1)]
  show ?case
    by (rule watch_ok_put [OF camoufox_settle(4) fetch_ok_run(3) [OF f camoufox_settle(3,2)]]) (simp add: camoufox_settle(1))
next
  case (camoufox_exit s i f)
  note f = watch_ok_fetch [OF camoufox_exit(4,1)]
  have run: "f_run f = Stored \<or> f_run f = Lost" using camoufox_exit(3) by blast
  have "f_finished f" using f run camoufox_exit(2) by (auto simp: fetch_ok_def)
  then have "fetch_ok (f\<lparr> f_run := Exited \<rparr>)" using fetch_ok_run(5) [OF f run] by (simp add: fetch_ok_def)
  then show ?case by (rule watch_ok_put [OF camoufox_exit(4)]) (simp add: camoufox_exit(1))
next
  case (deadline s i f f')
  note f = watch_ok_fetch [OF deadline(4,1)]
  have "f' = f\<lparr> f_claimed := True \<rparr>" using deadline(3) by (auto simp: claim_def split: if_splits)
  then show ?case
    by (intro watch_ok_put [OF deadline(4) fetch_ok_main(3) [OF f deadline(2,3)]]) (simp add: deadline(1))
next
  case (browser_killed s i f psutil kill_ok e)
  note f = watch_ok_fetch [OF browser_killed(4,1)]
  have "f_main f = Releasing \<or> f_main f = Counting" using browser_killed(3) by blast
  from fetch_ok_released(1,2) [OF f this] show ?case
    by (intro watch_ok_put [OF browser_killed(4)]) (auto simp: browser_killed(1))
next
  case (browser_count s i f e)
  note f = watch_ok_fetch [OF browser_count(3,1)]
  have "f_main f = Releasing \<or> f_main f = Counting" using browser_count(2) by blast
  from fetch_ok_released [OF f this] show ?case
    by (intro watch_ok_count [OF browser_count(3)]) (auto simp: browser_count(1))
next
  case (camoufox_count s i f e)
  note f = watch_ok_fetch [OF camoufox_count(4,1)]
  have "f_main f = Releasing \<or> f_main f = Counting" using camoufox_count(3) by blast
  from fetch_ok_released [OF f this] show ?case
    by (intro watch_ok_count [OF camoufox_count(4)]) (auto simp: camoufox_count(1))
next
  case (join s i f)
  note f = watch_ok_fetch [OF join(4,1)]
  show ?case by (rule watch_ok_put [OF join(4) fetch_ok_main(4) [OF f join(2,3)]]) (simp add: join(1))
qed

lemma watch_reachable_ok: "watch_reachable limit s \<Longrightarrow> watch_ok s"
  unfolding watch_reachable_def
  by (induction rule: rtranclp_induct) (use watch_ok_init watch_ok_step in blast)+

text \<open>C35: Whatever the interleaving of the callers and the owner threads of any number of fetches: the
  counter of a tier is exactly the number of threads that were given up and have not been
  given back, so that it is never negative and falls to zero when the threads are gone; no
  caller reads an empty holder after the join; and a fetch is settled once, either the caller returns
  exactly the outcome its owner thread stored, or it raised by itself and nothing is ever stored.\<close>

theorem watchdog_invariant:
  assumes "watch_reachable limit s"
  shows "abandoned s tr = int (card (live_abandoned s tr))
     \<and> ((\<forall>i f. fetches s i = Some f \<longrightarrow> f_run f = Exited \<or> f_run f = NotStarted) \<longrightarrow> abandoned s tr = 0)
     \<and> (\<forall>i f. fetches s i = Some f \<longrightarrow> f_main f \<noteq> NoOutcome)
     \<and> (\<forall>i f out stored. fetches s i = Some f \<and> f_main f = Returned out \<and> f_holder f = Some stored \<longrightarrow> stored = out)
     \<and> (\<forall>i f out. fetches s i = Some f \<and> f_main f = Returned out \<and> f_counted f \<longrightarrow> f_holder f = None)"
proof -
  note ok = watch_reachable_ok [OF assms]
  have f: "fetch_ok f" if "fetches s i = Some f" for i f using ok that by (rule watch_ok_fetch)
  have "abandoned s tr = 0" if "\<forall>i f. fetches s i = Some f \<longrightarrow> f_run f = Exited \<or> f_run f = NotStarted"
  proof -
    have "live_abandoned s tr = {}"
    proof (rule ccontr)
      assume "live_abandoned s tr \<noteq> {}"
      then obtain i g where g: "fetches s i = Some g" "f_counted g" "\<not> f_finished g" by (auto simp: live_abandoned_def)
      with that have "f_run g = Exited \<or> f_run g = NotStarted" by blast
      with f [OF g(1)] g(2,3) show False by (cases "f_main g") (auto simp: fetch_ok_def)
    qed
    with ok show ?thesis by (simp add: watch_ok_def)
  qed
  moreover have "f_main g \<noteq> NoOutcome" if "fetches s i = Some g" for i g
    using f [OF that] by (auto simp: fetch_ok_def)
  moreover have "stored = out" if "fetches s i = Some g \<and> f_main g = Returned out \<and> f_holder g = Some stored" for i g out stored
    using f [of i g] that by (auto simp: fetch_ok_def split: if_splits)
  moreover have "f_holder g = None" if "fetches s i = Some g \<and> f_main g = Returned out \<and> f_counted g" for i g out
    using f [of i g] that by (auto simp: fetch_ok_def split: if_splits)
  ultimately show ?thesis using ok by (auto simp: watch_ok_def)
qed

definition given_up_fetch :: fetch_state where
  "given_up_fetch =
     \<lparr> f_tier = Camoufox, f_main = Returned (Inl TimeoutError), f_run = Running, f_claimed = True, f_holder = None,
       f_finished = False, f_counted = True \<rparr>"

definition given_up_state :: watch_state where
  "given_up_state = \<lparr> fetches = (\<lambda>_. None)(0 \<mapsto> given_up_fetch), abandoned = (\<lambda>_. 0)(Camoufox := 1) \<rparr>"

theorem watchdog_invariant_witness:
  "watch_reachable 5 given_up_state \<and> abandoned given_up_state Camoufox = int (card (live_abandoned given_up_state Camoufox))
   \<and> abandoned given_up_state Camoufox = 1"
proof -
  let ?a = "put 0 (new_fetch Camoufox) watch_init"
  let ?fb = "(new_fetch Camoufox)\<lparr> f_main := Waiting, f_run := Running \<rparr>"
  let ?fc = "?fb\<lparr> f_claimed := True, f_main := Releasing \<rparr>"
  have "watch_step 5 watch_init ?a" by (rule watch_step.admit) (simp_all add: watch_init_def refused_def)
  moreover have "watch_step 5 ?a (put 0 ?fb ?a)" by (rule watch_step.start) (simp_all add: put_def new_fetch_def)
  moreover have "watch_step 5 (put 0 ?fb ?a) (put 0 ?fc (put 0 ?fb ?a))"
    using watch_step.deadline [of "put 0 ?fb ?a" 0 ?fb "?fb\<lparr> f_claimed := True \<rparr>" 5]
    by (simp add: put_def new_fetch_def claim_def)
  moreover have "watch_step 5 (put 0 ?fc (put 0 ?fb ?a)) given_up_state"
    using watch_step.camoufox_count [of "put 0 ?fc (put 0 ?fb ?a)" 0 ?fc 5 TimeoutError]
    by (simp add: put_def new_fetch_def count_abandoned_def watch_init_def given_up_state_def given_up_fetch_def)
  ultimately have r: "watch_reachable 5 given_up_state"
    unfolding watch_reachable_def by (meson rtranclp.rtrancl_into_rtrancl rtranclp.rtrancl_refl)
  with watchdog_invariant [OF r, of Camoufox] show ?thesis by (simp add: given_up_state_def)
qed

section \<open>The launch and the navigation of the uc tier\<close>

text \<open>\<open>_launch_with_deadline\<close>: the thread that constructs the driver and the caller settle the launch by the
  same kind of claim; whoever loses cleans up. The loser waits for the sweep of the caller first.\<close>

datatype launch_main = LaunchWaiting | Sweeping | LaunchRaised exn | GotDriver nat | LaunchNoOutcome

datatype launch_thread =
    Constructing
  | Constructed "nat result"
  | HandedOver
  | CleaningUp "nat option" \<comment> \<open>the driver it built, if any\<close>
  | LaunchDone

record launch_state =
  l_main :: launch_main
  l_thread :: launch_thread
  l_claimed :: bool
  l_holder :: "nat result option"
  l_built :: "nat option" \<comment> \<open>the driver that exists\<close>
  l_quit :: "nat option" \<comment> \<open>the driver that was quit by the losing thread\<close>
  l_swept :: bool

definition launch_init :: launch_state where
  "launch_init =
     \<lparr> l_main = LaunchWaiting, l_thread = Constructing, l_claimed = False, l_holder = None, l_built = None,
       l_quit = None, l_swept = False \<rparr>"

definition launch_outcome :: "launch_state \<Rightarrow> launch_main" where
  "launch_outcome s =
     (case l_holder s of None \<Rightarrow> LaunchNoOutcome | Some (Inl e) \<Rightarrow> LaunchRaised e | Some (Inr d) \<Rightarrow> GotDriver d)"

inductive launch_step :: "launch_state \<Rightarrow> launch_state \<Rightarrow> bool" where
  construct: "l_thread s = Constructing \<Longrightarrow>
     launch_step s (s\<lparr> l_thread := Constructed r, l_built := (case r of Inr d \<Rightarrow> Some d | Inl _ \<Rightarrow> None) \<rparr>)"
| hand_over: "l_thread s = Constructed r \<Longrightarrow> \<not> l_claimed s \<Longrightarrow>
     launch_step s (s\<lparr> l_claimed := True, l_holder := Some r, l_thread := HandedOver \<rparr>)"
| lose: "l_thread s = Constructed r \<Longrightarrow> l_claimed s \<Longrightarrow>
     launch_step s (s\<lparr> l_quit := (case r of Inr d \<Rightarrow> Some d | Inl _ \<Rightarrow> None),
        l_thread := CleaningUp (case r of Inr d \<Rightarrow> Some d | Inl _ \<Rightarrow> None) \<rparr>)"
| thread_end: "l_thread s = HandedOver \<or> (\<exists>d. l_thread s = CleaningUp d) \<Longrightarrow> launch_step s (s\<lparr> l_thread := LaunchDone \<rparr>)"
| launch_deadline: "l_main s = LaunchWaiting \<Longrightarrow> \<not> l_claimed s \<Longrightarrow>
     launch_step s (s\<lparr> l_claimed := True, l_main := Sweeping \<rparr>)"
| swept: "l_main s = Sweeping \<Longrightarrow>
     launch_step s (s\<lparr> l_swept := True, l_main := LaunchRaised (FetchError ''uc launch exceeded its timeout'') \<rparr>)"
| launch_join: "l_main s = LaunchWaiting \<Longrightarrow> l_thread s = LaunchDone \<Longrightarrow>
     launch_step s (s\<lparr> l_swept := True, l_main := launch_outcome s \<rparr>)"

text \<open>\<open>_run_after_launch_with_deadline\<close>: the worker records its outcome, sets \<open>done\<close> and quits the driver. At
  the deadline the caller reads \<open>done\<close> first and cleans up after it.\<close>

datatype nav_main = NavWaiting | NavKilling bool \<comment> \<open>\<open>teardown_only\<close>\<close> | NavReturned fetch_outcome | NavNoOutcome

datatype nav_worker = Navigating | Recorded | Quitting | WorkerDone

record nav_state =
  n_main :: nav_main
  n_worker :: nav_worker
  n_holder :: "fetch_outcome option"
  n_done :: bool

definition nav_init :: nav_state where
  "nav_init = \<lparr> n_main = NavWaiting, n_worker = Navigating, n_holder = None, n_done = False \<rparr>"

definition nav_outcome :: "nav_state \<Rightarrow> nav_main" where
  "nav_outcome s = (case n_holder s of None \<Rightarrow> NavNoOutcome | Some out \<Rightarrow> NavReturned out)"

definition nav_timeout :: fetch_outcome where
  "nav_timeout = Inl (FetchError ''uc post-navigation exceeded its timeout'')"

inductive nav_step :: "nav_state \<Rightarrow> nav_state \<Rightarrow> bool" where
  record_outcome: "n_worker s = Navigating \<Longrightarrow> nav_step s (s\<lparr> n_holder := Some out, n_worker := Recorded \<rparr>)"
| set_done: "n_worker s = Recorded \<Longrightarrow> nav_step s (s\<lparr> n_done := True, n_worker := Quitting \<rparr>)"
| quit_driver: "n_worker s = Quitting \<Longrightarrow> nav_step s (s\<lparr> n_worker := WorkerDone \<rparr>)"
| nav_deadline: "n_main s = NavWaiting \<Longrightarrow> n_worker s \<noteq> WorkerDone \<Longrightarrow>
     nav_step s (s\<lparr> n_main := NavKilling (n_done s) \<rparr>)"
| nav_killed: "n_main s = NavKilling teardown_only \<Longrightarrow>
     nav_step s (s\<lparr> n_main := (if teardown_only then nav_outcome s else NavReturned nav_timeout) \<rparr>)"
| nav_join: "n_main s = NavWaiting \<Longrightarrow> n_worker s = WorkerDone \<Longrightarrow> nav_step s (s\<lparr> n_main := nav_outcome s \<rparr>)"

definition launch_ok :: "launch_state \<Rightarrow> bool" where
  "launch_ok s \<longleftrightarrow>
     (case l_thread s of
        Constructing \<Rightarrow> l_built s = None \<and> l_quit s = None \<and> l_holder s = None
      | Constructed r \<Rightarrow> l_built s = (case r of Inr d \<Rightarrow> Some d | Inl _ \<Rightarrow> None) \<and> l_quit s = None \<and> l_holder s = None
      | HandedOver \<Rightarrow> l_holder s \<noteq> None \<and> l_quit s = None
      | CleaningUp d \<Rightarrow> l_claimed s \<and> l_holder s = None \<and> l_quit s = l_built s
      | LaunchDone \<Rightarrow> l_holder s = None \<and> l_quit s = l_built s \<or> l_holder s \<noteq> None \<and> l_quit s = None)
     \<and> (\<forall>d. l_holder s = Some (Inr d) \<longrightarrow> l_built s = Some d)
     \<and> (\<forall>e. l_holder s = Some (Inl e) \<longrightarrow> l_built s = None)
     \<and> (l_main s = LaunchWaiting \<longrightarrow> l_claimed s = (l_holder s \<noteq> None))
     \<and> (l_main s = LaunchWaiting \<longrightarrow> (l_thread s = LaunchDone \<or> l_thread s = HandedOver) = (l_holder s \<noteq> None))
     \<and> (l_main s = Sweeping \<longrightarrow> l_claimed s \<and> l_holder s = None)
     \<and> (\<forall>d. l_main s = GotDriver d \<longrightarrow> l_holder s = Some (Inr d) \<and> l_thread s = LaunchDone)
     \<and> (\<forall>e. l_main s = LaunchRaised e \<longrightarrow> l_claimed s \<and> (l_holder s = None \<or> l_built s = None))
     \<and> l_main s \<noteq> LaunchNoOutcome"

lemma launch_ok_step: "launch_step s s' \<Longrightarrow> launch_ok s \<Longrightarrow> launch_ok s'"
proof (induction rule: launch_step.induct)
  case (construct s r)
  then show ?case by (cases r; cases "l_main s") (auto simp: launch_ok_def)
next
  case (hand_over s r)
  then show ?case by (cases r; cases "l_main s") (auto simp: launch_ok_def)
next
  case (lose s r)
  then show ?case by (cases r; cases "l_main s") (auto simp: launch_ok_def)
next
  case (thread_end s)
  then show ?case by (cases "l_main s") (auto simp: launch_ok_def)
next
  case (launch_deadline s)
  then show ?case by (cases "l_thread s") (auto simp: launch_ok_def)
next
  case (swept s)
  then show ?case by (cases "l_thread s") (auto simp: launch_ok_def)
next
  case (launch_join s)
  then show ?case by (auto simp: launch_ok_def launch_outcome_def split: option.splits sum.splits)
qed

definition nav_ok :: "nav_state \<Rightarrow> bool" where
  "nav_ok s \<longleftrightarrow>
     (n_worker s \<noteq> Navigating \<longleftrightarrow> n_holder s \<noteq> None) \<and> (n_done s \<longleftrightarrow> n_worker s = Quitting \<or> n_worker s = WorkerDone)
     \<and> (n_main s = NavKilling True \<longrightarrow> n_done s) \<and> n_main s \<noteq> NavNoOutcome
     \<and> (\<forall>out. n_main s = NavReturned out \<longrightarrow> out = nav_timeout \<or> n_holder s = Some out)"

lemma nav_ok_step: "nav_step s s' \<Longrightarrow> nav_ok s \<Longrightarrow> nav_ok s'"
  by (induction rule: nav_step.induct) (auto simp: nav_ok_def nav_outcome_def split: option.splits if_splits)

lemma launch_reachable_ok: "launch_step\<^sup>*\<^sup>* launch_init s \<Longrightarrow> launch_ok s"
  by (induction rule: rtranclp_induct) (use launch_ok_step in \<open>auto simp: launch_ok_def launch_init_def\<close>)

lemma nav_reachable_ok: "nav_step\<^sup>*\<^sup>* nav_init s \<Longrightarrow> nav_ok s"
  by (induction rule: rtranclp_induct) (use nav_ok_step in \<open>auto simp: nav_ok_def nav_init_def\<close>)

text \<open>The two races of the \<open>uc\<close> tier. In the launch neither side reads an empty holder, and once both are
  through every driver that was built is either the one the caller got, and then nobody quit it, or
  has been quit by the thread that built it. After the launch the caller returns what the worker
  recorded or the timeout error, and never reads an empty holder although the worker may still be
  in its \<open>quit\<close>.\<close>

theorem uc_races_settled:
  assumes "launch_step\<^sup>*\<^sup>* launch_init l" and "nav_step\<^sup>*\<^sup>* nav_init n"
  shows "l_main l \<noteq> LaunchNoOutcome
     \<and> (\<forall>d. l_main l = GotDriver d \<longrightarrow> l_built l = Some d \<and> l_quit l = None)
     \<and> (\<forall>e. l_main l = LaunchRaised e \<and> l_thread l = LaunchDone \<longrightarrow> l_quit l = l_built l)
     \<and> n_main n \<noteq> NavNoOutcome
     \<and> (\<forall>out. n_main n = NavReturned out \<longrightarrow> out = nav_timeout \<or> n_holder n = Some out)"
proof -
  note l = launch_reachable_ok [OF assms(1)]
  note n = nav_reachable_ok [OF assms(2)]
  have "l_built l = Some d \<and> l_quit l = None" if "l_main l = GotDriver d" for d
    using l that by (auto simp: launch_ok_def)
  moreover have "l_quit l = l_built l" if "l_main l = LaunchRaised e \<and> l_thread l = LaunchDone" for e
    using l that by (auto simp: launch_ok_def)
  moreover have "l_main l \<noteq> LaunchNoOutcome" using l unfolding launch_ok_def by blast
  moreover have "n_main n \<noteq> NavNoOutcome \<and> (\<forall>out. n_main n = NavReturned out \<longrightarrow> out = nav_timeout \<or> n_holder n = Some out)"
    using n unfolding nav_ok_def by blast
  ultimately show ?thesis by blast
qed

theorem uc_races_settled_witness:
  "\<exists>l n. launch_step\<^sup>*\<^sup>* launch_init l \<and> nav_step\<^sup>*\<^sup>* nav_init n \<and> l_thread l = CleaningUp (Some 7) \<and> l_main l \<noteq> LaunchNoOutcome
     \<and> n_main n = NavKilling False \<and> n_main n \<noteq> NavNoOutcome"
proof -
  let ?a = "launch_init\<lparr> l_claimed := True, l_main := Sweeping \<rparr>"
  let ?b = "?a\<lparr> l_thread := Constructed (Inr 7), l_built := Some 7 \<rparr>"
  let ?c = "?b\<lparr> l_quit := Some 7, l_thread := CleaningUp (Some 7) \<rparr>"
  have "launch_step launch_init ?a" by (rule launch_step.launch_deadline) (simp_all add: launch_init_def)
  moreover have "launch_step ?a ?b" using launch_step.construct [of ?a "Inr 7"] by (simp add: launch_init_def)
  moreover have "launch_step ?b ?c" using launch_step.lose [of ?b "Inr 7"] by simp
  ultimately have l: "launch_step\<^sup>*\<^sup>* launch_init ?c" by (meson rtranclp.rtrancl_into_rtrancl rtranclp.rtrancl_refl)
  let ?n = "nav_init\<lparr> n_main := NavKilling False \<rparr>"
  have "nav_step nav_init ?n" using nav_step.nav_deadline [of nav_init] by (simp add: nav_init_def)
  then have n: "nav_step\<^sup>*\<^sup>* nav_init ?n" by blast
  have t: "l_thread ?c = CleaningUp (Some 7)" "n_main ?n = NavKilling False" by simp_all
  from uc_races_settled [OF l n] l n t show ?thesis by blast
qed

end
