(* ===== verification/Tier_Budgets.thy ===== *)
theory Tier_Budgets
  imports Float64
begin

text \<open>
  The timing contract of the browser tiers (\<open>autolycos/tiers.py\<close>) on binary64 floats: the default budgets and
  the check that reports budgets that are out of order.
\<close>

section \<open>Comparing and adding floats\<close>

fun float_less :: "pyfloat \<Rightarrow> pyfloat \<Rightarrow> bool" where
  "float_less (Fin a) (Fin b) = (a < b)"
| "float_less (Fin _) (Infinity neg) = (\<not> neg)"
| "float_less (Infinity neg) (Fin _) = neg"
| "float_less (Infinity n1) (Infinity n2) = (n1 \<and> \<not> n2)"
| "float_less _ _ = False"

fun float_le :: "pyfloat \<Rightarrow> pyfloat \<Rightarrow> bool" where
  "float_le (Fin a) (Fin b) = (a \<le> b)"
| "float_le (Fin _) (Infinity neg) = (\<not> neg)"
| "float_le (Infinity neg) (Fin _) = neg"
| "float_le (Infinity n1) (Infinity n2) = (n1 \<or> \<not> n2)"
| "float_le _ _ = False"

fun float_neg :: "pyfloat \<Rightarrow> pyfloat" where
  "float_neg (Fin a) = Fin (- a)"
| "float_neg (Infinity neg) = Infinity (\<not> neg)"
| "float_neg NaN = NaN"

fun float_abs :: "pyfloat \<Rightarrow> pyfloat" where
  "float_abs (Fin a) = Fin \<bar>a\<bar>"
| "float_abs (Infinity _) = Infinity False"
| "float_abs NaN = NaN"

fun float_add :: "pyfloat \<Rightarrow> pyfloat \<Rightarrow> pyfloat" where
  "float_add (Fin a) (Fin b) = to_float (a + b)"
| "float_add (Fin _) (Infinity neg) = Infinity neg"
| "float_add (Infinity neg) (Fin _) = Infinity neg"
| "float_add (Infinity n1) (Infinity n2) = (if n1 = n2 then Infinity n1 else NaN)"
| "float_add _ _ = NaN"

definition float_sub :: "pyfloat \<Rightarrow> pyfloat \<Rightarrow> pyfloat" where
  "float_sub a b = float_add a (float_neg b)"

text \<open>\<open>count * seconds\<close> for a positive count, and \<open>x / 2.0\<close>.\<close>

fun float_times :: "nat \<Rightarrow> pyfloat \<Rightarrow> pyfloat" where
  "float_times n (Fin a) = to_float (of_nat n * a)"
| "float_times n x = x"

fun float_half :: "pyfloat \<Rightarrow> pyfloat" where
  "float_half (Fin a) = to_float (a / 2)"
| "float_half x = x"

text \<open>\<open>max(a, b)\<close>: the second argument only when it is greater.\<close>

definition py_max :: "pyfloat \<Rightarrow> pyfloat \<Rightarrow> pyfloat" where
  "py_max a b = (if float_less a b then b else a)"

text \<open>\<open>sum\<close> over floats from Python 3.12 on: with the compensation of Neumaier.\<close>

fun sum_loop :: "pyfloat \<Rightarrow> pyfloat \<Rightarrow> pyfloat list \<Rightarrow> pyfloat" where
  "sum_loop s c [] = (if c \<noteq> Fin 0 \<and> is_finite c then float_add s c else s)"
| "sum_loop s c (x # xs) =
     (let t = float_add s x;
          d = (if float_le (float_abs x) (float_abs s) then float_add (float_sub s t) x
               else float_add (float_sub x t) s)
      in sum_loop t (float_add c d) xs)"

fun float_sum :: "pyfloat list \<Rightarrow> pyfloat" where
  "float_sum [] = Fin 0"
| "float_sum (x # xs) = sum_loop x (Fin 0) xs"

section \<open>Budgets\<close>

record budget_term =
  bt_name :: string
  bt_seconds :: pyfloat
  bt_count :: nat

abbreviation term1 :: "string \<Rightarrow> pyfloat \<Rightarrow> budget_term" where
  "term1 name seconds \<equiv> \<lparr> bt_name = name, bt_seconds = seconds, bt_count = 1 \<rparr>"

datatype budget_warning =
    NavigationWarning (nw_fetch: pyfloat) (nw_floor: pyfloat) (nw_terms: "budget_term list")
  | GateWarning (gw_fetch: pyfloat) (gw_acquire: pyfloat) (gw_cleanup: pyfloat) (gw_held: pyfloat)
      (gw_terms: "budget_term list")

fun condition :: "budget_warning \<Rightarrow> string" where
  "condition (NavigationWarning _ _ _) = ''navigation''"
| "condition (GateWarning _ _ _ _ _) = ''gate''"

definition sum_terms :: "budget_term list \<Rightarrow> pyfloat" where
  "sum_terms ts = float_sum (map (\<lambda>t. float_times (bt_count t) (bt_seconds t)) ts)"

definition budget_check ::
  "pyfloat \<Rightarrow> pyfloat \<Rightarrow> budget_term list \<Rightarrow> budget_term list \<Rightarrow> budget_warning list" where
  "budget_check fetch acquire floor_terms cleanup_terms =
     (let floor_seconds = sum_terms floor_terms;
          cleanup_seconds = sum_terms cleanup_terms;
          held_seconds = float_add fetch cleanup_seconds
      in (if float_le fetch floor_seconds then [NavigationWarning fetch floor_seconds floor_terms] else [])
         @ (if float_le acquire held_seconds
            then [GateWarning fetch acquire cleanup_seconds held_seconds cleanup_terms] else []))"

record browser_budget =
  bb_launch_timeout_seconds :: pyfloat
  bb_nav_timeout_ms :: int
  bb_fetch_timeout_seconds :: pyfloat
  bb_max_abandoned_fetches :: int

definition browser_check :: "browser_budget \<Rightarrow> pyfloat \<Rightarrow> pyfloat \<Rightarrow> pyfloat \<Rightarrow> budget_warning list" where
  "browser_check b fetch launch acquire =
     budget_check fetch acquire
       [term1 ''launch_timeout_seconds'' launch,
        term1 ''nav_timeout_seconds'' (to_float (of_int (bb_nav_timeout_ms b) / 1000))] []"

record uc_budget =
  ub_launch_timeout_seconds :: pyfloat
  ub_orphan_sweep_delay_seconds :: pyfloat
  ub_fetch_timeout_seconds :: pyfloat
  ub_page_load_timeout_seconds :: pyfloat
  ub_reconnect_time :: pyfloat
  ub_render_wait :: pyfloat
  ub_post_nav_kill_passes :: nat
  ub_kill_wait_seconds :: pyfloat

definition uc_check :: "uc_budget \<Rightarrow> pyfloat \<Rightarrow> pyfloat \<Rightarrow> pyfloat \<Rightarrow> budget_warning list" where
  "uc_check b fetch orphan_sweep_delay acquire =
     budget_check fetch acquire
       [term1 ''page_load_timeout_seconds'' (ub_page_load_timeout_seconds b),
        term1 ''reconnect_time'' (ub_reconnect_time b), term1 ''render_wait'' (ub_render_wait b)]
       [\<lparr> bt_name = ''kill_wait_seconds'', bt_seconds = ub_kill_wait_seconds b, bt_count = ub_post_nav_kill_passes b \<rparr>,
        term1 ''orphan_sweep_delay_seconds'' orphan_sweep_delay]"

record camoufox_budget =
  cb_launch_timeout_seconds :: pyfloat
  cb_nav_timeout_seconds :: pyfloat
  cb_fetch_timeout_seconds :: pyfloat
  cb_max_abandoned_fetches :: int
  cb_kill_wait_seconds :: pyfloat
  cb_late_sweep_seconds :: pyfloat

definition camoufox_check :: "camoufox_budget \<Rightarrow> pyfloat \<Rightarrow> pyfloat \<Rightarrow> pyfloat \<Rightarrow> pyfloat \<Rightarrow> budget_warning list" where
  "camoufox_check b fetch launch nav acquire =
     budget_check fetch acquire
       [term1 ''launch_timeout_seconds'' launch, term1 ''nav_timeout_seconds'' nav]
       [\<lparr> bt_name = ''kill_wait_seconds'', bt_seconds = cb_kill_wait_seconds b, bt_count = 2 \<rparr>,
        term1 ''late_sweep_seconds'' (cb_late_sweep_seconds b)]"

definition BROWSER :: browser_budget where
  "BROWSER = \<lparr> bb_launch_timeout_seconds = Fin 20, bb_nav_timeout_ms = 30000, bb_fetch_timeout_seconds = Fin 90,
     bb_max_abandoned_fetches = 5 \<rparr>"

definition UC :: uc_budget where
  "UC = \<lparr> ub_launch_timeout_seconds = Fin 30, ub_orphan_sweep_delay_seconds = Fin 5, ub_fetch_timeout_seconds = Fin 90,
     ub_page_load_timeout_seconds = Fin 45, ub_reconnect_time = Fin 6, ub_render_wait = Fin 3,
     ub_post_nav_kill_passes = 3, ub_kill_wait_seconds = Fin 5 \<rparr>"

definition CAMOUFOX :: camoufox_budget where
  "CAMOUFOX = \<lparr> cb_launch_timeout_seconds = Fin 20, cb_nav_timeout_seconds = Fin 45, cb_fetch_timeout_seconds = Fin 90,
     cb_max_abandoned_fetches = 5, cb_kill_wait_seconds = Fin 5, cb_late_sweep_seconds = Fin 5 \<rparr>"

section \<open>What a check reports\<close>

lemma budget_check_conditions:
  "map condition (budget_check fetch acquire fl cl) =
     (if float_le fetch (sum_terms fl) then [''navigation''] else [])
     @ (if float_le acquire (float_add fetch (sum_terms cl)) then [''gate''] else [])"
  by (simp add: budget_check_def Let_def)

lemma budget_check_terms:
  "w \<in> set (budget_check fetch acquire fl cl) \<Longrightarrow>
     (\<exists>s. w = NavigationWarning fetch s fl) \<or> (\<exists>c h. w = GateWarning fetch acquire c h cl)"
  by (auto simp: budget_check_def Let_def split: if_splits)

text \<open>Integers below \<open>2 ^ 53\<close> are doubles: sums and multiples of whole seconds are exact.\<close>

lemma double_of_int:
  assumes "\<bar>i\<bar> < 2 ^ 53"
  shows "double (of_int i) = Some (of_int i)"
proof (cases "i = 0")
  case False
  define q where "q = (of_int \<bar>i\<bar> :: rat)"
  have "(of_int \<bar>i\<bar> :: rat) < of_int (2 ^ 53)" using assms by (simp only: of_int_less_iff)
  then have q: "1 \<le> q" "q < 2 powi 53" using False by (simp_all add: q_def power_int_def)
  then have pos: "0 < q" by linarith
  have "(2 :: rat) powi 0 < 2 powi (ilog2 q + 1)" using ilog2_bounds(2) [OF pos] q(1) by simp
  moreover have "(2 :: rat) powi ilog2 q < 2 powi 53" using ilog2_bounds(1) [OF pos] q(2) by linarith
  ultimately have il: "0 \<le> ilog2 q" "ilog2 q \<le> 52" by (simp_all only: powi_less_iff)
  have u: "ulp_exponent (of_int i) = ilog2 q - 52" using il by (simp add: ulp_exponent_def q_def)
  define k where "k = nat (52 - ilog2 q)"
  have k: "(2 :: rat) powi (ilog2 q - 52) = 1 / 2 ^ k"
  proof -
    have "ilog2 q - 52 = - int k" using il by (simp add: k_def)
    then show ?thesis by (simp only: power_int_minus power_int_of_nat inverse_eq_divide)
  qed
  have "(of_int i :: rat) / (1 / 2 ^ k) = of_int (i * 2 ^ k)" by simp
  then have "round_half_even (of_int i / (1 / 2 ^ k)) = i * 2 ^ k" by (simp only: round_half_even_of_int)
  then show ?thesis using False il by (simp add: double_def u k Let_def)
qed (simp add: double_def)

lemma to_float_of_int: "\<bar>i\<bar> < 2 ^ 53 \<Longrightarrow> to_float (of_int i) = Fin (of_int i)"
  by (simp only: to_float_def double_of_int option.case)

lemma to_float_numeral: "(numeral n :: int) < 9007199254740992 \<Longrightarrow> to_float (numeral n) = Fin (numeral n)"
  using to_float_of_int [of "numeral n"] by simp

lemma to_float_neg_numeral: "(numeral n :: int) < 9007199254740992 \<Longrightarrow> to_float (- numeral n) = Fin (- numeral n)"
  using to_float_of_int [of "- numeral n"] by simp

lemma to_float_zero: "to_float 0 = Fin 0"
  by (simp add: to_float_def double_def)

lemma to_float_one: "to_float 1 = Fin 1"
  using to_float_of_int [of 1] by simp

lemmas to_float_exact = to_float_numeral to_float_neg_numeral to_float_zero to_float_one

text \<open>The defaults of the three tiers are in order with the default gate timeout of 120 seconds.\<close>

lemma default_budgets_in_order:
  "browser_check BROWSER (Fin 90) (Fin 20) (Fin 120) = []"
  "uc_check UC (Fin 90) (Fin 5) (Fin 120) = []"
  "camoufox_check CAMOUFOX (Fin 90) (Fin 20) (Fin 45) (Fin 120) = []"
  by (simp_all add: browser_check_def uc_check_def camoufox_check_def budget_check_def sum_terms_def BROWSER_def UC_def
      CAMOUFOX_def float_sub_def to_float_exact Let_def)

end
