(* ===== verification/Settings.thy ===== *)
theory Settings
  imports Tier_Budgets
begin

text \<open>
  The runtime settings read from the environment (\<open>kerdoos/config.py\<close>). \<open>get_settings\<close> may run once per request;
  what it remembers between calls is the set of module flags of the warnings that fired. The environment is a
  partial map; a run threads the flags and the log, and raises as a value.
\<close>

section \<open>Runs that log and may raise\<close>

type_synonym environ = "string \<Rightarrow> string option"

datatype log_arg = Seconds pyfloat | Count nat

text \<open>What is logged; a warning that is latched carries its module flag.\<close>

datatype setting_log =
    NotANumber string string
  | FailedValidation string string
  | WorkersNotPlain string
  | WorkersNotPositive string
  | SweepClamped pyfloat pyfloat pyfloat pyfloat
  | Latched string "log_arg list"

record warn_state =
  latched :: "string list"
  logged :: "setting_log list"

type_synonym 'a conf = "warn_state \<Rightarrow> 'a result \<times> warn_state"

definition returnC :: "'a \<Rightarrow> 'a conf" where
  "returnC x s = (Inr x, s)"

definition raiseC :: "exn \<Rightarrow> 'a conf" where
  "raiseC e s = (Inl e, s)"

definition bindC :: "'a conf \<Rightarrow> ('a \<Rightarrow> 'b conf) \<Rightarrow> 'b conf" where
  "bindC m f s = (case m s of (Inl e, s1) \<Rightarrow> (Inl e, s1) | (Inr x, s1) \<Rightarrow> f x s1)"

definition warn :: "setting_log \<Rightarrow> unit conf" where
  "warn l s = (Inr (), s\<lparr> logged := logged s @ [l] \<rparr>)"

definition latch :: "string \<Rightarrow> unit conf" where
  "latch l s = (Inr (), s\<lparr> latched := l # latched s \<rparr>)"

section \<open>Numbers\<close>

text \<open>\<open>int\<close> and \<open>float\<close> raise nothing but ValueError on text; \<open>None\<close> stands for it.\<close>

definition cast_int :: "string \<Rightarrow> int option" where
  "cast_int raw =
     (case drop_underscores False (py_strip raw) of
        None \<Rightarrow> None
      | Some t \<Rightarrow> (case py_int t of Inr v \<Rightarrow> Some v | Inl _ \<Rightarrow> None))"

definition cast_float :: "string \<Rightarrow> pyfloat option" where
  "cast_float raw = (case py_float raw of Inr v \<Rightarrow> Some v | Inl _ \<Rightarrow> None)"

definition env_number :: "environ \<Rightarrow> string \<Rightarrow> 'a \<Rightarrow> (string \<Rightarrow> 'a option) \<Rightarrow> ('a \<Rightarrow> bool) \<Rightarrow> 'a conf" where
  "env_number env name def cast is_valid =
     (case env name of
        None \<Rightarrow> returnC def
      | Some raw \<Rightarrow>
          (case cast raw of
             None \<Rightarrow> bindC (warn (NotANumber name raw)) (\<lambda>_. returnC def)
           | Some v \<Rightarrow>
               if \<not> is_valid v then bindC (warn (FailedValidation name raw)) (\<lambda>_. returnC def)
               else returnC v))"

definition positive :: "pyfloat \<Rightarrow> bool" where
  "positive v \<longleftrightarrow> float_less (Fin 0) v"

definition DEFAULT_WORKERS :: int where
  "DEFAULT_WORKERS = 1"

definition safe_workers :: "string \<Rightarrow> int conf" where
  "safe_workers raw =
     (if raw = [] \<or> \<not> list_all is_ascii_digit raw
      then bindC (warn (WorkersNotPlain raw)) (\<lambda>_. returnC DEFAULT_WORKERS)
      else (case py_int raw of
              Inl e \<Rightarrow> raiseC e
            | Inr v \<Rightarrow>
                if v \<le> 0 then bindC (warn (WorkersNotPositive raw)) (\<lambda>_. returnC DEFAULT_WORKERS)
                else returnC v))"

definition TENTH :: pyfloat where
  "TENTH = to_float (1 / 10)"

definition safe_uc_orphan_sweep_delay :: "pyfloat \<Rightarrow> pyfloat \<Rightarrow> pyfloat \<Rightarrow> pyfloat conf" where
  "safe_uc_orphan_sweep_delay sweep_delay uc_launch_timeout acquire_timeout =
     (if float_less (float_add uc_launch_timeout sweep_delay) acquire_timeout then returnC sweep_delay
      else (let clamped = py_max TENTH (float_half (float_sub acquire_timeout uc_launch_timeout))
            in if float_le acquire_timeout uc_launch_timeout then returnC clamped
               else bindC (warn (SweepClamped sweep_delay uc_launch_timeout acquire_timeout clamped))
                      (\<lambda>_. returnC clamped)))"

section \<open>Budget warnings\<close>

text \<open>\<open>terms[name]\<close> of the dictionary over the terms: the last one of that name, or KeyError.\<close>

definition budget_term_of :: "budget_term list \<Rightarrow> string \<Rightarrow> budget_term result" where
  "budget_term_of ts name =
     (case find (\<lambda>t. bt_name t = name) (rev ts) of Some t \<Rightarrow> Inr t | None \<Rightarrow> Inl (KeyError name))"

definition seconds_of :: "budget_term list \<Rightarrow> string \<Rightarrow> log_arg result" where
  "seconds_of ts name = bindE (budget_term_of ts name) (\<lambda>t. Inr (Seconds (bt_seconds t)))"

fun browser_budget_message :: "budget_warning \<Rightarrow> log_arg list result" where
  "browser_budget_message (NavigationWarning fetch least ts) =
     bindE (seconds_of ts ''launch_timeout_seconds'') (\<lambda>launch.
     bindE (seconds_of ts ''nav_timeout_seconds'') (\<lambda>nav.
       Inr [Seconds fetch, launch, nav, Seconds least]))"
| "browser_budget_message (GateWarning fetch acquire cleanup held ts) = Inr [Seconds fetch, Seconds acquire]"

fun uc_budget_message :: "budget_warning \<Rightarrow> log_arg list result" where
  "uc_budget_message (NavigationWarning fetch least ts) =
     bindE (seconds_of ts ''page_load_timeout_seconds'') (\<lambda>page_load.
     bindE (seconds_of ts ''reconnect_time'') (\<lambda>reconnect.
     bindE (seconds_of ts ''render_wait'') (\<lambda>render.
       Inr [Seconds fetch, page_load, reconnect, render, Seconds least])))"
| "uc_budget_message (GateWarning fetch acquire cleanup held ts) =
     bindE (budget_term_of ts ''kill_wait_seconds'') (\<lambda>kill_wait.
     bindE (seconds_of ts ''orphan_sweep_delay_seconds'') (\<lambda>sweep.
       Inr [Seconds fetch, Seconds cleanup, Count (bt_count kill_wait), Seconds (bt_seconds kill_wait), sweep,
            Seconds held, Seconds acquire]))"

fun camoufox_budget_message :: "budget_warning \<Rightarrow> log_arg list result" where
  "camoufox_budget_message (NavigationWarning fetch least ts) =
     bindE (seconds_of ts ''launch_timeout_seconds'') (\<lambda>launch.
     bindE (seconds_of ts ''nav_timeout_seconds'') (\<lambda>nav.
       Inr [Seconds fetch, launch, nav, Seconds least]))"
| "camoufox_budget_message (GateWarning fetch acquire cleanup held ts) =
     bindE (seconds_of ts ''kill_wait_seconds'') (\<lambda>kill_wait.
     bindE (seconds_of ts ''late_sweep_seconds'') (\<lambda>sweep.
       Inr [Seconds fetch, Seconds cleanup, kill_wait, sweep, Seconds held, Seconds acquire]))"

definition UC_LAUNCH_FLAG :: string where
  "UC_LAUNCH_FLAG = ''_uc_launch_timeout_at_or_above_acquire_warned''"

definition warn_if_uc_launch_timeout_at_or_above_acquire_timeout :: "pyfloat \<Rightarrow> pyfloat \<Rightarrow> unit conf" where
  "warn_if_uc_launch_timeout_at_or_above_acquire_timeout launch acquire s =
     (if float_le acquire launch \<and> UC_LAUNCH_FLAG \<notin> set (latched s)
      then bindC (warn (Latched UC_LAUNCH_FLAG [Seconds launch, Seconds acquire])) (\<lambda>_. latch UC_LAUNCH_FLAG) s
      else (Inr (), s))"

text \<open>\<open>latches\<close> maps a condition to the module flag that remembers it; a condition it lacks is a KeyError.\<close>

fun warn_once_per_condition ::
  "budget_warning list \<Rightarrow> (string \<Rightarrow> string option) \<Rightarrow> (budget_warning \<Rightarrow> log_arg list result) \<Rightarrow> unit conf" where
  "warn_once_per_condition [] latches message s = (Inr (), s)"
| "warn_once_per_condition (w # ws) latches message s =
     (case latches (condition w) of
        None \<Rightarrow> (Inl (KeyError (condition w)), s)
      | Some flag \<Rightarrow>
          if flag \<in> set (latched s) then warn_once_per_condition ws latches message s
          else (case message w of
                  Inl e \<Rightarrow> (Inl e, s)
                | Inr args \<Rightarrow>
                    bindC (warn (Latched flag args)) (\<lambda>_. bindC (latch flag)
                      (\<lambda>_. warn_once_per_condition ws latches message)) s))"

definition BROWSER_LATCHES :: "string \<Rightarrow> string option" where
  "BROWSER_LATCHES = [''navigation'' \<mapsto> ''_browser_fetch_timeout_below_launch_warned'',
     ''gate'' \<mapsto> ''_browser_fetch_timeout_above_acquire_warned'']"

definition UC_LATCHES :: "string \<Rightarrow> string option" where
  "UC_LATCHES = [''navigation'' \<mapsto> ''_uc_fetch_timeout_below_navigation_warned'',
     ''gate'' \<mapsto> ''_uc_fetch_timeout_above_acquire_warned'']"

definition CAMOUFOX_LATCHES :: "string \<Rightarrow> string option" where
  "CAMOUFOX_LATCHES = [''navigation'' \<mapsto> ''_camoufox_fetch_timeout_below_navigation_warned'',
     ''gate'' \<mapsto> ''_camoufox_fetch_timeout_above_acquire_warned'']"

section \<open>Settings\<close>

record settings =
  set_session_secret :: "string option"
  set_config_db :: string
  set_state_db :: string
  set_cookie_secure :: bool
  set_workers :: int
  set_digest_evaluator_enabled :: bool
  set_smtp_host :: "string option"
  set_smtp_port :: int
  set_smtp_from :: "string option"
  set_smtp_username :: "string option"
  set_smtp_password :: "string option"
  set_smtp_use_tls :: bool
  set_smtp_timeout_seconds :: pyfloat
  set_smtp_retry_attempts :: int
  set_smtp_retry_backoff_seconds :: pyfloat
  set_digest_reaper_timeout_seconds :: int
  set_browser_max_concurrent :: int
  set_browser_acquire_timeout_seconds :: pyfloat
  set_run_queue_max_restarts :: int
  set_run_queue_backlog_warn_threshold :: int
  set_run_now_cooldown_seconds :: pyfloat
  set_uc_launch_timeout_seconds :: pyfloat
  set_browser_launch_timeout_seconds :: pyfloat
  set_login_rate_limit_window_seconds :: pyfloat
  set_login_rate_limit_max_attempts :: int
  set_login_rate_limit_row_cap :: int
  set_uc_orphan_sweep_delay_seconds :: pyfloat
  set_browser_fetch_timeout_seconds :: pyfloat
  set_browser_max_abandoned_fetches :: int
  set_uc_fetch_timeout_seconds :: pyfloat
  set_camoufox_launch_timeout_seconds :: pyfloat
  set_camoufox_nav_timeout_seconds :: pyfloat
  set_camoufox_fetch_timeout_seconds :: pyfloat
  set_camoufox_max_abandoned_fetches :: int
  set_mcp_enabled :: bool
  set_public_url :: "string option"
  set_mcp_allowed_hosts :: "string list"
  set_mcp_max_sessions :: int
  set_mcp_session_idle_timeout_seconds :: pyfloat

definition MIN_SESSION_SECRET_LENGTH :: nat where
  "MIN_SESSION_SECRET_LENGTH = 32"

definition MAX_SMTP_RETRY_ATTEMPTS :: int where
  "MAX_SMTP_RETRY_ATTEMPTS = 5"

definition MIN_SMTP_RETRY_BACKOFF_SECONDS :: pyfloat where
  "MIN_SMTP_RETRY_BACKOFF_SECONDS = Fin 1"

definition require_session_secret :: "settings \<Rightarrow> string result" where
  "require_session_secret cfg =
     (case set_session_secret cfg of
        None \<Rightarrow> Inl (RuntimeError ''KERDOOS_SESSION_SECRET is not set'')
      | Some secret \<Rightarrow>
          if secret = [] then Inl (RuntimeError ''KERDOOS_SESSION_SECRET is not set'')
          else if length secret < MIN_SESSION_SECRET_LENGTH
          then Inl (RuntimeError ''KERDOOS_SESSION_SECRET is too short'')
          else Inr secret)"

text \<open>\<open>os.environ.get(name, default)\<close>, and \<open>os.environ.get(name) or None\<close>.\<close>

definition environ_get :: "environ \<Rightarrow> string \<Rightarrow> string \<Rightarrow> string" where
  "environ_get env name def = (case env name of Some v \<Rightarrow> v | None \<Rightarrow> def)"

definition environ_or_none :: "environ \<Rightarrow> string \<Rightarrow> string option" where
  "environ_or_none env name = (case env name of Some v \<Rightarrow> if v = [] then None else Some v | None \<Rightarrow> None)"

definition env_hosts :: "string \<Rightarrow> string list" where
  "env_hosts raw = filter (\<lambda>h. h \<noteq> []) (map py_strip (split_on (CHR '','') raw))"

definition get_settings :: "environ \<Rightarrow> settings conf" where
  "get_settings env =
     bindC (env_number env ''KERDOOS_UC_LAUNCH_TIMEOUT_SECONDS'' (ub_launch_timeout_seconds UC) cast_float positive) (\<lambda>uc_launch_timeout_seconds.
     bindC (env_number env ''KERDOOS_BROWSER_LAUNCH_TIMEOUT_SECONDS'' (bb_launch_timeout_seconds BROWSER) cast_float positive) (\<lambda>browser_launch_timeout_seconds.
     bindC (env_number env ''KERDOOS_BROWSER_ACQUIRE_TIMEOUT_SECONDS'' (Fin 120) cast_float positive) (\<lambda>browser_acquire_timeout_seconds.
     bindC (warn_if_uc_launch_timeout_at_or_above_acquire_timeout uc_launch_timeout_seconds browser_acquire_timeout_seconds) (\<lambda>_.
     bindC (env_number env ''KERDOOS_BROWSER_FETCH_TIMEOUT_SECONDS'' (bb_fetch_timeout_seconds BROWSER) cast_float positive) (\<lambda>browser_fetch_timeout_seconds.
     bindC (env_number env ''KERDOOS_BROWSER_MAX_ABANDONED_FETCHES'' (bb_max_abandoned_fetches BROWSER) cast_int (\<lambda>v. 0 < v)) (\<lambda>browser_max_abandoned_fetches.
     bindC (warn_once_per_condition
       (browser_check BROWSER browser_fetch_timeout_seconds browser_launch_timeout_seconds browser_acquire_timeout_seconds)
       BROWSER_LATCHES browser_budget_message) (\<lambda>_.
     bindC (env_number env ''KERDOOS_UC_ORPHAN_SWEEP_DELAY_SECONDS'' (ub_orphan_sweep_delay_seconds UC) cast_float positive) (\<lambda>sweep_delay.
     bindC (safe_uc_orphan_sweep_delay sweep_delay uc_launch_timeout_seconds browser_acquire_timeout_seconds) (\<lambda>uc_orphan_sweep_delay_seconds.
     bindC (env_number env ''KERDOOS_UC_FETCH_TIMEOUT_SECONDS'' (ub_fetch_timeout_seconds UC) cast_float positive) (\<lambda>uc_fetch_timeout_seconds.
     bindC (warn_once_per_condition
       (uc_check UC uc_fetch_timeout_seconds uc_orphan_sweep_delay_seconds browser_acquire_timeout_seconds)
       UC_LATCHES uc_budget_message) (\<lambda>_.
     bindC (env_number env ''KERDOOS_CAMOUFOX_LAUNCH_TIMEOUT_SECONDS'' (cb_launch_timeout_seconds CAMOUFOX) cast_float positive) (\<lambda>camoufox_launch_timeout_seconds.
     bindC (env_number env ''KERDOOS_CAMOUFOX_NAV_TIMEOUT_SECONDS'' (cb_nav_timeout_seconds CAMOUFOX) cast_float positive) (\<lambda>camoufox_nav_timeout_seconds.
     bindC (env_number env ''KERDOOS_CAMOUFOX_FETCH_TIMEOUT_SECONDS'' (cb_fetch_timeout_seconds CAMOUFOX) cast_float positive) (\<lambda>camoufox_fetch_timeout_seconds.
     bindC (warn_once_per_condition
       (camoufox_check CAMOUFOX camoufox_fetch_timeout_seconds camoufox_launch_timeout_seconds camoufox_nav_timeout_seconds
          browser_acquire_timeout_seconds)
       CAMOUFOX_LATCHES camoufox_budget_message) (\<lambda>_.
     bindC (safe_workers (environ_get env ''KERDOOS_WORKERS'' ''1'')) (\<lambda>workers.
     bindC (env_number env ''KERDOOS_SMTP_PORT'' 587 cast_int (\<lambda>v. 0 < v \<and> v \<le> 65535)) (\<lambda>smtp_port.
     bindC (env_number env ''KERDOOS_SMTP_TIMEOUT_SECONDS'' (Fin 30) cast_float (\<lambda>v. True)) (\<lambda>smtp_timeout_seconds.
     bindC (env_number env ''KERDOOS_SMTP_RETRY_ATTEMPTS'' 2 cast_int (\<lambda>v. 0 \<le> v \<and> v \<le> MAX_SMTP_RETRY_ATTEMPTS)) (\<lambda>smtp_retry_attempts.
     bindC (env_number env ''KERDOOS_SMTP_RETRY_BACKOFF_SECONDS'' (Fin 2) cast_float (\<lambda>v. float_le MIN_SMTP_RETRY_BACKOFF_SECONDS v)) (\<lambda>smtp_retry_backoff_seconds.
     bindC (env_number env ''KERDOOS_DIGEST_REAPER_TIMEOUT_SECONDS'' 300 cast_int (\<lambda>v. 0 < v)) (\<lambda>digest_reaper_timeout_seconds.
     bindC (env_number env ''KERDOOS_BROWSER_MAX_CONCURRENT'' 1 cast_int (\<lambda>v. 0 < v)) (\<lambda>browser_max_concurrent.
     bindC (env_number env ''KERDOOS_RUN_QUEUE_MAX_RESTARTS'' 5 cast_int (\<lambda>v. 0 \<le> v)) (\<lambda>run_queue_max_restarts.
     bindC (env_number env ''KERDOOS_RUN_QUEUE_BACKLOG_WARN_THRESHOLD'' 5 cast_int (\<lambda>v. 0 \<le> v)) (\<lambda>run_queue_backlog_warn_threshold.
     bindC (env_number env ''KERDOOS_RUN_NOW_COOLDOWN_SECONDS'' (Fin 300) cast_float (\<lambda>v. float_le (Fin 0) v)) (\<lambda>run_now_cooldown_seconds.
     bindC (env_number env ''KERDOOS_LOGIN_RATE_LIMIT_WINDOW_SECONDS'' (Fin 900) cast_float positive) (\<lambda>login_rate_limit_window_seconds.
     bindC (env_number env ''KERDOOS_LOGIN_RATE_LIMIT_MAX_ATTEMPTS'' 5 cast_int (\<lambda>v. 0 \<le> v)) (\<lambda>login_rate_limit_max_attempts.
     bindC (env_number env ''KERDOOS_LOGIN_RATE_LIMIT_ROW_CAP'' 100000 cast_int (\<lambda>v. 0 < v)) (\<lambda>login_rate_limit_row_cap.
     bindC (env_number env ''KERDOOS_CAMOUFOX_MAX_ABANDONED_FETCHES'' (cb_max_abandoned_fetches CAMOUFOX) cast_int (\<lambda>v. 0 < v)) (\<lambda>camoufox_max_abandoned_fetches.
     bindC (env_number env ''KERDOOS_MCP_MAX_SESSIONS'' 32 cast_int (\<lambda>v. 0 < v)) (\<lambda>mcp_max_sessions.
     bindC (env_number env ''KERDOOS_MCP_SESSION_IDLE_TIMEOUT_SECONDS'' (Fin 300) cast_float (\<lambda>v. positive v \<and> float_less v (Infinity False))) (\<lambda>mcp_session_idle_timeout_seconds.
     returnC \<lparr>
       set_session_secret = env ''KERDOOS_SESSION_SECRET'',
       set_config_db = environ_get env ''KERDOOS_CONFIG_DB'' ''config.db'',
       set_state_db = environ_get env ''KERDOOS_STATE_DB'' ''state.db'',
       set_cookie_secure = (py_lower (environ_get env ''KERDOOS_COOKIE_SECURE'' ''true'') \<noteq> ''false''),
       set_workers = workers,
       set_digest_evaluator_enabled = (py_lower (environ_get env ''KERDOOS_DIGEST_EVALUATOR_ENABLED'' ''false'') = ''true''),
       set_smtp_host = environ_or_none env ''KERDOOS_SMTP_HOST'',
       set_smtp_port = smtp_port,
       set_smtp_from = environ_or_none env ''KERDOOS_SMTP_FROM'',
       set_smtp_username = environ_or_none env ''KERDOOS_SMTP_USERNAME'',
       set_smtp_password = environ_or_none env ''KERDOOS_SMTP_PASSWORD'',
       set_smtp_use_tls = (py_lower (environ_get env ''KERDOOS_SMTP_USE_TLS'' ''true'') \<noteq> ''false''),
       set_smtp_timeout_seconds = smtp_timeout_seconds,
       set_smtp_retry_attempts = smtp_retry_attempts,
       set_smtp_retry_backoff_seconds = smtp_retry_backoff_seconds,
       set_digest_reaper_timeout_seconds = digest_reaper_timeout_seconds,
       set_browser_max_concurrent = browser_max_concurrent,
       set_browser_acquire_timeout_seconds = browser_acquire_timeout_seconds,
       set_run_queue_max_restarts = run_queue_max_restarts,
       set_run_queue_backlog_warn_threshold = run_queue_backlog_warn_threshold,
       set_run_now_cooldown_seconds = run_now_cooldown_seconds,
       set_uc_launch_timeout_seconds = uc_launch_timeout_seconds,
       set_browser_launch_timeout_seconds = browser_launch_timeout_seconds,
       set_login_rate_limit_window_seconds = login_rate_limit_window_seconds,
       set_login_rate_limit_max_attempts = login_rate_limit_max_attempts,
       set_login_rate_limit_row_cap = login_rate_limit_row_cap,
       set_uc_orphan_sweep_delay_seconds = uc_orphan_sweep_delay_seconds,
       set_browser_fetch_timeout_seconds = browser_fetch_timeout_seconds,
       set_browser_max_abandoned_fetches = browser_max_abandoned_fetches,
       set_uc_fetch_timeout_seconds = uc_fetch_timeout_seconds,
       set_camoufox_launch_timeout_seconds = camoufox_launch_timeout_seconds,
       set_camoufox_nav_timeout_seconds = camoufox_nav_timeout_seconds,
       set_camoufox_fetch_timeout_seconds = camoufox_fetch_timeout_seconds,
       set_camoufox_max_abandoned_fetches = camoufox_max_abandoned_fetches,
       set_mcp_enabled = (py_lower (environ_get env ''KERDOOS_MCP_ENABLED'' ''false'') = ''true''),
       set_public_url = environ_or_none env ''KERDOOS_PUBLIC_URL'',
       set_mcp_allowed_hosts = env_hosts (environ_get env ''KERDOOS_MCP_ALLOWED_HOSTS'' []),
       set_mcp_max_sessions = mcp_max_sessions,
       set_mcp_session_idle_timeout_seconds = mcp_session_idle_timeout_seconds \<rparr>)))))))))))))))))))))))))))))))"

section \<open>Reasoning about runs\<close>

text \<open>Each latched warning is in the log at most once, and its flag is set.\<close>

fun flag_of :: "setting_log \<Rightarrow> string option" where
  "flag_of (Latched flag _) = Some flag"
| "flag_of _ = None"

definition flags_logged :: "warn_state \<Rightarrow> string list" where
  "flags_logged s = List.map_filter flag_of (logged s)"

definition latch_ok :: "warn_state \<Rightarrow> bool" where
  "latch_ok s \<longleftrightarrow> distinct (flags_logged s) \<and> set (flags_logged s) \<subseteq> set (latched s)"

text \<open>A run from a state in order: it ends in one, with a value that satisfies \<open>P\<close> or an exception that
  satisfies \<open>E\<close>.\<close>

definition runs :: "'a conf \<Rightarrow> ('a \<Rightarrow> bool) \<Rightarrow> (exn \<Rightarrow> bool) \<Rightarrow> bool" where
  "runs m P E \<longleftrightarrow>
     (\<forall>s. latch_ok s \<longrightarrow> latch_ok (snd (m s)) \<and> (case fst (m s) of Inr x \<Rightarrow> P x | Inl e \<Rightarrow> E e))"

lemma runs_return: "P x \<Longrightarrow> runs (returnC x) P E"
  by (simp add: runs_def returnC_def)

lemma runs_raise: "E e \<Longrightarrow> runs (raiseC e) P E"
  by (simp add: runs_def raiseC_def)

lemma runs_bind:
  assumes "runs m P E" and "\<And>x. P x \<Longrightarrow> runs (f x) Q E"
  shows "runs (bindC m f) Q E"
  unfolding runs_def
proof (intro allI impI)
  fix s assume "latch_ok s"
  then have m: "latch_ok (snd (m s))" "case fst (m s) of Inr x \<Rightarrow> P x | Inl e \<Rightarrow> E e"
    using assms(1) by (auto simp: runs_def)
  show "latch_ok (snd (bindC m f s)) \<and> (case fst (bindC m f s) of Inr x \<Rightarrow> Q x | Inl e \<Rightarrow> E e)"
    using m assms(2) by (cases "m s"; cases "fst (m s)") (auto simp: bindC_def runs_def)
qed

lemma runs_seq: "runs m (\<lambda>_. True) E \<Longrightarrow> runs k Q E \<Longrightarrow> runs (bindC m (\<lambda>_. k)) Q E"
  by (rule runs_bind)

lemma runs_warn: "flag_of l = None \<Longrightarrow> runs (warn l) (\<lambda>_. True) E"
  by (simp add: runs_def warn_def latch_ok_def flags_logged_def map_filter_simps List.map_filter_def)

lemma latch_ok_fire:
  "latch_ok s \<Longrightarrow> flag \<notin> set (latched s) \<Longrightarrow>
     latch_ok (s\<lparr> logged := logged s @ [Latched flag args], latched := flag # latched s \<rparr>)"
  by (auto simp: latch_ok_def flags_logged_def List.map_filter_def)

lemma runs_warn_return: "flag_of l = None \<Longrightarrow> P x \<Longrightarrow> runs (bindC (warn l) (\<lambda>_. returnC x)) P E"
  by (rule runs_seq [OF runs_warn runs_return])

lemma runs_env_number: "is_valid def \<Longrightarrow> runs (env_number env name def cast is_valid) is_valid E"
  unfolding env_number_def by (auto intro: runs_return runs_warn_return split: option.splits)

lemma runs_uc_launch_warning: "runs (warn_if_uc_launch_timeout_at_or_above_acquire_timeout a b) (\<lambda>_. True) E"
  unfolding runs_def warn_if_uc_launch_timeout_at_or_above_acquire_timeout_def
  by (auto simp: bindC_def warn_def latch_def latch_ok_fire)

lemma runs_warn_once:
  assumes "\<forall>w \<in> set ws. latches (condition w) \<noteq> None \<and> \<not> isl (message w)"
  shows "runs (warn_once_per_condition ws latches message) (\<lambda>_. True) E"
  unfolding runs_def using assms
proof (induction ws)
  case (Cons w ws)
  then have IH: "latch_ok s \<Longrightarrow> latch_ok (snd (warn_once_per_condition ws latches message s))
     \<and> (case fst (warn_once_per_condition ws latches message s) of Inr x \<Rightarrow> True | Inl e \<Rightarrow> E e)" for s by simp
  obtain flag args where "latches (condition w) = Some flag" "message w = Inr args"
    using Cons.prems by (auto simp: isl_def) (metis sum.exhaust)
  then show ?case by (simp add: bindC_def warn_def latch_def IH latch_ok_fire)
qed simp

text \<open>The terms a message looks up are among those of its own tier.\<close>

lemmas message_simps = bindE_simps seconds_of_def budget_term_of_def

lemma runs_browser_warnings:
  "runs (warn_once_per_condition (browser_check b f l a) BROWSER_LATCHES browser_budget_message) (\<lambda>_. True) E"
proof (rule runs_warn_once, intro ballI conjI)
  fix w assume w: "w \<in> set (browser_check b f l a)"
  show "BROWSER_LATCHES (condition w) \<noteq> None" by (cases w) (simp_all add: BROWSER_LATCHES_def)
  show "\<not> isl (browser_budget_message w)"
    using budget_check_terms [OF w [unfolded browser_check_def]] by (auto simp: message_simps)
qed

lemma runs_uc_warnings:
  "runs (warn_once_per_condition (uc_check b f l a) UC_LATCHES uc_budget_message) (\<lambda>_. True) E"
proof (rule runs_warn_once, intro ballI conjI)
  fix w assume w: "w \<in> set (uc_check b f l a)"
  show "UC_LATCHES (condition w) \<noteq> None" by (cases w) (simp_all add: UC_LATCHES_def)
  show "\<not> isl (uc_budget_message w)"
    using budget_check_terms [OF w [unfolded uc_check_def]] by (auto simp: message_simps)
qed

lemma runs_camoufox_warnings:
  "runs (warn_once_per_condition (camoufox_check b f l n a) CAMOUFOX_LATCHES camoufox_budget_message) (\<lambda>_. True) E"
proof (rule runs_warn_once, intro ballI conjI)
  fix w assume w: "w \<in> set (camoufox_check b f l n a)"
  show "CAMOUFOX_LATCHES (condition w) \<noteq> None" by (cases w) (simp_all add: CAMOUFOX_LATCHES_def)
  show "\<not> isl (camoufox_budget_message w)"
    using budget_check_terms [OF w [unfolded camoufox_check_def]] by (auto simp: message_simps)
qed

definition workers_too_long :: "string \<Rightarrow> bool" where
  "workers_too_long raw \<longleftrightarrow> 4300 < length raw \<and> list_all is_ascii_digit raw"

lemma runs_safe_workers:
  "runs (safe_workers raw) (\<lambda>v. 1 \<le> v) (\<lambda>e. is_value_error e \<and> workers_too_long raw)"
proof (cases "raw = [] \<or> \<not> list_all is_ascii_digit raw")
  case True
  then show ?thesis by (auto simp: safe_workers_def DEFAULT_WORKERS_def intro: runs_warn_return)
next
  case False
  then show ?thesis
    by (auto simp: safe_workers_def py_int_digits DEFAULT_WORKERS_def workers_too_long_def
        intro: runs_warn_return runs_return runs_raise)
qed

text \<open>What the sweep delay is after the clamp.\<close>

definition sweep_fits :: "pyfloat \<Rightarrow> pyfloat \<Rightarrow> pyfloat \<Rightarrow> bool" where
  "sweep_fits delay launch acquire \<longleftrightarrow>
     positive delay
     \<and> (float_less (float_add launch delay) acquire
        \<or> delay = py_max TENTH (float_half (float_sub acquire launch)))"

lemma tenth_positive: "positive TENTH"
  by code_simp

lemma float_less_trans: "float_less a b \<Longrightarrow> float_less b c \<Longrightarrow> float_less a c"
  by (cases a; cases b; cases c) auto

lemma py_max_positive: "positive a \<Longrightarrow> positive (py_max a b)"
  by (auto simp: py_max_def positive_def intro: float_less_trans)

lemma runs_sweep_delay:
  "positive delay \<Longrightarrow> runs (safe_uc_orphan_sweep_delay delay launch acquire) (\<lambda>d. sweep_fits d launch acquire) E"
  unfolding safe_uc_orphan_sweep_delay_def Let_def
  by (auto simp: sweep_fits_def intro!: runs_return runs_warn_return py_max_positive tenth_positive)

definition settings_ok :: "settings \<Rightarrow> bool" where
  "settings_ok c \<longleftrightarrow>
     1 \<le> set_workers c \<and> 1 \<le> set_smtp_port c \<and> set_smtp_port c \<le> 65535
     \<and> 0 \<le> set_smtp_retry_attempts c \<and> set_smtp_retry_attempts c \<le> MAX_SMTP_RETRY_ATTEMPTS
     \<and> float_le MIN_SMTP_RETRY_BACKOFF_SECONDS (set_smtp_retry_backoff_seconds c)
     \<and> 1 \<le> set_digest_reaper_timeout_seconds c \<and> 1 \<le> set_browser_max_concurrent c
     \<and> 0 \<le> set_run_queue_max_restarts c \<and> 0 \<le> set_run_queue_backlog_warn_threshold c
     \<and> float_le (Fin 0) (set_run_now_cooldown_seconds c)
     \<and> positive (set_browser_acquire_timeout_seconds c) \<and> positive (set_uc_launch_timeout_seconds c)
     \<and> positive (set_browser_launch_timeout_seconds c) \<and> positive (set_browser_fetch_timeout_seconds c)
     \<and> positive (set_uc_fetch_timeout_seconds c) \<and> positive (set_camoufox_launch_timeout_seconds c)
     \<and> positive (set_camoufox_nav_timeout_seconds c) \<and> positive (set_camoufox_fetch_timeout_seconds c)
     \<and> sweep_fits (set_uc_orphan_sweep_delay_seconds c) (set_uc_launch_timeout_seconds c) (set_browser_acquire_timeout_seconds c)
     \<and> 1 \<le> set_browser_max_abandoned_fetches c \<and> 1 \<le> set_camoufox_max_abandoned_fetches c
     \<and> positive (set_login_rate_limit_window_seconds c) \<and> 0 \<le> set_login_rate_limit_max_attempts c
     \<and> 1 \<le> set_login_rate_limit_row_cap c \<and> 1 \<le> set_mcp_max_sessions c
     \<and> positive (set_mcp_session_idle_timeout_seconds c) \<and> is_finite (set_mcp_session_idle_timeout_seconds c)
     \<and> set_smtp_host c \<noteq> Some [] \<and> set_public_url c \<noteq> Some [] \<and> [] \<notin> set (set_mcp_allowed_hosts c)"

lemma finite_below_infinity: "positive v \<Longrightarrow> float_less v (Infinity False) \<Longrightarrow> is_finite v"
  by (cases v) (auto simp: positive_def)

lemma default_budgets_positive:
  "positive (ub_launch_timeout_seconds UC)" "positive (bb_launch_timeout_seconds BROWSER)"
  "positive (bb_fetch_timeout_seconds BROWSER)" "0 < bb_max_abandoned_fetches BROWSER"
  "positive (ub_orphan_sweep_delay_seconds UC)" "positive (ub_fetch_timeout_seconds UC)"
  "positive (cb_launch_timeout_seconds CAMOUFOX)" "positive (cb_nav_timeout_seconds CAMOUFOX)"
  "positive (cb_fetch_timeout_seconds CAMOUFOX)" "0 < cb_max_abandoned_fetches CAMOUFOX" "positive (Fin 120)"
  "positive (Fin 300)" "positive (Fin 900)"
  by (simp_all add: UC_def BROWSER_def CAMOUFOX_def positive_def)

lemma environ_or_none_nonempty: "environ_or_none env name \<noteq> Some []"
  by (simp add: environ_or_none_def split: option.split)

lemma env_hosts_nonempty: "[] \<notin> set (env_hosts raw)"
  by (simp add: env_hosts_def)

lemmas settings_values = default_budgets_positive MAX_SMTP_RETRY_ATTEMPTS_def MIN_SMTP_RETRY_BACKOFF_SECONDS_def

lemmas runs_steps = runs_env_number runs_uc_launch_warning runs_browser_warnings runs_uc_warnings
  runs_camoufox_warnings runs_safe_workers runs_sweep_delay

lemma runs_get_settings:
  "runs (get_settings env) settings_ok
     (\<lambda>e. is_value_error e \<and> workers_too_long (environ_get env ''KERDOOS_WORKERS'' ''1''))"
  unfolding get_settings_def
  apply (rule runs_bind, rule runs_steps, (simp add: settings_values; fail)?)+
  apply (rule runs_return)
  apply (simp add: settings_ok_def finite_below_infinity environ_or_none_nonempty env_hosts_nonempty)
  done

text \<open>C38: Every environment gives settings in range. \<open>get_settings\<close> falls back to a default for each number that is
  malformed or out of range, so the settings it returns are in the range every component relies on: at least one worker, one
  browser and one row, a port of 16 bits, at most five mail retries a second apart, positive timeouts, an orphan sweep that
  leaves room in the gate's timeout or is clamped, a finite session timeout, and no empty host. The one exception that
  escapes is the ValueError of a \<open>KERDOOS_WORKERS\<close> of more than 4300 digits. Whatever the outcome, each
  latched warning has been logged at most once.\<close>

theorem settings_in_range:
  assumes "latch_ok s"
  shows "latch_ok (snd (get_settings env s))
     \<and> (case fst (get_settings env s) of
          Inr cfg \<Rightarrow> settings_ok cfg
        | Inl e \<Rightarrow> is_value_error e \<and> workers_too_long (environ_get env ''KERDOOS_WORKERS'' ''1''))"
  using runs_get_settings [of env] assms by (simp add: runs_def)

definition fresh :: warn_state where
  "fresh = \<lparr> latched = [], logged = [] \<rparr>"

lemma latch_ok_fresh: "latch_ok fresh"
  by (simp add: latch_ok_def flags_logged_def fresh_def List.map_filter_def)

lemma get_settings_ok: "latch_ok s \<Longrightarrow> fst (get_settings env s) = Inr cfg \<Longrightarrow> settings_ok cfg"
  using runs_get_settings [of env] by (auto simp: runs_def split: sum.splits)

lemma unset_settings_ok: "\<exists>cfg. fst (get_settings (\<lambda>_. None) fresh) = Inr cfg \<and> settings_ok cfg"
proof -
  have short: "\<not> workers_too_long (environ_get (\<lambda>_. None) ''KERDOOS_WORKERS'' ''1'')"
    by (simp add: workers_too_long_def environ_get_def)
  have "case fst (get_settings (\<lambda>_. None) fresh) of
      Inr cfg \<Rightarrow> settings_ok cfg
    | Inl e \<Rightarrow> is_value_error e \<and> workers_too_long (environ_get (\<lambda>_. None) ''KERDOOS_WORKERS'' ''1'')"
    using runs_get_settings [of "\<lambda>_. None"] latch_ok_fresh unfolding runs_def by blast
  with short show ?thesis by (cases "fst (get_settings (\<lambda>_. None) fresh)") auto
qed

theorem settings_in_range_witness:
  "latch_ok fresh \<and> (\<exists>cfg. fst (get_settings (\<lambda>_. None) fresh) = Inr cfg \<and> settings_ok cfg)"
proof -
  have "\<not> workers_too_long (environ_get (\<lambda>_. None) ''KERDOOS_WORKERS'' ''1'')"
    by (simp add: workers_too_long_def environ_get_def)
  with settings_in_range [OF latch_ok_fresh, of "\<lambda>_. None"] show ?thesis
    by (auto simp: latch_ok_fresh split: sum.splits)
qed

section \<open>A process\<close>

text \<open>However often the settings are read, under whatever environments, a latched warning is logged once.\<close>

definition settings_calls :: "environ list \<Rightarrow> warn_state \<Rightarrow> warn_state" where
  "settings_calls envs s = fold (\<lambda>env s. snd (get_settings env s)) envs s"

lemma settings_calls_latch_ok: "latch_ok s \<Longrightarrow> latch_ok (settings_calls envs s)"
  unfolding settings_calls_def
  by (induction envs arbitrary: s) (use runs_get_settings in \<open>auto simp: runs_def\<close>)

lemma settings_warn_once: "distinct (flags_logged (settings_calls envs fresh))"
  using settings_calls_latch_ok [OF latch_ok_fresh] by (simp add: latch_ok_def)

text \<open>An unset environment is silent: every budget is in order by default.\<close>

lemma unset_number: "env name = None \<Longrightarrow> env_number env name def cast is_valid = returnC def"
  by (simp add: env_number_def)

lemma bind_return: "bindC (returnC x) f = f x"
  by (rule ext) (simp add: bindC_def returnC_def)

lemma default_settings_silent: "snd (get_settings (\<lambda>_. None) s) = s"
proof -
  have budgets: "browser_check BROWSER (bb_fetch_timeout_seconds BROWSER) (bb_launch_timeout_seconds BROWSER) (Fin 120) = []"
    "uc_check UC (ub_fetch_timeout_seconds UC) (ub_orphan_sweep_delay_seconds UC) (Fin 120) = []"
    "camoufox_check CAMOUFOX (cb_fetch_timeout_seconds CAMOUFOX) (cb_launch_timeout_seconds CAMOUFOX)
       (cb_nav_timeout_seconds CAMOUFOX) (Fin 120) = []"
    using default_budgets_in_order by (simp_all add: BROWSER_def UC_def CAMOUFOX_def)
  have none: "warn_once_per_condition [] l m = returnC ()" for l m by (rule ext) (simp add: returnC_def)
  have launch: "warn_if_uc_launch_timeout_at_or_above_acquire_timeout (ub_launch_timeout_seconds UC) (Fin 120) = returnC ()"
    by (rule ext) (simp add: warn_if_uc_launch_timeout_at_or_above_acquire_timeout_def returnC_def UC_def)
  have sweep: "safe_uc_orphan_sweep_delay (ub_orphan_sweep_delay_seconds UC) (ub_launch_timeout_seconds UC) (Fin 120)
      = returnC (ub_orphan_sweep_delay_seconds UC)"
    by (simp add: safe_uc_orphan_sweep_delay_def UC_def to_float_exact)
  have one: "safe_workers (environ_get (\<lambda>_. None) ''KERDOOS_WORKERS'' ''1'') = returnC 1"
    by (simp add: safe_workers_def environ_get_def py_int_digits is_ascii_digit_def code_def digits_value_def)
  show ?thesis
    unfolding get_settings_def by (simp add: unset_number bind_return budgets none launch sweep one) (simp add: returnC_def)
qed

section \<open>What passes the checks\<close>

text \<open>An infinite timeout is positive, so it is accepted although no thread can wait that long; only the session timeout
  excludes it. The grammar of \<open>KERDOOS_WORKERS\<close> does not bound the number of digits \<open>int\<close> is given.\<close>

lemma infinite_timeout_accepted:
  "env name = Some ''inf'' \<Longrightarrow> env_number env name def cast_float positive s = (Inr (Infinity False), s)"
proof -
  have "py_float ''inf'' = Inr (Infinity False)" by code_simp
  then show "env name = Some ''inf'' \<Longrightarrow> ?thesis"
    by (simp add: env_number_def cast_float_def positive_def returnC_def)
qed

lemma long_workers_raise:
  "safe_workers (replicate 4301 (CHR ''1'')) s = (Inl (ValueError ''invalid literal for int() with base 10''), s)"
  by (simp add: safe_workers_def py_int_digits list_all_iff raiseC_def is_ascii_digit_def code_def)

text \<open>A session secret is only accepted with at least 32 characters.\<close>

lemma session_secret_long_enough:
  "require_session_secret cfg = Inr secret \<longleftrightarrow> set_session_secret cfg = Some secret \<and> 32 \<le> length secret"
  by (auto simp: require_session_secret_def MIN_SESSION_SECRET_LENGTH_def split: option.splits)

end
