(* ===== verification/Router.thy ===== *)
theory Router
  imports Settings Camoufox_Install Browser_Gate App_Service
begin

text \<open>
  The static router (\<open>autolycos/router.py\<close>), which turns the tier a site names into a fetcher and caches the
  instances, its construction from the settings (\<open>interfaces/routing.py\<close>) and the boot diagnostic
  (\<open>interfaces/boot_checks.py\<close>). A fetcher is the tuple of its constructor's arguments; the domain policy is a
  type parameter, since the router only passes it on.
\<close>

section \<open>Fetchers\<close>

datatype kwarg = KFloat pyfloat | KInt int | KStr string

type_synonym kwargs = "(string \<times> kwarg) list"

record gate_config =
  gt_max_concurrent :: int
  gt_lock_dir :: "string option"
  gt_acquire_timeout_seconds :: "pyfloat option"

datatype 'p tier_fetcher =
    HttpFetcher (policy_of: 'p)
  | TlsFetcher (policy_of: 'p)
  | BrowserFetcher (policy_of: 'p) (domains_of: "string list") (gate_of: gate_config)
      kwarg \<comment> \<open>\<open>launch_timeout_seconds\<close>\<close> kwarg \<comment> \<open>\<open>fetch_timeout_seconds\<close>\<close> kwarg \<comment> \<open>\<open>max_abandoned_fetches\<close>\<close>
  | UcFetcher (policy_of: 'p) (domains_of: "string list") (gate_of: gate_config)
      kwarg \<comment> \<open>\<open>launch_timeout_seconds\<close>\<close> kwarg \<comment> \<open>\<open>orphan_sweep_delay_seconds\<close>\<close> kwarg \<comment> \<open>\<open>fetch_timeout_seconds\<close>\<close>
  | CamoufoxFetcher (policy_of: 'p) (domains_of: "string list") (gate_of: gate_config)
      kwarg \<comment> \<open>\<open>launch_timeout_seconds\<close>\<close> kwarg \<comment> \<open>\<open>nav_timeout_seconds\<close>\<close> kwarg \<comment> \<open>\<open>fetch_timeout_seconds\<close>\<close>
      kwarg \<comment> \<open>\<open>max_abandoned_fetches\<close>\<close> kwarg \<comment> \<open>\<open>executable_path\<close>\<close> kwarg \<comment> \<open>\<open>expected_version\<close>\<close>
      kwarg \<comment> \<open>\<open>late_sweep_seconds\<close>\<close>

text \<open>Calling with keyword arguments: an argument that is not declared raises TypeError, one that is not given has
  its default.\<close>

definition unexpected :: "string list \<Rightarrow> kwargs \<Rightarrow> bool" where
  "unexpected declared kw \<longleftrightarrow> list_ex (\<lambda>(k, _). k \<notin> set declared) kw"

definition type_error :: exn where
  "type_error = OtherError ''TypeError'' ''got an unexpected keyword argument''"

definition arg :: "kwargs \<Rightarrow> string \<Rightarrow> kwarg \<Rightarrow> kwarg" where
  "arg kw name def = (case map_of kw name of Some v \<Rightarrow> v | None \<Rightarrow> def)"

definition CAMOUFOX_EXECUTABLE_PATH :: string where
  "CAMOUFOX_EXECUTABLE_PATH = ''/opt/camoufox/camoufox-bin''"

definition CAMOUFOX_BROWSER_VERSION :: string where
  "CAMOUFOX_BROWSER_VERSION = ''152.0.4-beta.30''"

type_synonym 'p factory = "'p \<Rightarrow> string list \<Rightarrow> gate_config \<Rightarrow> kwargs \<Rightarrow> 'p tier_fetcher result"

definition make_http :: "'p factory" where
  "make_http policy subs gate kw = (if unexpected [] kw then Inl type_error else Inr (HttpFetcher policy))"

definition make_tls :: "'p factory" where
  "make_tls policy subs gate kw = (if unexpected [] kw then Inl type_error else Inr (TlsFetcher policy))"

definition make_browser :: "'p factory" where
  "make_browser policy subs gate kw =
     (if unexpected [''launch_timeout_seconds'', ''fetch_timeout_seconds'', ''max_abandoned_fetches''] kw then Inl type_error
      else Inr (BrowserFetcher policy (normalize_domains subs) gate
             (arg kw ''launch_timeout_seconds'' (KFloat (bb_launch_timeout_seconds BROWSER)))
             (arg kw ''fetch_timeout_seconds'' (KFloat (bb_fetch_timeout_seconds BROWSER)))
             (arg kw ''max_abandoned_fetches'' (KInt (bb_max_abandoned_fetches BROWSER)))))"

definition make_uc :: "'p factory" where
  "make_uc policy subs gate kw =
     (if unexpected [''launch_timeout_seconds'', ''orphan_sweep_delay_seconds'', ''fetch_timeout_seconds''] kw
      then Inl type_error
      else Inr (UcFetcher policy subs gate
             (arg kw ''launch_timeout_seconds'' (KFloat (ub_launch_timeout_seconds UC)))
             (arg kw ''orphan_sweep_delay_seconds'' (KFloat (ub_orphan_sweep_delay_seconds UC)))
             (arg kw ''fetch_timeout_seconds'' (KFloat (ub_fetch_timeout_seconds UC)))))"

definition make_camoufox :: "'p factory" where
  "make_camoufox policy subs gate kw =
     (if unexpected [''launch_timeout_seconds'', ''nav_timeout_seconds'', ''fetch_timeout_seconds'', ''max_abandoned_fetches'',
           ''executable_path'', ''expected_version'', ''late_sweep_seconds''] kw
      then Inl type_error
      else Inr (CamoufoxFetcher policy (remdups (normalize_domains subs)) gate
             (arg kw ''launch_timeout_seconds'' (KFloat (cb_launch_timeout_seconds CAMOUFOX)))
             (arg kw ''nav_timeout_seconds'' (KFloat (cb_nav_timeout_seconds CAMOUFOX)))
             (arg kw ''fetch_timeout_seconds'' (KFloat (cb_fetch_timeout_seconds CAMOUFOX)))
             (arg kw ''max_abandoned_fetches'' (KInt (cb_max_abandoned_fetches CAMOUFOX)))
             (arg kw ''executable_path'' (KStr CAMOUFOX_EXECUTABLE_PATH))
             (arg kw ''expected_version'' (KStr CAMOUFOX_BROWSER_VERSION))
             (arg kw ''late_sweep_seconds'' (KFloat (cb_late_sweep_seconds CAMOUFOX)))))"

definition FACTORIES :: "(string \<times> 'p factory) list" where
  "FACTORIES = [(''http'', make_http), (''tls'', make_tls), (''browser'', make_browser), (''uc'', make_uc),
     (''camoufox'', make_camoufox)]"

definition TIER_MODULES :: "(string \<times> string option) list" where
  "TIER_MODULES = [(''http'', None), (''tls'', Some ''curl_cffi''), (''browser'', Some ''patchright''),
     (''uc'', Some ''seleniumbase''), (''camoufox'', Some ''camoufox'')]"

definition known_tiers :: "string list" where
  "known_tiers = map fst TIER_MODULES"

section \<open>Availability\<close>

text \<open>The modules that can be found, the camoufox install, and the install problems reported so far.\<close>

record deployment =
  dp_find_spec :: "string \<Rightarrow> bool"
  dp_install :: camoufox_install

fun kwarg_text :: "kwarg \<Rightarrow> string" where
  "kwarg_text (KStr s) = s"
| "kwarg_text _ = []"

definition camoufox_install_ready :: "deployment \<Rightarrow> kwargs \<Rightarrow> string list \<Rightarrow> bool result \<times> string list" where
  "camoufox_install_ready dp kw reported =
     (case camoufox_ready (dp_install dp) (kwarg_text (arg kw ''executable_path'' (KStr CAMOUFOX_EXECUTABLE_PATH)))
             (kwarg_text (arg kw ''expected_version'' (KStr CAMOUFOX_BROWSER_VERSION))) reported of
        ((r, _), reported') \<Rightarrow> (r, reported'))"

definition tier_available :: "deployment \<Rightarrow> (string \<times> kwargs) list \<Rightarrow> string \<Rightarrow> string list \<Rightarrow> bool result \<times> string list" where
  "tier_available dp readiness_kwargs name reported =
     (case map_of TIER_MODULES name of
        None \<Rightarrow> (Inr False, reported)
      | Some None \<Rightarrow> (Inr True, reported)
      | Some (Some m) \<Rightarrow>
          if \<not> dp_find_spec dp m then (Inr False, reported)
          else if name = ''camoufox''
          then camoufox_install_ready dp (case map_of readiness_kwargs name of Some kw \<Rightarrow> kw | None \<Rightarrow> []) reported
          else (Inr True, reported))"

section \<open>The router\<close>

text \<open>The optional arguments of the constructor.\<close>

record router_args =
  ra_uc_launch_timeout_seconds :: "pyfloat option"
  ra_browser_launch_timeout_seconds :: "pyfloat option"
  ra_uc_orphan_sweep_delay_seconds :: "pyfloat option"
  ra_browser_fetch_timeout_seconds :: "pyfloat option"
  ra_browser_max_abandoned_fetches :: "int option"
  ra_uc_fetch_timeout_seconds :: "pyfloat option"
  ra_camoufox_launch_timeout_seconds :: "pyfloat option"
  ra_camoufox_nav_timeout_seconds :: "pyfloat option"
  ra_camoufox_fetch_timeout_seconds :: "pyfloat option"
  ra_camoufox_max_abandoned_fetches :: "int option"
  ra_camoufox_executable_path :: "string option"
  ra_camoufox_expected_version :: "string option"

record 'p static_router =
  sr_domain_policy :: 'p
  sr_browser_gate :: gate_config
  sr_extra_kwargs :: "(string \<times> kwargs) list"
  sr_readiness_kwargs :: "(string \<times> kwargs) list"
  sr_cache :: "((string \<times> string set) \<times> (nat \<times> 'p tier_fetcher)) list" \<comment> \<open>an instance with its identity\<close>
  sr_made :: nat \<comment> \<open>instances made so far\<close>

text \<open>\<open>d.setdefault(tier, {})[name] = value\<close> unless the value is \<open>None\<close>.\<close>

definition kwargs_of :: "(string \<times> kwargs) list \<Rightarrow> string \<Rightarrow> kwargs" where
  "kwargs_of d tier = (case map_of d tier of Some kw \<Rightarrow> kw | None \<Rightarrow> [])"

fun put_kwarg :: "string \<times> string \<times> kwarg option \<Rightarrow> (string \<times> kwargs) list \<Rightarrow> (string \<times> kwargs) list" where
  "put_kwarg (tier, name, None) d = d"
| "put_kwarg (tier, name, Some v) d = AList.update tier (AList.update name v (kwargs_of d tier)) d"

definition extra_kwargs :: "router_args \<Rightarrow> (string \<times> kwargs) list" where
  "extra_kwargs a =
     fold put_kwarg
       [(''uc'', ''launch_timeout_seconds'', map_option KFloat (ra_uc_launch_timeout_seconds a)),
        (''browser'', ''launch_timeout_seconds'', map_option KFloat (ra_browser_launch_timeout_seconds a)),
        (''uc'', ''orphan_sweep_delay_seconds'', map_option KFloat (ra_uc_orphan_sweep_delay_seconds a)),
        (''browser'', ''fetch_timeout_seconds'', map_option KFloat (ra_browser_fetch_timeout_seconds a)),
        (''browser'', ''max_abandoned_fetches'', map_option KInt (ra_browser_max_abandoned_fetches a)),
        (''uc'', ''fetch_timeout_seconds'', map_option KFloat (ra_uc_fetch_timeout_seconds a)),
        (''camoufox'', ''launch_timeout_seconds'', map_option KFloat (ra_camoufox_launch_timeout_seconds a)),
        (''camoufox'', ''nav_timeout_seconds'', map_option KFloat (ra_camoufox_nav_timeout_seconds a)),
        (''camoufox'', ''fetch_timeout_seconds'', map_option KFloat (ra_camoufox_fetch_timeout_seconds a)),
        (''camoufox'', ''max_abandoned_fetches'', map_option KInt (ra_camoufox_max_abandoned_fetches a)),
        (''camoufox'', ''executable_path'', map_option KStr (ra_camoufox_executable_path a)),
        (''camoufox'', ''expected_version'', map_option KStr (ra_camoufox_expected_version a))] []"

definition readiness_kwargs :: "router_args \<Rightarrow> (string \<times> kwargs) list" where
  "readiness_kwargs a =
     fold put_kwarg
       [(''camoufox'', ''executable_path'', map_option KStr (ra_camoufox_executable_path a)),
        (''camoufox'', ''expected_version'', map_option KStr (ra_camoufox_expected_version a))] []"

definition default_browser_gate :: gate_config where
  "default_browser_gate = \<lparr> gt_max_concurrent = 1, gt_lock_dir = None, gt_acquire_timeout_seconds = None \<rparr>"

definition StaticRouter_init :: "'p \<Rightarrow> gate_config option \<Rightarrow> router_args \<Rightarrow> 'p static_router" where
  "StaticRouter_init policy gate a =
     \<lparr> sr_domain_policy = policy,
       sr_browser_gate = (case gate of Some g \<Rightarrow> g | None \<Rightarrow> default_browser_gate),
       sr_extra_kwargs = extra_kwargs a, sr_readiness_kwargs = readiness_kwargs a, sr_cache = [], sr_made = 0 \<rparr>"

definition unknown_fetcher :: "string \<Rightarrow> exn" where
  "unknown_fetcher name =
     UnknownFetcherError (''no fetcher adapter for tier '' @ py_repr name @ '' (wired: ''
       @ repr_list (sort (map fst TIER_MODULES)) @ '')'')"

definition select :: "string \<Rightarrow> string list \<Rightarrow> 'p static_router \<Rightarrow> (nat \<times> 'p tier_fetcher) result \<times> 'p static_router" where
  "select name subs r =
     (case map_of FACTORIES name of
        None \<Rightarrow> (Inl (unknown_fetcher name), r)
      | Some factory \<Rightarrow>
          (case map_of (sr_cache r) (name, set subs) of
             Some f \<Rightarrow> (Inr f, r)
           | None \<Rightarrow>
               (case factory (sr_domain_policy r) subs (sr_browser_gate r) (kwargs_of (sr_extra_kwargs r) name) of
                  Inl e \<Rightarrow> (Inl e, r)
                | Inr f \<Rightarrow>
                    (Inr (sr_made r, f),
                     r\<lparr> sr_cache := ((name, set subs), (sr_made r, f)) # sr_cache r, sr_made := sr_made r + 1 \<rparr>))))"

section \<open>Composition\<close>

definition build_static_router :: "'p \<Rightarrow> gate_config \<Rightarrow> settings \<Rightarrow> 'p static_router" where
  "build_static_router policy gate cfg =
     StaticRouter_init policy (Some gate)
       \<lparr> ra_uc_launch_timeout_seconds = Some (set_uc_launch_timeout_seconds cfg),
         ra_browser_launch_timeout_seconds = Some (set_browser_launch_timeout_seconds cfg),
         ra_uc_orphan_sweep_delay_seconds = Some (set_uc_orphan_sweep_delay_seconds cfg),
         ra_browser_fetch_timeout_seconds = Some (set_browser_fetch_timeout_seconds cfg),
         ra_browser_max_abandoned_fetches = Some (set_browser_max_abandoned_fetches cfg),
         ra_uc_fetch_timeout_seconds = Some (set_uc_fetch_timeout_seconds cfg),
         ra_camoufox_launch_timeout_seconds = Some (set_camoufox_launch_timeout_seconds cfg),
         ra_camoufox_nav_timeout_seconds = Some (set_camoufox_nav_timeout_seconds cfg),
         ra_camoufox_fetch_timeout_seconds = Some (set_camoufox_fetch_timeout_seconds cfg),
         ra_camoufox_max_abandoned_fetches = Some (set_camoufox_max_abandoned_fetches cfg),
         ra_camoufox_executable_path = None, ra_camoufox_expected_version = None \<rparr>"

text \<open>\<open>BrowserGate(...)\<close> as the composition roots call it; \<open>Path(state_db).parent\<close> is a parameter.\<close>

definition new_browser_gate :: "(string \<Rightarrow> string) \<Rightarrow> settings \<Rightarrow> gate_config result" where
  "new_browser_gate parent cfg =
     bindE (gate_ok (set_browser_max_concurrent cfg)) (\<lambda>n.
       Inr \<lparr> gt_max_concurrent = n, gt_lock_dir = Some (parent (set_state_db cfg)),
             gt_acquire_timeout_seconds = Some (set_browser_acquire_timeout_seconds cfg) \<rparr>)"

text \<open>The boot diagnostic: the tiers it reports, or the exception it swallows and logs.\<close>

fun unavailable_tiers ::
  "(string \<Rightarrow> string list \<Rightarrow> bool result \<times> string list) \<Rightarrow> string list \<Rightarrow> string list \<Rightarrow> string list result \<times> string list" where
  "unavailable_tiers available [] reported = (Inr [], reported)"
| "unavailable_tiers available (t # ts) reported =
     (case available t reported of
        (Inl e, reported1) \<Rightarrow> (Inl e, reported1)
      | (Inr ok, reported1) \<Rightarrow>
          (case unavailable_tiers available ts reported1 of
             (Inl e, reported2) \<Rightarrow> (Inl e, reported2)
           | (Inr missing, reported2) \<Rightarrow> (Inr (if ok then missing else t # missing), reported2)))"

datatype boot_log = BootSilent | BootMissing "string list" | BootFailed exn

definition log_unavailable_fetcher_tiers ::
  "string list result \<Rightarrow> (string \<Rightarrow> string list \<Rightarrow> bool result \<times> string list) \<Rightarrow> string list \<Rightarrow> boot_log \<times> string list" where
  "log_unavailable_fetcher_tiers referenced available reported =
     (case referenced of
        Inl e \<Rightarrow> (BootFailed e, reported)
      | Inr tiers \<Rightarrow>
          (case unavailable_tiers available tiers reported of
             (Inl e, reported') \<Rightarrow> (BootFailed e, reported')
           | (Inr missing, reported') \<Rightarrow> (if missing = [] then BootSilent else BootMissing (sort missing), reported')))"

section \<open>The fetcher a tier stands for\<close>

text \<open>The specification of \<open>select\<close> on a router built from the settings.\<close>

definition configured :: "'p \<Rightarrow> gate_config \<Rightarrow> settings \<Rightarrow> string \<Rightarrow> string list \<Rightarrow> 'p tier_fetcher option" where
  "configured policy gate cfg name subs =
     (if name = ''http'' then Some (HttpFetcher policy)
      else if name = ''tls'' then Some (TlsFetcher policy)
      else if name = ''browser''
      then Some (BrowserFetcher policy (normalize_domains subs) gate (KFloat (set_browser_launch_timeout_seconds cfg))
                   (KFloat (set_browser_fetch_timeout_seconds cfg)) (KInt (set_browser_max_abandoned_fetches cfg)))
      else if name = ''uc''
      then Some (UcFetcher policy subs gate (KFloat (set_uc_launch_timeout_seconds cfg))
                   (KFloat (set_uc_orphan_sweep_delay_seconds cfg)) (KFloat (set_uc_fetch_timeout_seconds cfg)))
      else if name = ''camoufox''
      then Some (CamoufoxFetcher policy (remdups (normalize_domains subs)) gate (KFloat (set_camoufox_launch_timeout_seconds cfg))
                   (KFloat (set_camoufox_nav_timeout_seconds cfg)) (KFloat (set_camoufox_fetch_timeout_seconds cfg))
                   (KInt (set_camoufox_max_abandoned_fetches cfg)) (KStr CAMOUFOX_EXECUTABLE_PATH)
                   (KStr CAMOUFOX_BROWSER_VERSION) (KFloat (cb_late_sweep_seconds CAMOUFOX)))
      else None)"

lemma known_tiers_cases: "name \<in> set known_tiers \<longleftrightarrow> name \<in> {''http'', ''tls'', ''browser'', ''uc'', ''camoufox''}"
  by (simp add: known_tiers_def TIER_MODULES_def)

lemma configured_known: "configured policy gate cfg name subs = None \<longleftrightarrow> name \<notin> set known_tiers"
  by (simp add: known_tiers_cases configured_def)

lemma settings_kwargs:
  assumes e_def: "e = sr_extra_kwargs (build_static_router policy gate cfg)"
  shows "kwargs_of e ''http'' = []" "kwargs_of e ''tls'' = []"
    "kwargs_of e ''browser'' = [(''launch_timeout_seconds'', KFloat (set_browser_launch_timeout_seconds cfg)),
       (''fetch_timeout_seconds'', KFloat (set_browser_fetch_timeout_seconds cfg)),
       (''max_abandoned_fetches'', KInt (set_browser_max_abandoned_fetches cfg))]"
    "kwargs_of e ''uc'' = [(''launch_timeout_seconds'', KFloat (set_uc_launch_timeout_seconds cfg)),
       (''orphan_sweep_delay_seconds'', KFloat (set_uc_orphan_sweep_delay_seconds cfg)),
       (''fetch_timeout_seconds'', KFloat (set_uc_fetch_timeout_seconds cfg))]"
    "kwargs_of e ''camoufox'' = [(''launch_timeout_seconds'', KFloat (set_camoufox_launch_timeout_seconds cfg)),
       (''nav_timeout_seconds'', KFloat (set_camoufox_nav_timeout_seconds cfg)),
       (''fetch_timeout_seconds'', KFloat (set_camoufox_fetch_timeout_seconds cfg)),
       (''max_abandoned_fetches'', KInt (set_camoufox_max_abandoned_fetches cfg))]"
  by (simp_all add: e_def build_static_router_def StaticRouter_init_def extra_kwargs_def kwargs_of_def)

lemma factory_configured:
  "case map_of FACTORIES name of
     None \<Rightarrow> name \<notin> set known_tiers
   | Some factory \<Rightarrow> name \<in> set known_tiers
       \<and> map_sum id Some (factory policy subs gate (kwargs_of (sr_extra_kwargs (build_static_router policy gate cfg)) name))
         = Inr (configured policy gate cfg name subs)"
  by (simp add: FACTORIES_def known_tiers_cases settings_kwargs [OF refl] make_http_def make_tls_def make_browser_def make_uc_def
      make_camoufox_def unexpected_def arg_def configured_def)

section \<open>Selecting\<close>

definition after :: "(string \<times> string list) list \<Rightarrow> 'p static_router \<Rightarrow> 'p static_router" where
  "after calls r = fold (\<lambda>(name, subs) r. snd (select name subs r)) calls r"

definition router_ok :: "'p \<Rightarrow> gate_config \<Rightarrow> settings \<Rightarrow> 'p static_router \<Rightarrow> bool" where
  "router_ok policy gate cfg r \<longleftrightarrow>
     sr_domain_policy r = policy \<and> sr_browser_gate r = gate
     \<and> sr_extra_kwargs r = sr_extra_kwargs (build_static_router policy gate cfg)
     \<and> distinct (map (\<lambda>(_, i, _). i) (sr_cache r))
     \<and> list_all (\<lambda>((name, ds), i, f). i < sr_made r
          \<and> (\<exists>subs. set subs = ds \<and> configured policy gate cfg name subs = Some f)) (sr_cache r)"

lemma router_ok_init: "router_ok policy gate cfg (build_static_router policy gate cfg)"
  by (simp add: router_ok_def build_static_router_def StaticRouter_init_def)

text \<open>What \<open>select\<close> does on such a router: it refuses an unknown tier, finds the instance, or makes one.\<close>

lemma select_cases:
  assumes "router_ok policy gate cfg r"
  shows "select name subs r =
     (case configured policy gate cfg name subs of
        None \<Rightarrow> (Inl (unknown_fetcher name), r)
      | Some f \<Rightarrow>
          (case map_of (sr_cache r) (name, set subs) of
             Some x \<Rightarrow> (Inr x, r)
           | None \<Rightarrow> (Inr (sr_made r, f),
               r\<lparr> sr_cache := ((name, set subs), (sr_made r, f)) # sr_cache r, sr_made := sr_made r + 1 \<rparr>)))"
proof (cases "map_of (FACTORIES :: (string \<times> 'a factory) list) name")
  case None
  with factory_configured [of name policy subs gate cfg] have "configured policy gate cfg name subs = None" by (simp add: configured_known)
  with None show ?thesis by (simp add: select_def)
next
  case (Some factory)
  with factory_configured [of name policy subs gate cfg]
  have known: "name \<in> set known_tiers"
    and made: "map_sum id Some (factory policy subs gate (kwargs_of (sr_extra_kwargs (build_static_router policy gate cfg)) name))
      = Inr (configured policy gate cfg name subs)" by simp_all
  from known obtain f where f: "configured policy gate cfg name subs = Some f"
    using configured_known by fastforce
  with made have "factory policy subs gate (kwargs_of (sr_extra_kwargs (build_static_router policy gate cfg)) name) = Inr f"
    by (cases "factory policy subs gate (kwargs_of (sr_extra_kwargs (build_static_router policy gate cfg)) name)") auto
  with Some f assms show ?thesis by (simp add: select_def router_ok_def split: option.split)
qed

lemma router_ok_select: "router_ok policy gate cfg r \<Longrightarrow> router_ok policy gate cfg (snd (select name subs r))"
proof -
  assume ok: "router_ok policy gate cfg r"
  then have below: "i < sr_made r" if "(k, i, f) \<in> set (sr_cache r)" for k i f
    using that by (fastforce simp: router_ok_def list_all_iff)
  show ?thesis using ok below
    by (fastforce simp: select_cases [OF ok] router_ok_def list_all_iff split: option.splits)
qed

lemma router_ok_after: "router_ok policy gate cfg r \<Longrightarrow> router_ok policy gate cfg (after calls r)"
  unfolding after_def by (induction calls arbitrary: r) (auto simp: router_ok_select)

lemma cached_stays:
  "map_of (sr_cache r) k = Some x \<Longrightarrow> map_of (sr_cache (snd (select name subs r))) k = Some x"
  by (auto simp: select_def split: option.splits sum.splits)

lemma cached_stays_after: "map_of (sr_cache r) k = Some x \<Longrightarrow> map_of (sr_cache (after calls r)) k = Some x"
  unfolding after_def by (induction calls arbitrary: r) (auto simp: cached_stays)

lemma select_cached:
  assumes "router_ok policy gate cfg r" and "fst (select name subs r) = Inr x"
  shows "map_of (sr_cache (snd (select name subs r))) (name, set subs) = Some x" "name \<in> set known_tiers"
proof -
  have f: "configured policy gate cfg name subs \<noteq> None"
    using assms by (auto simp: select_cases [OF assms(1)] split: option.splits)
  then show "name \<in> set known_tiers" by (simp add: configured_known)
  from f assms(2) show "map_of (sr_cache (snd (select name subs r))) (name, set subs) = Some x"
    by (auto simp: select_cases [OF assms(1)] split: option.splits)
qed

lemma select_from_cache:
  assumes "router_ok policy gate cfg r" "name \<in> set known_tiers" "map_of (sr_cache r) (name, set subs) = Some x"
  shows "fst (select name subs r) = Inr x"
proof -
  have "configured policy gate cfg name subs \<noteq> None" using assms(2) by (simp add: configured_known)
  then show ?thesis using assms(3) by (auto simp: select_cases [OF assms(1)] split: option.splits)
qed

lemma same_id_same_key:
  assumes "distinct (map (\<lambda>(_, i, _). i) c)" "map_of c k = Some (i, f)" "map_of c k' = Some (i, f')"
  shows "k = k'"
proof -
  have "(k, i, f) \<in> set c" "(k', i, f') \<in> set c" using assms(2,3) by (auto dest: map_of_SomeD)
  moreover have "inj_on (\<lambda>(_, i, _). i) (set c)" using assms(1) by (simp add: distinct_map)
  ultimately have "(k, i, f) = (k', i, f')" using inj_onD [of _ "set c" "(k, i, f)" "(k', i, f')"] by fastforce
  then show ?thesis by simp
qed

text \<open>C39: The fetcher a site gets from the router of an application, after any number of earlier selections. An unknown tier is
  refused. For each of the five tiers the fetcher is of that tier, holds the router's domain policy and, in a browser tier, the
  shared gate, the sub-resource domains asked for and the timeouts and ceilings of the settings. After any number of
  further selections the same tier and set of domains gives the same instance, and no other request gives it.\<close>

theorem router_selects:
  assumes "r = after earlier (build_static_router policy gate cfg)"
    and "r' = after later (snd (select name subs r))"
  shows "if name \<notin> set known_tiers then fst (select name subs r) = Inl (unknown_fetcher name)
     else \<exists>i f ds. fst (select name subs r) = Inr (i, f) \<and> set ds = set subs \<and> configured policy gate cfg name ds = Some f
        \<and> (\<forall>subs'. set subs' = set subs \<longrightarrow> fst (select name subs' r') = Inr (i, f))
        \<and> (\<forall>name' subs' f'. fst (select name' subs' r') = Inr (i, f') \<longrightarrow> name' = name \<and> set subs' = set subs)"
proof (cases "name \<in> set known_tiers")
  case False
  have ok: "router_ok policy gate cfg r" by (simp add: assms router_ok_after router_ok_init)
  from False show ?thesis by (simp add: select_cases [OF ok] configured_known [THEN iffD2])
next
  case True
  have ok: "router_ok policy gate cfg r" by (simp add: assms router_ok_after router_ok_init)
  then have ok': "router_ok policy gate cfg r'" by (simp add: assms(2) router_ok_after router_ok_select)
  then obtain g where g: "configured policy gate cfg name subs = Some g"
    using True by (cases "configured policy gate cfg name subs") (simp_all add: configured_known)
  have "\<exists>x. fst (select name subs r) = Inr x" by (simp add: select_cases [OF ok] g split: option.split)
  then obtain i f where sel: "fst (select name subs r) = Inr (i, f)" by auto
  have "map_of (sr_cache (snd (select name subs r))) (name, set subs) = Some (i, f)" by (rule select_cached(1) [OF ok sel])
  then have cached: "map_of (sr_cache r') (name, set subs) = Some (i, f)" by (simp add: assms(2) cached_stays_after)
  then obtain ds where ds: "set ds = set subs" "configured policy gate cfg name ds = Some f"
    using ok' by (fastforce simp: router_ok_def list_all_iff dest: map_of_SomeD)
  have again: "fst (select name subs' r') = Inr (i, f)" if "set subs' = set subs" for subs'
    using select_from_cache [OF ok' True, of subs'] cached that by simp
  have only: "name' = name \<and> set subs' = set subs" if other: "fst (select name' subs' r') = Inr (i, f')" for name' subs' f'
  proof -
    let ?r = "snd (select name' subs' r')"
    have "distinct (map (\<lambda>(_, i, _). i) (sr_cache ?r))" using router_ok_select [OF ok'] by (simp add: router_ok_def)
    moreover have "map_of (sr_cache ?r) (name, set subs) = Some (i, f)" by (rule cached_stays [OF cached])
    ultimately have "(name, set subs) = (name', set subs')" using select_cached(1) [OF ok' other] by (rule same_id_same_key)
    then show ?thesis by simp
  qed
  from True sel ds again only show ?thesis by auto
qed

definition sample_gate :: gate_config where
  "sample_gate = \<lparr> gt_max_concurrent = 1, gt_lock_dir = None, gt_acquire_timeout_seconds = Some (Fin 120) \<rparr>"

theorem router_selects_witness:
  "\<exists>cfg i f. settings_ok cfg
     \<and> fst (select ''uc'' [''mlcdn.com.br''] (after [(''http'', []), (''uc'', [])] (build_static_router () sample_gate cfg))) = Inr (i, f)
     \<and> fst (select ''ftp'' [] (after [] (build_static_router () sample_gate cfg))) = Inl (unknown_fetcher ''ftp'')"
proof -
  obtain cfg where "settings_ok cfg" using unset_settings_ok by blast
  moreover have "''uc'' \<in> set known_tiers" "''ftp'' \<notin> set known_tiers" by (simp_all add: known_tiers_cases)
  ultimately show ?thesis
    using router_selects [OF refl refl, where name = "''uc''" and policy = "()" and gate = sample_gate and cfg = cfg
        and earlier = "[(''http'', []), (''uc'', [])]" and subs = "[''mlcdn.com.br'']" and later = "[]"]
      router_selects [OF refl refl, where name = "''ftp''" and policy = "()" and gate = sample_gate and cfg = cfg
        and earlier = "[]" and subs = "[]" and later = "[]"]
    by auto
qed

section \<open>The contract the application relies on\<close>

text \<open>A tier that is available can be selected; an unknown one is neither.\<close>

locale tier_contract =
  fixes known :: "string list"
    and available :: "string \<Rightarrow> bool result"
    and pick :: "string \<Rightarrow> string list \<Rightarrow> 'w fetcher result"
  assumes pick_known: "t \<in> set known \<Longrightarrow> \<not> isl (pick t ds)"
    and unknown_closed: "t \<notin> set known \<Longrightarrow> available t = Inr False \<and> pick t ds = Inl (unknown_fetcher t)"
begin

lemma available_known: "available t = Inr True \<Longrightarrow> t \<in> set known"
  using unknown_closed by fastforce

lemma available_picked: "available t = Inr True \<Longrightarrow> \<exists>f. pick t ds = Inr f"
  using pick_known [OF available_known] by (metis sum.collapse(2))

text \<open>A source that is not skipped is scraped with the fetcher of its tier: the router is never the reason of its failure.\<close>

lemma run_source_fetches:
  assumes "rt = \<lparr> rt_known_tiers = known, rt_tier_available = available, rt_select = pick \<rparr>"
    and "available (site_fetcher site) = Inr True"
  shows "\<exists>fetch. pick (site_fetcher site) (site_subresource_domains site) = Inr fetch
    \<and> run_source rt factory owner now sleep source site dw =
      (case factory (site_parser site) of
         Inl e \<Rightarrow> (Some (source_failed (src_id source) now e), dw)
       | Inr parse \<Rightarrow>
           (case scrape_and_record fetch parse owner (src_id source) (src_url source) (Some now) now sleep dw of
              (Inl e, dw') \<Rightarrow> (Some (source_failed (src_id source) now e), dw')
            | (Inr rec, dw') \<Rightarrow> (Some rec, dw')))"
proof -
  obtain fetch where "pick (site_fetcher site) (site_subresource_domains site) = Inr fetch"
    using available_picked [OF assms(2)] by blast
  with assms show ?thesis by (intro exI [of _ fetch]) (simp add: run_source_def tier_unavailable_def)
qed

end

text \<open>The router of the application after any selections; \<open>run\<close> gives what a fetcher does.\<close>

definition available_now :: "deployment \<Rightarrow> 'p static_router \<Rightarrow> string list \<Rightarrow> string \<Rightarrow> bool result" where
  "available_now dp r reported t = fst (tier_available dp (sr_readiness_kwargs r) t reported)"

definition pick_now :: "('p tier_fetcher \<Rightarrow> 'w fetcher) \<Rightarrow> 'p static_router \<Rightarrow> string \<Rightarrow> string list \<Rightarrow> 'w fetcher result" where
  "pick_now run r t ds = map_sum id (\<lambda>(_, f). run f) (fst (select t ds r))"

definition app_router :: "('p tier_fetcher \<Rightarrow> 'w fetcher) \<Rightarrow> deployment \<Rightarrow> string list \<Rightarrow> 'p static_router \<Rightarrow> 'w router" where
  "app_router run dp reported r =
     \<lparr> rt_known_tiers = known_tiers, rt_tier_available = available_now dp r reported, rt_select = pick_now run r \<rparr>"

interpretation static: tier_contract known_tiers
  "available_now dp (after calls (build_static_router policy gate cfg)) reported"
  "pick_now run (after calls (build_static_router policy gate cfg))"
  for dp calls policy gate cfg reported run
proof unfold_locales
  let ?r = "after calls (build_static_router policy gate cfg)"
  have ok: "router_ok policy gate cfg ?r" by (rule router_ok_after [OF router_ok_init])
  fix t ds
  show "\<not> isl (pick_now run ?r t ds)" if "t \<in> set known_tiers"
  proof -
    have "configured policy gate cfg t ds \<noteq> None" using that by (simp add: configured_known)
    then show ?thesis by (auto simp: pick_now_def select_cases [OF ok] split: option.splits)
  qed
  show "available_now dp ?r reported t = Inr False \<and> pick_now run ?r t ds = Inl (unknown_fetcher t)" if "t \<notin> set known_tiers"
  proof -
    have "configured policy gate cfg t ds = None" "map_of TIER_MODULES t = None"
      using that by (simp_all add: configured_known) (simp add: known_tiers_def map_of_eq_None_iff)
    then show ?thesis by (simp add: pick_now_def available_now_def select_cases [OF ok] tier_available_def)
  qed
qed

section \<open>The boot diagnostic\<close>

text \<open>What was reported before does not change an answer.\<close>

lemma camoufox_ready_answer: "fst (fst (camoufox_ready ci p v reported)) = fst (fst (camoufox_ready ci p v reported'))"
  by (simp add: camoufox_ready_def split: sum.split)

lemma install_ready_answer:
  "fst (camoufox_install_ready dp kw reported) = fst (camoufox_install_ready dp kw reported')"
proof -
  have "fst (camoufox_install_ready dp kw rep) =
      fst (fst (camoufox_ready (dp_install dp) (kwarg_text (arg kw ''executable_path'' (KStr CAMOUFOX_EXECUTABLE_PATH)))
        (kwarg_text (arg kw ''expected_version'' (KStr CAMOUFOX_BROWSER_VERSION))) rep))" for rep
    by (simp add: camoufox_install_ready_def split: prod.split)
  then show ?thesis using camoufox_ready_answer by metis
qed

lemma tier_available_answer: "fst (tier_available dp rk t reported) = fst (tier_available dp rk t reported')"
  by (simp add: tier_available_def install_ready_answer [of _ _ reported reported'] split: option.split)

lemma unavailable_tiers_filter:
  assumes "\<And>t rep. fst (avail t rep) = answer t"
  shows "fst (unavailable_tiers avail ts reported) =
     (case find (\<lambda>t. isl (answer t)) ts of
        Some t \<Rightarrow> Inl (projl (answer t))
      | None \<Rightarrow> Inr (filter (\<lambda>t. answer t = Inr False) ts))"
proof (induction ts arbitrary: reported)
  case (Cons t ts)
  obtain x rep where x: "avail t reported = (x, rep)" by (cases "avail t reported")
  with assms [of t reported] have "x = answer t" by simp
  with x Cons.IH [of rep] show ?case
    by (cases "answer t"; cases "unavailable_tiers avail ts rep") (auto split: option.splits sum.splits)
qed simp

text \<open>C40: The diagnostic at boot and the guard of each scrape cannot disagree. When no availability check raises, the
  tiers it reports are the tiers of referenced sites whose sources every run skips, in order, and it is silent exactly when there are
  none; when one raises, that exception is what it logs, and the start goes on.\<close>

theorem boot_diagnostic_agrees:
  assumes "r = after calls (build_static_router policy gate cfg)"
    and "entry = fst (log_unavailable_fetcher_tiers (Inr (list_referenced_fetcher_tiers db))
           (tier_available dp (sr_readiness_kwargs r)) reported)"
    and "site_fetcher site \<in> set (list_referenced_fetcher_tiers db)"
  shows "(case entry of
        BootSilent \<Rightarrow> fst (run_source (app_router run dp reported r) factory owner now sleep source site dw) \<noteq> None
      | BootMissing ts \<Rightarrow> sorted ts \<and> distinct ts
          \<and> (site_fetcher site \<in> set ts \<longleftrightarrow>
              fst (run_source (app_router run dp reported r) factory owner now sleep source site dw) = None)
      | BootFailed e \<Rightarrow> \<exists>t \<in> set (list_referenced_fetcher_tiers db). available_now dp r reported t = Inl e)"
proof -
  let ?ts = "list_referenced_fetcher_tiers db"
  let ?answer = "available_now dp r reported"
  let ?run = "run_source (app_router run dp reported r) factory owner now sleep source site dw"
  have answers: "fst (tier_available dp (sr_readiness_kwargs r) t rep) = ?answer t" for t rep
    unfolding available_now_def by (rule tier_available_answer)
  note all = unavailable_tiers_filter [where avail = "tier_available dp (sr_readiness_kwargs r)", OF answers, of ?ts reported]
  have skipped: "fst ?run = None \<longleftrightarrow> ?answer (site_fetcher site) = Inr False"
    by (simp add: run_source_None app_router_def)
  have distinct: "distinct ?ts" by (simp add: list_referenced_fetcher_tiers_def)
  show ?thesis
  proof (cases "find (\<lambda>t. isl (?answer t)) ?ts")
    case None
    then have "entry = (let ms = filter (\<lambda>t. ?answer t = Inr False) ?ts in if ms = [] then BootSilent else BootMissing (sort ms))"
      using all by (auto simp: assms(2) log_unavailable_fetcher_tiers_def split: sum.splits prod.splits)
    then show ?thesis using skipped assms(3) distinct by (auto simp: Let_def filter_empty_conv)
  next
    case (Some t)
    then have "entry = BootFailed (projl (?answer t))"
      using all by (auto simp: assms(2) log_unavailable_fetcher_tiers_def split: sum.splits prod.splits)
    moreover have "t \<in> set ?ts" "?answer t = Inl (projl (?answer t))" using Some by (auto simp: find_Some_iff)
    ultimately show ?thesis by auto
  qed
qed

definition slim_image :: deployment where
  "slim_image = \<lparr> dp_find_spec = (\<lambda>_. False),
     dp_install = \<lparr> ci_module = (\<lambda>_. False), ci_executable = (\<lambda>_. False), ci_version = (\<lambda>_. Inl (OSError [])),
       ci_floor = Inl (OSError []) \<rparr> \<rparr>"

theorem boot_diagnostic_agrees_witness:
  "\<exists>cfg. fst (log_unavailable_fetcher_tiers (Inr (list_referenced_fetcher_tiers stocked_config))
        (tier_available slim_image (sr_readiness_kwargs (build_static_router () sample_gate cfg))) []) = BootSilent
     \<and> fst (run_source (app_router (\<lambda>_. sold_out_fetch) slim_image [] (build_static_router () sample_gate cfg))
         (\<lambda>spec. Inr (\<lambda>h. Inr sold_out_page)) ''ana'' ''t'' (\<lambda>d w. w) \<lparr> src_id = ''s'', src_product_id = ''p'', src_site = ''kabum'', src_url = ''u'' \<rparr>
         kabum_site (empty_state, 0)) \<noteq> None"
proof -
  obtain cfg where "settings_ok cfg" using unset_settings_ok by blast
  let ?r = "build_static_router () sample_gate cfg"
  have ts: "list_referenced_fetcher_tiers stocked_config = [''http'']" by code_simp
  have silent: "fst (log_unavailable_fetcher_tiers (Inr (list_referenced_fetcher_tiers stocked_config))
      (tier_available slim_image (sr_readiness_kwargs ?r)) []) = BootSilent"
    by (simp add: ts log_unavailable_fetcher_tiers_def tier_available_def TIER_MODULES_def)
  have site: "site_fetcher kabum_site \<in> set (list_referenced_fetcher_tiers stocked_config)"
    by (simp add: ts kabum_site_def)
  have r: "?r = after [] (build_static_router () sample_gate cfg)" by (simp add: after_def)
  from boot_diagnostic_agrees [OF r refl site, where dp = slim_image and reported = "[]" and run = "\<lambda>_. sold_out_fetch"
      and factory = "\<lambda>spec. Inr (\<lambda>h. Inr sold_out_page)" and owner = "''ana''" and now = "''t''" and sleep = "\<lambda>d w. w"
      and source = "\<lparr> src_id = ''s'', src_product_id = ''p'', src_site = ''kabum'', src_url = ''u'' \<rparr>"
      and dw = "(empty_state, 0)"] silent
  show ?thesis by (intro exI [of _ cfg] conjI) simp_all
qed

section \<open>In range\<close>

text \<open>The values a fetcher relies on: positive timeouts and a ceiling of at least one.\<close>

fun kw_positive :: "kwarg \<Rightarrow> bool" where
  "kw_positive (KFloat v) = positive v"
| "kw_positive (KInt n) = (1 \<le> n)"
| "kw_positive (KStr s) = (s \<noteq> [])"

fun fetcher_in_range :: "'p tier_fetcher \<Rightarrow> bool" where
  "fetcher_in_range (HttpFetcher _) = True"
| "fetcher_in_range (TlsFetcher _) = True"
| "fetcher_in_range (BrowserFetcher _ _ _ a b c) = list_all kw_positive [a, b, c]"
| "fetcher_in_range (UcFetcher _ _ _ a b c) = list_all kw_positive [a, b, c]"
| "fetcher_in_range (CamoufoxFetcher _ _ _ a b c d e f g) = list_all kw_positive [a, b, c, d, e, f, g]"

lemma configured_in_range:
  assumes "settings_ok cfg" "configured policy gate cfg name subs = Some f"
  shows "fetcher_in_range f" "policy_of f = policy"
proof -
  have sweep: "positive (set_uc_orphan_sweep_delay_seconds cfg)" using assms(1) by (simp add: settings_ok_def sweep_fits_def)
  have late: "positive (cb_late_sweep_seconds CAMOUFOX)" by (simp add: positive_def CAMOUFOX_def)
  show "fetcher_in_range f"
    using assms sweep late by (auto simp: configured_def settings_ok_def CAMOUFOX_EXECUTABLE_PATH_def CAMOUFOX_BROWSER_VERSION_def
        split: if_splits)
  show "policy_of f = policy" using assms(2) by (auto simp: configured_def split: if_splits)
qed

end
