(* ===== verification/Config_Open.thy ===== *)
theory Config_Open
  imports Config_Store
begin

text \<open>
  Opening a configuration file (\<open>SqliteConfigStore.__init__\<close> and its migration, \<open>registry/sqlite_store.py\<close>): the refusal of
  a file of an older schema, the missing tables and columns, the identity indexes; and the two conversions between a site
  and its row.
\<close>

section \<open>The file\<close>

text \<open>What the migration looks at: the primary key of \<open>sources\<close> in its order (empty when the table is missing), the columns
  of \<open>owners\<close> (empty when the table is missing), whether the identity indexes exist, the schema version, and the rows. A
  column the table does not have reads as None.\<close>

record config_file =
  cf_sources_key :: "string list"
  cf_owner_columns :: "string list"
  cf_identity_indexes :: bool
  cf_version :: nat
  cf_rows :: config_db

definition SCHEMA_VERSION :: nat where
  "SCHEMA_VERSION = 5"

definition OWNERS_AUTH_COLUMNS :: "string list" where
  "OWNERS_AUTH_COLUMNS = [''password_hash'', ''created_at'']"

definition OWNERS_COLUMNS :: "string list" where
  "OWNERS_COLUMNS = [''id'', ''name'', ''email'', ''role'', ''state'', ''password_hash'', ''created_at'']"

definition reject_pre_0006_sources :: "config_file \<Rightarrow> unit result" where
  "reject_pre_0006_sources f =
     raise_if (cf_sources_key f = [''source_id''])
       (ConfigError (''config.db predates schema 5 (source_id without owner); ''
          @ ''recreate it: remove the file and run `kerdoos config import`.''))"

text \<open>\<open>CREATE TABLE IF NOT EXISTS\<close>\<close>

definition run_schema :: "config_file \<Rightarrow> config_file" where
  "run_schema f =
     f\<lparr> cf_sources_key := (if cf_sources_key f = [] then [''owner_id'', ''source_id''] else cf_sources_key f),
        cf_owner_columns := (if cf_owner_columns f = [] then OWNERS_COLUMNS else cf_owner_columns f) \<rparr>"

text \<open>Each ALTER takes effect on its own; the duplicate check comes before the indexes.\<close>

definition migrate_config :: "config_file \<Rightarrow> unit result \<times> config_file" where
  "migrate_config f =
     (let f1 = f\<lparr> cf_owner_columns :=
                   fold (\<lambda>c cols. if c \<in> set cols then cols else cols @ [c]) OWNERS_AUTH_COLUMNS (cf_owner_columns f) \<rparr>
      in case reject_duplicate_identities (cf_rows f1) of
           Inl e \<Rightarrow> (Inl e, f1)
         | Inr _ \<Rightarrow> (Inr (), f1\<lparr> cf_identity_indexes := True, cf_version := SCHEMA_VERSION \<rparr>))"

definition open_config_store :: "config_file \<Rightarrow> unit result \<times> config_file" where
  "open_config_store f =
     (case reject_pre_0006_sources f of
        Inl e \<Rightarrow> (Inl e, f)
      | Inr _ \<Rightarrow> migrate_config (run_schema f))"

section \<open>A site and its row\<close>

record site_row =
  st_name :: string
  st_fetcher :: string
  st_domain :: string
  st_tier2_label :: "string option"
  st_subresource_domains :: string
  st_parser_kind :: string
  st_parser_pix :: "string option"
  st_parser_card :: "string option"
  st_parser_availability :: "string option"

definition site_to_row :: "(string list \<Rightarrow> string) \<Rightarrow> site_config \<Rightarrow> site_row" where
  "site_to_row dumps site =
     \<lparr> st_name = site_name site, st_fetcher = site_fetcher site, st_domain = site_domain site,
       st_tier2_label = site_tier2_label site, st_subresource_domains = dumps (site_subresource_domains site),
       st_parser_kind = ps_kind (site_parser site), st_parser_pix = ps_pix (site_parser site),
       st_parser_card = ps_card (site_parser site), st_parser_availability = ps_availability (site_parser site) \<rparr>"

definition row_to_site :: "(string \<Rightarrow> string list result) \<Rightarrow> site_row \<Rightarrow> site_config result" where
  "row_to_site loads row =
     bindE (loads (st_subresource_domains row)) (\<lambda>subs.
       Inr \<lparr> site_name = st_name row, site_fetcher = st_fetcher row,
             site_parser = \<lparr> ps_kind = st_parser_kind row, ps_pix = st_parser_pix row, ps_card = st_parser_card row,
               ps_availability = st_parser_availability row \<rparr>,
             site_domain = st_domain row, site_tier2_label = st_tier2_label row, site_subresource_domains = subs \<rparr>)"

lemma site_row_roundtrip:
  "loads (dumps (site_subresource_domains s)) = Inr (site_subresource_domains s) \<Longrightarrow> row_to_site loads (site_to_row dumps s) = Inr s"
  by (simp add: row_to_site_def site_to_row_def)

section \<open>What opening does to a file\<close>

lemma duplicates_Nil: "duplicates xs = [] \<longleftrightarrow> distinct xs"
proof -
  have "duplicates xs = [] \<longleftrightarrow> (\<forall>x \<in> set xs. length (filter ((=) x) xs) \<le> 1)"
  proof -
    have "duplicates xs = [] \<longleftrightarrow> set (duplicates xs) = {}" by simp
    also have "\<dots> \<longleftrightarrow> (\<forall>x \<in> set xs. length (filter ((=) x) xs) \<le> 1)" by (auto simp: duplicates_def not_less)
    finally show ?thesis .
  qed
  also have "\<dots> \<longleftrightarrow> distinct xs"
  proof (induction xs)
    case (Cons a xs)
    have "(\<forall>x \<in> set (a # xs). length (filter ((=) x) (a # xs)) \<le> 1)
        \<longleftrightarrow> a \<notin> set xs \<and> (\<forall>x \<in> set xs. length (filter ((=) x) xs) \<le> 1)"
      by (auto simp: filter_empty_conv)
    with Cons.IH show ?case by simp
  qed simp
  finally show ?thesis .
qed

lemma reject_duplicate_identities_Inr:
  "reject_duplicate_identities db = Inr () \<longleftrightarrow>
     distinct (map ow_name (c_owners db)) \<and> distinct [e. r \<leftarrow> c_owners db, Some e \<leftarrow> [ow_email r]]"
  by (auto simp: reject_duplicate_identities_def Let_def duplicates_Nil)

text \<open>Opening never changes a row, whatever the file and whether it succeeds. A file of the older schema is refused untouched.
  A file is opened exactly when it is not of that schema and the identities in it are unique; then the indexes are in place,
  the owner columns are complete, and opening it again changes nothing.\<close>

theorem open_config_store_safe:
  assumes "open_config_store f = (r, f')"
  shows "cf_rows f' = cf_rows f"
    and "cf_sources_key f = [''source_id''] \<Longrightarrow> isl r \<and> f' = f"
    and "r = Inr () \<longleftrightarrow> cf_sources_key f \<noteq> [''source_id''] \<and> distinct (map ow_name (c_owners (cf_rows f)))
      \<and> distinct [e. r \<leftarrow> c_owners (cf_rows f), Some e \<leftarrow> [ow_email r]]"
    and "r = Inr () \<Longrightarrow> cf_identity_indexes f' \<and> set OWNERS_AUTH_COLUMNS \<subseteq> set (cf_owner_columns f') \<and> cf_version f' = 5
      \<and> open_config_store f' = (Inr (), f')"
proof -
  note defs = open_config_store_def migrate_config_def run_schema_def reject_pre_0006_sources_def raise_if_def Let_def
  show "cf_rows f' = cf_rows f" using assms by (auto simp: defs split: if_splits sum.splits)
  show "isl r \<and> f' = f" if "cf_sources_key f = [''source_id'']" using assms that by (auto simp: defs)
  show iff: "r = Inr () \<longleftrightarrow> cf_sources_key f \<noteq> [''source_id''] \<and> distinct (map ow_name (c_owners (cf_rows f)))
      \<and> distinct [e. r \<leftarrow> c_owners (cf_rows f), Some e \<leftarrow> [ow_email r]]"
    unfolding reject_duplicate_identities_Inr [symmetric] using assms by (auto simp: defs split: if_splits sum.splits)
  assume ok: "r = Inr ()"
  then have unique: "reject_duplicate_identities (cf_rows f) = Inr ()" and key: "cf_sources_key f \<noteq> [''source_id'']"
    using iff unfolding reject_duplicate_identities_Inr by blast+
  have f': "f' = snd (migrate_config (run_schema f))" using assms key by (simp add: defs)
  have rows: "cf_rows f' = cf_rows f" "cf_identity_indexes f'" "cf_version f' = 5"
      "cf_sources_key f' \<noteq> []" "cf_sources_key f' \<noteq> [''source_id'']"
    using unique key by (simp_all add: f' migrate_config_def run_schema_def Let_def SCHEMA_VERSION_def)
  have cols: "set OWNERS_AUTH_COLUMNS \<subseteq> set (cf_owner_columns f')"
    using unique by (simp add: f' migrate_config_def run_schema_def Let_def OWNERS_AUTH_COLUMNS_def)
  then have "cf_owner_columns f' \<noteq> []" by (auto simp: OWNERS_AUTH_COLUMNS_def)
  with rows cols unique have "open_config_store f' = (Inr (), f')"
    by (simp add: defs OWNERS_AUTH_COLUMNS_def SCHEMA_VERSION_def)
  with rows cols show "cf_identity_indexes f' \<and> set OWNERS_AUTH_COLUMNS \<subseteq> set (cf_owner_columns f') \<and> cf_version f' = 5
      \<and> open_config_store f' = (Inr (), f')" by simp
qed

end
