(* ===== verification/Web_Routes.thy ===== *)
theory Web_Routes
  imports Auth Run_Queue Digest
begin

text \<open>
  The server-rendered web interface (\<open>interfaces/web/routers\<close>): every route of the tenant router (\<open>web.py\<close>), of the
  admin router (\<open>admin.py\<close>) and of the public router (\<open>public.py\<close>), with the guards the routers attach. A page is
  the context its template gets; the template engine itself is not modelled. A handler returns a response, raises an
  HTTPException, or lets an exception through, which the server answers with 500.
\<close>

section \<open>State, environment and responses\<close>

record web_state =
  ws_config :: config_db
  ws_state :: state_db
  ws_auth :: auth_db
  ws_queue :: run_queue

text \<open>What the composition root injects.\<close>

record 'w web_env =
  we_sha :: "string \<Rightarrow> string"
  we_mac :: mac
  we_secret :: string
  we_session_ttl :: nat
  we_token_ttl :: nat
  we_verify :: "string \<Rightarrow> string \<Rightarrow> bool"
  we_limits :: login_limits
  we_router :: "'w router"
  we_zones :: "string list"
  we_calendar :: calendar
  we_strftime :: strftime
  we_jinja :: jinja

text \<open>What one request reads of the clocks and of the random source.\<close>

record moment =
  mo_time :: nat
  mo_monotonic :: rat
  mo_now_iso :: string
  mo_uuid :: string
  mo_secret :: string

record dashboard_row =
  dr_record :: scrape_record
  dr_product_name :: string
  dr_site :: string
  dr_url :: "string option"

record briefing =
  br_ok :: nat
  br_indeterminate :: nat
  br_unavailable :: nat
  br_to_watch :: nat

record picker_row =
  pk_source_id :: string
  pk_product_name :: string
  pk_site :: string
  pk_url :: string

datatype email_note = EmailTaken | EmailInvalid | EmailSaved

datatype form_error = BadProductKey | SourceRefused | BadThreshold | JobRefused | AdminOnly | SiteRefused

datatype page =
    DashboardPage "dashboard_row list" briefing "run_status option" "rat option" "nat option"
  | HistoryPage "scrape_record list" string string string
  | ProductsPage registry "form_error option"
  | ProfilePage "token_info list" "string option" "issued_token option" "email_note option"
  | NotificationsPage "(digest_job \<times> job_run_summary option) list" "picker_row list" "form_error option"
  | PreviewPage digest_job string
  | LoginPage bool string
  | AdminPage "(string \<times> site_config) list" "form_error option" "string option"

datatype cookie_action = KeepCookie | SetCookie string nat | ClearCookie

datatype web_response =
    Html nat page "nat option" \<comment> \<open>status, context, Retry-After\<close>
  | Redirect string cookie_action
  | NoContent string \<comment> \<open>the HX-Redirect header\<close>
  | Json nat "(string \<times> string) list" "nat option" cookie_action

datatype answer = Answer web_response | Refused http_exception | Crash exn

type_synonym handler = "web_state \<Rightarrow> answer \<times> web_state"

abbreviation ok_page :: "page \<Rightarrow> answer" where
  "ok_page p \<equiv> Answer (Html 200 p None)"

abbreviation see_other :: "string \<Rightarrow> answer" where
  "see_other path \<equiv> Answer (Redirect path KeepCookie)"

definition not_found :: answer where
  "not_found = Refused (HTTPException 404 ''not found'')"

section \<open>Dashboard and history\<close>

definition REMOVED_SOURCE :: string where
  "REMOVED_SOURCE = ''Source retir'' @ [CHR 0xE9] @ ''e''"

text \<open>The dictionary over the sources of a registry: the last entry of an id counts.\<close>

definition sources_by_id :: "registry \<Rightarrow> string \<Rightarrow> (product \<times> product_source) option" where
  "sources_by_id reg = map_of (rev [(src_id s, (p, s)). p \<leftarrow> reg_products reg, s \<leftarrow> prod_sources p])"

definition dashboard_row_of :: "registry \<Rightarrow> scrape_record \<Rightarrow> dashboard_row" where
  "dashboard_row_of reg rec =
     (case sources_by_id reg (rec_source_id rec) of
        Some (p, s) \<Rightarrow> \<lparr> dr_record = rec, dr_product_name = product_label p, dr_site = src_site s, dr_url = Some (src_url s) \<rparr>
      | None \<Rightarrow> \<lparr> dr_record = rec, dr_product_name = REMOVED_SOURCE, dr_site = ''--'', dr_url = None \<rparr>)"

definition briefing_of :: "scrape_record list \<Rightarrow> briefing" where
  "briefing_of recs =
     (let n = (\<lambda>st. length (filter (\<lambda>r. rec_status r = st) recs))
      in \<lparr> br_ok = n OK, br_indeterminate = n INDETERMINATE, br_unavailable = n UNAVAILABLE,
           br_to_watch = n INDETERMINATE + n UNAVAILABLE \<rparr>)"

definition dashboard :: "moment \<Rightarrow> principal \<Rightarrow> handler" where
  "dashboard mo pr st =
     (let owner = p_owner_id pr
      in case latest_all (ws_state st) owner of
           Inl e \<Rightarrow> (Crash e, st)
         | Inr recs \<Rightarrow>
             (ok_page (DashboardPage (map (dashboard_row_of (load (ws_config st) owner)) recs) (briefing_of recs)
                (status_for (ws_queue st) owner) (cooldown_remaining_seconds (ws_queue st) (mo_monotonic mo) owner)
                (if p_role pr = ''admin'' \<and> backlog_warning_active (ws_queue st) then Some (queued_count (ws_queue st)) else None)),
              st))"

definition post_run :: "moment \<Rightarrow> principal \<Rightarrow> handler" where
  "post_run mo pr st =
     (see_other ''/'', st\<lparr> ws_queue := snd (enqueue (ws_queue st) (mo_monotonic mo) (p_owner_id pr)) \<rparr>)"

definition get_history :: "string \<Rightarrow> principal \<Rightarrow> handler" where
  "get_history sid pr st =
     (case sources_by_id (load (ws_config st) (p_owner_id pr)) sid of
        None \<Rightarrow> (not_found, st)
      | Some (p, s) \<Rightarrow>
          (case history (ws_state st) (p_owner_id pr) sid 50 of
             Inl e \<Rightarrow> (Crash e, st)
           | Inr recs \<Rightarrow> (ok_page (HistoryPage recs sid (product_label p) (src_site s)), st)))"

section \<open>Products and sources\<close>

definition render_products :: "principal \<Rightarrow> form_error option \<Rightarrow> nat \<Rightarrow> web_state \<Rightarrow> answer" where
  "render_products pr form_error status st =
     Answer (Html status (ProductsPage (load (ws_config st) (p_owner_id pr)) form_error) None)"

definition get_products :: "principal \<Rightarrow> handler" where
  "get_products pr st = (render_products pr None 200 st, st)"

text \<open>\<open>except (ValueError, KeyError)\<close>: the errors of the domain; any other exception leaves the handler.\<close>

definition domain_error :: "exn \<Rightarrow> bool" where
  "domain_error e \<longleftrightarrow> is_value_error e \<or> is_key_error e"

definition none_if_empty :: "string \<Rightarrow> string option" where
  "none_if_empty s = (if s = [] then None else Some s)"

definition add_product :: "string \<Rightarrow> string \<Rightarrow> principal \<Rightarrow> handler" where
  "add_product key nm pr st =
     (case svc_add_product (ws_config st) (p_owner_id pr) (py_strip key) (none_if_empty (py_strip nm)) of
        Inl e \<Rightarrow>
          if domain_error e
          then (render_products pr (Some BadProductKey) 400 st, st)
          else (Crash e, st)
      | Inr (_, db) \<Rightarrow> (see_other ''/products'', st\<lparr> ws_config := db \<rparr>))"

definition add_source :: "'w web_env \<Rightarrow> string \<Rightarrow> string \<Rightarrow> string \<Rightarrow> principal \<Rightarrow> handler" where
  "add_source we key site url pr st =
     (case svc_add_source (we_sha we) (we_router we) catalogue_policy (ws_config st) (p_owner_id pr) (py_strip key)
             (py_strip site) (py_strip url) of
        Inl e \<Rightarrow>
          if domain_error e
          then (render_products pr (Some SourceRefused) 400 st, st)
          else (Crash e, st)
      | Inr (_, db) \<Rightarrow> (see_other ''/products'', st\<lparr> ws_config := db \<rparr>))"

text \<open>A write that raises KeyError for an id the owner does not have: answered with 404.\<close>

definition or_not_found :: "config_db result \<Rightarrow> answer \<Rightarrow> handler" where
  "or_not_found r done st =
     (case r of
        Inl e \<Rightarrow> if is_key_error e then (not_found, st) else (Crash e, st)
      | Inr db \<Rightarrow> (done, st\<lparr> ws_config := db \<rparr>))"

definition delete_product :: "string \<Rightarrow> principal \<Rightarrow> handler" where
  "delete_product key pr st =
     or_not_found (remove_product (ws_config st) (p_owner_id pr) key) (Answer (NoContent ''/products'')) st"

definition delete_source :: "string \<Rightarrow> principal \<Rightarrow> handler" where
  "delete_source sid pr st =
     (Answer (NoContent ''/products''), st\<lparr> ws_config := remove_source (ws_config st) (p_owner_id pr) sid \<rparr>)"

section \<open>Profile\<close>

definition profile_page ::
  "moment \<Rightarrow> principal \<Rightarrow> string option \<Rightarrow> issued_token option \<Rightarrow> email_note option \<Rightarrow> web_state \<Rightarrow> answer" where
  "profile_page mo pr email token note st =
     ok_page (ProfilePage (list_tokens (mo_time mo) (ws_auth st) pr) email token note)"

definition get_profile :: "moment \<Rightarrow> principal \<Rightarrow> handler" where
  "get_profile mo pr st = (profile_page mo pr (get_email (ws_auth st) pr) None None st, st)"

definition post_token :: "'w web_env \<Rightarrow> moment \<Rightarrow> principal \<Rightarrow> handler" where
  "post_token we mo pr st =
     (case create_token (we_sha we) (we_token_ttl we) (mo_time mo) (mo_secret mo) (mo_uuid mo) (ws_auth st) pr of
        Inl e \<Rightarrow> (Crash e, st)
      | Inr (issued, db) \<Rightarrow>
          (let st' = st\<lparr> ws_auth := db \<rparr>
           in (profile_page mo pr (get_email db pr) (Some issued) None st', st')))"

definition delete_token :: "string \<Rightarrow> principal \<Rightarrow> handler" where
  "delete_token tid pr st =
     (Answer (NoContent ''/profile''), st\<lparr> ws_auth := revoke_token (ws_auth st) pr tid \<rparr>)"

definition revoke_all_tokens :: "principal \<Rightarrow> handler" where
  "revoke_all_tokens pr st =
     (case revoke_all (ws_auth st) pr (p_owner_id pr) of
        Inl e \<Rightarrow> (Crash e, st)
      | Inr db \<Rightarrow> (Answer (Redirect ''/login'' ClearCookie), st\<lparr> ws_auth := db \<rparr>))"

definition post_email :: "moment \<Rightarrow> string \<Rightarrow> principal \<Rightarrow> handler" where
  "post_email mo email pr st =
     (let val = none_if_empty (py_strip email)
      in case set_email (ws_auth st) pr val of
           Inl e \<Rightarrow>
             (case e of
                EmailAlreadyTakenError _ \<Rightarrow> (profile_page mo pr val None (Some EmailTaken) st, st)
              | _ \<Rightarrow> if is_value_error e then (profile_page mo pr val None (Some EmailInvalid) st, st) else (Crash e, st))
         | Inr db \<Rightarrow>
             (let st' = st\<lparr> ws_auth := db \<rparr> in (profile_page mo pr val None (Some EmailSaved) st', st')))"

section \<open>Notifications\<close>

definition owner_sources :: "registry \<Rightarrow> picker_row list" where
  "owner_sources reg =
     [\<lparr> pk_source_id = src_id s, pk_product_name = product_label p, pk_site = src_site s, pk_url = src_url s \<rparr>.
        p \<leftarrow> reg_products reg, s \<leftarrow> prod_sources p]"

text \<open>\<open>_spec_from_job\<close>: \<open>int(...)\<close> of a field may raise ValueError.\<close>

definition spec_from_job :: "digest_job \<Rightarrow> bool \<Rightarrow> digest_job_spec result" where
  "spec_from_job job enabled =
     (let fields = split_ws (job_schedule_cron job);
          spec = (\<lambda>minute hour cron. \<lparr> sp_name = job_name job, sp_frequency_kind = job_frequency_kind job, sp_minute = minute,
                    sp_hour = hour, sp_cron_expr = cron, sp_timezone = job_timezone job, sp_template_id = job_template_id job,
                    sp_options = dump_job_options (job_options job), sp_enabled = enabled, sp_source_ids = [] \<rparr>)
      in if job_frequency_kind job = ''hourly'' \<and> 1 \<le> length fields
         then bindE (py_int (fields ! 0)) (\<lambda>m. Inr (spec m 0 None))
         else if job_frequency_kind job = ''daily'' \<and> 2 \<le> length fields
         then bindE (py_int (fields ! 0)) (\<lambda>m. bindE (py_int (fields ! 1)) (\<lambda>h. Inr (spec m h None)))
         else if job_frequency_kind job = ''cron'' then Inr (spec 0 0 (Some (job_schedule_cron job)))
         else Inr (spec 0 0 None))"

definition render_notifications :: "principal \<Rightarrow> form_error option \<Rightarrow> nat \<Rightarrow> web_state \<Rightarrow> answer" where
  "render_notifications pr form_error status st =
     (case list_jobs_with_status (ws_config st) (ws_state st) (p_owner_id pr) of
        Inl e \<Rightarrow> Crash e
      | Inr jobs \<Rightarrow>
          Answer (Html status (NotificationsPage jobs (owner_sources (load (ws_config st) (p_owner_id pr))) form_error) None))"

definition get_notifications :: "principal \<Rightarrow> handler" where
  "get_notifications pr st = (render_notifications pr None 200 st, st)"

record job_form =
  jf_name :: string
  jf_frequency_kind :: string
  jf_minute :: int
  jf_hour :: int
  jf_cron_expr :: string
  jf_timezone :: string
  jf_template_id :: string
  jf_show_pix :: "string option"
  jf_show_card :: "string option"
  jf_threshold :: string
  jf_source_ids :: "string list"

fun opt_float :: "pyfloat \<Rightarrow> opt_value" where
  "opt_float (Fin q) = OFloat q"
| "opt_float _ = Nonfinite"

definition form_options :: "job_form \<Rightarrow> raw_options result" where
  "form_options f =
     (let base = [(''show_pix'', OBool (jf_show_pix f \<noteq> None)), (''show_card'', OBool (jf_show_card f \<noteq> None))];
          threshold = py_strip (jf_threshold f)
      in if threshold = [] then Inr base
         else bindE (py_float threshold) (\<lambda>v. Inr (base @ [(''variation_threshold_pct'', opt_float v)])))"

definition form_spec :: "job_form \<Rightarrow> raw_options \<Rightarrow> digest_job_spec" where
  "form_spec f options =
     \<lparr> sp_name = py_strip (jf_name f), sp_frequency_kind = py_strip (jf_frequency_kind f), sp_minute = jf_minute f,
       sp_hour = jf_hour f, sp_cron_expr = none_if_empty (py_strip (jf_cron_expr f)), sp_timezone = py_strip (jf_timezone f),
       sp_template_id = py_strip (jf_template_id f), sp_options = options, sp_enabled = True,
       sp_source_ids = filter (\<lambda>s. s \<noteq> []) (jf_source_ids f) \<rparr>"

definition create_notification :: "'w web_env \<Rightarrow> moment \<Rightarrow> job_form \<Rightarrow> principal \<Rightarrow> handler" where
  "create_notification we mo f pr st =
     (case form_options f of
        Inl _ \<Rightarrow> (render_notifications pr (Some BadThreshold) 400 st, st)
      | Inr options \<Rightarrow>
          (case svc_create_job (we_zones we) (mo_uuid mo) (mo_now_iso mo) (ws_config st) pr (form_spec f options) of
             Inl e \<Rightarrow>
               if domain_error e then (render_notifications pr (Some JobRefused) 400 st, st) else (Crash e, st)
           | Inr (_, db) \<Rightarrow> (see_other ''/notifications'', st\<lparr> ws_config := db \<rparr>)))"

definition toggle_notification :: "'w web_env \<Rightarrow> string \<Rightarrow> principal \<Rightarrow> handler" where
  "toggle_notification we jid pr st =
     or_not_found
       (bindE (get_job (ws_config st) (p_owner_id pr) jid) (\<lambda>job.
        bindE (spec_from_job job (\<not> job_enabled job)) (\<lambda>spec.
        bindE (svc_update_job (we_zones we) (ws_config st) (p_owner_id pr) jid spec) (\<lambda>(_, db). Inr db))))
       (see_other ''/notifications'') st"

definition remove_notification :: "string \<Rightarrow> principal \<Rightarrow> handler" where
  "remove_notification jid pr st =
     or_not_found (delete_job (ws_config st) (p_owner_id pr) jid) (Answer (NoContent ''/notifications'')) st"

definition add_notification_source :: "string \<Rightarrow> string \<Rightarrow> principal \<Rightarrow> handler" where
  "add_notification_source jid sid pr st =
     or_not_found (bindE (add_job_source (ws_config st) (p_owner_id pr) jid (py_strip sid)) (\<lambda>(_, db). Inr db))
       (see_other ''/notifications'') st"

definition remove_notification_source :: "string \<Rightarrow> string \<Rightarrow> principal \<Rightarrow> handler" where
  "remove_notification_source jid sid pr st =
     (Answer (NoContent ''/notifications''),
      st\<lparr> ws_config := remove_job_source (ws_config st) (p_owner_id pr) jid sid \<rparr>)"

text \<open>The preview: the records and labels of the sources linked to the job, in the order of the job.\<close>

definition preview_urls :: "registry \<Rightarrow> digest_job \<Rightarrow> (string \<times> string) list" where
  "preview_urls reg job =
     [(sid, src_url s). sid \<leftarrow> job_source_ids job, Some (_, s) \<leftarrow> [sources_by_id reg sid]]"

definition preview_tier2_labels :: "registry \<Rightarrow> digest_job \<Rightarrow> (string \<times> string) list" where
  "preview_tier2_labels reg job =
     [(sid, the (site_tier2_label sc)). sid \<leftarrow> job_source_ids job,
        Some sc \<leftarrow> [map_of (reg_sites reg) (case sources_by_id reg sid of Some (_, s) \<Rightarrow> src_site s | None \<Rightarrow> [])],
        truthy (site_tier2_label sc)]"

definition preview_records :: "scrape_record list \<Rightarrow> digest_job \<Rightarrow> scrape_record list" where
  "preview_records recs job =
     [r. sid \<leftarrow> job_source_ids job, Some r \<leftarrow> [map_of (rev (map (\<lambda>r. (rec_source_id r, r)) recs)) sid]]"

definition preview_notification :: "'w web_env \<Rightarrow> moment \<Rightarrow> string \<Rightarrow> principal \<Rightarrow> handler" where
  "preview_notification we mo jid pr st =
     (case get_job (ws_config st) (p_owner_id pr) jid of
        Inl e \<Rightarrow> if is_key_error e then (not_found, st) else (Crash e, st)
      | Inr job \<Rightarrow>
          (let reg = load (ws_config st) (p_owner_id pr)
           in case bindE (latest_all (ws_state st) (p_owner_id pr)) (\<lambda>recs.
                   bindE (build_digest_view (we_calendar we) (we_strftime we) job (preview_records recs job) (mo_now_iso mo)
                            (preview_tier2_labels reg job) (preview_urls reg job) (catalogue_policy (ws_config st))
                            (source_labels reg))
                     (\<lambda>view. render_digest_html (we_jinja we) (job_template_id job) view)) of
                Inl e \<Rightarrow> (Crash e, st)
              | Inr doc \<Rightarrow> (ok_page (PreviewPage job doc), st)))"

section \<open>The tenant router\<close>

datatype tenant_route =
    GetDashboard | PostRun | GetHistory string
  | GetProducts | PostProduct string string | PostSource string string string | DeleteProduct string | DeleteSource string
  | GetProfile | PostToken | DeleteToken string | PostRevokeAll | PostEmail string
  | GetNotifications | PostNotification job_form | PostToggle string | DeleteNotification string
  | PostJobSource string string | DeleteJobSource string string | GetPreview string

fun tenant_handle :: "'w web_env \<Rightarrow> moment \<Rightarrow> tenant_route \<Rightarrow> principal \<Rightarrow> handler" where
  "tenant_handle we mo GetDashboard pr = dashboard mo pr"
| "tenant_handle we mo PostRun pr = post_run mo pr"
| "tenant_handle we mo (GetHistory sid) pr = get_history sid pr"
| "tenant_handle we mo GetProducts pr = get_products pr"
| "tenant_handle we mo (PostProduct key nm) pr = add_product key nm pr"
| "tenant_handle we mo (PostSource key site url) pr = add_source we key site url pr"
| "tenant_handle we mo (DeleteProduct key) pr = delete_product key pr"
| "tenant_handle we mo (DeleteSource sid) pr = delete_source sid pr"
| "tenant_handle we mo GetProfile pr = get_profile mo pr"
| "tenant_handle we mo PostToken pr = post_token we mo pr"
| "tenant_handle we mo (DeleteToken tid) pr = delete_token tid pr"
| "tenant_handle we mo PostRevokeAll pr = revoke_all_tokens pr"
| "tenant_handle we mo (PostEmail email) pr = post_email mo email pr"
| "tenant_handle we mo GetNotifications pr = get_notifications pr"
| "tenant_handle we mo (PostNotification f) pr = create_notification we mo f pr"
| "tenant_handle we mo (PostToggle jid) pr = toggle_notification we jid pr"
| "tenant_handle we mo (DeleteNotification jid) pr = remove_notification jid pr"
| "tenant_handle we mo (PostJobSource jid sid) pr = add_notification_source jid sid pr"
| "tenant_handle we mo (DeleteJobSource jid sid) pr = remove_notification_source jid sid pr"
| "tenant_handle we mo (GetPreview jid) pr = preview_notification we mo jid pr"

fun route_method :: "tenant_route \<Rightarrow> string" where
  "route_method GetDashboard = ''GET''"
| "route_method (GetHistory _) = ''GET''"
| "route_method GetProducts = ''GET''"
| "route_method GetProfile = ''GET''"
| "route_method GetNotifications = ''GET''"
| "route_method (GetPreview _) = ''GET''"
| "route_method (DeleteProduct _) = ''DELETE''"
| "route_method (DeleteSource _) = ''DELETE''"
| "route_method (DeleteToken _) = ''DELETE''"
| "route_method (DeleteNotification _) = ''DELETE''"
| "route_method (DeleteJobSource _ _) = ''DELETE''"
| "route_method _ = ''POST''"

text \<open>The dependencies of the router run before the handler: the session, then the token of an unsafe method.\<close>

definition tenant_serve :: "'w web_env \<Rightarrow> moment \<Rightarrow> http_request \<Rightarrow> tenant_route \<Rightarrow> handler" where
  "tenant_serve we mo rq route st =
     (if rq_method rq \<noteq> route_method route then (Refused (HTTPException 405 ''Method Not Allowed''), st)
      else case web_verify_session (we_sha we) (we_mac we) (we_secret we) (mo_time mo) (ws_auth st) rq of
        Inl e \<Rightarrow> (Refused e, st)
      | Inr pr \<Rightarrow>
          (case verify_csrf (we_mac we) (we_secret we) rq of
             Inl e \<Rightarrow> (Refused e, st)
           | Inr _ \<Rightarrow> tenant_handle we mo route pr st))"

section \<open>The admin router\<close>

record site_form =
  sf_name :: string
  sf_fetcher :: string
  sf_domain :: string
  sf_parser_kind :: string
  sf_parser_pix :: string
  sf_parser_card :: string
  sf_parser_availability :: string
  sf_tier2_label :: string

definition site_spec :: "site_form \<Rightarrow> site_config" where
  "site_spec f =
     \<lparr> site_name = py_strip (sf_name f), site_fetcher = py_strip (sf_fetcher f),
       site_parser = \<lparr> ps_kind = py_strip (sf_parser_kind f), ps_pix = none_if_empty (py_strip (sf_parser_pix f)),
         ps_card = none_if_empty (py_strip (sf_parser_card f)),
         ps_availability = none_if_empty (py_strip (sf_parser_availability f)) \<rparr>,
       site_domain = py_strip (sf_domain f), site_tier2_label = none_if_empty (py_strip (sf_tier2_label f)),
       site_subresource_domains = [] \<rparr>"

definition render_admin :: "principal \<Rightarrow> form_error option \<Rightarrow> string option \<Rightarrow> nat \<Rightarrow> web_state \<Rightarrow> answer" where
  "render_admin pr form_error saved status st =
     Answer (Html status (AdminPage (reg_sites (load (ws_config st) (p_owner_id pr))) form_error saved) None)"

definition post_site :: "'w web_env \<Rightarrow> site_form \<Rightarrow> principal \<Rightarrow> handler" where
  "post_site we f pr st =
     (let spec = site_spec f
      in case svc_add_site (we_router we) (ws_config st) pr spec of
           Inl (PermissionError _) \<Rightarrow> (render_admin pr (Some AdminOnly) None 403 st, st)
         | Inl _ \<Rightarrow> (render_admin pr (Some SiteRefused) None 400 st, st)
         | Inr db \<Rightarrow>
             (let st' = st\<lparr> ws_config := db \<rparr> in (render_admin pr None (Some (site_name spec)) 200 st', st')))"

datatype admin_route = GetWhoAmI | GetAdmin | PostSite site_form

fun admin_handle :: "'w web_env \<Rightarrow> admin_route \<Rightarrow> principal \<Rightarrow> handler" where
  "admin_handle we GetWhoAmI pr st = (Answer (Json 200 [(''role'', p_role pr)] None KeepCookie), st)"
| "admin_handle we GetAdmin pr st = (render_admin pr None None 200 st, st)"
| "admin_handle we (PostSite f) pr st = post_site we f pr st"

fun admin_method :: "admin_route \<Rightarrow> string" where
  "admin_method (PostSite _) = ''POST''"
| "admin_method _ = ''GET''"

definition admin_serve :: "'w web_env \<Rightarrow> moment \<Rightarrow> http_request \<Rightarrow> admin_route \<Rightarrow> handler" where
  "admin_serve we mo rq route st =
     (if rq_method rq \<noteq> admin_method route then (Refused (HTTPException 405 ''Method Not Allowed''), st)
      else case require_admin (web_verify_session (we_sha we) (we_mac we) (we_secret we) (mo_time mo) (ws_auth st) rq) of
        Inl e \<Rightarrow> (Refused e, st)
      | Inr pr \<Rightarrow>
          (case verify_csrf (we_mac we) (we_secret we) rq of
             Inl e \<Rightarrow> (Refused e, st)
           | Inr _ \<Rightarrow> admin_handle we route pr st))"

section \<open>The public router\<close>

text \<open>\<open>str(int(retry_after) + 1)\<close>: truncation towards zero.\<close>

definition retry_header :: "rat \<Rightarrow> nat" where
  "retry_header r = nat ((if 0 \<le> r then \<lfloor>r\<rfloor> else \<lceil>r\<rceil>) + 1)"

definition login_cookie :: "'w web_env \<Rightarrow> string \<Rightarrow> cookie_action" where
  "login_cookie we sid = SetCookie (issue_cookie (we_mac we) (we_secret we) sid) (we_session_ttl we div 1000000)"

definition login ::
  "'w web_env \<Rightarrow> moment \<Rightarrow> (nat \<Rightarrow> answer) \<Rightarrow> answer \<Rightarrow> (cookie_action \<Rightarrow> web_response) \<Rightarrow> string \<Rightarrow> string \<Rightarrow> handler" where
  "login we mo blocked failed done identifier password st =
     (case check_and_authenticate (we_verify we) (we_limits we) (mo_time mo) (ws_auth st) identifier password of
        ((who, retry_after), _, db) \<Rightarrow>
          (let st1 = st\<lparr> ws_auth := db \<rparr>
           in case retry_after of
                Some r \<Rightarrow> (blocked (retry_header r), st1)
              | None \<Rightarrow>
                  (case who of
                     None \<Rightarrow> (failed, st1)
                   | Some pr \<Rightarrow>
                       (case create_session (we_sha we) (we_session_ttl we) (mo_time mo) (mo_secret mo) db pr of
                          Inl e \<Rightarrow> (Crash e, st1)
                        | Inr (sid, db') \<Rightarrow> (Answer (done (login_cookie we sid)), st1\<lparr> ws_auth := db' \<rparr>)))))"

definition login_json :: "'w web_env \<Rightarrow> moment \<Rightarrow> string \<Rightarrow> string \<Rightarrow> handler" where
  "login_json we mo identifier =
     login we mo (\<lambda>retry. Answer (Json 429 [(''detail'', ''too many login attempts'')] (Some retry) KeepCookie))
       (Refused (HTTPException 401 ''invalid credentials'')) (Json 200 [(''status'', ''ok'')] None) identifier"

definition login_submit :: "'w web_env \<Rightarrow> moment \<Rightarrow> string \<Rightarrow> string \<Rightarrow> handler" where
  "login_submit we mo identifier =
     login we mo (\<lambda>retry. Answer (Html 429 (LoginPage True identifier) (Some retry)))
       (Answer (Html 401 (LoginPage True identifier) None)) (Redirect ''/'') identifier"

definition logout :: "'w web_env \<Rightarrow> moment \<Rightarrow> (cookie_action \<Rightarrow> web_response) \<Rightarrow> http_request \<Rightarrow> handler" where
  "logout we mo done rq st =
     (Answer (done ClearCookie),
      case read_cookie (we_mac we) (we_secret we) (rq_cookie rq) of
        None \<Rightarrow> st
      | Some sid \<Rightarrow>
          (case verify_session (we_sha we) (mo_time mo) (ws_auth st) sid of
             None \<Rightarrow> st
           | Some pr \<Rightarrow> st\<lparr> ws_auth := revoke_session (we_sha we) (ws_auth st) pr sid \<rparr>))"

definition logout_json :: "'w web_env \<Rightarrow> moment \<Rightarrow> http_request \<Rightarrow> handler" where
  "logout_json we mo = logout we mo (Json 200 [(''status'', ''ok'')] None)"

definition logout_submit :: "'w web_env \<Rightarrow> moment \<Rightarrow> http_request \<Rightarrow> handler" where
  "logout_submit we mo = logout we mo (Redirect ''/login'')"

definition login_form :: handler where
  "login_form st = (ok_page (LoginPage False []), st)"

section \<open>The session probe and the error pages\<close>

text \<open>\<open>protected.py\<close>: the router carries the session guard alone.\<close>

definition me :: "'w web_env \<Rightarrow> moment \<Rightarrow> http_request \<Rightarrow> handler" where
  "me we mo rq st =
     (case web_verify_session (we_sha we) (we_mac we) (we_secret we) (mo_time mo) (ws_auth st) rq of
        Inl e \<Rightarrow> (Refused e, st)
      | Inr pr \<Rightarrow> (Answer (Json 200 [(''role'', p_role pr)] None KeepCookie), st))"

datatype error_body = ErrorHtml nat string | ErrorJson nat string

definition wants_html :: "string option \<Rightarrow> bool" where
  "wants_html accept = (case accept of None \<Rightarrow> False | Some a \<Rightarrow> contains ''text/html'' a)"

fun auth_error_handler :: "string option \<Rightarrow> http_exception \<Rightarrow> error_body" where
  "auth_error_handler accept (HTTPException status detail) =
     (if status \<in> {401, 403} \<and> wants_html accept
      then ErrorHtml status (if status = 401 then ''errors/401.html'' else ''errors/403.html'')
      else ErrorJson status detail)"

end
