(* ===== verification/Web_Tenancy.thy ===== *)
theory Web_Tenancy
  imports Web_Routes
begin

text \<open>
  What one tenant can see and change through the web interface. The view of an owner is what the pages of that owner are
  computed from; requests of other owners respect it, and pages depend on nothing else.
\<close>

section \<open>The view of an owner\<close>

definition auth_view :: "auth_db \<Rightarrow> string \<Rightarrow> session_row list \<times> token_row list \<times> string option" where
  "auth_view db o1 =
     (filter (\<lambda>s. se_owner s = o1) (a_sessions db), filter (\<lambda>t. tk_owner t = o1) (a_tokens db), st_get_email db o1)"

definition queue_view :: "run_queue \<Rightarrow> string \<Rightarrow> run_status option \<times> rat option \<times> rat \<times> bool" where
  "queue_view q o1 =
     (map_of (q_status q) o1, map_of (q_done_monotonic q) o1, q_cooldown_seconds q, o1 \<in> set (q_members q))"

definition same_view :: "string \<Rightarrow> web_state \<Rightarrow> web_state \<Rightarrow> bool" where
  "same_view o1 s s' \<longleftrightarrow>
     owner_view (ws_config s) o1 = owner_view (ws_config s') o1 \<and> c_sites (ws_config s) = c_sites (ws_config s')
     \<and> owner_rows (ws_state s) o1 = owner_rows (ws_state s') o1 \<and> owner_runs (ws_state s) o1 = owner_runs (ws_state s') o1
     \<and> auth_view (ws_auth s) o1 = auth_view (ws_auth s') o1 \<and> queue_view (ws_queue s) o1 = queue_view (ws_queue s') o1"

lemma same_view_refl [simp]: "same_view o1 s s"
  by (simp add: same_view_def)

lemma same_view_trans [trans]: "same_view o1 a b \<Longrightarrow> same_view o1 b c \<Longrightarrow> same_view o1 a c"
  by (simp add: same_view_def)

section \<open>Writes respect the view of others\<close>

lemma auth_view_simps:
  assumes "owner \<noteq> o1"
  shows "auth_view (st_revoke_token db owner tid) o1 = auth_view db o1"
    "auth_view (revoke_owner_tokens db owner) o1 = auth_view db o1"
    "auth_view (delete_owner_sessions db owner) o1 = auth_view db o1"
proof -
  have t: "filter (\<lambda>t. tk_owner t = o1) (map (\<lambda>t. if tk_owner t = owner \<and> P t then t\<lparr> tk_state := s \<rparr> else t) ts)
      = filter (\<lambda>t. tk_owner t = o1) ts" for P s ts
    using assms by (induction ts) auto
  show "auth_view (st_revoke_token db owner tid) o1 = auth_view db o1"
    by (simp add: auth_view_def st_revoke_token_def st_get_email_def t)
  show "auth_view (revoke_owner_tokens db owner) o1 = auth_view db o1"
    using t [of "\<lambda>_. True"] by (simp add: auth_view_def revoke_owner_tokens_def st_get_email_def)
  show "auth_view (delete_owner_sessions db owner) o1 = auth_view db o1"
    using assms by (auto simp: auth_view_def delete_owner_sessions_def st_get_email_def intro!: filter_cong)
qed

lemma auth_view_set_email:
  "owner \<noteq> o1 \<Longrightarrow> st_set_email db owner email = Inr db' \<Longrightarrow> auth_view db' o1 = auth_view db o1"
proof -
  assume ne: "owner \<noteq> o1"
  have f: "List.find (\<lambda>r. ow_id r = o1) (map (\<lambda>r. if ow_id r = owner then r\<lparr> ow_email := e \<rparr> else r) rs)
      = List.find (\<lambda>r. ow_id r = o1) rs" for rs e
    using ne by (induction rs) auto
  assume "st_set_email db owner email = Inr db'"
  then show ?thesis by (auto simp: st_set_email_def auth_view_def st_get_email_def f split: if_splits)
qed

lemma auth_view_create_token:
  "p_owner_id pr \<noteq> o1 \<Longrightarrow> create_token sha ttl t secret tid db pr = Inr (it, db') \<Longrightarrow> auth_view db' o1 = auth_view db o1"
  by (auto simp: create_token_def st_create_token_def auth_view_def st_get_email_def bindE_Inr_iff split: if_splits)

lemma queue_view_enqueue: "owner \<noteq> o1 \<Longrightarrow> queue_view (snd (enqueue q now owner)) o1 = queue_view q o1"
  by (auto simp: enqueue_def set_status_def check_backlog_warning_def queue_view_def Let_def update_conv')

text \<open>A tenant request writes the configuration by at most one operation of its owner; the jobs it stores passed the
  checks of the service.\<close>

definition job_checked :: "string list \<Rightarrow> digest_job \<Rightarrow> bool" where
  "job_checked zones j \<longleftrightarrow>
     (\<exists>minute hour expr. normalize_schedule (job_frequency_kind j) minute hour expr = Inr (job_schedule_cron j))
     \<and> job_timezone j \<in> set zones \<and> job_template_id j \<in> set VALID_TEMPLATE_IDS \<and> options_ok (job_options j)"

lemma job_checkedI: "checked_job zones owner jid created spec = Inr j \<Longrightarrow> job_checked zones j"
  by (auto simp: checked_job_def job_checked_def bindE_Inr_iff validate_timezone_def validate_template_id_def
      parse_job_options_ok intro!: exI)

fun op_checked :: "string list \<Rightarrow> config_op \<Rightarrow> bool" where
  "op_checked zones (CreateJob j sids) = job_checked zones j"
| "op_checked zones (UpdateJob jid j) = job_checked zones j"
| "op_checked zones _ = True"

lemma op_checked_options: "op_checked zones op \<Longrightarrow> op_options_ok op"
  by (cases op) (auto simp: job_checked_def)

definition config_written :: "string list \<Rightarrow> config_db \<Rightarrow> string \<Rightarrow> config_db \<Rightarrow> bool" where
  "config_written zones db owner db' \<longleftrightarrow> db' = db \<or> (\<exists>op. op_checked zones op \<and> db' = apply_op db owner op)"

lemma config_written_refl [simp]: "config_written zones db owner db"
  by (simp add: config_written_def)

lemma config_written_op: "op_checked zones op \<Longrightarrow> db' = apply_op db owner op \<Longrightarrow> config_written zones db owner db'"
  by (auto simp: config_written_def)

lemma config_written_service:
  "svc_add_product db owner key nm = Inr (p, db') \<Longrightarrow> config_written zones db owner db'"
  "svc_add_source sha router policy db owner key site url = Inr (s, db') \<Longrightarrow> config_written zones db owner db'"
  "svc_create_job zones uuid now db pr spec = Inr (j, db') \<Longrightarrow> config_written zones db (p_owner_id pr) db'"
  "svc_update_job zones db owner jid spec = Inr (j, db') \<Longrightarrow> config_written zones db owner db'"
  "remove_product db owner key = Inr db' \<Longrightarrow> config_written zones db owner db'"
  "delete_job db owner jid = Inr db' \<Longrightarrow> config_written zones db owner db'"
  "add_job_source db owner jid sid = Inr (b, db') \<Longrightarrow> config_written zones db owner db'"
  "config_written zones db owner (remove_source db owner sid)"
  "config_written zones db owner (remove_job_source db owner jid sid)"
proof -
  show "config_written zones db owner db'" if "svc_add_product db owner key nm = Inr (p, db')"
  proof (rule config_written_op)
    show "db' = apply_op db owner (AddProduct p)" using that
      by (auto simp: svc_add_product_def bindE_Inr_iff Let_def split: if_splits)
  qed simp
  show "config_written zones db owner db'" if "svc_add_source sha router policy db owner key site url = Inr (s, db')"
  proof (rule config_written_op)
    show "db' = apply_op db owner (AddSource s)" using that
      by (auto simp: svc_add_source_def bindE_Inr_iff Let_def or_keep_def split: if_splits option.splits)
  qed simp
  show "config_written zones db (p_owner_id pr) db'" if c: "svc_create_job zones uuid now db pr spec = Inr (j, db')"
  proof -
    obtain job where job: "checked_job zones (p_owner_id pr) uuid (Some now) spec = Inr job"
        "create_job_row db (p_owner_id pr) job (sp_source_ids spec) = Inr (j, db')"
      using c by (auto simp: svc_create_job_def bindE_Inr_iff split: if_splits)
    show ?thesis
      by (rule config_written_op [of _ "CreateJob job (sp_source_ids spec)"])
        (simp_all add: job or_keep_snd_def job_checkedI [OF job(1)])
  qed
  show "config_written zones db owner db'" if u: "svc_update_job zones db owner jid spec = Inr (j, db')"
  proof -
    obtain job where job: "checked_job zones owner jid None spec = Inr job" "update_job_row db owner jid job = Inr (j, db')"
      using u by (auto simp: svc_update_job_def bindE_Inr_iff split: if_splits)
    show ?thesis
      by (rule config_written_op [of _ "UpdateJob jid job"]) (simp_all add: job or_keep_snd_def job_checkedI [OF job(1)])
  qed
  show "config_written zones db owner db'" if "remove_product db owner key = Inr db'"
    by (rule config_written_op [of _ "RemoveProduct key"]) (simp_all add: that or_keep_def)
  show "config_written zones db owner db'" if "delete_job db owner jid = Inr db'"
    by (rule config_written_op [of _ "DeleteJob jid"]) (simp_all add: that or_keep_def)
  show "config_written zones db owner db'" if "add_job_source db owner jid sid = Inr (b, db')"
    by (rule config_written_op [of _ "AddJobSource jid sid"]) (simp_all add: that or_keep_snd_def)
  show "config_written zones db owner (remove_source db owner sid)"
    by (rule config_written_op [of _ "RemoveSource sid"]) simp_all
  show "config_written zones db owner (remove_job_source db owner jid sid)"
    by (rule config_written_op [of _ "RemoveJobSource jid sid"]) simp_all
qed

lemmas handler_defs = dashboard_def post_run_def get_history_def get_products_def add_product_def add_source_def
  delete_product_def delete_source_def get_profile_def post_token_def delete_token_def revoke_all_tokens_def
  post_email_def get_notifications_def create_notification_def toggle_notification_def remove_notification_def
  add_notification_source_def remove_notification_source_def preview_notification_def or_not_found_def

lemma tenant_config_written:
  "config_written (we_zones we) (ws_config st) (p_owner_id pr) (ws_config (snd (tenant_handle we mo route pr st)))"
proof (cases route)
  case (PostToggle jid)
  then show ?thesis
    by (auto simp: toggle_notification_def or_not_found_def bindE_Inr_iff config_written_service split: sum.splits if_splits)
next
  case (PostJobSource jid sid)
  then show ?thesis
    by (auto simp: add_notification_source_def or_not_found_def bindE_Inr_iff config_written_service split: sum.splits if_splits)
qed (auto simp: handler_defs Let_def config_written_service split: sum.splits option.splits prod.splits if_splits exn.splits)

lemma config_written_respects:
  assumes "config_inv db" "config_written zones db owner db'"
  shows "config_inv db'" "c_sites db' = c_sites db" "owner \<noteq> o1 \<Longrightarrow> owner_view db' o1 = owner_view db o1"
  using assms by (auto simp: config_written_def apply_op_inv op_checked_options apply_op_sites apply_op_view)

lemma tenant_state_kept: "ws_state (snd (tenant_handle we mo route pr st)) = ws_state st"
  by (cases route) (auto simp: handler_defs Let_def split: sum.splits option.splits prod.splits if_splits exn.splits)

lemma tenant_auth_respects:
  assumes "p_owner_id pr \<noteq> o1"
  shows "auth_view (ws_auth (snd (tenant_handle we mo route pr st))) o1 = auth_view (ws_auth st) o1"
proof -
  have email: "auth_view db' o1 = auth_view db o1" if "set_email db pr val = Inr db'" for db db' val
    using that assms by (auto simp: set_email_def intro: auth_view_set_email split: option.splits if_splits)
  have all: "auth_view db' o1 = auth_view db o1" if "revoke_all db pr (p_owner_id pr) = Inr db'" for db db'
    using that assms by (auto simp: revoke_all_def auth_view_simps)
  show ?thesis
    using assms
    by (cases route) (auto simp: handler_defs Let_def revoke_token_def auth_view_simps email all auth_view_create_token
        split: sum.splits option.splits prod.splits if_splits exn.splits)
qed

lemma tenant_queue_respects:
  "p_owner_id pr \<noteq> o1 \<Longrightarrow> queue_view (ws_queue (snd (tenant_handle we mo route pr st))) o1 = queue_view (ws_queue st) o1"
  by (cases route) (auto simp: handler_defs Let_def queue_view_enqueue
      split: sum.splits option.splits prod.splits if_splits exn.splits)

lemma tenant_respects:
  assumes "config_inv (ws_config st)" "p_owner_id pr \<noteq> o1"
  shows "same_view o1 (snd (tenant_handle we mo route pr st)) st"
    "config_inv (ws_config (snd (tenant_handle we mo route pr st)))"
  using config_written_respects [OF assms(1) tenant_config_written [of we st pr mo route]] assms(2)
  by (auto simp: same_view_def tenant_state_kept tenant_auth_respects tenant_queue_respects)

section \<open>Pages depend on the view\<close>

lemma list_tokens_view:
  assumes "auth_view db o1 = auth_view db' o1" "p_owner_id pr = o1"
  shows "list_tokens t db pr = list_tokens t db' pr" "get_email db pr = get_email db' pr"
proof -
  have split: "filter (\<lambda>k. tk_owner k = o1 \<and> P k \<and> Q k) ts = filter (\<lambda>k. P k \<and> Q k) (filter (\<lambda>k. tk_owner k = o1) ts)"
    for P Q ts by (simp only: filter_filter)
  from assms(1) have tokens: "filter (\<lambda>k. tk_owner k = o1) (a_tokens db) = filter (\<lambda>k. tk_owner k = o1) (a_tokens db')"
    by (simp only: auth_view_def prod.inject)
  show "list_tokens t db pr = list_tokens t db' pr"
    by (simp only: list_tokens_def st_list_tokens_def assms(2) split tokens)
  from assms show "get_email db pr = get_email db' pr" by (simp add: get_email_def auth_view_def)
qed

lemma queue_reads_view:
  assumes "queue_view q o1 = queue_view q' o1"
  shows "status_for q o1 = status_for q' o1" "cooldown_remaining_seconds q t o1 = cooldown_remaining_seconds q' t o1"
proof -
  have eqs: "map_of (q_status q) o1 = map_of (q_status q') o1" "map_of (q_done_monotonic q) o1 = map_of (q_done_monotonic q') o1"
      "q_cooldown_seconds q = q_cooldown_seconds q'" "(o1 \<in> set (q_members q)) = (o1 \<in> set (q_members q'))"
    using assms by (simp_all add: queue_view_def)
  show "status_for q o1 = status_for q' o1" "cooldown_remaining_seconds q t o1 = cooldown_remaining_seconds q' t o1"
    by (unfold status_for_def cooldown_remaining_seconds_def eqs, rule refl, rule refl)
qed

lemma state_reads_view:
  assumes "owner_rows db o1 = owner_rows db' o1"
  shows "latest_all db o1 = latest_all db' o1" "history db o1 sid n = history db' o1 sid n"
  using assms by (simp_all add: latest_all_def history_def source_rows_def)

lemma page_depends_on_view:
  assumes view: "same_view (p_owner_id pr) st st'" and role: "p_role pr \<noteq> ''admin''" and get: "route_method route = ''GET''"
  shows "fst (tenant_handle we mo route pr st) = fst (tenant_handle we mo route pr st')"
proof -
  note v = view [unfolded same_view_def]
  have reads: "load (ws_config st) (p_owner_id pr) = load (ws_config st') (p_owner_id pr)"
      "list_jobs (ws_config st) (p_owner_id pr) = list_jobs (ws_config st') (p_owner_id pr)"
      "get_job (ws_config st) (p_owner_id pr) j = get_job (ws_config st') (p_owner_id pr) j" for j
    using reads_view [of "ws_config st" "p_owner_id pr" "ws_config st'"] v by blast+
  have rows: "owner_rows (ws_state st) (p_owner_id pr) = owner_rows (ws_state st') (p_owner_id pr)" using v by blast
  have runs: "latest_job_runs (ws_state st) (p_owner_id pr) = latest_job_runs (ws_state st') (p_owner_id pr)"
    using latest_job_runs_owner [of "ws_state st" "p_owner_id pr" "ws_state st'"] v by blast
  have jobs: "list_jobs_with_status (ws_config st) (ws_state st) (p_owner_id pr)
      = list_jobs_with_status (ws_config st') (ws_state st') (p_owner_id pr)"
    by (simp add: list_jobs_with_status_def reads runs)
  have "queue_view (ws_queue st) (p_owner_id pr) = queue_view (ws_queue st') (p_owner_id pr)" using v by blast
  note queue = queue_reads_view [OF this]
  have policy: "catalogue_policy (ws_config st) = catalogue_policy (ws_config st')"
    using v by (simp add: catalogue_policy_def site_domains_def)
  have auth: "auth_view (ws_auth st) (p_owner_id pr) = auth_view (ws_auth st') (p_owner_id pr)" using v by blast
  show ?thesis
    using get role
    by (cases route) (auto simp: handler_defs Let_def render_products_def render_notifications_def profile_page_def reads jobs
        queue policy state_reads_view [OF rows] list_tokens_view [OF auth refl]
        split: sum.splits option.splits prod.splits if_splits)
qed

lemma get_has_no_effect: "route_method route = ''GET'' \<Longrightarrow> snd (tenant_handle we mo route pr st) = st"
  by (cases route) (auto simp: handler_defs Let_def split: sum.splits option.splits prod.splits if_splits)

section \<open>Tenants cannot observe each other\<close>

text \<open>The contract of a system shared by several owners: a step of one owner keeps the invariant and the view of every other
  owner, and what an owner observes depends on the view alone.\<close>

locale tenant_isolation =
  fixes step :: "'r \<Rightarrow> 's \<Rightarrow> 's"
    and owner_of :: "'r \<Rightarrow> 'o"
    and same :: "'o \<Rightarrow> 's \<Rightarrow> 's \<Rightarrow> bool"
    and inv :: "'s \<Rightarrow> bool"
    and observe :: "'o \<Rightarrow> 'q \<Rightarrow> 's \<Rightarrow> 'a"
  assumes same_refl: "same o1 s s"
    and same_trans: "same o1 s s' \<Longrightarrow> same o1 s' s'' \<Longrightarrow> same o1 s s''"
    and inv_step: "inv s \<Longrightarrow> inv (step r s)"
    and respects: "inv s \<Longrightarrow> owner_of r \<noteq> o1 \<Longrightarrow> same o1 (step r s) s"
    and consistent: "same o1 s s' \<Longrightarrow> observe o1 q s = observe o1 q s'"
begin

lemma run_respects:
  assumes "inv s" "list_all (\<lambda>r. owner_of r \<noteq> o1) rs"
  shows "same o1 (fold step rs s) s \<and> inv (fold step rs s)"
  using assms
proof (induction rs arbitrary: s)
  case (Cons r rs)
  have "same o1 (fold step rs (step r s)) (step r s) \<and> inv (fold step rs (step r s))"
    by (rule Cons.IH) (use Cons.prems inv_step in auto)
  moreover have "same o1 (step r s) s" using Cons.prems respects by simp
  ultimately show ?case by (auto intro: same_trans)
qed (simp add: same_refl)

lemma noninterference:
  "inv s \<Longrightarrow> list_all (\<lambda>r. owner_of r \<noteq> o1) rs \<Longrightarrow> observe o1 q (fold step rs s) = observe o1 q s"
  using run_respects consistent by blast

end

text \<open>Requests that passed the guards, each with its moment, its route and its principal.\<close>

type_synonym served_request = "moment \<times> tenant_route \<times> principal"

definition serve_step :: "'w web_env \<Rightarrow> served_request \<Rightarrow> web_state \<Rightarrow> web_state" where
  "serve_step we req st = (case req of (mo, route, pr) \<Rightarrow> snd (tenant_handle we mo route pr st))"

definition tenant_run :: "'w web_env \<Rightarrow> served_request list \<Rightarrow> web_state \<Rightarrow> web_state" where
  "tenant_run we reqs st = fold (serve_step we) reqs st"

definition requester :: "served_request \<Rightarrow> string" where
  "requester req = p_owner_id (snd (snd req))"

text \<open>The answer to a page request of an owner who is no administrator.\<close>

definition page_for :: "'w web_env \<Rightarrow> string \<Rightarrow> moment \<times> tenant_route \<times> string \<Rightarrow> web_state \<Rightarrow> answer option" where
  "page_for we owner q st =
     (case q of (mo, route, role) \<Rightarrow>
        if route_method route = ''GET'' \<and> role \<noteq> ''admin''
        then Some (fst (tenant_handle we mo route \<lparr> p_owner_id = owner, p_role = role \<rparr> st)) else None)"

interpretation web: tenant_isolation "serve_step we" requester same_view "\<lambda>st. config_inv (ws_config st)" "page_for we" for we
proof unfold_locales
  fix st :: web_state and r :: served_request and o1
  assume inv: "config_inv (ws_config st)"
  obtain mo route pr where r: "r = (mo, route, pr)" by (cases r)
  show "config_inv (ws_config (serve_step we r st))"
    using config_written_respects(1) [OF inv tenant_config_written [of we st pr mo route]] by (simp add: serve_step_def r)
  show "same_view o1 (serve_step we r st) st" if "requester r \<noteq> o1"
    using that tenant_respects(1) [OF inv, of pr o1 we mo route] by (simp add: serve_step_def requester_def r)
next
  fix o1 s s' q
  assume "same_view o1 s s'"
  then show "page_for we o1 q s = page_for we o1 q s'"
    using page_depends_on_view [of "\<lparr> p_owner_id = o1, p_role = snd (snd q) \<rparr>" s s' "fst (snd q)" we "fst q"]
    by (auto simp: page_for_def split: prod.splits)
qed (auto intro: same_view_trans)

lemmas tenant_run_respects = web.run_respects [folded tenant_run_def]


definition sample_env :: "nat web_env" where
  "sample_env = \<lparr> we_sha = (\<lambda>s. s), we_mac = (\<lambda>k m. if m = ''s'' then ''ab'' else ''cd''), we_secret = ''k'', we_session_ttl = 1000, we_token_ttl = 1000,
     we_verify = (\<lambda>h p. h = p), we_limits = \<lparr> lim_window = 60, lim_max_attempts = 3, lim_row_cap = 10 \<rparr>, we_router = http_router,
     we_zones = [''UTC''], we_calendar = fixed_calendar, we_strftime = noon, we_jinja = (\<lambda>f v. f) \<rparr>"

definition sample_moment :: moment where
  "sample_moment = \<lparr> mo_time = 0, mo_monotonic = 0, mo_now_iso = ''t'', mo_uuid = ''u'', mo_secret = ''z'' \<rparr>"

definition sample_web :: web_state where
  "sample_web = \<lparr> ws_config = sample_config, ws_state = empty_state,
     ws_auth = sample_auth\<lparr> a_sessions := [\<lparr> se_hash = ''s'', se_owner = ''o1'', se_created_at = [], se_expires_at = ''1'' \<rparr>] \<rparr>,
     ws_queue = new_queue 3 60 5 \<rparr>"

definition ana :: principal where
  "ana = \<lparr> p_owner_id = ''ana'', p_role = ''user'' \<rparr>"


section \<open>The write surface\<close>

definition carries_session :: "'w web_env \<Rightarrow> moment \<Rightarrow> http_request \<Rightarrow> auth_db \<Rightarrow> principal \<Rightarrow> bool" where
  "carries_session we mo rq db pr \<longleftrightarrow>
     (\<exists>sid. rq_cookie rq = Some (issue_cookie (we_mac we) (we_secret we) sid)
        \<and> resolve_session db (we_sha we sid) (isoformat (mo_time mo)) = Some (p_owner_id pr, p_role pr)
        \<and> submitted_token rq = Some (issue_csrf (we_mac we) (we_secret we) sid))"

lemma served_principal:
  assumes "web_verify_session (we_sha we) (we_mac we) (we_secret we) (mo_time mo) db rq = Inr pr"
    and "verify_csrf (we_mac we) (we_secret we) rq = Inr ()" "rq_method rq \<notin> set SAFE_METHODS"
  shows "carries_session we mo rq db pr"
proof -
  obtain sid where sid: "read_cookie (we_mac we) (we_secret we) (rq_cookie rq) = Some sid"
    and tok: "submitted_token rq = Some (issue_csrf (we_mac we) (we_secret we) sid)"
    using assms(2,3) by (auto simp: verify_csrf_def split: option.splits if_splits)
  have "verify_session (we_sha we) (mo_time mo) db sid = Some pr"
    using assms(1) sid by (auto simp: web_verify_session_def split: option.splits)
  then have "resolve_session db (we_sha we sid) (isoformat (mo_time mo)) = Some (p_owner_id pr, p_role pr)"
    by (auto simp: verify_session_def principal_of_def)
  then show ?thesis using read_cookie_Some [OF sid] tok by (auto simp: carries_session_def)
qed

lemma unsafe_method: "route_method route \<in> set SAFE_METHODS \<Longrightarrow> route_method route = ''GET''"
  by (cases route) (simp_all add: SAFE_METHODS_def)

text \<open>C17: What a request must carry to change anything through the tenant and the admin router. A request that changes the state
  has the signed cookie of a live session and, in its header or form, the token of that session. Through the tenant router it
  leaves the scrape history and everything other owners see as it was; through the admin router the session is that of an
  administrator and the change is the registration of the one submitted site.\<close>

theorem web_write_surface:
  assumes "config_inv (ws_config st)" and "st' \<noteq> st"
  shows "(snd (tenant_serve we mo rq route st) = st' \<longrightarrow>
       (\<exists>pr. carries_session we mo rq (ws_auth st) pr \<and> ws_state st' = ws_state st
          \<and> (\<forall>o1. o1 \<noteq> p_owner_id pr \<longrightarrow> same_view o1 st' st)))
     \<and> (snd (admin_serve we mo rq aroute st) = st' \<longrightarrow>
       (\<exists>pr f. carries_session we mo rq (ws_auth st) pr \<and> p_role pr = ''admin'' \<and> aroute = PostSite f
          \<and> st' = st\<lparr> ws_config := add_site_row (ws_config st) (site_spec f) \<rparr>))"
proof (intro conjI impI)
  assume served: "snd (tenant_serve we mo rq route st) = st'"
  then obtain pr where pr: "web_verify_session (we_sha we) (we_mac we) (we_secret we) (mo_time mo) (ws_auth st) rq = Inr pr"
      "verify_csrf (we_mac we) (we_secret we) rq = Inr ()" "rq_method rq = route_method route"
      "st' = snd (tenant_handle we mo route pr st)"
    using assms(2) by (auto simp: tenant_serve_def split: if_splits sum.splits)
  have "rq_method rq \<notin> set SAFE_METHODS"
    using pr(3,4) assms(2) unsafe_method [of route] get_has_no_effect [of route we mo pr st] by auto
  from served_principal [OF pr(1,2) this] show "\<exists>pr. carries_session we mo rq (ws_auth st) pr \<and> ws_state st' = ws_state st
      \<and> (\<forall>o1. o1 \<noteq> p_owner_id pr \<longrightarrow> same_view o1 st' st)"
    using tenant_respects(1) [OF assms(1), of pr _ we mo route] tenant_state_kept [of we mo route pr st] by (intro exI [of _ pr]) (auto simp: pr(4))
next
  assume served: "snd (admin_serve we mo rq aroute st) = st'"
  then obtain pr where pr: "web_verify_session (we_sha we) (we_mac we) (we_secret we) (mo_time mo) (ws_auth st) rq = Inr pr"
      "p_role pr = ''admin''" "verify_csrf (we_mac we) (we_secret we) rq = Inr ()" "rq_method rq = admin_method aroute"
      "st' = snd (admin_handle we aroute pr st)"
    using assms(2) by (auto simp: admin_serve_def require_admin_def split: if_splits sum.splits)
  obtain f where f: "aroute = PostSite f" using pr(5) assms(2) by (cases aroute) auto
  have "st' = st\<lparr> ws_config := add_site_row (ws_config st) (site_spec f) \<rparr>"
    using pr(2,5) f assms(2)
    by (auto simp: post_site_def svc_add_site_def Let_def split: sum.splits exn.splits option.splits if_splits)
  moreover have "carries_session we mo rq (ws_auth st) pr"
    by (rule served_principal [OF pr(1,3)]) (simp add: pr(4) f SAFE_METHODS_def)
  ultimately show "\<exists>pr f. carries_session we mo rq (ws_auth st) pr \<and> p_role pr = ''admin'' \<and> aroute = PostSite f
      \<and> st' = st\<lparr> ws_config := add_site_row (ws_config st) (site_spec f) \<rparr>" using pr(2) f by blast
qed

theorem web_write_surface_witness:
  "\<exists>rq st'. st' \<noteq> sample_web \<and> snd (tenant_serve sample_env sample_moment rq PostRun sample_web) = st'
     \<and> (\<exists>pr. carries_session sample_env sample_moment rq (ws_auth sample_web) pr \<and> (\<forall>o1. o1 \<noteq> p_owner_id pr \<longrightarrow> same_view o1 st' sample_web))"
proof -
  let ?rq = "\<lparr> rq_method = ''POST'', rq_cookie = Some ''s.ab'', rq_csrf_header = Some ''cd'', rq_csrf_field = None, rq_authorization = None \<rparr>"
  let ?st = "snd (tenant_serve sample_env sample_moment ?rq PostRun sample_web)"
  have "q_queue (ws_queue ?st) = [''o1'']" by code_simp
  then have changed: "?st \<noteq> sample_web" by (auto simp: sample_web_def new_queue_def)
  have inv: "config_inv (ws_config sample_web)" by (simp add: sample_web_def sample_config_inv)
  from web_write_surface [OF inv changed, of sample_env sample_moment ?rq PostRun] changed show ?thesis by blast
qed

end
