(* ===== verification/Web_Templates.thy ===== *)
theory Web_Templates
  imports Digest Router Evaluator
begin

text \<open>
  The presentation filters of the web interface (\<open>interfaces/web/templates.py\<close>): prices, the three-state signal, the
  tier ladder, the cadence and the send outcome of a digest job.
\<close>

section \<open>Prices and the three states\<close>

definition format_brl :: "int option \<Rightarrow> string" where
  "format_brl cents =
     (case cents of
        None \<Rightarrow> ''--''
      | Some c \<Rightarrow>
          (let sign = (if c < 0 then ''-'' else []); reais = \<bar>c\<bar> div 100; centavos = \<bar>c\<bar> mod 100
           in sign @ ''R$ '' @ grouped (nat reais) @ '','' @ pad 2 (nat centavos)))"

text \<open>\<open>status.value if isinstance(status, ScrapeStatus) else str(status)\<close>\<close>

definition value_of :: "('e \<Rightarrow> string) \<Rightarrow> 'e + string \<Rightarrow> string" where
  "value_of val s = (case s of Inl e \<Rightarrow> val e | Inr str \<Rightarrow> str)"

definition label_of :: "(string \<times> string) list \<Rightarrow> string \<Rightarrow> string \<Rightarrow> string" where
  "label_of table def key = (case map_of table key of Some l \<Rightarrow> l | None \<Rightarrow> def)"

definition status_class :: "scrape_status + string \<Rightarrow> string" where
  "status_class status =
     label_of [(''ok'', ''ok''), (''indeterminate'', ''indet''), (''unavailable'', ''unavail'')] ''indet'' (value_of status_value status)"

definition status_label :: "scrape_status + string \<Rightarrow> string" where
  "status_label status =
     label_of [(''ok'', ''OK''), (''indeterminate'', ''Indetermine''), (''unavailable'', ''Indisponible'')] ''Indetermine''
       (value_of status_value status)"

definition availability_label :: "availability + string \<Rightarrow> string" where
  "availability_label a =
     label_of [(availability_value IN_STOCK, ''En stock''), (availability_value OUT_OF_STOCK, ''Rupture''),
       (availability_value UNKNOWN, ''Inconnu'')] ''Inconnu''
       (value_of availability_value a)"

section \<open>The tier ladder\<close>

definition TIER_COST_ORDER :: "string list" where
  "TIER_COST_ORDER = [''http'', ''tls'', ''browser'', ''uc'', ''camoufox'']"

fun rank_in :: "string list \<Rightarrow> string \<Rightarrow> nat" where
  "rank_in [] name = 0"
| "rank_in (x # xs) name = (if x = name then 0 else Suc (rank_in xs name))"

text \<open>The router's tiers come as a set; sorting makes the order independent of the enumeration.\<close>

definition ordered_tiers :: "string list \<Rightarrow> string list" where
  "ordered_tiers tiers = sort_key (\<lambda>name. (rank_in TIER_COST_ORDER name, name)) tiers"

definition TIER_LADDER :: "string list" where
  "TIER_LADDER = ordered_tiers known_tiers"

definition tier_level :: "string option \<Rightarrow> nat" where
  "tier_level method1 =
     (if \<not> truthy method1 then 0
      else let key = py_lower (py_strip (the method1)); i = rank_in TIER_LADDER key
           in if i < length TIER_LADDER then i + 1 else 0)"

section \<open>Digest jobs\<close>

text \<open>\<open>f"{i:02d}"\<close>: zero padding to a width of two, the sign included.\<close>

definition two_digits :: "int \<Rightarrow> string" where
  "two_digits i = (let s = string_of_int i in if length s < 2 then CHR ''0'' # s else s)"

definition schedule_label :: "digest_job \<Rightarrow> string" where
  "schedule_label job =
     (let cron = job_schedule_cron job; fields = split_ws cron;
          fallback = (if job_frequency_kind job = ''cron'' then ''Cron : '' @ cron else cron)
      in if job_frequency_kind job = ''hourly'' \<and> length fields = 5
         then (case py_int (fields ! 0) of Inl _ \<Rightarrow> fallback | Inr m \<Rightarrow> ''Chaque heure a :'' @ two_digits m)
         else if job_frequency_kind job = ''daily'' \<and> length fields = 5
         then (case bindE (py_int (fields ! 1)) (\<lambda>h. bindE (py_int (fields ! 0)) (\<lambda>m. Inr (h, m))) of
                 Inl _ \<Rightarrow> fallback
               | Inr (h, m) \<Rightarrow> ''Chaque jour a '' @ two_digits h @ '':'' @ two_digits m)
         else fallback)"

definition frequency_label :: "string \<Rightarrow> string" where
  "frequency_label kind = label_of [(''hourly'', ''Horaire''), (''daily'', ''Quotidien''), (''cron'', ''Cron'')] kind kind"

definition TEMPLATE_LABELS :: "(string \<times> string) list" where
  "TEMPLATE_LABELS = [(''default'', ''Standard'')]"

definition template_label :: "string \<Rightarrow> string" where
  "template_label tid = label_of TEMPLATE_LABELS tid tid"

section \<open>The outcome of a send\<close>

definition JOB_RUN_STATUS_CLASS :: "(string \<times> string) list" where
  "JOB_RUN_STATUS_CLASS = [(''sent'', ''sent''), (''error'', ''error''), (''skipped_no_email'', ''attention'')]"

definition JOB_RUN_STATUS_LABEL :: "(string \<times> string) list" where
  "JOB_RUN_STATUS_LABEL =
     [(''sent'', ''Envoy'' @ [CHR 0xE9]), (''error'', ''Erreur''), (''skipped_no_email'', ''Ajoutez un e-mail''),
      (''queued'', ''En file''), (''running'', ''En cours'')]"

definition JOB_RUN_ERROR_REFUSED :: "string list" where
  "JOB_RUN_ERROR_REFUSED = [''SMTPRecipientsRefused'', ''SMTPSenderRefused'', ''SMTPDataError'']"

definition JOB_RUN_ERROR_TRANSIENT :: "string list" where
  "JOB_RUN_ERROR_TRANSIENT = [''TimeoutError'', ''OSError'', ''SMTPConnectError'', ''SMTPServerDisconnected'', ''reaped'']"

definition JOB_RUN_ERROR_CONFIG :: "string list" where
  "JOB_RUN_ERROR_CONFIG = [''SMTPAuthenticationError'', ''SMTPNotSupportedError'']"

definition job_run_status_class :: "job_run_summary option \<Rightarrow> string" where
  "job_run_status_class summary =
     (case summary of None \<Rightarrow> ''pending'' | Some s \<Rightarrow> label_of JOB_RUN_STATUS_CLASS ''pending'' (jr_status (sum_latest s)))"

definition job_run_status_label :: "job_run_summary option \<Rightarrow> string" where
  "job_run_status_label summary =
     (case summary of
        None \<Rightarrow> ''Jamais envoy'' @ [CHR 0xE9]
      | Some s \<Rightarrow> label_of JOB_RUN_STATUS_LABEL ''Statut inconnu'' (jr_status (sum_latest s)))"

definition SEND_ERROR :: string where
  "SEND_ERROR = ''Erreur d'' @ [CHR 0x27] @ ''envoi''"

definition INVALID_ADDRESS :: string where
  "INVALID_ADDRESS = ''Adresse e-mail invalide, mettez-la '' @ [CHR 0xE0] @ '' jour dans votre profil''"

definition REFUSED_ADDRESS :: string where
  "REFUSED_ADDRESS = ''Adresse refus'' @ [CHR 0xE9] @ ''e par le serveur de messagerie''"

definition TEMPORARY_FAILURE :: string where
  "TEMPORARY_FAILURE = [CHR 0xC9] @ ''chec d'' @ [CHR 0x27] @ ''envoi temporaire, nouvel essai '' @ [CHR 0xE0] @ '' la prochaine fen''
     @ [CHR 0xEA] @ ''tre''"

definition SERVER_MISCONFIGURED :: string where
  "SERVER_MISCONFIGURED = ''Probl'' @ [CHR 0xE8] @ ''me de configuration du serveur d'' @ [CHR 0x27] @ ''envoi, contactez l''
     @ [CHR 0x27] @ ''administrateur''"

definition error_class_label :: "string \<Rightarrow> string" where
  "error_class_label prefix =
     (if prefix = ''_UnsafeRecipientError'' then INVALID_ADDRESS
      else if prefix \<in> set JOB_RUN_ERROR_REFUSED then REFUSED_ADDRESS
      else if prefix \<in> set JOB_RUN_ERROR_TRANSIENT then TEMPORARY_FAILURE
      else if prefix \<in> set JOB_RUN_ERROR_CONFIG \<or> starts_with ''SSL'' prefix then SERVER_MISCONFIGURED
      else SEND_ERROR)"

definition job_run_error_label :: "job_run_summary option \<Rightarrow> string" where
  "job_run_error_label summary =
     (case summary of
        None \<Rightarrow> SEND_ERROR
      | Some s \<Rightarrow>
          if \<not> truthy (jr_error (sum_latest s)) then SEND_ERROR
          else error_class_label (fst (py_partition (CHR '':'') (the (jr_error (sum_latest s))))))"

section \<open>What the filters show\<close>

lemma format_brl_agrees: "0 \<le> c \<Longrightarrow> format_brl (Some c) = format_cents (Some c)"
  by (simp add: format_brl_def format_cents_def grouped_int_def Let_def pos_imp_zdiv_nonneg_iff)

lemma status_class_separates: "status_class (Inl s) = status_class (Inl s') \<longleftrightarrow> s = s'"
  by (cases s; cases s') (simp_all add: status_class_def label_of_def value_of_def)

lemma tier_ladder: "TIER_LADDER = known_tiers"
  by code_simp

text \<open>A fetch method that names a tier of the router is shown on its own rung; anything else is shown as unknown.\<close>

lemma rank_in_less: "rank_in xs x < length xs \<longleftrightarrow> x \<in> set xs"
  by (induction xs) auto

lemma nth_rank_in: "x \<in> set xs \<Longrightarrow> xs ! rank_in xs x = x"
  by (induction xs) auto

lemma rank_in_inj: "x \<in> set xs \<Longrightarrow> y \<in> set xs \<Longrightarrow> rank_in xs x = rank_in xs y \<Longrightarrow> x = y"
  by (metis nth_rank_in)

lemma tier_level_rungs:
  "tier_level (Some m) \<noteq> 0 \<longleftrightarrow> m \<noteq> [] \<and> py_lower (py_strip m) \<in> set known_tiers"
  "tier_level (Some m) \<noteq> 0 \<Longrightarrow> tier_level (Some m) = tier_level (Some m') \<Longrightarrow> py_lower (py_strip m) = py_lower (py_strip m')"
proof -
  show rung: "tier_level (Some m) \<noteq> 0 \<longleftrightarrow> m \<noteq> [] \<and> py_lower (py_strip m) \<in> set known_tiers" for m
    by (simp add: tier_level_def Let_def rank_in_less tier_ladder)
  assume here: "tier_level (Some m) \<noteq> 0" and same: "tier_level (Some m) = tier_level (Some m')"
  have in1: "py_lower (py_strip m) \<in> set TIER_LADDER" and in2: "py_lower (py_strip m') \<in> set TIER_LADDER"
    unfolding tier_ladder using rung [of m] rung [of m'] here same by metis+
  have "rank_in TIER_LADDER (py_lower (py_strip m)) = rank_in TIER_LADDER (py_lower (py_strip m'))"
    using here same in1 in2 unfolding tier_level_def Let_def by (auto simp: rank_in_less split: if_splits)
  then show "py_lower (py_strip m) = py_lower (py_strip m')" by (rule rank_in_inj [OF in1 in2])
qed

lemma error_label_generic:
  "job_run_error_label summary \<in> {SEND_ERROR, INVALID_ADDRESS, REFUSED_ADDRESS, TEMPORARY_FAILURE, SERVER_MISCONFIGURED}"
  by (simp add: job_run_error_label_def error_class_label_def split: option.split)

lemma partition_prefix: "c \<notin> set p \<Longrightarrow> fst (py_partition c (p @ c # rest)) = p"
  by (induction p) (auto simp: py_partition_def)

text \<open>What a tenant learns of a failed send. For a run whose recorded error is the text the evaluator writes for an
  exception, the page shows one of five fixed messages, chosen by the class of the exception alone: two failures of the same
  class are shown alike whatever their messages hold (host names, identities, answers of the mail relay), and a run that the
  reaper closed is shown as a temporary failure.\<close>

theorem error_label_hides_message:
  assumes "CHR '':'' \<notin> set (exn_name e)" and "length (exn_name e) < 500" and "exn_name e' = exn_name e"
    and "jr_error (sum_latest s) = Some (exn_text e)" and "jr_error (sum_latest s') = Some (exn_text e')"
    and "jr_error (sum_latest r) = Some ''reaped: stale job_run past max-send-timeout''"
  shows "job_run_error_label (Some s) = error_class_label (exn_name e)
    \<and> job_run_error_label (Some s') = job_run_error_label (Some s)
    \<and> job_run_error_label (Some s) \<in> {SEND_ERROR, INVALID_ADDRESS, REFUSED_ADDRESS, TEMPORARY_FAILURE, SERVER_MISCONFIGURED}
    \<and> job_run_error_label (Some r) = TEMPORARY_FAILURE"
proof -
  have label: "job_run_error_label (Some x) = error_class_label (exn_name e)"
    if "jr_error (sum_latest x) = Some (exn_text e1)" "exn_name e1 = exn_name e" for x e1
  proof -
    obtain n where n: "500 - length (exn_name e) = Suc n" using assms(2) by (cases "500 - length (exn_name e)") auto
    have "exn_text e1 = exn_name e @ CHR '':'' # take n ('' '' @ exn_str e1)"
      using assms(2) that(2) by (simp add: exn_text_def n)
    with that(1) show ?thesis using partition_prefix [OF assms(1)] by (simp add: job_run_error_label_def)
  qed
  have "job_run_error_label (Some r) = TEMPORARY_FAILURE"
    using partition_prefix [of "CHR '':''" "''reaped''" "'' stale job_run past max-send-timeout''"]
    by (simp add: job_run_error_label_def assms(6) error_class_label_def JOB_RUN_ERROR_REFUSED_def JOB_RUN_ERROR_TRANSIENT_def)
  then show ?thesis using label [OF assms(4) refl] label [OF assms(5,3)] error_label_generic [of "Some s"] by simp
qed

theorem error_label_hides_message_witness:
  "let run = \<lambda>e. \<lparr> sum_latest = \<lparr> jr_job_id = ''j'', jr_owner_id = ''ana'', jr_window_start = ''w'', jr_fired_at = ''t'',
       jr_status = ''error'', jr_sent_at = None, jr_error = Some e \<rparr>, sum_last_sent_at = None \<rparr>
   in job_run_error_label (Some (run (exn_text (OSError ''smtp.internal:25 refused'')))) = TEMPORARY_FAILURE"
proof -
  let ?run = "\<lambda>e. \<lparr> sum_latest = \<lparr> jr_job_id = ''j'', jr_owner_id = ''ana'', jr_window_start = ''w'', jr_fired_at = ''t'',
       jr_status = ''error'', jr_sent_at = None, jr_error = Some e \<rparr>, sum_last_sent_at = None \<rparr>"
  let ?e = "OSError ''smtp.internal:25 refused''"
  have "job_run_error_label (Some (?run (exn_text ?e))) = error_class_label (exn_name ?e)"
    using error_label_hides_message [of ?e "OSError []" "?run (exn_text ?e)" "?run (exn_text (OSError []))"
        "?run ''reaped: stale job_run past max-send-timeout''"] by simp
  moreover have "error_class_label ''OSError'' = TEMPORARY_FAILURE" by code_simp
  ultimately show ?thesis by simp
qed

lemma short_number: "n < 100 \<Longrightarrow> length (string_of_nat n) \<le> 2"
  using div_less_iff_less_mult [of 10 n 10]
  by (subst string_of_nat.simps, simp, subst string_of_nat.simps, simp)

lemma py_int_string_of_int:
  assumes "0 \<le> i" "i < 100"
  shows "py_int (string_of_int i) = Inr i"
proof -
  have "length (string_of_nat (nat i)) \<le> 2" using assms by (intro short_number) simp
  with assms string_of_nat_digits [of "nat i"] show ?thesis by (simp add: string_of_int_def py_int_digits)
qed

lemma schedule_fields:
  "split_ws (string_of_int minute @ '' * * * *'') = string_of_int minute # split_ws ''* * * *''"
  "split_ws (string_of_int minute @ CHR '' '' # string_of_int hour @ '' * * *'')
     = string_of_int minute # string_of_int hour # split_ws ''* * *''"
  using split_ws_word [of "string_of_int minute"] split_ws_word [of "string_of_int hour"] string_of_int_word by simp_all

text \<open>The cadence shown for a job the service stored is the minute, or the hour and the minute, that was asked for.\<close>

lemma two_digits_pad: "0 \<le> i \<Longrightarrow> i < 100 \<Longrightarrow> two_digits i = pad 2 (nat i)"
proof -
  assume "0 \<le> i" "i < 100"
  then have "i \<in> set [0..99]" by simp
  moreover have "list_all (\<lambda>i. two_digits i = pad 2 (nat i)) [0..99]" by code_simp
  ultimately show ?thesis by (simp only: list_all_iff)
qed

lemma schedule_label_shows:
  assumes "normalize_schedule kind minute hour expr = Inr (job_schedule_cron job)" and "job_frequency_kind job = kind"
  shows "schedule_label job =
     (if kind = ''hourly'' then ''Chaque heure a :'' @ pad 2 (nat minute)
      else if kind = ''daily'' then ''Chaque jour a '' @ pad 2 (nat hour) @ '':'' @ pad 2 (nat minute)
      else ''Cron : '' @ job_schedule_cron job)"
proof -
  have five: "length (split_ws (job_schedule_cron job)) = 5" using schedule_five [OF assms(1)] .
  consider (hourly) "kind = ''hourly''" "0 \<le> minute" "minute \<le> 59"
      "job_schedule_cron job = string_of_int minute @ '' * * * *''"
    | (daily) "kind = ''daily''" "0 \<le> minute" "minute \<le> 59" "0 \<le> hour" "hour \<le> 23"
      "job_schedule_cron job = string_of_int minute @ '' '' @ string_of_int hour @ '' * * *''"
    | (cron) "kind = ''cron''"
    using assms by (cases expr) (auto simp: normalize_schedule_def split: if_splits)
  then show ?thesis
  proof cases
    case hourly
    then have "split_ws (job_schedule_cron job) ! 0 = string_of_int minute" by (simp add: schedule_fields)
    with hourly five show ?thesis
      by (simp add: schedule_label_def assms(2) Let_def py_int_string_of_int two_digits_pad)
  next
    case daily
    then have "split_ws (job_schedule_cron job) ! 0 = string_of_int minute" "split_ws (job_schedule_cron job) ! 1 = string_of_int hour"
      by (simp_all add: schedule_fields)
    with daily five show ?thesis
      by (simp add: schedule_label_def assms(2) Let_def py_int_string_of_int two_digits_pad)
  next
    case cron
    then show ?thesis by (simp add: schedule_label_def assms(2) Let_def)
  qed
qed

end
