(* ===== verification/Web_Jobs.thy ===== *)
theory Web_Jobs
  imports Web_Tenancy Web_Templates
begin

text \<open>
  Digest jobs edited through the web interface: every stored job is one the service checked, and the toggle of
  \<open>web.py\<close>, which rebuilds a specification from the stored row, changes nothing but the enabled flag.
\<close>

section \<open>Stored jobs passed the checks\<close>

definition row_checked :: "string list \<Rightarrow> job_row \<Rightarrow> bool" where
  "row_checked zones r \<longleftrightarrow> (\<exists>j. job_checked zones j \<and> updated_job_row j r = r)"

definition jobs_checked :: "string list \<Rightarrow> config_db \<Rightarrow> bool" where
  "jobs_checked zones db \<longleftrightarrow> list_all (row_checked zones) (c_jobs db)"

lemma row_checked_update [simp]: "job_checked zones j \<Longrightarrow> row_checked zones (updated_job_row j r)"
  by (auto simp: row_checked_def updated_job_row_def intro!: exI [of _ j])

lemma row_checked_new [simp]: "job_checked zones j \<Longrightarrow> row_checked zones (new_job_row owner j)"
  by (auto simp: row_checked_def updated_job_row_def new_job_row_def intro!: exI [of _ j])

lemma link_sources_jobs: "c_jobs (snd (link_sources db owner jid sids)) = c_jobs db"
  by (induction db owner jid sids rule: link_sources.induct) (auto simp: Let_def split: prod.splits if_splits)

lemma apply_op_jobs_checked:
  assumes "jobs_checked zones db" "op_checked zones op"
  shows "jobs_checked zones (apply_op db owner op)"
proof (cases op)
  case (CreateJob j sids)
  with assms link_sources_jobs [of "db\<lparr> c_jobs := c_jobs db @ [new_job_row owner j] \<rparr>" owner "job_id j" sids]
  show ?thesis
    by (auto simp: or_keep_snd_def create_job_row_def jobs_checked_def split: prod.splits sum.splits)
next
  case (AddJobSource jid sid)
  with assms link_sources_jobs [of db owner jid "[sid]"] show ?thesis
    by (auto simp: or_keep_snd_def add_job_source_def jobs_checked_def simp del: link_sources.simps
        split: prod.splits sum.splits option.splits)
next
  case (AddSource s)
  with assms show ?thesis
    by (auto simp: or_keep_def jobs_checked_def dest: add_source_row_Inr split: sum.splits)
next
  case (RemoveProduct k)
  with assms show ?thesis
    by (auto simp: or_keep_def remove_product_def delete_sources_def jobs_checked_def split: sum.splits if_splits)
qed (use assms in \<open>auto simp: jobs_checked_def add_product_row_def remove_source_def delete_sources_def or_keep_snd_def
  update_job_row_def or_keep_def delete_job_def remove_job_source_def list_all_iff split: option.splits sum.splits\<close>)

lemma config_written_jobs_checked:
  "jobs_checked zones db \<Longrightarrow> config_written zones db owner db' \<Longrightarrow> jobs_checked zones db'"
  by (auto simp: config_written_def apply_op_jobs_checked)

definition web_inv :: "string list \<Rightarrow> web_state \<Rightarrow> bool" where
  "web_inv zones st \<longleftrightarrow> config_inv (ws_config st) \<and> jobs_checked zones (ws_config st)"

lemma tenant_handle_web_inv:
  "web_inv (we_zones we) st \<Longrightarrow> web_inv (we_zones we) (snd (tenant_handle we mo route pr st))"
  using tenant_config_written [of we st pr mo route]
  by (auto simp: web_inv_def intro: config_written_respects(1) config_written_jobs_checked)

lemma tenant_run_web_inv: "web_inv (we_zones we) st \<Longrightarrow> web_inv (we_zones we) (tenant_run we reqs st)"
  by (induction reqs arbitrary: st) (auto simp: tenant_run_def serve_step_def tenant_handle_web_inv)

section \<open>A stored job is rebuilt exactly\<close>

lemma spec_from_checked_job:
  assumes "job_checked zones job"
  shows "\<exists>spec. spec_from_job job enabled = Inr spec
     \<and> checked_job zones owner jid created spec
         = Inr (job\<lparr> job_id := jid, job_owner_id := owner, job_enabled := enabled, job_created_at := created, job_source_ids := [] \<rparr>)"
proof -
  obtain minute hour expr where
      sched: "normalize_schedule (job_frequency_kind job) minute hour expr = Inr (job_schedule_cron job)"
    and rest: "job_timezone job \<in> set zones" "job_template_id job \<in> set VALID_TEMPLATE_IDS" "options_ok (job_options job)"
    using assms by (auto simp: job_checked_def)
  note checks = checked_job_def validate_timezone_def validate_template_id_def rest parse_dump [OF rest(3)]
  consider (hourly) "job_frequency_kind job = ''hourly''" "0 \<le> minute" "minute \<le> 59"
      "job_schedule_cron job = string_of_int minute @ '' * * * *''"
    | (daily) "job_frequency_kind job = ''daily''" "0 \<le> minute" "minute \<le> 59" "0 \<le> hour" "hour \<le> 23"
      "job_schedule_cron job = string_of_int minute @ '' '' @ string_of_int hour @ '' * * *''"
    | (cron) "job_frequency_kind job = ''cron''" "truthy expr" "expr = Some (job_schedule_cron job)"
      "length (split_ws (job_schedule_cron job)) = 5"
    using sched by (cases expr) (auto simp: normalize_schedule_def split: if_splits)
  then show ?thesis
  proof cases
    case hourly
    then show ?thesis
      by (simp add: spec_from_job_def Let_def schedule_fields py_int_string_of_int checks normalize_schedule_def)
  next
    case daily
    then show ?thesis
      by (simp add: spec_from_job_def Let_def schedule_fields py_int_string_of_int checks normalize_schedule_def)
  next
    case cron
    then show ?thesis by (simp add: spec_from_job_def Let_def checks normalize_schedule_def)
  qed
qed

section \<open>Toggling a job\<close>

definition flip_enabled :: "string \<Rightarrow> string \<Rightarrow> config_db \<Rightarrow> config_db" where
  "flip_enabled owner jid db =
     db\<lparr> c_jobs := map (\<lambda>r. if jb_owner r = owner \<and> jb_id r = jid then r\<lparr> jb_enabled := \<not> jb_enabled r \<rparr> else r) (c_jobs db) \<rparr>"

lemma flip_enabled_twice: "flip_enabled owner jid (flip_enabled owner jid db) = db"
  by (simp add: flip_enabled_def comp_def if_distrib cong: if_cong)

lemma find_job_flip:
  "find_job (flip_enabled owner jid db) owner jid = map_option (\<lambda>r. r\<lparr> jb_enabled := \<not> jb_enabled r \<rparr>) (find_job db owner jid)"
proof -
  have "List.find (\<lambda>r. jb_owner r = owner \<and> jb_id r = jid)
      (map (\<lambda>r. if jb_owner r = owner \<and> jb_id r = jid then r\<lparr> jb_enabled := \<not> jb_enabled r \<rparr> else r) rs)
    = map_option (\<lambda>r. r\<lparr> jb_enabled := \<not> jb_enabled r \<rparr>) (List.find (\<lambda>r. jb_owner r = owner \<and> jb_id r = jid) rs)" for rs
    by (induction rs) auto
  then show ?thesis by (simp add: find_job_def flip_enabled_def)
qed

lemma update_job_flips:
  assumes inv: "config_inv db" and r: "find_job db owner jid = Some r"
    and j: "updated_job_row j r = r\<lparr> jb_enabled := \<not> jb_enabled r \<rparr>"
  shows "\<exists>j'. update_job_row db owner jid j = Inr (j', flip_enabled owner jid db)"
proof -
  have row: "r \<in> set (c_jobs db)" "jb_owner r = owner" "jb_id r = jid"
    using r by (auto simp: find_job_def find_Some_iff)
  have "job_name j = jb_name r" using j by (cases r) (simp add: updated_job_row_def)
  have unique: "r' = r" if "r' \<in> set (c_jobs db)" "jb_owner r' = owner" "jb_name r' = jb_name r" for r'
    using inv row that by (auto simp: config_inv_def distinct_map inj_on_def)
  have same: "r' = r" if "r' \<in> set (c_jobs db)" "jb_id r' = jid" for r'
    using inv row that by (auto simp: config_inv_def distinct_map inj_on_def)
  have "\<not> list_ex (\<lambda>r'. jb_owner r' = owner \<and> jb_name r' = job_name j \<and> jb_id r' \<noteq> jid) (c_jobs db)"
    using unique row \<open>job_name j = jb_name r\<close> by (auto simp: list_ex_iff)
  moreover have "map (\<lambda>r'. if jb_owner r' = owner \<and> jb_id r' = jid then updated_job_row j r' else r') (c_jobs db)
      = c_jobs (flip_enabled owner jid db)"
    using same j by (auto simp: flip_enabled_def)
  ultimately show ?thesis using r by (simp add: update_job_row_def flip_enabled_def)
qed

lemma toggle_flips:
  assumes inv: "web_inv (we_zones we) st" and owner: "p_owner_id pr \<noteq> []"
    and r: "find_job (ws_config st) (p_owner_id pr) jid = Some r"
  shows "toggle_notification we jid pr st
      = (see_other ''/notifications'', st\<lparr> ws_config := flip_enabled (p_owner_id pr) jid (ws_config st) \<rparr>)"
proof -
  have cinv: "config_inv (ws_config st)" and row: "r \<in> set (c_jobs (ws_config st))"
    using inv r by (auto simp: web_inv_def find_job_def find_Some_iff)
  then have "row_checked (we_zones we) r"
    using inv by (auto simp: web_inv_def jobs_checked_def list_all_iff)
  then obtain j where j: "job_checked (we_zones we) j" and r_j: "updated_job_row j r = r" by (auto simp: row_checked_def)
  have fields: "jb_name r = job_name j" "jb_frequency_kind r = job_frequency_kind j" "jb_schedule_cron r = job_schedule_cron j"
      "jb_timezone r = job_timezone j" "jb_template_id r = job_template_id j" "jb_options r = dump_job_options (job_options j)"
    by (subst r_j [symmetric], simp add: updated_job_row_def)+
  define job where "job = j\<lparr> job_id := jb_id r, job_owner_id := jb_owner r, job_enabled := jb_enabled r,
      job_created_at := jb_created_at r, job_source_ids := load_job_sources (ws_config st) (p_owner_id pr) jid \<rparr>"
  have options: "options_ok (job_options j)" using j by (simp add: job_checked_def)
  have got: "get_job (ws_config st) (p_owner_id pr) jid = Inr job"
    by (simp add: get_job_def r row_to_job_def fields parse_dump [OF options] job_def)
  have "job_checked (we_zones we) job" using j by (simp add: job_def job_checked_def)
  from spec_from_checked_job [OF this, of "\<not> job_enabled job" "p_owner_id pr" jid None]
  obtain spec where spec: "spec_from_job job (\<not> job_enabled job) = Inr spec"
      "checked_job (we_zones we) (p_owner_id pr) jid None spec
        = Inr (job\<lparr> job_id := jid, job_owner_id := p_owner_id pr, job_enabled := \<not> job_enabled job,
            job_created_at := None, job_source_ids := [] \<rparr>)" by blast
  have "updated_job_row (job\<lparr> job_id := jid, job_owner_id := p_owner_id pr, job_enabled := \<not> job_enabled job,
      job_created_at := None, job_source_ids := [] \<rparr>) r = r\<lparr> jb_enabled := \<not> jb_enabled r \<rparr>"
    by (simp add: updated_job_row_def job_def fields [symmetric])
  from update_job_flips [OF cinv r this] spec got owner show ?thesis
    by (auto simp: toggle_notification_def svc_update_job_def or_not_found_def)
qed

text \<open>C18: Toggling a digest job. Whatever the tenants requested before, starting from a store whose jobs the service checked,
  posting the toggle of a job of the caller flips the enabled flag of that job and changes nothing else: the schedule rebuilt
  from the stored cron text, the options, the name, the links and every other row survive the rewrite. Toggling twice
  restores the store exactly, and the toggle of a job the caller does not own is answered with 404 and changes nothing.\<close>

theorem toggle_roundtrip:
  assumes "web_inv (we_zones we) st" and "p_owner_id pr \<noteq> []" and "s = tenant_run we reqs st"
  shows "if find_job (ws_config s) (p_owner_id pr) jid = None
    then tenant_handle we mo (PostToggle jid) pr s = (not_found, s)
    else tenant_handle we mo (PostToggle jid) pr s
           = (see_other ''/notifications'', s\<lparr> ws_config := flip_enabled (p_owner_id pr) jid (ws_config s) \<rparr>)
      \<and> snd (tenant_handle we mo (PostToggle jid) pr (snd (tenant_handle we mo (PostToggle jid) pr s))) = s"
proof -
  have inv: "web_inv (we_zones we) s" using assms(1,3) by (simp add: tenant_run_web_inv)
  show ?thesis
  proof (cases "find_job (ws_config s) (p_owner_id pr) jid")
    case None
    then show ?thesis by (simp add: toggle_notification_def get_job_def or_not_found_def unknown_job_def)
  next
    case (Some r)
    let ?s = "s\<lparr> ws_config := flip_enabled (p_owner_id pr) jid (ws_config s) \<rparr>"
    note one = toggle_flips [OF inv assms(2) Some]
    have inv': "web_inv (we_zones we) ?s" using tenant_handle_web_inv [OF inv, of mo "PostToggle jid" pr] by (simp add: one)
    have "toggle_notification we jid pr ?s
        = (see_other ''/notifications'', ?s\<lparr> ws_config := flip_enabled (p_owner_id pr) jid (ws_config ?s) \<rparr>)"
      by (rule toggle_flips [OF inv' assms(2)]) (simp add: find_job_flip Some)
    with one Some show ?thesis by (simp add: flip_enabled_twice)
  qed
qed

definition noted_config :: config_db where
  "noted_config = (case svc_create_job [''UTC''] ''j'' ''t'' sample_config \<lparr> p_owner_id = ''ana'', p_role = ''user'' \<rparr> sample_spec of
     Inr (_, db) \<Rightarrow> db | Inl _ \<Rightarrow> sample_config)"

theorem toggle_roundtrip_witness:
  "\<exists>s r. find_job (ws_config s) ''ana'' ''j'' = Some r \<and> jb_enabled r
     \<and> snd (tenant_handle sample_env sample_moment (PostToggle ''j'') ana (snd (tenant_handle sample_env sample_moment (PostToggle ''j'') ana s))) = s"
proof -
  let ?st = "sample_web\<lparr> ws_config := noted_config \<rparr>"
  have found: "find_job noted_config ''ana'' ''j'' \<noteq> None" "jb_enabled (the (find_job noted_config ''ana'' ''j''))"
    by code_simp+
  have "config_written [''UTC''] sample_config ''ana'' noted_config"
    by (auto simp: noted_config_def config_written_service(3) [where pr = ana, unfolded ana_def, simplified] split: sum.split)
  then have "config_inv noted_config" "jobs_checked [''UTC''] noted_config"
    using config_written_respects(1) [OF sample_config_inv] config_written_jobs_checked [of "[''UTC'']" sample_config]
    by (auto simp: jobs_checked_def sample_config_def empty_config_def add_product_row_def add_site_row_def)
  then have "web_inv (we_zones sample_env) ?st" by (simp add: web_inv_def sample_env_def)
  from toggle_roundtrip [OF this, of ana ?st "[]" "''j''" sample_moment] found show ?thesis
    by (intro exI [of _ ?st] exI [of _ "the (find_job noted_config ''ana'' ''j'')"]) (auto simp: ana_def tenant_run_def)
qed

end
