(* ===== verification/Mcp.thy ===== *)
theory Mcp
  imports Auth Settings
begin

text \<open>
  The MCP interface (\<open>interfaces/mcp\<close>): the bearer check and the caller of a tool, the public URL and the Host allowlist
  the mounted server is built with, and the exact-path middleware. The protocol library itself is not modelled; it is handed
  the token verifier and the list of hosts.
\<close>

section \<open>The caller of a tool\<close>

record access_token =
  at_token :: string
  at_client_id :: string
  at_subject :: "string option"
  at_scopes :: "string list"

definition verify_token :: "(string \<Rightarrow> string) \<Rightarrow> nat \<Rightarrow> auth_db \<Rightarrow> string \<Rightarrow> access_token option" where
  "verify_token sha t db token =
     map_option (\<lambda>pr. \<lparr> at_token = token, at_client_id = p_owner_id pr, at_subject = Some (p_owner_id pr), at_scopes = [p_role pr] \<rparr>)
       (verify_bearer sha t db token)"

definition no_principal :: exn where
  "no_principal = PermissionError ''no authenticated principal for this MCP request''"

definition current_principal :: "access_token option \<Rightarrow> principal result" where
  "current_principal access =
     (case access of
        None \<Rightarrow> Inl no_principal
      | Some a \<Rightarrow>
          if \<not> truthy (at_subject a) \<or> length (at_scopes a) \<noteq> 1 then Inl no_principal
          else Inr \<lparr> p_owner_id = the (at_subject a), p_role = at_scopes a ! 0 \<rparr>)"

definition whoami :: "access_token option \<Rightarrow> (string \<times> string) list result" where
  "whoami access = bindE (current_principal access) (\<lambda>pr. Inr [(''role'', p_role pr)])"

section \<open>The mounted server\<close>

definition MOUNT_PATH :: string where
  "MOUNT_PATH = ''/mcp''"

record scope =
  sc_type :: string
  sc_path :: string

definition exact_mount_path :: "scope \<Rightarrow> scope" where
  "exact_mount_path s = (if sc_type s = ''http'' \<and> sc_path s = MOUNT_PATH then s\<lparr> sc_path := MOUNT_PATH @ ''/'' \<rparr> else s)"

text \<open>The parts of a URL after the authority, as \<open>urlsplit\<close> cuts them: the fragment first, then the query.\<close>

definition url_rest :: "string \<Rightarrow> string \<times> string \<times> string" where
  "url_rest url0 =
     (let url = filter (\<lambda>c. c \<notin> {CHR 0x09, CHR 0x0A, CHR 0x0D}) (dropWhile (\<lambda>c. code c \<le> 32) url0);
          rest = snd (split_scheme url);
          after = (if starts_with ''//'' rest
                   then dropWhile (\<lambda>c. c \<notin> {CHR ''/'', CHR ''?'', CHR ''#''}) (drop 2 rest) else rest);
          (before, _, fragment) = py_partition (CHR ''#'') after;
          (path, _, query) = py_partition (CHR ''?'') before
      in (path, query, fragment))"

text \<open>\<open>urllib.parse.quote\<close> with \<open>safe="/-._~"\<close>: a character outside the set becomes the escapes of its UTF-8 bytes.\<close>

definition path_safe :: "char \<Rightarrow> bool" where
  "path_safe c \<longleftrightarrow> is_ascii_alnum c \<or> c \<in> set ''/-._~''"

definition upper_escape :: "nat \<Rightarrow> string" where
  "upper_escape b = (let d = (\<lambda>n. if n < 10 then char_of (48 + n) else char_of (55 + n)) in [CHR ''%'', d (b div 16), d (b mod 16)])"

definition path_quote_char :: "char \<Rightarrow> string" where
  "path_quote_char c =
     (if path_safe c then [c]
      else if code c < 128 then upper_escape (code c)
      else upper_escape (192 + code c div 64) @ upper_escape (128 + code c mod 64))"

definition path_quote :: "string \<Rightarrow> string" where
  "path_quote s = concat (map path_quote_char s)"

definition no_public_url :: exn where
  "no_public_url = RuntimeError (''KERDOOS_MCP_ENABLED=true but KERDOOS_PUBLIC_URL is not set: the MCP server refuses to start ''
     @ ''without the URL its clients use, from which the Host allowlist is derived.'')"

definition bad_public_url :: "string \<Rightarrow> exn" where
  "bad_public_url raw = RuntimeError (''KERDOOS_PUBLIC_URL='' @ py_repr raw
     @ '' must be an http(s) URL with a host and no credentials, query or fragment.'')"

definition bad_public_path :: "string \<Rightarrow> exn" where
  "bad_public_path raw = RuntimeError (''KERDOOS_PUBLIC_URL='' @ py_repr raw
     @ '' has a path with characters outside the unreserved URL set (letters, digits, '' @ py_repr ''/-._~'' @ '').'')"

text \<open>\<open>parts.username\<close> and \<open>parts.password\<close> are None exactly when the authority has no \<open>@\<close>.\<close>

definition usable_parts :: "string \<Rightarrow> split_url option" where
  "usable_parts raw =
     (case urlsplit raw of
        Inl _ \<Rightarrow> None
      | Inr parts \<Rightarrow>
          (let (path, query, fragment) = url_rest raw
           in if isl (url_port parts) \<or> url_scheme parts \<notin> {''http'', ''https''} \<or> \<not> truthy (url_hostname parts)
                 \<or> CHR ''@'' \<in> set (url_netloc parts) \<or> query \<noteq> [] \<or> fragment \<noteq> []
              then None else Some parts))"

text \<open>The URL, and whether the plain-http warning was logged.\<close>

definition public_url :: "settings \<Rightarrow> (string \<times> bool) result" where
  "public_url cfg =
     (if \<not> truthy (set_public_url cfg) then Inl no_public_url
      else let raw = the (set_public_url cfg)
           in case usable_parts raw of
                None \<Rightarrow> Inl (bad_public_url raw)
              | Some parts \<Rightarrow>
                  if fst (url_rest raw) \<noteq> path_quote (fst (url_rest raw)) then Inl (bad_public_path raw)
                  else Inr (rstrip_chars ''/'' raw, url_scheme parts = ''http''))"

definition wildcard_host :: "string \<Rightarrow> exn" where
  "wildcard_host extra = RuntimeError (''KERDOOS_MCP_ALLOWED_HOSTS contains '' @ py_repr extra
     @ '': wildcards are refused, list every accepted Host value explicitly.'')"

text \<open>\<open>dict.fromkeys\<close>: the first occurrence of a value counts.\<close>

definition first_occurrences :: "'a list \<Rightarrow> 'a list" where
  "first_occurrences xs = rev (remdups (rev xs))"

definition derived_hosts :: "split_url \<Rightarrow> string list result" where
  "derived_hosts parts =
     (case url_hostname parts of
        None \<Rightarrow> Inl (OtherError ''TypeError'' ''argument of type NoneType is not iterable'')
      | Some h \<Rightarrow>
          bindE (url_port parts) (\<lambda>port.
            let host = (if CHR '':'' \<in> set h then ''['' @ h @ '']'' else h);
                p = (case port of Some n \<Rightarrow> if n = 0 then None else Some n | None \<Rightarrow> None);
                number = (case p of Some n \<Rightarrow> n | None \<Rightarrow> if url_scheme parts = ''https'' then 443 else 80)
            in Inr [host, host @ '':'' @ string_of_nat number]))"

definition allowed_hosts :: "settings \<Rightarrow> string \<Rightarrow> string list result" where
  "allowed_hosts cfg url =
     (case find (\<lambda>extra. CHR ''*'' \<in> set extra) (set_mcp_allowed_hosts cfg) of
        Some extra \<Rightarrow> Inl (wildcard_host extra)
      | None \<Rightarrow>
          bindE (urlsplit url) (\<lambda>parts.
          bindE (derived_hosts parts) (\<lambda>derived. Inr (first_occurrences (derived @ set_mcp_allowed_hosts cfg)))))"

record mcp_mount =
  mm_issuer_url :: string
  mm_resource_url :: string
  mm_allowed_hosts :: "string list"
  mm_max_sessions :: int
  mm_idle_timeout :: pyfloat

definition build_mcp_server :: "settings \<Rightarrow> mcp_mount result" where
  "build_mcp_server cfg =
     bindE (public_url cfg) (\<lambda>(url, _).
     bindE (allowed_hosts cfg url) (\<lambda>hosts.
       Inr \<lparr> mm_issuer_url = url, mm_resource_url = url @ MOUNT_PATH, mm_allowed_hosts = hosts,
             mm_max_sessions = set_mcp_max_sessions cfg, mm_idle_timeout = set_mcp_session_idle_timeout_seconds cfg \<rparr>))"

section \<open>The identity of a caller\<close>

lemma current_principal_verified:
  "current_principal (verify_token sha t db token) = Inr pr \<longleftrightarrow> verify_bearer sha t db token = Some pr \<and> p_owner_id pr \<noteq> []"
  by (cases "verify_bearer sha t db token") (auto simp: verify_token_def current_principal_def)

section \<open>The host list\<close>

lemma path_quote_fixed: "path_quote s = s \<longleftrightarrow> list_all path_safe s"
proof -
  have longer: "length s \<le> length (path_quote s)" for s
    by (induction s) (auto simp: path_quote_def path_quote_char_def upper_escape_def Let_def)
  show ?thesis
  proof (induction s)
    case (Cons c s)
    show ?case
    proof (cases "path_safe c")
      case True
      then show ?thesis using Cons by (simp add: path_quote_def path_quote_char_def)
    next
      case False
      then have "2 < length (path_quote_char c)" by (simp add: path_quote_char_def upper_escape_def Let_def)
      then have "length (c # s) < length (path_quote (c # s))" using longer [of s] by (simp add: path_quote_def)
      then show ?thesis using False by auto
    qed
  qed (simp add: path_quote_def)
qed

lemma ends_with_port_wildcard:
  assumes "ends_with '':*'' s"
  shows "s \<noteq> [] \<and> last s = CHR ''*'' \<and> CHR '':'' \<in> set s"
proof -
  obtain pre where "s = pre @ '':*''" using assms unfolding ends_with_def by (metis append_take_drop_id)
  then show ?thesis by simp
qed

lemma derived_hosts_exact:
  assumes "derived_hosts parts = Inr hs" "h \<in> set hs"
  shows "\<not> ends_with '':*'' h"
proof
  assume "ends_with '':*'' h"
  note w = ends_with_port_wildcard [OF this]
  obtain name host n where hs: "hs = [host, host @ '':'' @ string_of_nat n]"
      and host: "host = (if CHR '':'' \<in> set name then ''['' @ name @ '']'' else name)"
    using assms(1) by (auto simp: derived_hosts_def bindE_Inr_iff Let_def split: option.splits)
  have "last (string_of_nat n) \<in> set (string_of_nat n)" by simp
  then have "is_ascii_digit (last (string_of_nat n))" using string_of_nat_digits [of n] by (simp add: list_all_iff)
  then have "last (host @ '':'' @ string_of_nat n) \<noteq> CHR ''*''" by (auto simp: is_ascii_digit_def code_def)
  moreover have "last host \<noteq> CHR ''*''" if "CHR '':'' \<in> set host"
    using that by (cases "CHR '':'' \<in> set name") (simp_all add: host)
  ultimately show False using w assms(2) unfolding hs by auto
qed

lemma usable_partsD:
  "usable_parts raw = Some parts \<Longrightarrow> urlsplit raw = Inr parts \<and> url_scheme parts \<in> {''http'', ''https''}
     \<and> truthy (url_hostname parts) \<and> CHR ''@'' \<notin> set (url_netloc parts) \<and> snd (url_rest raw) = ([], [])"
  by (auto simp: usable_parts_def split: sum.splits prod.splits if_splits)

text \<open>C20: What the MCP mount lets in. The server is only built for a public URL that is http or https, has a host and neither
  credentials, query nor fragment, and a path of unreserved characters; the Host values it accepts are then exact, none of
  them a port wildcard, and each is listed once. A tool sees a caller only for a bearer token that resolves, at that
  moment, to an active owner with an identifier, and then with the role of that owner; every other request is refused the
  same way.\<close>

theorem mcp_surface:
  assumes "build_mcp_server cfg = Inr m"
  shows "(\<exists>raw parts. set_public_url cfg = Some raw \<and> urlsplit raw = Inr parts \<and> url_scheme parts \<in> {''http'', ''https''}
       \<and> truthy (url_hostname parts) \<and> CHR ''@'' \<notin> set (url_netloc parts) \<and> snd (url_rest raw) = ([], [])
       \<and> list_all path_safe (fst (url_rest raw)) \<and> mm_resource_url m = rstrip_chars ''/'' raw @ ''/mcp'')
    \<and> list_all (\<lambda>h. \<not> ends_with '':*'' h) (mm_allowed_hosts m) \<and> distinct (mm_allowed_hosts m)
    \<and> (\<forall>sha t db token. whoami (verify_token sha t db token) =
         (case verify_bearer sha t db token of
            Some pr \<Rightarrow> if p_owner_id pr = [] then Inl no_principal else Inr [(''role'', p_role pr)]
          | None \<Rightarrow> Inl no_principal))"
proof (intro conjI allI)
  obtain url warned hosts where url: "public_url cfg = Inr (url, warned)" and hosts: "allowed_hosts cfg url = Inr hosts"
    and m: "mm_resource_url m = url @ MOUNT_PATH" "mm_allowed_hosts m = hosts"
    using assms by (auto simp: build_mcp_server_def bindE_Inr_iff)
  obtain raw parts where raw: "set_public_url cfg = Some raw" "usable_parts raw = Some parts"
      "list_all path_safe (fst (url_rest raw))" "url = rstrip_chars ''/'' raw"
    using url by (cases "set_public_url cfg")
      (auto simp: public_url_def Let_def path_quote_fixed [symmetric] split: if_splits option.splits)
  show "\<exists>raw parts. set_public_url cfg = Some raw \<and> urlsplit raw = Inr parts \<and> url_scheme parts \<in> {''http'', ''https''}
       \<and> truthy (url_hostname parts) \<and> CHR ''@'' \<notin> set (url_netloc parts) \<and> snd (url_rest raw) = ([], [])
       \<and> list_all path_safe (fst (url_rest raw)) \<and> mm_resource_url m = rstrip_chars ''/'' raw @ ''/mcp''"
    using raw usable_partsD [OF raw(2)] m(1) by (intro exI [of _ raw] exI [of _ parts]) (simp add: MOUNT_PATH_def)
  obtain split derived where derived: "derived_hosts split = Inr derived"
      "hosts = first_occurrences (derived @ set_mcp_allowed_hosts cfg)" "list_all (\<lambda>x. CHR ''*'' \<notin> set x) (set_mcp_allowed_hosts cfg)"
    using hosts by (auto simp: allowed_hosts_def bindE_Inr_iff find_None_iff list_all_iff split: option.splits)
  have "\<not> ends_with '':*'' h" if "h \<in> set (set_mcp_allowed_hosts cfg)" for h
    using that derived(3) ends_with_port_wildcard [of h] last_in_set [of h] unfolding list_all_iff by metis
  with derived_hosts_exact [OF derived(1)] show "list_all (\<lambda>h. \<not> ends_with '':*'' h) (mm_allowed_hosts m)"
    by (auto simp: m(2) derived(2) first_occurrences_def list_all_iff)
  show "distinct (mm_allowed_hosts m)" by (simp add: m(2) derived(2) first_occurrences_def)
  fix sha t db token
  show "whoami (verify_token sha t db token) =
      (case verify_bearer sha t db token of
         Some pr \<Rightarrow> if p_owner_id pr = [] then Inl no_principal else Inr [(''role'', p_role pr)]
       | None \<Rightarrow> Inl no_principal)"
    by (cases "verify_bearer sha t db token") (auto simp: whoami_def verify_token_def current_principal_def)
qed

theorem mcp_surface_witness:
  "\<exists>cfg m. build_mcp_server cfg = Inr m \<and> mm_allowed_hosts m = [''k.example'', ''k.example:443'', ''lan:8000'']
     \<and> mm_resource_url m = ''https://k.example/app/mcp'' \<and> list_all (\<lambda>h. \<not> ends_with '':*'' h) (mm_allowed_hosts m)"
proof -
  obtain cfg0 where "fst (get_settings (\<lambda>_. None) fresh) = Inr cfg0" using unset_settings_ok by blast
  let ?raw = "''https://k.example/app/''"
  let ?cfg = "cfg0\<lparr> set_public_url := Some ?raw, set_mcp_allowed_hosts := [''lan:8000''] \<rparr>"
  let ?url = "''https://k.example/app''"
  have parts: "(case usable_parts ?raw of Some p \<Rightarrow> url_scheme p = ''https'' | None \<Rightarrow> False)"
      "fst (url_rest ?raw) = path_quote (fst (url_rest ?raw))" "rstrip_chars ''/'' ?raw = ?url" by code_simp+
  have derived: "bindE (urlsplit ?url) derived_hosts = Inr [''k.example'', ''k.example:443'']" by code_simp
  have url: "public_url ?cfg = Inr (?url, False)"
    using parts by (auto simp: public_url_def Let_def split: option.splits)
  obtain split where "urlsplit ?url = Inr split" "derived_hosts split = Inr [''k.example'', ''k.example:443'']"
    using derived unfolding bindE_Inr_iff by blast
  then have hosts: "allowed_hosts ?cfg ?url = Inr [''k.example'', ''k.example:443'', ''lan:8000'']"
    by (simp add: allowed_hosts_def first_occurrences_def)
  obtain m where m: "build_mcp_server ?cfg = Inr m" "mm_allowed_hosts m = [''k.example'', ''k.example:443'', ''lan:8000'']"
      "mm_resource_url m = ''https://k.example/app/mcp''"
    using url hosts by (simp add: build_mcp_server_def MOUNT_PATH_def)
  from mcp_surface [OF m(1)] m show ?thesis by (intro exI [of _ ?cfg] exI [of _ m]) simp
qed

text \<open>The middleware only renames the exact mount path.\<close>

lemma exact_mount_path_idempotent: "exact_mount_path (exact_mount_path s) = exact_mount_path s"
  by (simp add: exact_mount_path_def MOUNT_PATH_def)

end
