(* ===== verification/Web_App.thy ===== *)
theory Web_App
  imports Web_Routes Mcp Router Evaluator
begin

text \<open>
  The application factory of the web interface (\<open>interfaces/web/app.py\<close>): what is built from the settings, in which order
  it can fail, which background tasks the lifespan starts and how it stops them, and the health route.
\<close>

datatype app_warning = McpSessionsPerWorker int | LoginLimitDisabled

text \<open>What the factory hands to the components, as it reads it from the settings.\<close>

record app_plan =
  ap_secret :: string
  ap_cookie_secure :: bool
  ap_gate :: gate_config
  ap_queue_max_restarts :: int
  ap_queue_cooldown_seconds :: pyfloat
  ap_queue_backlog_threshold :: int
  ap_login_window_seconds :: pyfloat
  ap_login_max_attempts :: int
  ap_login_row_cap :: int
  ap_mcp :: "mcp_mount option"
  ap_warnings :: "app_warning list"

definition mcp_of :: "settings \<Rightarrow> mcp_mount option result" where
  "mcp_of cfg = (if set_mcp_enabled cfg then bindE (build_mcp_server cfg) (\<lambda>m. Inr (Some m)) else Inr None)"

definition create_app :: "(string \<Rightarrow> string) \<Rightarrow> settings \<Rightarrow> app_plan result" where
  "create_app parent cfg =
     bindE (require_session_secret cfg) (\<lambda>secret.
     bindE (new_browser_gate parent cfg) (\<lambda>gate.
     bindE (mcp_of cfg) (\<lambda>mcp.
       Inr \<lparr> ap_secret = secret, ap_cookie_secure = set_cookie_secure cfg, ap_gate = gate,
             ap_queue_max_restarts = set_run_queue_max_restarts cfg,
             ap_queue_cooldown_seconds = set_run_now_cooldown_seconds cfg,
             ap_queue_backlog_threshold = set_run_queue_backlog_warn_threshold cfg,
             ap_login_window_seconds = set_login_rate_limit_window_seconds cfg,
             ap_login_max_attempts = set_login_rate_limit_max_attempts cfg,
             ap_login_row_cap = set_login_rate_limit_row_cap cfg, ap_mcp = mcp,
             ap_warnings = (if mcp \<noteq> None \<and> 1 < set_workers cfg then [McpSessionsPerWorker (set_workers cfg)] else [])
               @ (if set_login_rate_limit_max_attempts cfg \<le> 0 then [LoginLimitDisabled] else []) \<rparr>)))"

datatype task = RunQueueTask | EvaluatorTask | McpSessions

datatype lifespan_event = Start task | RefuseEvaluator int | Serve | Cancel task

text \<open>\<open>_lifespan\<close>: before the yield, the yield, and the finally block; the session manager is left by the exit stack first.\<close>

definition lifespan :: "settings \<Rightarrow> mcp_mount option \<Rightarrow> lifespan_event list" where
  "lifespan cfg mcp =
     (let evaluator = set_digest_evaluator_enabled cfg \<and> should_start_intra_process_evaluator (set_workers cfg)
      in [Start RunQueueTask]
         @ (if evaluator then [Start EvaluatorTask]
            else if set_digest_evaluator_enabled cfg then [RefuseEvaluator (set_workers cfg)] else [])
         @ (if mcp \<noteq> None then [Start McpSessions] else [])
         @ [Serve]
         @ (if mcp \<noteq> None then [Cancel McpSessions] else [])
         @ (if evaluator then [Cancel EvaluatorTask] else [])
         @ [Cancel RunQueueTask])"

definition health :: answer where
  "health = Answer (Json 200 [(''status'', ''ok'')] None KeepCookie)"

section \<open>What starts\<close>

text \<open>A task that was started is running while requests are served and is cancelled after them, in the reverse order; the
  evaluator only runs when the settings ask for it and there is a single worker process.\<close>

lemma lifespan_balanced:
  "\<exists>started refused. lifespan cfg mcp = [Start RunQueueTask] @ refused @ map Start started @ [Serve] @ map Cancel (rev (RunQueueTask # started))
     \<and> set refused \<subseteq> {RefuseEvaluator (set_workers cfg)}"
proof -
  let ?ev = "set_digest_evaluator_enabled cfg \<and> should_start_intra_process_evaluator (set_workers cfg)"
  let ?started = "(if ?ev then [EvaluatorTask] else []) @ (if mcp \<noteq> None then [McpSessions] else [])"
  have "lifespan cfg mcp = [Start RunQueueTask]
      @ (if \<not> ?ev \<and> set_digest_evaluator_enabled cfg then [RefuseEvaluator (set_workers cfg)] else [])
      @ map Start ?started @ [Serve] @ map Cancel (rev (RunQueueTask # ?started))"
    by (simp add: lifespan_def Let_def)
  moreover have "set (if \<not> ?ev \<and> set_digest_evaluator_enabled cfg then [RefuseEvaluator (set_workers cfg)] else [])
      \<subseteq> {RefuseEvaluator (set_workers cfg)}" by auto
  ultimately show ?thesis by blast
qed

lemma evaluator_single_worker:
  "Start EvaluatorTask \<in> set (lifespan cfg mcp) \<longleftrightarrow> set_digest_evaluator_enabled cfg \<and> set_workers cfg \<le> 1"
  by (simp add: lifespan_def Let_def should_start_intra_process_evaluator_def)

text \<open>The factory refuses to start without a key of the minimal length; with readable settings nothing else but an unusable
  public URL or host list of an enabled MCP mount stops it.\<close>

lemma create_app_starts:
  assumes "settings_ok cfg"
  shows "(\<exists>plan. create_app parent cfg = Inr plan) \<longleftrightarrow>
      (\<exists>secret. set_session_secret cfg = Some secret \<and> MIN_SESSION_SECRET_LENGTH \<le> length secret)
      \<and> (set_mcp_enabled cfg \<longrightarrow> (\<exists>m. build_mcp_server cfg = Inr m))"
proof -
  obtain gate where gate: "new_browser_gate parent cfg = Inr gate"
    using assms by (auto simp: new_browser_gate_def gate_ok_def settings_ok_def)
  have "(\<exists>s. require_session_secret cfg = Inr s)
      \<longleftrightarrow> (\<exists>secret. set_session_secret cfg = Some secret \<and> MIN_SESSION_SECRET_LENGTH \<le> length secret)"
    by (cases "set_session_secret cfg") (auto simp: require_session_secret_def MIN_SESSION_SECRET_LENGTH_def)
  moreover have "(\<exists>m. mcp_of cfg = Inr m) \<longleftrightarrow> (set_mcp_enabled cfg \<longrightarrow> (\<exists>m. build_mcp_server cfg = Inr m))"
    by (simp add: mcp_of_def bindE_Inr_iff)
  moreover have "(\<exists>plan. create_app parent cfg = Inr plan) \<longleftrightarrow> (\<exists>s. require_session_secret cfg = Inr s) \<and> (\<exists>m. mcp_of cfg = Inr m)"
    by (cases "require_session_secret cfg"; cases "mcp_of cfg") (simp_all add: create_app_def gate)
  ultimately show ?thesis by simp
qed

end
