(* ===== verification/Yaml_Files.thy ===== *)
theory Yaml_Files
  imports App_Service
begin

text \<open>
  The configuration files: the structural parser of \<open>registry/yaml_store.py\<close> and the documents the command
  \<open>config export\<close> writes (\<open>interfaces/cli/main.py\<close>). A document is what \<open>yaml.safe_load\<close> returns; reading and writing
  the text itself is a parameter of the commands.
\<close>

section \<open>Documents\<close>

text \<open>A scalar that is no string carries its \<open>str()\<close> and its \<open>repr()\<close>. The keys of a mapping are strings, in insertion
  order; a key of another type is outside the model.\<close>

datatype yaml =
    YNull
  | YScalar string string
  | YStr string
  | YSeq "yaml list"
  | YMap "(string \<times> yaml) list"

fun yaml_repr :: "yaml \<Rightarrow> string" where
  "yaml_repr YNull = ''None''"
| "yaml_repr (YScalar _ r) = r"
| "yaml_repr (YStr s) = py_repr s"
| "yaml_repr (YSeq vs) = ''['' @ join '', '' (map yaml_repr vs) @ '']''"
| "yaml_repr (YMap kvs) = ''{'' @ join '', '' (map (\<lambda>(k, v). py_repr k @ '': '' @ yaml_repr v) kvs) @ ''}''"

fun yaml_str :: "yaml \<Rightarrow> string" where
  "yaml_str (YStr s) = s"
| "yaml_str (YScalar s _) = s"
| "yaml_str v = yaml_repr v"

section \<open>Reading\<close>

fun require_key :: "yaml \<Rightarrow> string \<Rightarrow> string \<Rightarrow> yaml result" where
  "require_key (YMap kvs) key ctx =
     (case map_of kvs key of Some v \<Rightarrow> Inr v | None \<Rightarrow> Inl (ConfigError (''missing '' @ py_repr key @ '' in '' @ ctx)))"
| "require_key _ key ctx = Inl (ConfigError (''missing '' @ py_repr key @ '' in '' @ ctx))"

text \<open>\<open>d.get(key)\<close>: None when absent.\<close>

fun yaml_get :: "yaml \<Rightarrow> string \<Rightarrow> yaml" where
  "yaml_get (YMap kvs) key = (case map_of kvs key of Some v \<Rightarrow> v | None \<Rightarrow> YNull)"
| "yaml_get _ key = YNull"

fun yaml_string :: "yaml \<Rightarrow> string option" where
  "yaml_string (YStr s) = Some s"
| "yaml_string _ = None"

definition parse_subresource_domains :: "yaml \<Rightarrow> string \<Rightarrow> string list result" where
  "parse_subresource_domains body name =
     (let bad = Inl (ConfigError (''site '' @ py_repr name @ '': subresource_domains must be a list of strings''))
      in case yaml_get body ''subresource_domains'' of
           YNull \<Rightarrow> Inr []
         | YSeq vs \<Rightarrow> if list_all (\<lambda>v. yaml_string v \<noteq> None) vs then Inr (filter (\<lambda>d. d \<noteq> []) (map yaml_str vs)) else bad
         | _ \<Rightarrow> bad)"

text \<open>The parser fields are taken over without conversion. For a value other than a string (or None, where it is optional)
  the code goes on with an object its annotations exclude; the model stops there.\<close>

definition untyped :: exn where
  "untyped = OtherError ''untyped'' ''value outside the annotated types''"

fun text_field :: "yaml \<Rightarrow> string result" where
  "text_field (YStr s) = Inr s"
| "text_field _ = Inl untyped"

fun optional_text_field :: "yaml \<Rightarrow> string option result" where
  "optional_text_field YNull = Inr None"
| "optional_text_field (YStr s) = Inr (Some s)"
| "optional_text_field _ = Inl untyped"

definition parse_site :: "string \<Rightarrow> yaml \<Rightarrow> site_config result" where
  "parse_site name body =
     bindE (require_key body ''fetcher'' (''site '' @ py_repr name)) (\<lambda>fetcher.
     bindE (require_key body ''domain'' (''site '' @ py_repr name)) (\<lambda>domain.
     bindE (require_key body ''parser'' (''site '' @ py_repr name)) (\<lambda>parser_raw.
     bindE (require_key parser_raw ''kind'' (''site '' @ py_repr name @ '' parser'')) (\<lambda>kind.
     bindE (parse_subresource_domains body name) (\<lambda>subs.
     bindE (text_field kind) (\<lambda>k.
     bindE (optional_text_field (yaml_get parser_raw ''pix'')) (\<lambda>pix.
     bindE (optional_text_field (yaml_get parser_raw ''card'')) (\<lambda>card1.
     bindE (optional_text_field (yaml_get parser_raw ''availability'')) (\<lambda>avail.
       Inr \<lparr> site_name = name, site_fetcher = yaml_str fetcher,
             site_parser = \<lparr> ps_kind = k, ps_pix = pix, ps_card = card1, ps_availability = avail \<rparr>,
             site_domain = yaml_str domain,
             site_tier2_label = (case yaml_get body ''tier2_label'' of YNull \<Rightarrow> None | v \<Rightarrow> Some (yaml_str v)),
             site_subresource_domains = subs \<rparr>)))))))))"

fun parse_site_entries :: "(string \<times> yaml) list \<Rightarrow> (string \<times> site_config) list result" where
  "parse_site_entries [] = Inr []"
| "parse_site_entries ((name, body) # rest) =
     bindE (parse_site name body) (\<lambda>s. bindE (parse_site_entries rest) (\<lambda>ss. Inr ((name, s) # ss)))"

definition parse_sites_yaml :: "yaml \<Rightarrow> (string \<times> site_config) list result" where
  "parse_sites_yaml doc =
     bindE (require_key doc ''sites'' ''sites.yaml'') (\<lambda>raw.
       case raw of
         YMap kvs \<Rightarrow> parse_site_entries kvs
       | _ \<Rightarrow> Inl (ConfigError (py_repr ''sites'' @ '' must be a mapping'')))"

type_synonym source_triple_key = "string \<times> string \<times> string"

fun parse_product_sources ::
  "string list \<Rightarrow> string \<Rightarrow> source_triple_key list \<Rightarrow> yaml list \<Rightarrow> ((string \<times> string) list \<times> source_triple_key list) result" where
  "parse_product_sources known pid seen [] = Inr ([], seen)"
| "parse_product_sources known pid seen (src # rest) =
     bindE (require_key src ''site'' (''product '' @ py_repr pid @ '' source'')) (\<lambda>site_raw.
     bindE (require_key src ''url'' (''product '' @ py_repr pid @ '' source'')) (\<lambda>url_raw.
       let site = yaml_str site_raw; url = yaml_str url_raw; triple = (pid, site, url)
       in if site \<notin> set known
          then Inl (ConfigError (''product '' @ py_repr pid @ '' references unknown site '' @ py_repr site))
          else if triple \<in> set seen
          then Inl (ConfigError (''duplicate source: product '' @ py_repr pid @ '' site '' @ py_repr site @ '' url '' @ py_repr url
                  @ '' already configured''))
          else bindE (parse_product_sources known pid (triple # seen) rest) (\<lambda>(sus, seen'). Inr ((site, url) # sus, seen'))))"

fun parse_product_entries ::
  "string list \<Rightarrow> source_triple_key list \<Rightarrow> yaml list \<Rightarrow> (string \<times> (string \<times> string) list) list result" where
  "parse_product_entries known seen [] = Inr []"
| "parse_product_entries known seen (entry # rest) =
     bindE (require_key entry ''id'' ''product entry'') (\<lambda>id_raw.
       let pid = yaml_str id_raw
       in bindE (require_key entry ''sources'' (''product '' @ py_repr pid)) (\<lambda>raw.
            case raw of
              YSeq (v # vs) \<Rightarrow>
                bindE (parse_product_sources known pid seen (v # vs)) (\<lambda>(sus, seen').
                bindE (parse_product_entries known seen' rest) (\<lambda>ps. Inr ((pid, sus) # ps)))
            | _ \<Rightarrow> Inl (ConfigError (''product '' @ py_repr pid @ '' needs a non-empty sources list''))))"

definition parse_products_yaml :: "yaml \<Rightarrow> (string \<times> site_config) list \<Rightarrow> (string \<times> (string \<times> string) list) list result" where
  "parse_products_yaml doc known_sites =
     bindE (require_key doc ''products'' ''products.yaml'') (\<lambda>raw.
       case raw of
         YSeq entries \<Rightarrow> parse_product_entries (map fst known_sites) [] entries
       | _ \<Rightarrow> Inl (ConfigError (py_repr ''products'' @ '' must be a list'')))"

section \<open>Writing\<close>

definition yaml_opt :: "string option \<Rightarrow> yaml" where
  "yaml_opt v = (case v of None \<Rightarrow> YNull | Some s \<Rightarrow> YStr s)"

definition site_to_yaml :: "site_config \<Rightarrow> yaml" where
  "site_to_yaml site =
     YMap ([(''fetcher'', YStr (site_fetcher site)), (''domain'', YStr (site_domain site))]
       @ (if truthy (site_tier2_label site) then [(''tier2_label'', YStr (the (site_tier2_label site)))] else [])
       @ (if site_subresource_domains site \<noteq> [] then [(''subresource_domains'', YSeq (map YStr (site_subresource_domains site)))] else [])
       @ [(''parser'', YMap [(''kind'', YStr (ps_kind (site_parser site))), (''pix'', yaml_opt (ps_pix (site_parser site))),
            (''card'', yaml_opt (ps_card (site_parser site))), (''availability'', yaml_opt (ps_availability (site_parser site)))])])"

definition sites_doc :: "registry \<Rightarrow> yaml" where
  "sites_doc reg = YMap [(''sites'', YMap (map (\<lambda>(name, s). (name, site_to_yaml s)) (reg_sites reg)))]"

definition source_to_yaml :: "product_source \<Rightarrow> yaml" where
  "source_to_yaml s = YMap [(''site'', YStr (src_site s)), (''url'', YStr (src_url s))]"

definition product_to_yaml :: "product \<Rightarrow> yaml" where
  "product_to_yaml p = YMap [(''id'', YStr (prod_id p)), (''sources'', YSeq (map source_to_yaml (prod_sources p)))]"

definition products_doc :: "registry \<Rightarrow> yaml" where
  "products_doc reg = YMap [(''products'', YSeq (map product_to_yaml (reg_products reg)))]"

section \<open>What was written is read back\<close>

text \<open>Falsy values are left out when a site is written, and read back as their absence.\<close>

definition written_site :: "site_config \<Rightarrow> site_config" where
  "written_site s = s\<lparr> site_tier2_label := (if truthy (site_tier2_label s) then site_tier2_label s else None),
     site_subresource_domains := filter (\<lambda>d. d \<noteq> []) (site_subresource_domains s) \<rparr>"

lemma optional_text_opt [simp]: "optional_text_field (yaml_opt v) = Inr v"
  by (simp add: yaml_opt_def split: option.split)

lemma yaml_strings [simp]: "list_all (\<lambda>v. yaml_string v \<noteq> None) (map YStr ds)" "map yaml_str (map YStr ds) = ds"
  by (induction ds) simp_all

lemma parse_written_site: "site_name s = name \<Longrightarrow> parse_site name (site_to_yaml s) = Inr (written_site s)"
  by (cases "site_tier2_label s")
    (simp_all add: parse_site_def site_to_yaml_def parse_subresource_domains_def written_site_def comp_def list_all_iff)

lemma parse_written_sites:
  "list_all (\<lambda>(name, s). site_name s = name) kss \<Longrightarrow>
     parse_site_entries (map (\<lambda>(name, s). (name, site_to_yaml s)) kss) = Inr (map (\<lambda>(name, s). (name, written_site s)) kss)"
  by (induction kss) (auto simp: parse_written_site)

lemma parse_sites_doc:
  "list_all (\<lambda>(name, s). site_name s = name) (reg_sites reg) \<Longrightarrow>
     parse_sites_yaml (sites_doc reg) = Inr (map (\<lambda>(name, s). (name, written_site s)) (reg_sites reg))"
  by (simp add: parse_sites_yaml_def sites_doc_def parse_written_sites)

definition product_entry :: "product \<Rightarrow> string \<times> (string \<times> string) list" where
  "product_entry p = (prod_id p, map (\<lambda>s. (src_site s, src_url s)) (prod_sources p))"

definition entry_triples :: "string \<times> (string \<times> string) list \<Rightarrow> source_triple_key list" where
  "entry_triples e = map (\<lambda>(site, url). (fst e, site, url)) (snd e)"

lemma require_written [simp]:
  "require_key (source_to_yaml s) ''site'' ctx = Inr (YStr (src_site s))"
  "require_key (source_to_yaml s) ''url'' ctx = Inr (YStr (src_url s))"
  "require_key (product_to_yaml p) ''id'' ctx = Inr (YStr (prod_id p))"
  "require_key (product_to_yaml p) ''sources'' ctx = Inr (YSeq (map source_to_yaml (prod_sources p)))"
  by (simp_all add: source_to_yaml_def product_to_yaml_def)

lemma parse_written_sources:
  assumes "set (map src_site ss) \<subseteq> set known"
    and "distinct (map (\<lambda>s. (pid, src_site s, src_url s)) ss)"
    and "set (map (\<lambda>s. (pid, src_site s, src_url s)) ss) \<inter> set seen = {}"
  shows "parse_product_sources known pid seen (map source_to_yaml ss)
    = Inr (map (\<lambda>s. (src_site s, src_url s)) ss, rev (map (\<lambda>s. (pid, src_site s, src_url s)) ss) @ seen)"
  using assms
proof (induction ss arbitrary: seen)
  case (Cons s ss)
  have "parse_product_sources known pid ((pid, src_site s, src_url s) # seen) (map source_to_yaml ss)
    = Inr (map (\<lambda>s. (src_site s, src_url s)) ss,
        rev (map (\<lambda>s. (pid, src_site s, src_url s)) ss) @ (pid, src_site s, src_url s) # seen)"
    by (rule Cons.IH) (use Cons.prems in auto)
  with Cons.prems show ?case by (auto simp: Let_def)
qed simp

lemma parse_written_products:
  assumes "list_all (\<lambda>p. prod_sources p \<noteq> [] \<and> set (map src_site (prod_sources p)) \<subseteq> set known) ps"
    and "distinct (concat (map (entry_triples \<circ> product_entry) ps))"
    and "set (concat (map (entry_triples \<circ> product_entry) ps)) \<inter> set seen = {}"
  shows "parse_product_entries known seen (map product_to_yaml ps) = Inr (map product_entry ps)"
  using assms
proof (induction ps arbitrary: seen)
  case (Cons p ps)
  let ?ts = "map (\<lambda>s. (prod_id p, src_site s, src_url s)) (prod_sources p)"
  have ts: "(entry_triples \<circ> product_entry) p = ?ts" by (simp add: entry_triples_def product_entry_def comp_def)
  have here: "parse_product_sources known (prod_id p) seen (map source_to_yaml (prod_sources p))
      = Inr (snd (product_entry p), rev ?ts @ seen)"
    unfolding product_entry_def snd_conv
    by (rule parse_written_sources) (use Cons.prems ts in \<open>auto simp: list_all_iff\<close>)
  have rest: "parse_product_entries known (rev ?ts @ seen) (map product_to_yaml ps) = Inr (map product_entry ps)"
    by (rule Cons.IH) (use Cons.prems ts in \<open>auto simp: list_all_iff\<close>)
  obtain s ss where ss: "prod_sources p = s # ss" using Cons.prems(1) by (cases "prod_sources p") auto
  from here rest show ?case by (simp add: ss Let_def product_entry_def del: parse_product_sources.simps)
qed simp

end
