(* ===== verification/Cli.thy ===== *)
theory Cli
  imports Yaml_Files Digest Evaluator
begin

text \<open>
  The command line (\<open>interfaces/cli/main.py\<close>): one definition per command over the application service. A command ends
  with an exit code and what it printed, or with an exception. The argument parser is not modelled; the files, the password
  prompt, the identifiers and the clock are arguments.
\<close>

section \<open>Commands\<close>

datatype outcome = Exit int "string list" "string list" \<comment> \<open>code, standard output, standard error\<close>
  | Raised exn
  | SystemExit string

definition default_state_db :: "(string \<Rightarrow> string option) \<Rightarrow> string" where
  "default_state_db env = (case env ''KERDOOS_STATE_DB'' of Some v \<Rightarrow> v | None \<Rightarrow> ''kerdoos.db'')"

definition default_config_db :: "(string \<Rightarrow> string option) \<Rightarrow> string" where
  "default_config_db env = (case env ''KERDOOS_CONFIG_DB'' of Some v \<Rightarrow> v | None \<Rightarrow> ''config.db'')"

definition cmd_run ::
  "'w router \<Rightarrow> parser_factory \<Rightarrow> calendar \<Rightarrow> strftime \<Rightarrow> config_db \<Rightarrow> string \<Rightarrow> string \<Rightarrow> 'w sleeper \<Rightarrow> state_db \<times> 'w
    \<Rightarrow> outcome \<times> (state_db \<times> 'w)" where
  "cmd_run router factory cal fmt cdb owner now sleep dw =
     (case run_now router factory cdb owner now sleep dw of
        (Inl e, dw') \<Rightarrow> (Raised e, dw')
      | (Inr r, dw') \<Rightarrow>
          (case render_digest cal fmt (run_records r) (run_generated_at r) (run_tier2_labels r) (run_source_labels r) of
             Inl e \<Rightarrow> (Raised e, dw')
           | Inr body \<Rightarrow> (Exit 0 [body] [], dw')))"

definition summary_text :: "evaluation_summary \<Rightarrow> string" where
  "summary_text s =
     ''scraped_sources='' @ string_of_nat (scraped_sources s) @ '' notified_jobs='' @ string_of_nat (notified_jobs s)
     @ '' skipped_jobs='' @ string_of_nat (skipped_jobs s) @ '' errors='' @ string_of_nat (errors s)"

definition cmd_digest ::
  "'w platform \<Rightarrow> config_db \<Rightarrow> nat \<Rightarrow> state_db \<Rightarrow> 'w \<Rightarrow> (string \<times> string) list \<Rightarrow> outcome \<times> 'w evaluation" where
  "cmd_digest pf cdb tick_now db w sends =
     (case evaluate_once pf cdb tick_now db w sends of
        (Inl e, st) \<Rightarrow> (Raised e, st)
      | (Inr s, st) \<Rightarrow> (Exit 0 [summary_text s] [], st))"

text \<open>\<open>sites\<close> and \<open>products\<close> stand for the two files: reading one gives a document or an exception; the second may be absent.\<close>

definition cmd_config_import ::
  "(string \<Rightarrow> string) \<Rightarrow> 'w router \<Rightarrow> string option \<Rightarrow> yaml result \<Rightarrow> yaml result option \<Rightarrow> config_db \<Rightarrow> outcome \<times> config_db" where
  "cmd_config_import sha router owner sites_file products_file db =
     (let failed = (\<lambda>e d. if is_config_error e then (Exit 1 [] [''config import: '' @ exn_str e], d) else (Raised e, d))
      in case bindE sites_file parse_sites_yaml of
           Inl e \<Rightarrow> failed e db
         | Inr sites \<Rightarrow>
             (case (if truthy owner
                    then (case products_file of None \<Rightarrow> Inr [] | Some f \<Rightarrow> bindE f (\<lambda>doc. parse_products_yaml doc sites))
                    else Inr []) of
                Inl e \<Rightarrow> failed e db
              | Inr products \<Rightarrow>
                  (let pr = \<lparr> p_owner_id = (if truthy owner then the owner else ''cli-import''), p_role = ''admin'' \<rparr>
                   in case import_config sha router catalogue_policy pr owner sites products db of
                        (Inl (ConfigImportError es), d) \<Rightarrow>
                          (Exit 1 [] ((''config import: rejected, 0 writes ('' @ string_of_nat (length es) @ '' error(s)):'')
                              # map (\<lambda>e. ''  - '' @ e) es), d)
                      | (Inl e, d) \<Rightarrow> failed e d
                      | (Inr summary, d) \<Rightarrow>
                          (Exit 0 [''imported '' @ string_of_nat (imp_sites summary) @ '' site(s)''
                              @ (if truthy owner then '' for owner '' @ py_repr (the owner) else [])] [], d))))"

text \<open>The documents written to \<open>sites.yaml\<close> and, for an owner, to \<open>products.yaml\<close>.\<close>

definition cmd_config_export :: "string option \<Rightarrow> string \<Rightarrow> config_db \<Rightarrow> outcome \<times> yaml \<times> yaml option" where
  "cmd_config_export owner config_dir db =
     (let reg = load db (if truthy owner then the owner else [])
      in (Exit 0 [''exported '' @ string_of_nat (length (reg_sites reg)) @ '' site(s), ''
            @ string_of_nat (length (reg_products reg)) @ '' product(s) to '' @ config_dir] [],
          sites_doc reg, if truthy owner then Some (products_doc reg) else None))"

definition cmd_user_bootstrap :: "string \<Rightarrow> string \<Rightarrow> string \<Rightarrow> bool \<Rightarrow> config_db \<Rightarrow> outcome \<times> config_db" where
  "cmd_user_bootstrap uuid_hex now name admin1 db =
     (let owner_id = take 12 uuid_hex
      in case ensure_owner db owner_id name (if admin1 then ''admin'' else ''user'') None None now of
           Inl e \<Rightarrow> (Raised e, db)
         | Inr db' \<Rightarrow> (Exit 0 [owner_id] [], db'))"

text \<open>A line read from a pipe, or the two answers at a terminal.\<close>

datatype password_input = Piped string | Prompted string string

definition read_password :: "password_input \<Rightarrow> string + string" where
  "read_password inp =
     (let nonempty = (\<lambda>p. if p = [] then Inl ''password must not be empty'' else Inr p)
      in case inp of
           Piped line \<Rightarrow> nonempty (rstrip_chars [CHR 0x0A] line)
         | Prompted p confirm \<Rightarrow> if p \<noteq> confirm then Inl ''passwords do not match'' else nonempty p)"

definition cmd_user_add ::
  "(string \<Rightarrow> string) \<Rightarrow> password_input \<Rightarrow> string \<Rightarrow> string \<Rightarrow> string \<Rightarrow> string option \<Rightarrow> bool \<Rightarrow> config_db \<Rightarrow> outcome \<times> config_db" where
  "cmd_user_add hash1 inp uuid_hex now name email admin1 db =
     (case read_password inp of
        Inl m \<Rightarrow> (SystemExit m, db)
      | Inr password \<Rightarrow>
          (let owner_id = take 12 uuid_hex
           in case ensure_owner db owner_id name (if admin1 then ''admin'' else ''user'') email (Some (hash1 password)) now of
                Inl e \<Rightarrow> (Raised e, db)
              | Inr db' \<Rightarrow> (Exit 0 [owner_id] [], db')))"

section \<open>What an import writes\<close>

definition entry_row :: "(string \<Rightarrow> string) \<Rightarrow> string \<Rightarrow> string \<Rightarrow> string \<times> string \<Rightarrow> source_row" where
  "entry_row sha owner key su =
     \<lparr> sr_id = key @ '':'' @ fst su @ '':'' @ take 12 (sha (snd su)), sr_owner = owner, sr_product = key, sr_site = fst su,
       sr_url = snd su \<rparr>"

definition entry_rows :: "(string \<Rightarrow> string) \<Rightarrow> string \<Rightarrow> string \<times> (string \<times> string) list \<Rightarrow> source_row list" where
  "entry_rows sha owner e = map (entry_row sha owner (fst e)) (snd e)"

lemma entry_rows_simps [simp]:
  "entry_rows sha owner (key, []) = []"
  "entry_rows sha owner (key, su # sus) = entry_row sha owner key su # entry_rows sha owner (key, sus)"
  "sr_owner (entry_row sha owner key su) = owner" "sr_product (entry_row sha owner key su) = key"
  "source_key (entry_row sha owner key su) = (owner, sr_id (entry_row sha owner key su))"
  by (simp_all add: entry_rows_def entry_row_def source_key_def)

lemma entry_rows_owner: "r \<in> set (entry_rows sha owner e) \<Longrightarrow> sr_owner r = owner \<and> sr_product r = fst e"
  by (auto simp: entry_rows_def)

lemma add_source_appends:
  assumes "svc_add_source sha router policy db owner key site url = Inr (s, db')"
    and "source_key (entry_row sha owner key (site, url)) \<notin> set (map source_key (c_sources db))"
  shows "db' = db\<lparr> c_sources := c_sources db @ [entry_row sha owner key (site, url)] \<rparr>"
proof -
  note s = svc_add_source_Inr [OF assms(1)]
  have "src_id s = sr_id (entry_row sha owner key (site, url))"
    using s by (auto simp: make_source_id_def bindE_Inr_iff entry_row_def)
  then have row: "\<lparr> sr_id = src_id s, sr_owner = owner, sr_product = src_product_id s, sr_site = src_site s, sr_url = src_url s \<rparr>
      = entry_row sha owner key (site, url)"
    using s by (simp add: entry_row_def)
  from s have "add_source_row db owner s = Inr db'" by blast
  with assms(2) show ?thesis unfolding add_source_row_def row Let_def by (simp split: if_splits)
qed

lemma import_sources_rows:
  assumes "import_sources sha router policy owner key sus db = (Inr (), db')"
    and "distinct (map sr_id (entry_rows sha owner (key, sus)))"
    and "set (map source_key (entry_rows sha owner (key, sus))) \<inter> set (map source_key (c_sources db)) = {}"
  shows "db' = db\<lparr> c_sources := c_sources db @ entry_rows sha owner (key, sus) \<rparr>"
  using assms
proof (induction sus arbitrary: db)
  case (Cons su sus)
  obtain site url where su: "su = (site, url)" by (cases su)
  from Cons.prems(1) obtain s db1 where add: "svc_add_source sha router policy db owner key site url = Inr (s, db1)"
    and rest: "import_sources sha router policy owner key sus db1 = (Inr (), db')"
    by (auto simp: su split: sum.splits)
  have db1: "db1 = db\<lparr> c_sources := c_sources db @ [entry_row sha owner key su] \<rparr>"
    unfolding su by (rule add_source_appends [OF add]) (use Cons.prems(3) su in auto)
  have "source_key (entry_row sha owner key su) \<notin> set (map source_key (entry_rows sha owner (key, sus)))"
    using Cons.prems(2) by (auto simp: entry_rows_def)
  then have "db' = db1\<lparr> c_sources := c_sources db1 @ entry_rows sha owner (key, sus) \<rparr>"
    by (intro Cons.IH [OF rest]) (use Cons.prems(2,3) in \<open>auto simp: db1\<close>)
  then show ?case by (simp add: db1)
qed simp

lemma import_products_rows:
  assumes "import_products sha router policy owner es db = (Inr (), db')"
    and "distinct (map fst es)" "set (map (Pair owner \<circ> fst) es) \<inter> set (map product_key (c_products db)) = {}"
    and "distinct (map sr_id (concat (map (entry_rows sha owner) es)))"
    and "set (map source_key (concat (map (entry_rows sha owner) es))) \<inter> set (map source_key (c_sources db)) = {}"
  shows "db' = db\<lparr> c_products := c_products db @ map (\<lambda>e. \<lparr> pr_owner = owner, pr_key = fst e, pr_name = None \<rparr>) es,
      c_sources := c_sources db @ concat (map (entry_rows sha owner) es) \<rparr>"
  using assms
proof (induction es arbitrary: db)
  case (Cons e es)
  obtain key sus where e: "e = (key, sus)" by (cases e)
  from Cons.prems(1) obtain p db1 db2 where add: "svc_add_product db owner key None = Inr (p, db1)"
    and srcs: "import_sources sha router policy owner key sus db1 = (Inr (), db2)"
    and rest: "import_products sha router policy owner es db2 = (Inr (), db')"
    by (auto simp: e split: sum.splits prod.splits)
  have db1: "db1 = db\<lparr> c_products := c_products db @ [\<lparr> pr_owner = owner, pr_key = key, pr_name = None \<rparr>] \<rparr>"
    using add Cons.prems(3) by (auto simp: e svc_add_product_def add_product_row_def bindE_Inr_iff Let_def split: if_splits)
  have db2: "db2 = db1\<lparr> c_sources := c_sources db1 @ entry_rows sha owner e \<rparr>"
    unfolding e by (rule import_sources_rows [OF srcs]) (use Cons.prems(4,5) e db1 in auto)
  have "set (map source_key (concat (map (entry_rows sha owner) es))) \<inter> set (map source_key (entry_rows sha owner e)) = {}"
    using Cons.prems(4) by (auto simp: source_key_def)
  with Cons.prems(5) have fresh: "set (map source_key (concat (map (entry_rows sha owner) es))) \<inter> set (map source_key (c_sources db2)) = {}"
    by (simp add: db2 db1 image_Un Int_Un_distrib Int_Un_distrib2)
  have "db' = db2\<lparr> c_products := c_products db2 @ map (\<lambda>e. \<lparr> pr_owner = owner, pr_key = fst e, pr_name = None \<rparr>) es,
      c_sources := c_sources db2 @ concat (map (entry_rows sha owner) es) \<rparr>"
    by (rule Cons.IH [OF rest _ _ _ fresh]) (use Cons.prems(2-4) in \<open>auto simp: db2 db1 e product_key_def\<close>)
  then show ?case by (simp add: db2 db1 e)
qed simp

lemma import_sites_rows:
  "import_sites router pr ss db = (Inr (), db') \<Longrightarrow> db' = foldl add_site_row db ss"
  by (induction ss arbitrary: db) (auto simp: svc_add_site_def split: sum.splits if_splits option.splits)

lemma fresh_sites_rows:
  "distinct (map site_name ss) \<Longrightarrow> set (map site_name ss) \<inter> set (map site_name (c_sites db)) = {} \<Longrightarrow>
     foldl add_site_row db ss = db\<lparr> c_sites := c_sites db @ ss \<rparr>"
  by (induction ss arbitrary: db) (auto simp: add_site_row_def)

section \<open>An export restores the configuration\<close>

lemma distinct_grouped:
  assumes "distinct ks" "distinct (map f xs)"
  shows "distinct (concat (map (\<lambda>k. map f (filter (\<lambda>x. g x = k) xs)) ks))"
proof -
  have inj: "inj_on f (set xs)" "distinct xs" using assms(2) by (auto simp: distinct_map)
  show ?thesis using assms(1)
  proof (induction ks)
    case (Cons k ks)
    have "f x \<noteq> f y" if "x \<in> set xs" "y \<in> set xs" "g x = k" "g y \<in> set ks" for x y
      using that inj(1) Cons.prems by (auto simp: inj_on_def)
    with Cons inj show ?case by (auto simp: distinct_map intro: inj_on_subset)
  qed simp
qed

lemma sort_key_map_sorted:
  assumes "\<And>x. f (g x) = h x"
  shows "sort_key f (map g (sort_key h xs)) = map g (sort_key h xs)"
  by (rule sort_key_id_if_sorted) (simp add: assms comp_def)

lemma load_products_keys: "map prod_id (load_products db owner) = map pr_key (sort_key pr_key (filter (\<lambda>p. pr_owner p = owner) (c_products db)))"
  by (simp add: load_products_def Let_def comp_def)

definition owner_sorted_sources :: "config_db \<Rightarrow> string \<Rightarrow> source_row list" where
  "owner_sorted_sources db owner = sort_key (\<lambda>r. (sr_product r, sr_id r)) (filter (\<lambda>r. sr_owner r = owner) (c_sources db))"

lemma load_products_sources:
  "load_products db owner = map (\<lambda>p. \<lparr> prod_id = pr_key p, prod_name = pr_name p,
     prod_sources = map row_to_source (filter (\<lambda>r. sr_product r = pr_key p) (owner_sorted_sources db owner)) \<rparr>)
   (sort_key pr_key (filter (\<lambda>p. pr_owner p = owner) (c_products db)))"
  by (simp add: load_products_def owner_sorted_sources_def Let_def)

lemma owner_sources_distinct:
  assumes "config_inv db"
  shows "distinct (map sr_id (owner_sorted_sources db owner))"
    "distinct (map (\<lambda>r. (sr_product r, sr_site r, sr_url r)) (owner_sorted_sources db owner))"
    "distinct (map prod_id (load_products db owner))"
proof -
  have keys: "distinct (map source_key (c_sources db))" "distinct (map source_triple (c_sources db))"
      "distinct (map product_key (c_products db))" using assms by (simp_all add: config_inv_def)
  show "distinct (map sr_id (owner_sorted_sources db owner))"
    using keys(1) by (auto simp: owner_sorted_sources_def distinct_map source_key_def inj_on_def)
  show "distinct (map (\<lambda>r. (sr_product r, sr_site r, sr_url r)) (owner_sorted_sources db owner))"
    using keys(2) by (auto simp: owner_sorted_sources_def distinct_map source_triple_def inj_on_def)
  show "distinct (map prod_id (load_products db owner))"
    using keys(3) by (auto simp: load_products_keys distinct_map product_key_def inj_on_def)
qed

lemma exported_rows:
  assumes "ids_derived sha db" "p \<in> set (load_products db owner)"
  shows "entry_rows sha owner (product_entry p) = filter (\<lambda>r. sr_product r = prod_id p) (owner_sorted_sources db owner)"
proof -
  have "entry_row sha owner (prod_id p) (sr_site r, sr_url r) = r"
    if "r \<in> set (c_sources db)" "sr_owner r = owner" "sr_product r = prod_id p" for r
    using assms(1) that by (cases r) (force simp: ids_derived_def make_source_id_def bindE_Inr_iff entry_row_def)
  then have "map (\<lambda>r. entry_row sha owner (prod_id p) (sr_site r, sr_url r)) rs = rs"
    if "set rs \<subseteq> {r \<in> set (c_sources db). sr_owner r = owner \<and> sr_product r = prod_id p}" for rs
    using that by (induction rs) auto
  moreover have "prod_sources p = map row_to_source (filter (\<lambda>r. sr_product r = prod_id p) (owner_sorted_sources db owner))"
    using assms(2) by (auto simp: load_products_sources)
  ultimately show ?thesis
    by (simp add: entry_rows_def product_entry_def row_to_source_def comp_def owner_sorted_sources_def Collect_conj_eq subset_iff)
qed

lemma filter_grouped:
  "distinct ks \<Longrightarrow> k \<in> set ks \<Longrightarrow> filter (\<lambda>x. g x = k) (concat (map (\<lambda>k. filter (\<lambda>x. g x = k) xs) ks)) = filter (\<lambda>x. g x = k) xs"
proof (induction ks)
  case (Cons k' ks)
  have other: "filter (\<lambda>x. g x = k) (concat (map (\<lambda>k. filter (\<lambda>x. g x = k) xs) js)) = []" if "k \<notin> set js" for js
    using that by (auto simp: filter_empty_conv)
  show ?case
  proof (cases "k = k'")
    case True
    then have "filter (\<lambda>x. g x = k) (concat (map (\<lambda>k. filter (\<lambda>x. g x = k) xs) ks)) = []" using Cons.prems by (intro other) simp
    then show ?thesis using True by simp
  next
    case False
    then have "filter (\<lambda>x. g x = k) (filter (\<lambda>x. g x = k') xs) = []" by (auto simp: filter_empty_conv)
    then show ?thesis using Cons False by simp
  qed
qed simp

lemma restored_products:
  assumes "config_inv db" "ids_derived sha db"
    and "c_products db' = map (\<lambda>e. \<lparr> pr_owner = owner, pr_key = fst e, pr_name = None \<rparr>) (map product_entry (load_products db owner))"
    and "c_sources db' = concat (map (entry_rows sha owner) (map product_entry (load_products db owner)))"
  shows "load_products db' owner = map (\<lambda>p. p\<lparr> prod_name := None \<rparr>) (load_products db owner)"
proof -
  let ?ps = "load_products db owner" and ?S = "owner_sorted_sources db owner" and ?K = "\<lambda>r. (sr_product r, sr_id r)"
  have rows: "c_sources db' = concat (map (\<lambda>k. filter (\<lambda>r. sr_product r = k) ?S) (map prod_id ?ps))"
    unfolding assms(4) map_map comp_def
    by (rule arg_cong [of _ _ concat], rule map_cong [OF refl]) (rule exported_rows [OF assms(2)])
  have own: "\<forall>r \<in> set ?S. sr_owner r = owner" by (simp add: owner_sorted_sources_def)
  have all: "filter (\<lambda>r. sr_owner r = owner) (c_sources db') = c_sources db'"
    using own by (auto simp: rows filter_id_conv)
  have sorted: "sort_key ?K ?S = ?S" by (rule sort_key_id_if_sorted) (simp add: owner_sorted_sources_def)
  have srcs: "filter (\<lambda>r. sr_product r = prod_id p) (owner_sorted_sources db' owner) = filter (\<lambda>r. sr_product r = prod_id p) ?S"
    if "p \<in> set ?ps" for p
  proof -
    have "filter (\<lambda>r. sr_product r = prod_id p) (c_sources db') = filter (\<lambda>r. sr_product r = prod_id p) ?S"
      unfolding rows by (rule filter_grouped [OF owner_sources_distinct(3) [OF assms(1)]]) (use that in simp)
    then have "filter (\<lambda>r. sr_product r = prod_id p) (owner_sorted_sources db' owner)
        = sort_key ?K (filter (\<lambda>r. sr_product r = prod_id p) ?S)"
      unfolding owner_sorted_sources_def [of db'] all filter_sort by simp
    also have "\<dots> = filter (\<lambda>r. sr_product r = prod_id p) (sort_key ?K ?S)" by (rule filter_sort [symmetric])
    finally show ?thesis by (simp only: sorted)
  qed
  have keys: "sort_key pr_key (filter (\<lambda>p. pr_owner p = owner) (c_products db'))
      = map (\<lambda>p. \<lparr> pr_owner = owner, pr_key = prod_id p, pr_name = None \<rparr>) ?ps"
    unfolding assms(3) by (subst filter_True, simp, simp add: product_entry_def comp_def load_products_sources
        sort_key_map_sorted)
  have prods: "prod_sources p = map row_to_source (filter (\<lambda>r. sr_product r = prod_id p) ?S)" if "p \<in> set ?ps" for p
    using that by (auto simp: load_products_sources)
  show ?thesis
    unfolding load_products_sources [of db'] keys map_map comp_def
    by (rule map_cong [OF refl]) (simp add: srcs prods [symmetric])
qed

lemma exported_products_parse:
  assumes "config_inv db" "list_all (\<lambda>p. prod_sources p \<noteq> []) (load_products db owner)"
  shows "parse_product_entries (map fst (load_sites db)) [] (map product_to_yaml (load_products db owner))
    = Inr (map product_entry (load_products db owner))"
proof (rule parse_written_products)
  let ?ps = "load_products db owner" and ?S = "owner_sorted_sources db owner"
  have prods: "prod_sources p = map row_to_source (filter (\<lambda>r. sr_product r = prod_id p) ?S)" if "p \<in> set ?ps" for p
    using that by (auto simp: load_products_sources)
  have "sr_site r \<in> site_name ` set (c_sites db)" if "r \<in> set ?S" for r
    using assms(1) that by (auto simp: config_inv_def owner_sorted_sources_def)
  then show "list_all (\<lambda>p. prod_sources p \<noteq> [] \<and> set (map src_site (prod_sources p)) \<subseteq> set (map fst (load_sites db))) ?ps"
    using assms(2) prods by (fastforce simp: list_all_iff load_sites_def row_to_source_def)
  have triples: "(entry_triples \<circ> product_entry) p
      = map (\<lambda>r. (sr_product r, sr_site r, sr_url r)) (filter (\<lambda>r. sr_product r = prod_id p) ?S)" if "p \<in> set ?ps" for p
    by (simp add: entry_triples_def product_entry_def prods [OF that] row_to_source_def comp_def)
  have "map (entry_triples \<circ> product_entry) ?ps
      = map (\<lambda>k. map (\<lambda>r. (sr_product r, sr_site r, sr_url r)) (filter (\<lambda>r. sr_product r = k) ?S)) (map prod_id ?ps)"
    unfolding map_map comp_def [of _ prod_id] by (rule map_cong [OF refl]) (rule triples)
  then show "distinct (concat (map (entry_triples \<circ> product_entry) ?ps))"
    by (simp only: distinct_grouped [OF owner_sources_distinct(3,2) [OF assms(1)]])
qed simp

lemma parse_entries_nonempty:
  "parse_product_entries known seen (map product_to_yaml ps) = Inr es \<Longrightarrow> list_all (\<lambda>p. prod_sources p \<noteq> []) ps"
proof (induction ps arbitrary: seen es)
  case (Cons p ps)
  obtain s ss where "prod_sources p = s # ss" using Cons.prems by (cases "prod_sources p") (simp_all add: Let_def)
  then show ?case
    using Cons.prems Cons.IH by (auto simp: bindE_Inr_iff Let_def simp del: parse_product_sources.simps)
qed simp

lemma require_key_error: "require_key v k c = Inl e \<Longrightarrow> is_config_error e"
  by (cases v) (auto split: option.splits)

lemma parse_sources_errors: "parse_product_sources known pid seen vs = Inl e \<Longrightarrow> is_config_error e"
  by (induction known pid seen vs rule: parse_product_sources.induct)
    (auto simp: bindE_def Let_def dest: require_key_error split: sum.splits if_splits prod.splits)

lemma parse_entries_errors: "parse_product_entries known seen entries = Inl e \<Longrightarrow> is_config_error e"
proof (induction entries arbitrary: seen)
  case (Cons entry rest)
  from Cons.prems show ?case
    by (auto simp: bindE_def Let_def simp del: parse_product_sources.simps dest: require_key_error parse_sources_errors Cons.IH
        split: sum.splits prod.splits yaml.splits list.splits)
qed simp

lemma cmd_config_import_Exit_0:
  assumes "cmd_config_import sha router owner sites_file products_file db = (Exit 0 out err, db')"
  shows "\<exists>sites products summary pr. bindE sites_file parse_sites_yaml = Inr sites
     \<and> (if truthy owner then (case products_file of None \<Rightarrow> Inr [] | Some f \<Rightarrow> bindE f (\<lambda>doc. parse_products_yaml doc sites)) else Inr [])
         = Inr products
     \<and> import_config sha router catalogue_policy pr owner sites products db = (Inr summary, db')"
  using assms by (auto simp: cmd_config_import_def Let_def split: sum.splits if_splits exn.splits prod.splits)

lemma import_config_writes:
  assumes "import_config sha router policy pr (Some owner) sites products db = (Inr summary, db')" "owner \<noteq> []"
  shows "import_products sha router policy owner products (foldl add_site_row db (map snd sites)) = (Inr (), db')"
  using assms
  by (auto simp: import_config_def Let_def split: if_splits sum.splits prod.splits dest!: import_sites_rows)

lemma exported_import_restores:
  assumes inv: "config_inv db" and ids: "ids_derived sha db" and owner: "owner \<noteq> []"
    and sites: "sites = map (\<lambda>(name, s). (name, written_site s)) (load_sites db)"
    and imp: "import_config sha router catalogue_policy pr (Some owner) sites (map product_entry (load_products db owner)) empty_config
      = (Inr summary, db')"
  shows "load db' owner = \<lparr> reg_sites = sites, reg_products = map (\<lambda>p. p\<lparr> prod_name := None \<rparr>) (load_products db owner) \<rparr>"
proof -
  let ?ps = "load_products db owner"
  have names: "distinct (map site_name (map snd sites))"
    using inv by (simp add: sites load_sites_def comp_def case_prod_beta written_site_def config_inv_def distinct_map)
  have "foldl add_site_row empty_config (map snd sites) = empty_config\<lparr> c_sites := map snd sites \<rparr>"
    using fresh_sites_rows [OF names, of empty_config] by (simp add: empty_config_def)
  note imp = import_config_writes [OF imp owner, unfolded this]
  have rows: "concat (map (entry_rows sha owner) (map product_entry ?ps))
      = concat (map (\<lambda>k. filter (\<lambda>r. sr_product r = k) (owner_sorted_sources db owner)) (map prod_id ?ps))"
    unfolding map_map comp_def
    by (rule arg_cong [of _ _ concat], rule map_cong [OF refl]) (rule exported_rows [OF ids])
  have "distinct (map sr_id (concat (map (entry_rows sha owner) (map product_entry ?ps))))"
    unfolding rows using distinct_grouped [OF owner_sources_distinct(3,1) [OF inv], of sr_product owner owner]
    by (simp only: map_concat map_map comp_def)
  from import_products_rows [OF imp _ _ this]
  have db': "c_sites db' = map snd sites"
      "c_products db' = map (\<lambda>e. \<lparr> pr_owner = owner, pr_key = fst e, pr_name = None \<rparr>) (map product_entry ?ps)"
      "c_sources db' = concat (map (entry_rows sha owner) (map product_entry ?ps))"
    using owner_sources_distinct(3) [OF inv, of owner] by (simp_all add: empty_config_def product_entry_def comp_def)
  have "load_sites db' = sites"
    unfolding load_sites_def [of db'] db'(1)
    by (simp add: sites load_sites_def comp_def sort_key_map_sorted [where h = site_name] written_site_def)
  with restored_products [OF inv ids db'(2,3)] show ?thesis by (simp add: load_def)
qed


lemma stocked_ids_derived: "ids_derived (\<lambda>u. u) stocked_config"
  by code_simp


text \<open>Importing an export of the same store again clears the display name of every product.\<close>

lemma reimport_clears_names:
  "map prod_name (reg_products (load stocked_config ''ana'')) = [Some ''P'']
   \<and> map prod_name (reg_products (load (snd (cmd_config_import (\<lambda>u. u) http_router (Some ''ana'')
       (Inr (sites_doc (load stocked_config ''ana''))) (Some (Inr (products_doc (load stocked_config ''ana'')))) stocked_config)) ''ana'')) = [None]"
  by code_simp

text \<open>A password is never empty, and is never accepted unconfirmed from a terminal.\<close>

lemma read_password_Inr: "read_password inp = Inr p \<Longrightarrow> p \<noteq> [] \<and> (\<forall>a b. inp = Prompted a b \<longrightarrow> a = b \<and> p = a)"
  by (auto simp: read_password_def Let_def split: password_input.splits if_splits)

text \<open>The owner commands keep login handles and identifiers unique; a refused one changes nothing.\<close>

lemma user_commands_unique:
  assumes "config_inv db" and "cmd_user_add h inp u t nm email a db = (r, db') \<or> cmd_user_bootstrap u t nm a db = (r, db')"
  shows "distinct (map ow_id (c_owners db')) \<and> distinct (map ow_name (c_owners db')) \<and> (db' = db \<or> r = Exit 0 [take 12 u] [])"
proof -
  have "distinct (map ow_id (c_owners db))" "distinct (map ow_name (c_owners db))"
    using assms(1) by (simp_all add: config_inv_parts owners_inv_def)
  with assms show ?thesis
    by (auto simp: cmd_user_bootstrap_def cmd_user_add_def Let_def simp del: ensure_owner_def split: sum.splits
        dest: ensure_owner_inv [OF assms(1)])
qed

end
