(* ===== verification/Proxy_Trust.thy ===== *)
theory Proxy_Trust
  imports Ssrf_Guard
begin

text \<open>
  The start-up check of the trusted proxies (\<open>interfaces/web/forwarded_allow_ips.py\<close>): the networks are read the way
  \<open>ipaddress.ip_network\<close> reads them, prefix lengths, netmasks and host masks included.
\<close>

section \<open>Reading networks\<close>

definition prefix_from_prefix_string :: "nat \<Rightarrow> string \<Rightarrow> nat option" where
  "prefix_from_prefix_string bits s =
     (if s \<noteq> [] \<and> list_all is_ascii_digit s \<and> length s \<le> 4300 \<and> digits_value s \<le> bits then Some (digits_value s) else None)"

text \<open>A mask of leading ones, read as its number of ones.\<close>

definition prefix_from_ip_int :: "nat \<Rightarrow> nat option" where
  "prefix_from_ip_int v = find (\<lambda>p. v = (2 ^ p - 1) * 2 ^ (32 - p)) [0..<33]"

definition prefix_from_ip_string :: "string \<Rightarrow> nat option" where
  "prefix_from_ip_string s =
     (case parse_ipv4 s of
        None \<Rightarrow> None
      | Some v \<Rightarrow> (case prefix_from_ip_int v of Some p \<Rightarrow> Some p | None \<Rightarrow> prefix_from_ip_int (2 ^ 32 - 1 - v)))"

definition netmask4 :: "string \<Rightarrow> nat option" where
  "netmask4 s = (case prefix_from_prefix_string 32 s of Some p \<Rightarrow> Some p | None \<Rightarrow> prefix_from_ip_string s)"

definition strict_network :: "nat \<Rightarrow> nat \<Rightarrow> nat option \<Rightarrow> (nat \<times> nat) option" where
  "strict_network bits v plen =
     (case plen of Some p \<Rightarrow> if v mod 2 ^ (bits - p) = 0 then Some (v, p) else None | None \<Rightarrow> None)"

datatype network = Network4 nat nat | Network6 nat nat

definition ip_network :: "string \<Rightarrow> network option" where
  "ip_network e =
     (let make = (\<lambda>a m4 m6.
            case parse_ipv4 a of
              Some v \<Rightarrow> map_option (\<lambda>(v, p). Network4 v p) (strict_network 32 v m4)
            | None \<Rightarrow>
                (case parse_ipv6 a of
                   Some v \<Rightarrow> map_option (\<lambda>(v, p). Network6 v p) (strict_network 128 v m6)
                 | None \<Rightarrow> None))
      in case split_on (CHR ''/'') e of
           [a] \<Rightarrow> make a (Some 32) (Some 128)
         | [a, m] \<Rightarrow> make a (netmask4 m) (prefix_from_prefix_string 128 m)
         | _ \<Rightarrow> None)"

fun prefixlen :: "network \<Rightarrow> nat" where
  "prefixlen (Network4 _ p) = p"
| "prefixlen (Network6 _ p) = p"

section \<open>The check\<close>

definition MIN_PREFIXLEN :: nat where
  "MIN_PREFIXLEN = 8"

definition elements :: "string \<Rightarrow> string list" where
  "elements val = map py_strip (split_on (CHR '','') val)"

definition trusts_too_much :: "string \<Rightarrow> bool" where
  "trusts_too_much e \<longleftrightarrow>
     e = ''*'' \<or> (CHR ''/'' \<in> set e \<and> (case ip_network e of None \<Rightarrow> False | Some n \<Rightarrow> prefixlen n < MIN_PREFIXLEN))"

definition offending_element :: "string \<Rightarrow> string option" where
  "offending_element val = find trusts_too_much (elements val)"

text \<open>The exit code, and what is printed on standard error.\<close>

definition forwarded_main :: "(string \<Rightarrow> string option) \<Rightarrow> nat \<times> string list" where
  "forwarded_main env =
     (let val = (case env ''KERDOOS_FORWARDED_ALLOW_IPS'' of Some v \<Rightarrow> v | None \<Rightarrow> [])
      in case offending_element val of
           None \<Rightarrow> (0, [])
         | Some e \<Rightarrow> (64, [''KERDOOS_FORWARDED_ALLOW_IPS='' @ py_repr val @ '' is refused: the entry '' @ py_repr e
             @ '' trusts far more than a proxy (an address, or a network of at least /8, is expected). ''
             @ ''Any trusted address can forge the client IP.'']))"

section \<open>What is trusted after the check\<close>

text \<open>The IPv4 addresses an element names: those of a network, or the one address.\<close>

definition trusted4 :: "string \<Rightarrow> 32 word set" where
  "trusted4 e = {w. case ip_network e of Some (Network4 v p) \<Rightarrow> in_net4 w (v, p) | _ \<Rightarrow> False}"

lemma card_in_net4: "card {w. in_net4 w (v, p)} \<le> 2 ^ (32 - p)"
proof -
  let ?k = "2 ^ (32 - p) :: nat" and ?q = "v div 2 ^ (32 - p)"
  have "unat ` {w. in_net4 w (v, p)} \<subseteq> {?q * ?k ..< ?q * ?k + ?k}"
  proof
    fix n assume "n \<in> unat ` {w. in_net4 w (v, p)}"
    then have q: "n div ?k = ?q" by (auto simp: in_net4_def)
    have "n = ?q * ?k + n mod ?k" unfolding q [symmetric] by (rule div_mult_mod_eq [symmetric])
    moreover have "n mod ?k < ?k" by simp
    ultimately show "n \<in> {?q * ?k ..< ?q * ?k + ?k}" by (metis atLeastLessThan_iff le_add1 nat_add_left_cancel_less)
  qed
  from card_mono [OF finite_atLeastLessThan this] have "card (unat ` {w. in_net4 w (v, p)}) \<le> ?k"
    by (simp only: card_atLeastLessThan diff_add_inverse)
  moreover have "inj_on unat {w. in_net4 w (v, p)}" by (simp add: inj_on_def unsigned_word_eqI)
  ultimately show ?thesis by (simp add: card_image)
qed

lemma single_network: "CHR ''/'' \<notin> set e \<Longrightarrow> ip_network e = Some n \<Longrightarrow> 32 \<le> prefixlen n"
  by (auto simp: ip_network_def split_on_id strict_network_def Let_def split: option.splits if_splits)

text \<open>C21: What an accepted list of proxies can trust. When the check lets a value pass, no entry is a star and every entry that
  reads as a network, in whatever spelling, has a prefix of at least eight bits; so a value with k entries covers at most
  k times two to the twenty-fourth IPv4 addresses: fewer than 256 entries never cover all of them. When it
  refuses, the exit code is 64 and the entry named is one of the list that is a star or a wider network.\<close>

theorem accepted_proxies_bounded:
  shows "case forwarded_main env of
     (code1, messages) \<Rightarrow>
       (let val = (case env ''KERDOOS_FORWARDED_ALLOW_IPS'' of Some v \<Rightarrow> v | None \<Rightarrow> []); es = elements val
        in if code1 = 0
           then messages = [] \<and> list_all (\<lambda>e. e \<noteq> ''*'' \<and> (case ip_network e of None \<Rightarrow> True | Some n \<Rightarrow> 8 \<le> prefixlen n)) es
              \<and> card (\<Union> (trusted4 ` set es)) \<le> length es * 2 ^ 24
           else code1 = 64 \<and> list_ex (\<lambda>e. e = ''*'' \<or> (\<exists>n. ip_network e = Some n \<and> prefixlen n < 8)) es)"
proof -
  define val where "val = (case env ''KERDOOS_FORWARDED_ALLOW_IPS'' of Some v \<Rightarrow> v | None \<Rightarrow> [])"
  let ?es = "elements val"
  show ?thesis
  proof (cases "offending_element val")
    case (Some e)
    then have e: "e \<in> set ?es" "trusts_too_much e" by (auto simp: offending_element_def find_Some_iff)
    then have "e = ''*'' \<or> (\<exists>n. ip_network e = Some n \<and> prefixlen n < 8)"
      by (auto simp: trusts_too_much_def MIN_PREFIXLEN_def split: option.splits)
    with e(1) Some show ?thesis by (auto simp: forwarded_main_def Let_def val_def [symmetric] list_ex_iff)
  next
    case None
    then have ok: "\<not> trusts_too_much e" if "e \<in> set ?es" for e using that by (auto simp: offending_element_def find_None_iff)
    have each: "e \<noteq> ''*'' \<and> (case ip_network e of None \<Rightarrow> True | Some n \<Rightarrow> 8 \<le> prefixlen n)" if "e \<in> set ?es" for e
      using ok [OF that] single_network [of e] by (fastforce simp: trusts_too_much_def MIN_PREFIXLEN_def split: option.splits)
    have one: "card (trusted4 e) \<le> 2 ^ 24" if "e \<in> set ?es" for e
    proof (cases "\<exists>v p. ip_network e = Some (Network4 v p)")
      case True
      then obtain v p where n: "ip_network e = Some (Network4 v p)" by blast
      then have "8 \<le> p" using each [OF that] by simp
      then have "(2::nat) ^ (32 - p) \<le> 2 ^ 24" by (intro power_increasing) simp_all
      with card_in_net4 [of v p] n show ?thesis by (simp add: trusted4_def)
    next
      case False
      then have "trusted4 e = {}" by (auto simp: trusted4_def split: option.splits network.splits)
      then show ?thesis by simp
    qed
    have "card (\<Union> (trusted4 ` set ?es)) \<le> (\<Sum>e \<in> set ?es. card (trusted4 e))" by (rule card_UN_le) simp
    also have "\<dots> \<le> card (set ?es) * 2 ^ 24" using sum_bounded_above [of "set ?es" "\<lambda>e. card (trusted4 e)" "2 ^ 24"] one by simp
    also have "\<dots> \<le> length ?es * 2 ^ 24" by (simp add: card_length)
    finally have bound: "card (\<Union> (trusted4 ` set ?es)) \<le> length ?es * 2 ^ 24" .
    with None each show ?thesis by (auto simp: forwarded_main_def Let_def val_def [symmetric] list_all_iff)
  qed
qed

text \<open>The spellings the module names: all refused, while the private ranges pass. An entry with host bits set is no network and
  stays a literal.\<close>

lemma spellings_refused:
  "offending_element ''0.0.0.0/00'' = Some ''0.0.0.0/00''"
  "offending_element ''0.0.0.0/0.0.0.0'' = Some ''0.0.0.0/0.0.0.0''"
  "offending_element ''0.0.0.0/255.255.255.255'' = None"
  "offending_element ''10.0.0.1, 0.0.0.0/1,128.0.0.0/1'' = Some ''0.0.0.0/1''"
  "offending_element ''::/0'' = Some ''::/0''" "offending_element '' * '' = Some ''*''"
  "offending_element ''10.0.0.0/8,fd00::/8,192.168.1.1'' = None" "offending_element ''10.0.0.1/1'' = None"
  by code_simp+

end
